(* ===== verification/Prelude.thy ===== *)
theory Prelude
  imports Main
begin

text \<open>
  Shared vocabulary of the development: the string and number operations of the JavaScript
  and Go standard libraries that the code calls, list lemmas, and a generic notion of
  reachability with the locale through which every page proves its invariants.

  Strings are byte strings (UTF-8). Substring search, prefix tests and concatenation agree on
  bytes and on code units; lower-casing is the ASCII part of \<open>toLowerCase\<close>.
  Numbers are \<open>int\<close>: exact for the integers below \<open>2 ^ 53\<close> that a JavaScript number holds.
\<close>

named_theorems page_simps \<open>unfolding rules of the page models\<close>
named_theorems view_simps \<open>evaluation rules for rendered nodes\<close>

section \<open>Characters and strings\<close>

definition in_range :: "char \<Rightarrow> char \<Rightarrow> char \<Rightarrow> bool" where
  "in_range lo hi c \<longleftrightarrow> of_char lo \<le> (of_char c :: nat) \<and> (of_char c :: nat) \<le> of_char hi"

definition to_lower_char :: "char \<Rightarrow> char" where
  "to_lower_char c = (if in_range (CHR ''A'') (CHR ''Z'') c then char_of (of_char c + 32 :: nat) else c)"

definition to_upper_char :: "char \<Rightarrow> char" where
  "to_upper_char c = (if in_range (CHR ''a'') (CHR ''z'') c then char_of (of_char c - 32 :: nat) else c)"

definition to_lower :: "string \<Rightarrow> string" where
  "to_lower s = map to_lower_char s"

definition to_upper :: "string \<Rightarrow> string" where
  "to_upper s = map to_upper_char s"

fun starts_with :: "string \<Rightarrow> string \<Rightarrow> bool" where
  "starts_with s [] = True"
| "starts_with [] (p # ps) = False"
| "starts_with (c # s) (p # ps) = (c = p \<and> starts_with s ps)"

definition ends_with :: "string \<Rightarrow> string \<Rightarrow> bool" where
  "ends_with s suf = starts_with (rev s) (rev suf)"

fun includes_str :: "string \<Rightarrow> string \<Rightarrow> bool" where
  "includes_str [] p = (p = [])"
| "includes_str (c # s) p = (starts_with (c # s) p \<or> includes_str s p)"

fun join :: "string \<Rightarrow> string list \<Rightarrow> string" where
  "join sep [] = []"
| "join sep [x] = x"
| "join sep (x # xs) = x @ sep @ join sep xs"

fun split_on :: "char \<Rightarrow> string \<Rightarrow> string list" where
  "split_on d [] = [[]]"
| "split_on d (c # s) =
     (if c = d then [] # split_on d s
      else (case split_on d s of [] \<Rightarrow> [[c]] | w # ws \<Rightarrow> (c # w) # ws))"

lemma starts_with_iff: "starts_with s p \<longleftrightarrow> (\<exists>t. s = p @ t)"
  by (induction s p rule: starts_with.induct) auto

lemma ends_with_iff: "ends_with s p \<longleftrightarrow> (\<exists>t. s = t @ p)"
  unfolding ends_with_def starts_with_iff
  by (metis rev_append rev_rev_ident)

lemma includes_str_iff: "includes_str s p \<longleftrightarrow> (\<exists>a b. s = a @ p @ b)"
proof (induction s)
  case (Cons c s)
  have "(\<exists>a b. c # s = a @ p @ b) \<longleftrightarrow> (\<exists>b. c # s = p @ b) \<or> (\<exists>a b. s = a @ p @ b)"
  proof
    assume "\<exists>a b. c # s = a @ p @ b"
    then obtain a b where ab: "c # s = a @ p @ b" by blast
    show "(\<exists>b. c # s = p @ b) \<or> (\<exists>a b. s = a @ p @ b)"
    proof (cases a)
      case Nil
      with ab show ?thesis by auto
    next
      case (Cons x a')
      with ab have "s = a' @ p @ b" by simp
      then show ?thesis by blast
    qed
  next
    assume "(\<exists>b. c # s = p @ b) \<or> (\<exists>a b. s = a @ p @ b)"
    then show "\<exists>a b. c # s = a @ p @ b"
      by (metis append_Cons append_Nil)
  qed
  then show ?case by (simp add: Cons.IH starts_with_iff)
qed simp

lemma includes_str_empty [simp]: "includes_str s []"
  by (cases s) simp_all

lemma starts_with_refl [simp]: "starts_with s s"
  by (induction s) auto

lemma starts_with_append [simp]: "starts_with (p @ s) p"
  by (simp add: starts_with_iff)

lemma split_on_nonempty [simp]: "split_on d s \<noteq> []"
  by (induction s) (auto split: list.splits)

lemma split_on_none: "d \<notin> set s \<Longrightarrow> split_on d s = [s]"
  by (induction s) auto

lemma join_split_on: "join [d] (split_on d s) = s"
proof (induction s)
  case (Cons c s)
  obtain w ws where w: "split_on d s = w # ws" by (cases "split_on d s") auto
  with Cons.IH show ?case by (cases ws) auto
qed simp

lemma split_on_inj: "split_on d s = split_on d t \<longleftrightarrow> s = t"
  by (metis join_split_on)

section \<open>Numbers as strings\<close>

fun digit_value :: "char \<Rightarrow> nat option" where
  "digit_value c =
     (if in_range (CHR ''0'') (CHR ''9'') c then Some (of_char c - 48)
      else if in_range (CHR ''a'') (CHR ''f'') c then Some (of_char c - 87)
      else if in_range (CHR ''A'') (CHR ''F'') c then Some (of_char c - 55)
      else None)"

declare digit_value.simps [simp del]

definition radix_digit :: "nat \<Rightarrow> char \<Rightarrow> nat option" where
  "radix_digit r c = (case digit_value c of None \<Rightarrow> None | Some d \<Rightarrow> if d < r then Some d else None)"

text \<open>The digits of a number, as \<open>String(n)\<close> and \<open>fmt.Sprintf("%d", n)\<close> print them.\<close>

fun nat_to_str :: "nat \<Rightarrow> string" where
  "nat_to_str n =
     (if n < 10 then [char_of (48 + n)]
      else nat_to_str (n div 10) @ [char_of (48 + n mod 10)])"

declare nat_to_str.simps [simp del]

definition int_to_str :: "int \<Rightarrow> string" where
  "int_to_str i = (if i < 0 then CHR ''-'' # nat_to_str (nat (- i)) else nat_to_str (nat i))"

text \<open>The longest prefix of digits, read as a number in the given radix: the core of \<open>parseInt\<close>.\<close>

fun read_digits :: "nat \<Rightarrow> nat \<Rightarrow> string \<Rightarrow> nat" where
  "read_digits r acc [] = acc"
| "read_digits r acc (c # s) =
     (case radix_digit r c of None \<Rightarrow> acc | Some d \<Rightarrow> read_digits r (acc * r + d) s)"

definition read_number :: "nat \<Rightarrow> string \<Rightarrow> nat option" where
  "read_number r s =
     (case s of [] \<Rightarrow> None
      | c # _ \<Rightarrow> (case radix_digit r c of None \<Rightarrow> None | Some _ \<Rightarrow> Some (read_digits r 0 s)))"

definition is_space :: "char \<Rightarrow> bool" where
  "is_space c \<longleftrightarrow> c = CHR '' '' \<or> in_range (CHR 0x09) (CHR 0x0D) c"

text \<open>
  JavaScript's \<open>parseInt(s)\<close> without a radix: leading white space is skipped, then an optional
  sign, then \<open>0x\<close> selects radix 16, then the longest digit prefix. \<open>None\<close> is \<open>NaN\<close>.
\<close>

definition parse_unsigned :: "string \<Rightarrow> nat option" where
  "parse_unsigned s =
     (if starts_with s ''0x'' \<or> starts_with s ''0X'' then read_number 16 (drop 2 s)
      else read_number 10 s)"

definition parse_int :: "string \<Rightarrow> int option" where
  "parse_int s =
     (case dropWhile is_space s of
        [] \<Rightarrow> None
      | c # t \<Rightarrow>
          (if c = CHR ''-'' then map_option (\<lambda>n. - int n) (parse_unsigned t)
           else if c = CHR ''+'' then map_option int (parse_unsigned t)
           else map_option int (parse_unsigned (c # t))))"

text \<open>The idiom \<open>parseInt(v) || 0\<close>: \<open>NaN\<close> and \<open>0\<close> are both falsy.\<close>

definition parse_int_or_0 :: "string \<Rightarrow> int" where
  "parse_int_or_0 s = (case parse_int s of None \<Rightarrow> 0 | Some i \<Rightarrow> i)"

subsection \<open>Printing then parsing\<close>

lemma in_range_digit: "d < 10 \<Longrightarrow> in_range (CHR ''0'') (CHR ''9'') (char_of (48 + d :: nat))"
  by (simp add: in_range_def)

lemma radix_digit_dec [simp]: "d < 10 \<Longrightarrow> radix_digit 10 (char_of (48 + d :: nat)) = Some d"
  by (simp add: radix_digit_def digit_value.simps in_range_digit)

lemma nat_to_str_nonempty [simp]: "nat_to_str n \<noteq> []"
  by (subst nat_to_str.simps) simp

definition dec_digit :: "char \<Rightarrow> bool" where
  "dec_digit c \<longleftrightarrow> radix_digit 10 c \<noteq> None"

lemma nat_to_str_digits: "\<forall>c \<in> set (nat_to_str n). \<exists>d < 10. c = char_of (48 + d :: nat)"
proof (induction n rule: nat_to_str.induct)
  case (1 n)
  show ?case
  proof (cases "n < 10")
    case False
    have "\<exists>d < 10. char_of (48 + n mod 10) = (char_of (48 + d :: nat) :: char)"
      by (intro exI [of _ "n mod 10"]) simp
    with False 1 show ?thesis by (subst nat_to_str.simps) auto
  qed (subst nat_to_str.simps, auto)
qed

text \<open>Reading the printed digits folds them back, whatever was read before them.\<close>

lemma read_digits_append:
  "\<forall>c \<in> set s. radix_digit r c \<noteq> None \<Longrightarrow> read_digits r acc (s @ t) = read_digits r (read_digits r acc s) t"
  by (induction s arbitrary: acc) (auto split: option.splits)

lemma read_digits_nat_to_str:
  "read_digits 10 0 (nat_to_str n) = n"
proof (induction n rule: nat_to_str.induct)
  case (1 n)
  show ?case
  proof (cases "n < 10")
    case True
    then show ?thesis by (subst nat_to_str.simps) simp
  next
    case False
    have "\<forall>c \<in> set (nat_to_str (n div 10)). radix_digit 10 c \<noteq> None"
      using nat_to_str_digits [of "n div 10"] by fastforce
    with False 1 show ?thesis
      by (subst nat_to_str.simps) (simp add: read_digits_append)
  qed
qed

lemma nat_to_str_hd:
  obtains d s where "d < (10::nat)" "nat_to_str n = char_of (48 + d) # s"
  using nat_to_str_digits [of n] by (cases "nat_to_str n") auto

lemma read_number_nat_to_str [simp]: "read_number 10 (nat_to_str n) = Some n"
proof -
  obtain d s where "d < (10::nat)" "nat_to_str n = char_of (48 + d) # s"
    by (rule nat_to_str_hd)
  then show ?thesis
    using read_digits_nat_to_str [of n] by (simp add: read_number_def)
qed

text \<open>A printed number never looks like a hexadecimal literal: its second character is a digit.\<close>

lemma digit_not_letter: "d < 10 \<Longrightarrow> char_of (48 + d :: nat) \<notin> {CHR ''x'', CHR ''X'', CHR ''-'', CHR ''+''}"
  by (auto dest!: arg_cong [where f = "of_char :: char \<Rightarrow> nat"])

lemma parse_unsigned_nat_to_str [simp]: "parse_unsigned (nat_to_str n) = Some n"
proof -
  have "\<not> starts_with (nat_to_str n) (CHR ''0'' # x # [])" if "x \<in> {CHR ''x'', CHR ''X''}" for x
  proof
    assume "starts_with (nat_to_str n) (CHR ''0'' # x # [])"
    then obtain t where "nat_to_str n = CHR ''0'' # x # t"
      by (auto simp: starts_with_iff)
    then have "x \<in> set (nat_to_str n)" by simp
    then obtain d where "d < (10::nat)" "x = char_of (48 + d)"
      using nat_to_str_digits [of n] by blast
    with that digit_not_letter [of d] show False by auto
  qed
  then show ?thesis by (simp add: parse_unsigned_def)
qed

lemma digit_not_space: "d < 10 \<Longrightarrow> \<not> is_space (char_of (48 + d :: nat))"
  by (auto simp: is_space_def in_range_def dest!: arg_cong [where f = "of_char :: char \<Rightarrow> nat"])

text \<open>Printing a number and parsing the text again gives the number back.\<close>

lemma parse_int_to_str [simp]: "parse_int (int_to_str i) = Some i"
proof -
  obtain d s where hd: "d < (10::nat)" "nat_to_str (nat i) = char_of (48 + d) # s"
    by (rule nat_to_str_hd)
  with digit_not_letter [of d] digit_not_space [of d]
  have "0 \<le> i \<Longrightarrow> parse_int (nat_to_str (nat i)) = Some i"
    using parse_unsigned_nat_to_str [of "nat i"] by (simp add: parse_int_def)
  moreover have "i < 0 \<Longrightarrow> parse_int (CHR ''-'' # nat_to_str (nat (- i))) = Some i"
    by (simp add: parse_int_def is_space_def in_range_def)
  ultimately show ?thesis by (simp add: int_to_str_def)
qed

section \<open>Lists\<close>

text \<open>\<open>xs.slice(-n)\<close> for a positive \<open>n\<close>: the last \<open>n\<close> elements.\<close>

definition take_last :: "nat \<Rightarrow> 'a list \<Rightarrow> 'a list" where
  "take_last n xs = drop (length xs - n) xs"

lemma length_take_last [simp]: "length (take_last n xs) = min n (length xs)"
  by (simp add: take_last_def)

lemma set_take_last: "set (take_last n xs) \<subseteq> set xs"
  by (simp add: take_last_def set_drop_subset)

lemma take_last_all [simp]: "length xs \<le> n \<Longrightarrow> take_last n xs = xs"
  by (simp add: take_last_def)

lemma take_last_append_take_last: "take_last n (take_last n xs @ ys) = take_last n (xs @ ys)"
  by (cases "n \<le> length xs") (auto simp: take_last_def intro!: arg_cong2 [where f = drop])

text \<open>\<open>xs.find(p)\<close>: the first element that satisfies \<open>p\<close>, \<open>None\<close> for \<open>undefined\<close>, is \<open>List.find\<close>.\<close>

lemma find_SomeD: "List.find P xs = Some x \<Longrightarrow> x \<in> set xs \<and> P x"
  by (auto simp: find_Some_iff)

text \<open>
  The selection toggle of the extension pickers:
  \<open>prev.includes(n) ? prev.filter(e => e !== n) : [...prev, n]\<close>.
\<close>

definition toggle :: "'a \<Rightarrow> 'a list \<Rightarrow> 'a list" where
  "toggle x xs = (if x \<in> set xs then filter (\<lambda>y. y \<noteq> x) xs else xs @ [x])"

lemma set_toggle: "set (toggle x xs) = (if x \<in> set xs then set xs - {x} else insert x (set xs))"
  by (auto simp: toggle_def)

lemma distinct_toggle [intro]: "distinct xs \<Longrightarrow> distinct (toggle x xs)"
  by (simp add: toggle_def)

lemma toggle_mem: "x \<in> set (toggle y xs) \<longleftrightarrow> (if x = y then x \<notin> set xs else x \<in> set xs)"
  by (auto simp: set_toggle)

lemma toggle_subset: "x \<in> A \<Longrightarrow> set xs \<subseteq> A \<Longrightarrow> set (toggle x xs) \<subseteq> A"
  by (auto simp: set_toggle)

section \<open>Reachable states\<close>

text \<open>
  Every stateful part is a set of initial states and a step relation; what the user, the
  browser and the network can bring about are the states reachable from there.
\<close>

inductive reachable :: "('s \<Rightarrow> bool) \<Rightarrow> ('s \<Rightarrow> 's \<Rightarrow> bool) \<Rightarrow> 's \<Rightarrow> bool"
  for init :: "'s \<Rightarrow> bool" and step :: "'s \<Rightarrow> 's \<Rightarrow> bool"
where
  reachable_init: "init s \<Longrightarrow> reachable init step s"
| reachable_step: "reachable init step s \<Longrightarrow> step s t \<Longrightarrow> reachable init step t"

lemma reachable_mono:
  "reachable init step s \<Longrightarrow> (\<And>s t. step s t \<Longrightarrow> step' s t) \<Longrightarrow> reachable init step' s"
  by (induction rule: reachable.induct) (auto intro: reachable.intros)

text \<open>The contract of an inductive invariant of a machine.\<close>

locale invariant_machine =
  fixes init :: "'s \<Rightarrow> bool"
    and step :: "'s \<Rightarrow> 's \<Rightarrow> bool"
    and inv :: "'s \<Rightarrow> bool"
  assumes inv_init: "init s \<Longrightarrow> inv s"
    and inv_step: "reachable init step s \<Longrightarrow> step s t \<Longrightarrow> inv s \<Longrightarrow> inv t"
begin

lemma reachable_inv: "reachable init step s \<Longrightarrow> inv s"
  by (induction rule: reachable.induct) (auto intro: inv_init inv_step)

end

text \<open>
  The contract of a handler whose button is disabled while its request is outstanding: a step
  leaves flag and outstanding requests alone, launches one request from the idle state, or
  settles one and goes idle. Pages that keep it have at most one request outstanding.
\<close>

locale single_flight =
  fixes init :: "'s \<Rightarrow> bool"
    and step :: "'s \<Rightarrow> 's \<Rightarrow> bool"
    and busy :: "'s \<Rightarrow> bool"
    and pending :: "'s \<Rightarrow> 'c list"
  assumes idle_init: "init s \<Longrightarrow> \<not> busy s \<and> pending s = []"
    and step_kinds: "step s t \<Longrightarrow>
      busy t = busy s \<and> pending t = pending s
      \<or> \<not> busy s \<and> busy t \<and> (\<exists>c. pending t = pending s @ [c])
      \<or> (\<exists>xs c ys. pending s = xs @ c # ys \<and> pending t = xs @ ys) \<and> \<not> busy t"
begin

lemma flight_step:
  assumes "step s t" and "length (pending s) = (if busy s then 1 else 0)"
  shows "length (pending t) = (if busy t then 1 else 0)"
  using step_kinds [OF assms(1)] assms(2) by (auto split: if_splits)

lemma one_outstanding:
  "reachable init step s \<Longrightarrow> length (pending s) = (if busy s then 1 else 0)"
proof (induction rule: reachable.induct)
  case (reachable_init s)
  then show ?case using idle_init by simp
next
  case (reachable_step s t)
  then show ?case by (blast intro: flight_step)
qed

end

text \<open>
  A single-flight handler that shows the answer to its request: the last question asked is kept on
  the wire, a launch asks it, and settling shows an answer to the settled question or nothing. When
  such a page is idle, what it shows answers the last question that was asked.
\<close>

locale tracer = single_flight init step busy pending
  for init :: "'s \<Rightarrow> bool"
    and step :: "'s \<Rightarrow> 's \<Rightarrow> bool"
    and busy :: "'s \<Rightarrow> bool"
    and pending :: "'s \<Rightarrow> 'c list" +
  fixes shown :: "'s \<Rightarrow> 'r option"
    and asked :: "'s \<Rightarrow> 'c option"
    and answers :: "'c \<Rightarrow> 'r \<Rightarrow> bool"
  assumes nothing_shown: "init s \<Longrightarrow> shown s = None"
    and trace_kinds: "step s t \<Longrightarrow>
      busy t = busy s \<and> pending t = pending s \<and> shown t = shown s \<and> asked t = asked s
      \<or> \<not> busy s \<and> busy t \<and> (\<exists>c. pending t = pending s @ [c] \<and> asked t = Some c)
      \<or> (\<exists>xs c ys. pending s = xs @ c # ys \<and> pending t = xs @ ys \<and> asked t = asked s
           \<and> \<not> busy t \<and> (\<forall>r. shown t = Some r \<longrightarrow> answers c r))"
begin

lemma answered_inv:
  "reachable init step s \<Longrightarrow>
     (\<forall>c \<in> set (pending s). asked s = Some c) \<and>
     (\<not> busy s \<longrightarrow> (\<forall>r. shown s = Some r \<longrightarrow> (\<exists>c. asked s = Some c \<and> answers c r)))"
proof (induction rule: reachable.induct)
  case (reachable_init s)
  then show ?case using idle_init nothing_shown by simp
next
  case (reachable_step s t)
  have one: "length (pending s) = (if busy s then 1 else 0)" by (rule one_outstanding [OF reachable_step(1)])
  from trace_kinds [OF reachable_step(2)] show ?case
  proof (elim disjE conjE exE)
    assume "busy t = busy s" "pending t = pending s" "shown t = shown s" "asked t = asked s"
    with reachable_step.IH show ?thesis by simp
  next
    fix c assume "\<not> busy s" "busy t" "pending t = pending s @ [c]" "asked t = Some c"
    with one show ?thesis by simp
  next
    fix xs c ys
    assume h: "pending s = xs @ c # ys" "pending t = xs @ ys" "asked t = asked s" "\<not> busy t"
      "\<forall>r. shown t = Some r \<longrightarrow> answers c r"
    with one have "xs = []" "ys = []" by (auto split: if_splits)
    with h reachable_step.IH show ?thesis by auto
  qed
qed

lemma idle_shows_answer:
  "reachable init step s \<Longrightarrow> \<not> busy s \<Longrightarrow> shown s = Some r \<Longrightarrow> \<exists>c. asked s = Some c \<and> answers c r"
  using answered_inv by blast

end

end
