(* ===== verification/UseApi.thy ===== *)
theory UseApi
  imports Prelude
begin

text \<open>
  \<open>dashboard/src/hooks/useApi.ts\<close>: the data-fetching hook behind every page and the timer hook.

  \<open>use_api\<close> is the state of one mounted use of \<open>useApi\<close>: the three React states, the
  \<open>mountedRef\<close>, and the fetches that have been started and not settled, by issue number. The
  responses of overlapping fetches may arrive in any order.

  \<open>interval\<close> is the state of one use of \<open>useInterval\<close>: the saved function, the dependency of the
  second effect, the browser's live timers and the timer the effect's cleanup will clear.
\<close>

section \<open>Rejected promises\<close>

text \<open>The value a promise rejects with: an \<open>Error\<close> with its message, or anything else.\<close>

datatype js_exn = JsError string | JsOther

text \<open>\<open>e instanceof Error ? e.message : fallback\<close>.\<close>

primrec exn_message :: "string \<Rightarrow> js_exn \<Rightarrow> string" where
  "exn_message fallback (JsError m) = m"
| "exn_message fallback JsOther = fallback"

section \<open>useApi\<close>

record 'a use_api =
  ua_data :: "'a option"
  ua_loading :: bool
  ua_error :: "string option"
  ua_mounted :: bool
  ua_inflight :: "nat list"
  ua_issued :: nat

definition ua_init :: "'a use_api" where
  "ua_init = \<lparr>ua_data = None, ua_loading = True, ua_error = None, ua_mounted = True,
              ua_inflight = [], ua_issued = 0\<rparr>"

text \<open>\<open>load\<close>, up to the \<open>await\<close>: it does not look at \<open>mountedRef\<close> before it sets the states.\<close>

definition ua_load :: "'a use_api \<Rightarrow> 'a use_api" where
  "ua_load s = s\<lparr>ua_loading := True, ua_error := None,
                 ua_inflight := ua_inflight s @ [ua_issued s], ua_issued := Suc (ua_issued s)\<rparr>"

text \<open>The rest of \<open>load\<close> when the fetch number \<open>i\<close> resolves, and when it rejects.\<close>

definition ua_resolve :: "nat \<Rightarrow> 'a \<Rightarrow> 'a use_api \<Rightarrow> 'a use_api" where
  "ua_resolve i r s =
     (let s' = s\<lparr>ua_inflight := remove1 i (ua_inflight s)\<rparr>
      in if ua_mounted s' then s'\<lparr>ua_data := Some r, ua_loading := False\<rparr> else s')"

definition ua_reject :: "nat \<Rightarrow> js_exn \<Rightarrow> 'a use_api \<Rightarrow> 'a use_api" where
  "ua_reject i e s =
     (let s' = s\<lparr>ua_inflight := remove1 i (ua_inflight s)\<rparr>
      in if ua_mounted s' then s'\<lparr>ua_error := Some (exn_message ''Unknown error'' e), ua_loading := False\<rparr>
         else s')"

text \<open>The effect and its cleanup.\<close>

definition ua_mount :: "'a use_api \<Rightarrow> 'a use_api" where
  "ua_mount s = ua_load (s\<lparr>ua_mounted := True\<rparr>)"

definition ua_unmount :: "'a use_api \<Rightarrow> 'a use_api" where
  "ua_unmount s = s\<lparr>ua_mounted := False\<rparr>"

definition ua_start :: "'a use_api" where
  "ua_start = ua_mount ua_init"

lemmas ua_defs [page_simps] =
  ua_init_def ua_load_def ua_resolve_def ua_reject_def ua_mount_def ua_unmount_def ua_start_def Let_def

lemma ua_ops [simp]:
  "ua_issued (ua_load a) = Suc (ua_issued a)"
  "ua_issued (ua_resolve i r a) = ua_issued a"
  "ua_issued (ua_reject i e a) = ua_issued a"
  "ua_mounted (ua_load a) = ua_mounted a"
  "ua_mounted (ua_resolve i r a) = ua_mounted a"
  "ua_mounted (ua_reject i e a) = ua_mounted a"
  "ua_data (ua_load a) = ua_data a"
  "ua_data (ua_reject i e a) = ua_data a"
  by (simp_all add: ua_defs)

datatype 'a ua_event = UaMount | UaUnmount | UaRefetch | UaResolve nat 'a | UaReject nat js_exn

inductive ua_step :: "'a use_api \<Rightarrow> 'a ua_event \<Rightarrow> 'a use_api \<Rightarrow> bool" where
  step_mount: "\<not> ua_mounted s \<Longrightarrow> ua_step s UaMount (ua_mount s)"
| step_unmount: "ua_mounted s \<Longrightarrow> ua_step s UaUnmount (ua_unmount s)"
| step_refetch: "ua_mounted s \<Longrightarrow> ua_step s UaRefetch (ua_load s)"
| step_resolve: "i \<in> set (ua_inflight s) \<Longrightarrow> ua_step s (UaResolve i r) (ua_resolve i r s)"
| step_reject: "i \<in> set (ua_inflight s) \<Longrightarrow> ua_step s (UaReject i e) (ua_reject i e s)"

inductive_cases ua_stepE: "ua_step s e t"
inductive_simps ua_step_resolve_iff: "ua_step s (UaResolve i r) t"

definition ua_is_start :: "'a use_api \<Rightarrow> bool" where
  "ua_is_start s \<longleftrightarrow> s = ua_start"

definition ua_next :: "'a use_api \<Rightarrow> 'a use_api \<Rightarrow> bool" where
  "ua_next s t \<longleftrightarrow> (\<exists>e. ua_step s e t)"

text \<open>
  Issue numbers are never reused and the spinner is never stuck: while the component is mounted
  and shows the loading state, some fetch is still to settle.
\<close>

definition ua_inv :: "'a use_api \<Rightarrow> bool" where
  "ua_inv s \<longleftrightarrow> distinct (ua_inflight s) \<and> (\<forall>i \<in> set (ua_inflight s). i < ua_issued s) \<and>
     (ua_mounted s \<longrightarrow> ua_loading s \<longrightarrow> ua_inflight s \<noteq> [])"

lemma ua_inv_step: "ua_step s e t \<Longrightarrow> ua_inv s \<Longrightarrow> ua_inv t"
  by (cases rule: ua_step.cases)
    (fastforce simp: ua_inv_def ua_defs less_Suc_eq dest: set_remove1_subset [THEN subsetD])+

lemma ua_inv_start: "ua_inv ua_start"
  by (simp add: ua_inv_def ua_defs)

lemma ua_inv_ops:
  "ua_inv a \<Longrightarrow> ua_mounted a \<Longrightarrow> ua_inv (ua_load a)"
  "ua_inv a \<Longrightarrow> i \<in> set (ua_inflight a) \<Longrightarrow> ua_inv (ua_resolve i r a)"
  "ua_inv a \<Longrightarrow> i \<in> set (ua_inflight a) \<Longrightarrow> ua_inv (ua_reject i e a)"
  by (blast intro: ua_inv_step ua_step.intros)+

interpretation ua: invariant_machine ua_is_start ua_next ua_inv
proof unfold_locales
  show "ua_inv s" if "ua_is_start s" for s :: "'a use_api"
    using that by (simp add: ua_is_start_def ua_inv_start)
  show "ua_inv t" if "ua_next s t" and "ua_inv s" for s t :: "'a use_api"
    using that by (auto simp: ua_next_def intro: ua_inv_step)
qed

section \<open>The contract the pages rely on\<close>

text \<open>
  What a page may assume of the hook: a started or a failed fetch leaves the data as it is, a
  resolved one replaces it, and both ends leave the loading state. A page only ever applies these
  operations to the hook.
\<close>

datatype ('a, 'e) hook_op = HLoad | HResolve nat 'a | HReject nat 'e

fun hook_apply ::
  "('s \<Rightarrow> 's) \<Rightarrow> (nat \<Rightarrow> 'a \<Rightarrow> 's \<Rightarrow> 's) \<Rightarrow> (nat \<Rightarrow> 'e \<Rightarrow> 's \<Rightarrow> 's) \<Rightarrow> ('a, 'e) hook_op \<Rightarrow> 's \<Rightarrow> 's" where
  "hook_apply load resolve reject HLoad s = load s"
| "hook_apply load resolve reject (HResolve i r) s = resolve i r s"
| "hook_apply load resolve reject (HReject i e) s = reject i e s"

text \<open>The response that arrived last, \<open>d\<close> if none did.\<close>

fun last_resolved :: "'a option \<Rightarrow> ('a, 'e) hook_op list \<Rightarrow> 'a option" where
  "last_resolved d [] = d"
| "last_resolved d (HLoad # ops) = last_resolved d ops"
| "last_resolved d (HResolve i r # ops) = last_resolved (Some r) ops"
| "last_resolved d (HReject i e # ops) = last_resolved d ops"

locale resource_hook =
  fixes shown :: "'s \<Rightarrow> 'a option"
    and loading :: "'s \<Rightarrow> bool"
    and live :: "'s \<Rightarrow> bool"
    and load :: "'s \<Rightarrow> 's"
    and resolve :: "nat \<Rightarrow> 'a \<Rightarrow> 's \<Rightarrow> 's"
    and reject :: "nat \<Rightarrow> 'e \<Rightarrow> 's \<Rightarrow> 's"
  assumes shown_load: "shown (load s) = shown s"
    and shown_reject: "shown (reject i e s) = shown s"
    and shown_resolve: "live s \<Longrightarrow> shown (resolve i r s) = Some r"
    and loading_load: "loading (load s)"
    and settled_resolve: "live s \<Longrightarrow> \<not> loading (resolve i r s)"
    and settled_reject: "live s \<Longrightarrow> \<not> loading (reject i e s)"
    and live_load: "live (load s) = live s"
    and live_resolve: "live (resolve i r s) = live s"
    and live_reject: "live (reject i e s) = live s"
begin

text \<open>Whatever is interleaved, the page shows the response that arrived last.\<close>

lemma shown_fold: "live s \<Longrightarrow> shown (fold (hook_apply load resolve reject) ops s) = last_resolved (shown s) ops"
proof (induction ops arbitrary: s)
  case (Cons x ops)
  then show ?case
    by (cases x) (simp_all add: shown_load shown_reject shown_resolve live_load live_resolve live_reject)
qed simp

lemma shown_kept:
  "live s \<Longrightarrow> shown s \<noteq> None \<Longrightarrow> shown (fold (hook_apply load resolve reject) ops s) \<noteq> None"
proof (induction ops arbitrary: s)
  case (Cons x ops)
  then show ?case
    by (cases x) (simp_all add: shown_load shown_reject shown_resolve live_load live_resolve live_reject)
qed simp

text \<open>Failures alone never change what is shown.\<close>

lemma shown_failures:
  "\<forall>x \<in> set ops. \<forall>i r. x \<noteq> HResolve i r \<Longrightarrow> shown (fold (hook_apply load resolve reject) ops s) = shown s"
proof (induction ops arbitrary: s)
  case (Cons x ops)
  then show ?case by (cases x) (simp_all add: shown_load shown_reject)
qed simp

end

interpretation hook: resource_hook ua_data ua_loading ua_mounted ua_load ua_resolve ua_reject
  by unfold_locales (simp_all add: ua_defs)

section \<open>useInterval\<close>

record 'f interval =
  iv_saved :: 'f
  iv_ms :: "nat option"
  iv_timers :: "(nat \<times> nat) list"
  iv_mine :: "nat option"
  iv_next :: nat

text \<open>The second effect: no timer for \<open>null\<close>, otherwise \<open>setInterval\<close> returns a fresh id.\<close>

definition iv_effect :: "nat option \<Rightarrow> 'f interval \<Rightarrow> 'f interval" where
  "iv_effect ms s =
     (case ms of
        None \<Rightarrow> s\<lparr>iv_ms := None, iv_mine := None\<rparr>
      | Some p \<Rightarrow> s\<lparr>iv_ms := Some p, iv_timers := iv_timers s @ [(iv_next s, p)],
                     iv_mine := Some (iv_next s), iv_next := Suc (iv_next s)\<rparr>)"

definition iv_cleanup :: "'f interval \<Rightarrow> 'f interval" where
  "iv_cleanup s =
     (case iv_mine s of
        None \<Rightarrow> s
      | Some i \<Rightarrow> s\<lparr>iv_timers := filter (\<lambda>t. fst t \<noteq> i) (iv_timers s), iv_mine := None\<rparr>)"

definition iv_mount :: "'f \<Rightarrow> nat option \<Rightarrow> 'f interval" where
  "iv_mount f ms =
     iv_effect ms \<lparr>iv_saved = f, iv_ms = ms, iv_timers = [], iv_mine = None, iv_next = 0\<rparr>"

text \<open>A later render: the function is saved again; the timer is only replaced when \<open>ms\<close> changed.\<close>

definition iv_render :: "'f \<Rightarrow> nat option \<Rightarrow> 'f interval \<Rightarrow> 'f interval" where
  "iv_render f ms s =
     (let s' = s\<lparr>iv_saved := f\<rparr>
      in if ms = iv_ms s' then s' else iv_effect ms (iv_cleanup s'))"

definition iv_unmount :: "'f interval \<Rightarrow> 'f interval" where
  "iv_unmount s = iv_cleanup s"

text \<open>The calls one round of the live timers makes.\<close>

definition iv_fire :: "'f interval \<Rightarrow> 'f list" where
  "iv_fire s = map (\<lambda>_. iv_saved s) (iv_timers s)"

fun iv_renders :: "('f \<times> nat option) list \<Rightarrow> 'f interval \<Rightarrow> 'f interval" where
  "iv_renders [] s = s"
| "iv_renders ((f, ms) # rs) s = iv_renders rs (iv_render f ms s)"

definition iv_ok :: "'f interval \<Rightarrow> bool" where
  "iv_ok s \<longleftrightarrow>
     (case iv_ms s of
        None \<Rightarrow> iv_timers s = [] \<and> iv_mine s = None
      | Some p \<Rightarrow> (\<exists>i. iv_timers s = [(i, p)] \<and> iv_mine s = Some i))"

lemmas iv_defs = iv_effect_def iv_cleanup_def iv_mount_def iv_render_def iv_unmount_def Let_def

lemma iv_ok_mount: "iv_ok (iv_mount f ms)"
  by (auto simp: iv_ok_def iv_defs split: option.splits)

lemma iv_ok_render: "iv_ok s \<Longrightarrow> iv_ok (iv_render f ms s)"
  by (cases "iv_ms s") (auto simp: iv_ok_def iv_defs split: option.splits)

lemma iv_render_saved [simp]: "iv_saved (iv_render f ms s) = f"
  by (auto simp: iv_defs split: option.splits)

lemma iv_render_ms [simp]: "iv_ms (iv_render f ms s) = ms"
  by (auto simp: iv_defs split: option.splits)

lemma iv_renders_ok: "iv_ok s \<Longrightarrow> iv_ok (iv_renders rs s)"
  by (induction rs s rule: iv_renders.induct) (simp_all add: iv_ok_render)

lemma iv_renders_append: "iv_renders (rs @ rs') s = iv_renders rs' (iv_renders rs s)"
  by (induction rs s rule: iv_renders.induct) simp_all

lemma iv_fire_ok: "iv_ok s \<Longrightarrow> iv_fire s = (if iv_ms s = None then [] else [iv_saved s])"
  by (auto simp: iv_ok_def iv_fire_def split: option.splits)

lemma iv_unmount_ok: "iv_ok s \<Longrightarrow> iv_timers (iv_unmount s) = []"
  by (auto simp: iv_ok_def iv_defs split: option.splits)

section \<open>Properties\<close>

text \<open>In every run of the hook, with mounts, unmounts, refetches and responses in any order, a mounted
  component that shows its loading state has a fetch under way, and no two outstanding fetches share a
  number: the spinner is never stuck.\<close>

theorem loading_has_outstanding_fetch:
  assumes "reachable ua_is_start ua_next s" and "ua_mounted s" and "ua_loading s"
  shows "ua_inflight s \<noteq> [] \<and> distinct (ua_inflight s) \<and> (\<forall>i \<in> set (ua_inflight s). i < ua_issued s)"
  using ua.reachable_inv [OF assms(1)] assms(2,3) by (simp add: ua_inv_def)

text \<open>While the component is mounted, whatever order fetches start and end in, the data shown is the
  response that arrived last, and failures leave it as it is.\<close>

theorem hook_shows_last_arrived:
  assumes "ua_mounted s"
  shows "ua_data (fold (hook_apply ua_load ua_resolve ua_reject) ops s) = last_resolved (ua_data s) ops"
  using assms by (rule hook.shown_fold)

text \<open>Responses are not matched with the fetch they answer: in a reachable run, the response to an
  older fetch that arrives after the response to a newer one replaces it, and the page stays on the
  older data with nothing left to fetch.\<close>

theorem stale_response_overwrites:
  "reachable ua_is_start ua_next (ua_resolve 0 old (ua_resolve 1 new (ua_load ua_start))) \<and>
   ua_data (ua_resolve 1 new (ua_load ua_start)) = Some new \<and>
   ua_data (ua_resolve 0 old (ua_resolve 1 new (ua_load ua_start))) = Some old \<and>
   ua_inflight (ua_resolve 0 old (ua_resolve 1 new (ua_load ua_start))) = []"
proof -
  let ?a = "ua_load ua_start" and ?b = "ua_resolve 1 new (ua_load ua_start)"
  have step: "ua_next ua_start ?a" "ua_next ?a ?b" "ua_next ?b (ua_resolve 0 old ?b)"
    unfolding ua_next_def
    by (rule exI, rule step_refetch, simp add: ua_defs)
      (rule exI, rule step_resolve, simp add: ua_defs)+
  have "reachable ua_is_start ua_next ua_start"
    by (rule reachable_init) (simp add: ua_is_start_def)
  then have "reachable ua_is_start ua_next (ua_resolve 0 old ?b)"
    using step by (blast intro: reachable_step)
  then show ?thesis by (simp add: ua_defs)
qed

fun last_render :: "'f \<Rightarrow> nat option \<Rightarrow> ('f \<times> nat option) list \<Rightarrow> 'f \<times> nat option" where
  "last_render f ms [] = (f, ms)"
| "last_render f ms ((g, p) # rs) = last_render g p rs"

lemma iv_renders_last:
  "iv_saved (iv_renders rs s) = fst (last_render (iv_saved s) (iv_ms s) rs) \<and>
   iv_ms (iv_renders rs s) = snd (last_render (iv_saved s) (iv_ms s) rs)"
  by (induction rs s rule: iv_renders.induct) simp_all

text \<open>After any sequence of renders with any periods, the timer hook has exactly the timer of the last
  period, none when the last period is null; a firing timer calls the function of the last render, once;
  and after the component is unmounted no timer is left.\<close>

theorem interval_runs_latest_once:
  "map snd (iv_timers (iv_renders rs (iv_mount f ms)))
     = (case snd (last_render f ms rs) of None \<Rightarrow> [] | Some p \<Rightarrow> [p]) \<and>
   iv_fire (iv_renders rs (iv_mount f ms))
     = (case snd (last_render f ms rs) of None \<Rightarrow> [] | Some p \<Rightarrow> [fst (last_render f ms rs)]) \<and>
   iv_timers (iv_unmount (iv_renders rs (iv_mount f ms))) = []"
proof -
  let ?s = "iv_renders rs (iv_mount f ms)"
  have mount: "iv_saved (iv_mount f ms) = f" "iv_ms (iv_mount f ms) = ms"
    by (simp_all add: iv_defs split: option.splits)
  have ok: "iv_ok ?s" by (rule iv_renders_ok [OF iv_ok_mount])
  have last: "iv_saved ?s = fst (last_render f ms rs)" "iv_ms ?s = snd (last_render f ms rs)"
    using iv_renders_last [of rs "iv_mount f ms"] by (simp_all add: mount)
  have "map snd (iv_timers ?s) = (case iv_ms ?s of None \<Rightarrow> [] | Some p \<Rightarrow> [p])"
    using ok by (auto simp: iv_ok_def split: option.splits)
  with last iv_fire_ok [OF ok] iv_unmount_ok [OF ok] show ?thesis by (auto split: option.splits)
qed

theorem loading_has_outstanding_fetch_witness:
  "ua_loading (ua_start :: nat use_api) \<and> ua_inflight (ua_start :: nat use_api) \<noteq> []"
proof -
  have "reachable ua_is_start ua_next (ua_start :: nat use_api)"
    by (rule reachable_init) (simp add: ua_is_start_def)
  from loading_has_outstanding_fetch [OF this] show ?thesis by (simp add: ua_defs)
qed

theorem hook_shows_last_arrived_witness:
  "ua_data (fold (hook_apply ua_load ua_resolve ua_reject)
     [HLoad, HResolve 0 (7 :: nat), HLoad, HReject 1 (JsError ''down'')] ua_start) = Some 7"
proof -
  have "ua_mounted (ua_start :: nat use_api)" by (simp add: ua_defs)
  then show ?thesis by (rule trans [OF hook_shows_last_arrived]) simp
qed

end
