(* ===== verification/Types.thy ===== *)
theory Types
  imports Prelude
begin

text \<open>
  \<open>dashboard/src/types/index.ts\<close>: the data the dashboard exchanges with the gateway, one record
  per interface, and JSON values.

  An optional member (\<open>x?: t\<close>) is an \<open>option\<close>, \<open>None\<close> when the member is absent or
  \<open>undefined\<close>. The values come from \<open>res.json()\<close>, unchecked: where a page spreads an object
  (\<open>{ ...site, status }\<close>) it also copies the members the interface does not declare, so a
  \<open>site\<close> carries those as \<open>s_rest\<close>.
\<close>

section \<open>JSON values\<close>

datatype json =
    JNull
  | JBool bool
  | JNum int
  | JStr string
  | JArr "json list"
  | JObj "(string \<times> json) list"

text \<open>Reading a member: a later duplicate wins, as in \<open>JSON.parse\<close>.\<close>

definition member_of :: "string \<Rightarrow> (string \<times> json) list \<Rightarrow> json option" where
  "member_of k ms = map_of (rev ms) k"

text \<open>\<open>JSON.stringify\<close> leaves out the members that are \<open>undefined\<close>.\<close>

definition opt_member :: "string \<Rightarrow> json option \<Rightarrow> (string \<times> json) list" where
  "opt_member k v = (case v of None \<Rightarrow> [] | Some j \<Rightarrow> [(k, j)])"

definition jstrs :: "string list \<Rightarrow> json" where
  "jstrs xs = JArr (map JStr xs)"

text \<open>Whether a value counts as true in \<open>a || b\<close> and in conditions.\<close>

fun truthy :: "json \<Rightarrow> bool" where
  "truthy JNull = False"
| "truthy (JBool b) = b"
| "truthy (JNum n) = (n \<noteq> 0)"
| "truthy (JStr s) = (s \<noteq> [])"
| "truthy (JArr xs) = True"
| "truthy (JObj ms) = True"

text \<open>\<open>String(v)\<close>.\<close>

fun js_string :: "json \<Rightarrow> string" where
  "js_string JNull = ''null''"
| "js_string (JBool b) = (if b then ''true'' else ''false'')"
| "js_string (JNum n) = int_to_str n"
| "js_string (JStr s) = s"
| "js_string (JArr xs) = join '','' (map (\<lambda>x. if x = JNull then [] else js_string x) xs)"
| "js_string (JObj ms) = ''[object Object]''"

text \<open>
  A value whose members are read: \<open>null\<close> throws (\<open>None\<close>), a primitive has none of the members the
  pages read, and neither has an array.
\<close>

definition members_of :: "json \<Rightarrow> (string \<times> json) list option" where
  "members_of j = (case j of JNull \<Rightarrow> None | JObj ms \<Rightarrow> Some ms | _ \<Rightarrow> Some [])"

lemma members_of_JObj [simp]: "members_of (JObj ms) = Some ms"
  by (simp add: members_of_def)

text \<open>A JSON value as a child of an element: an object throws, \<open>null\<close> and booleans render nothing.\<close>

fun child_text :: "json \<Rightarrow> string option" where
  "child_text JNull = Some ''''"
| "child_text (JBool b) = Some ''''"
| "child_text (JNum n) = Some (int_to_str n)"
| "child_text (JStr s) = Some s"
| "child_text (JArr xs) = map_option concat (those (map child_text xs))"
| "child_text (JObj ms) = None"

text \<open>\<open>ms.k1 || ms.k2 || d\<close>.\<close>

fun first_truthy :: "string list \<Rightarrow> (string \<times> json) list \<Rightarrow> json \<Rightarrow> json" where
  "first_truthy [] ms d = d"
| "first_truthy (k # ks) ms d =
     (case member_of k ms of
        None \<Rightarrow> first_truthy ks ms d
      | Some j \<Rightarrow> if truthy j then j else first_truthy ks ms d)"

text \<open>\<open>s || t\<close> on strings, and on an optional string.\<close>

definition str_or :: "string \<Rightarrow> string \<Rightarrow> string" where
  "str_or s t = (if s = [] then t else s)"

definition opt_or :: "string option \<Rightarrow> string \<Rightarrow> string" where
  "opt_or s t = (case s of None \<Rightarrow> t | Some s \<Rightarrow> str_or s t)"

section \<open>Sites\<close>

datatype site_status = Active | Stopped | Errored

primrec site_status_str :: "site_status \<Rightarrow> string" where
  "site_status_str Active = ''active''"
| "site_status_str Stopped = ''stopped''"
| "site_status_str Errored = ''error''"

record site =
  s_id :: string
  s_name :: string
  s_port :: int
  s_webroot :: string
  s_domain :: string
  s_php_version :: string
  s_status :: site_status
  s_routes :: int
  s_ssl :: bool
  s_created_at :: string
  s_updated_at :: string
  s_extensions :: "string list option"
  s_profile :: "string option"
  s_rest :: "(string \<times> json) list"

definition site_to_json :: "site \<Rightarrow> json" where
  "site_to_json s = JObj
     ([(''id'', JStr (s_id s)),
       (''name'', JStr (s_name s)),
       (''port'', JNum (s_port s)),
       (''webroot'', JStr (s_webroot s)),
       (''domain'', JStr (s_domain s)),
       (''php_version'', JStr (s_php_version s)),
       (''status'', JStr (site_status_str (s_status s))),
       (''routes'', JNum (s_routes s)),
       (''ssl'', JBool (s_ssl s)),
       (''created_at'', JStr (s_created_at s)),
       (''updated_at'', JStr (s_updated_at s))]
      @ opt_member ''extensions'' (map_option jstrs (s_extensions s))
      @ opt_member ''profile'' (map_option JStr (s_profile s))
      @ s_rest s)"

record site_create_request =
  f_name :: string
  f_port :: int
  f_webroot :: string
  f_php_version :: string

definition create_request_to_json :: "site_create_request \<Rightarrow> json" where
  "create_request_to_json f = JObj
     [(''name'', JStr (f_name f)),
      (''port'', JNum (f_port f)),
      (''webroot'', JStr (f_webroot f)),
      (''php_version'', JStr (f_php_version f))]"

section \<open>Extensions and runtimes\<close>

record extension_info =
  ext_name :: string
  ext_type :: string
  ext_description :: string
  ext_version :: string

record extension_profile =
  pr_name :: string
  pr_description :: string
  pr_extensions :: "string list"

record site_extensions =
  se_site_id :: string
  se_extensions :: "string list"
  se_profile :: string

record runtime =
  rt_version :: string
  rt_binary :: string
  rt_status :: string
  rt_active :: bool
  rt_managed :: bool

section \<open>Status and system\<close>

record gateway_status =
  gs_status :: string
  gs_uptime :: string
  gs_uptime_seconds :: int
  gs_version :: string
  gs_pid :: int
  gs_addr :: string
  gs_doc_root :: string
  gs_framework :: string
  gs_goroutines :: int
  gs_active_requests :: int
  gs_total_requests :: int
  gs_total_errors :: int
  gs_sites_count :: int
  gs_runtimes :: "string list"

text \<open>The two memory sizes are the only fractional numbers: they are kept as rationals \<open>(numerator, denominator)\<close>.\<close>

record system_info =
  sys_hostname :: string
  sys_os :: string
  sys_arch :: string
  sys_go_version :: string
  sys_goroutines :: int
  sys_mem_alloc_mb :: "int \<times> nat"
  sys_mem_sys_mb :: "int \<times> nat"
  sys_num_cpu :: int
  sys_pid :: int

record log_entry =
  l_timestamp :: string
  l_level :: string
  l_message :: string
  l_extra :: "json option"

section \<open>Releases\<close>

datatype release_state = RCreated | RActive | RDraining | RStopped | RFailed

primrec release_state_str :: "release_state \<Rightarrow> string" where
  "release_state_str RCreated = ''created''"
| "release_state_str RActive = ''active''"
| "release_state_str RDraining = ''draining''"
| "release_state_str RStopped = ''stopped''"
| "release_state_str RFailed = ''failed''"

record release =
  r_id :: string
  r_version :: string
  r_runtime_id :: string
  r_state :: release_state
  r_created_at :: string
  r_activated_at :: "string option"
  r_deactivated_at :: "string option"
  r_dir :: string
  r_metadata :: "(string \<times> string) list option"

section \<open>Diagnostics\<close>

datatype check_status = ChkOk | ChkWarn | ChkFail

primrec check_status_str :: "check_status \<Rightarrow> string" where
  "check_status_str ChkOk = ''ok''"
| "check_status_str ChkWarn = ''warn''"
| "check_status_str ChkFail = ''fail''"

record check_result =
  c_name :: string
  c_status :: check_status
  c_message :: string

record doctor_report =
  d_checks :: "check_result list option"
  d_os :: string
  d_arch :: string
  d_go_version :: string
  d_hostname :: string

datatype severity = SevError | SevWarning | SevInfo

record compat_issue =
  i_category :: string
  i_severity :: severity
  i_file :: "string option"
  i_message :: string
  i_suggestion :: "string option"

record compat_report =
  cr_root :: string
  cr_scanned_at :: string
  cr_framework :: "string option"
  cr_php_version :: "string option"
  cr_issues :: "compat_issue list option"
  cr_warnings :: "compat_issue list option"
  cr_info :: "string list option"
  cr_score :: int

record req_info =
  q_method :: string
  q_host :: string
  q_path :: string
  q_query :: string
  q_headers :: "(string \<times> string) list"
  q_tls :: bool
  q_remote :: string

record path_normalization =
  pn_raw :: string
  pn_decoded :: string
  pn_normalized :: string
  pn_valid :: bool

record policy_check =
  pc_decision :: string
  pc_matched_rules :: "string list option"

record route_match =
  rm_matched :: bool
  rm_target :: "string option"

record file_check =
  fc_found :: bool
  fc_is_php :: bool
  fc_protected :: bool
  fc_error :: "string option"

record script_check =
  sc_found :: bool
  sc_script_name :: string
  sc_script_path :: string

record explanation =
  e_request :: req_info
  e_path_normalization :: path_normalization
  e_policy_check :: policy_check
  e_route_match :: route_match
  e_file_check :: file_check
  e_script_check :: script_check
  e_summary :: string
  e_duration :: string

record metric_point =
  m_timestamp :: string
  m_requests :: int
  m_errors :: int
  m_latency_ms :: "int \<times> nat"

section \<open>Classes\<close>

text \<open>Check results and site states are ordered by severity, worst last.\<close>

primrec check_rank :: "check_status \<Rightarrow> nat" where
  "check_rank ChkOk = 0"
| "check_rank ChkWarn = 1"
| "check_rank ChkFail = 2"

instantiation check_status :: linorder
begin

definition less_eq_check_status :: "check_status \<Rightarrow> check_status \<Rightarrow> bool" where
  "less_eq_check_status a b \<longleftrightarrow> check_rank a \<le> check_rank b"

definition less_check_status :: "check_status \<Rightarrow> check_status \<Rightarrow> bool" where
  "less_check_status a b \<longleftrightarrow> check_rank a < check_rank b"

instance
proof
  show "a = b" if "a \<le> b" and "b \<le> a" for a b :: check_status
    using that by (cases a; cases b) (simp_all add: less_eq_check_status_def)
qed (auto simp: less_eq_check_status_def less_check_status_def)

end

lemma site_status_str_inj [simp]: "site_status_str a = site_status_str b \<longleftrightarrow> a = b"
  by (cases a; cases b) simp_all

lemma release_state_str_inj [simp]: "release_state_str a = release_state_str b \<longleftrightarrow> a = b"
  by (cases a; cases b) simp_all

lemma opt_member_None [simp]: "opt_member k None = []"
  by (simp add: opt_member_def)

lemma opt_member_Some [simp]: "opt_member k (Some v) = [(k, v)]"
  by (simp add: opt_member_def)

end
