(* ===== verification/Client.thy ===== *)
theory Client
  imports UseApi Types
begin

text \<open>
  \<open>dashboard/src/api/client.ts\<close>: the requests the dashboard sends and what it makes of the
  responses. A request is its method, its path and its JSON body; \<open>client_result\<close> is what the
  promise of \<open>request\<close> settles with.
\<close>

datatype http_method = GET | POST | PUT | DELETE

record request =
  rq_method :: http_method
  rq_path :: string
  rq_headers :: "(string \<times> string) list"
  rq_body :: "json option"

definition base_path :: string where
  "base_path = ''/api''"

text \<open>\<open>fetch(`${BASE}${path}`, { headers, ...options })\<close>: no caller passes headers of its own.\<close>

definition api_request :: "string \<Rightarrow> http_method \<Rightarrow> json option \<Rightarrow> request" where
  "api_request path m body =
     \<lparr>rq_method = m, rq_path = base_path @ path,
      rq_headers = [(''Content-Type'', ''application/json'')], rq_body = body\<rparr>"

section \<open>Responses\<close>

text \<open>
  The outcome of \<open>fetch\<close>: it rejects with a \<open>TypeError\<close>, or it yields a response with its
  \<open>ok\<close> flag, its status text and its body, parsed or the message of the \<open>SyntaxError\<close>.
\<close>

datatype fetch_outcome =
    NetworkError string
  | Response bool string "string + json"

text \<open>\<open>err.error\<close>; reading a member of \<open>null\<close> throws.\<close>

definition read_error :: "json \<Rightarrow> js_exn + json option" where
  "read_error j =
     (case j of
        JNull \<Rightarrow> Inl (JsError ''Cannot read properties of null (reading 'error')'')
      | JObj ms \<Rightarrow> Inr (member_of ''error'' ms)
      | _ \<Rightarrow> Inr None)"

definition client_result :: "fetch_outcome \<Rightarrow> js_exn + json" where
  "client_result out =
     (case out of
        NetworkError msg \<Rightarrow> Inl (JsError msg)
      | Response ok statusText body \<Rightarrow>
          (if \<not> ok then
             (let err = (case body of Inl _ \<Rightarrow> JObj [(''error'', JStr statusText)] | Inr j \<Rightarrow> j)
              in case read_error err of
                   Inl e \<Rightarrow> Inl e
                 | Inr v \<Rightarrow>
                     Inl (JsError (case v of
                        None \<Rightarrow> ''Request failed''
                      | Some j \<Rightarrow> if truthy j then js_string j else ''Request failed'')))
           else (case body of Inl msg \<Rightarrow> Inl (JsError msg) | Inr j \<Rightarrow> Inr j)))"

lemma client_result_error: "client_result out = Inl e \<Longrightarrow> \<exists>m. e = JsError m"
  by (auto simp: client_result_def read_error_def Let_def
      split: fetch_outcome.splits sum.splits json.splits if_splits)

lemma client_result_ok_iff:
  "client_result out = Inr j \<longleftrightarrow> (\<exists>st. out = Response True st (Inr j))"
  by (auto simp: client_result_def Let_def read_error_def
      split: fetch_outcome.splits sum.splits json.splits if_splits)

section \<open>encodeURIComponent\<close>

definition uri_unreserved :: "char \<Rightarrow> bool" where
  "uri_unreserved c \<longleftrightarrow>
     in_range (CHR ''A'') (CHR ''Z'') c \<or> in_range (CHR ''a'') (CHR ''z'') c \<or>
     in_range (CHR ''0'') (CHR ''9'') c \<or> c \<in> set ''-_.!~*'' \<or> c = CHR 0x27 \<or> c \<in> set ''()''"

definition hex_char :: "nat \<Rightarrow> char" where
  "hex_char n = (if n < 10 then char_of (48 + n) else char_of (55 + n))"

definition percent_byte :: "char \<Rightarrow> string" where
  "percent_byte c = [CHR ''%'', hex_char (of_char c div 16), hex_char (of_char c mod 16)]"

definition encode_uri_component :: "string \<Rightarrow> string" where
  "encode_uri_component s = concat (map (\<lambda>c. if uri_unreserved c then [c] else percent_byte c) s)"

text \<open>
  What Go's \<open>net/url\<close> makes of a query value (\<open>url.QueryUnescape\<close>): a plus sign is a space,
  \<open>%xx\<close> is a byte, an incomplete escape is an error.
\<close>

fun query_unescape :: "string \<Rightarrow> string option" where
  "query_unescape [] = Some []"
| "query_unescape (c # s) =
     (if c = CHR ''%'' then
        (case s of
           a # b # t \<Rightarrow>
             (case (digit_value a, digit_value b) of
                (Some x, Some y) \<Rightarrow> map_option (\<lambda>r. char_of (16 * x + y) # r) (query_unescape t)
              | _ \<Rightarrow> None)
         | _ \<Rightarrow> None)
      else map_option (\<lambda>r. (if c = CHR ''+'' then CHR '' '' else c) # r) (query_unescape s))"

text \<open>\<open>url.ParseQuery\<close>: a part with a semicolon or a bad escape is dropped.\<close>

definition query_pairs :: "string \<Rightarrow> (string \<times> string) list" where
  "query_pairs q =
     concat (map (\<lambda>p.
       if p = '''' \<or> CHR '';'' \<in> set p then []
       else (case (query_unescape (takeWhile (\<lambda>c. c \<noteq> CHR ''='') p),
                   query_unescape (drop 1 (dropWhile (\<lambda>c. c \<noteq> CHR ''='') p))) of
               (Some k, Some v) \<Rightarrow> [(k, v)]
             | _ \<Rightarrow> [])) (split_on (CHR ''&'') q))"

text \<open>\<open>r.URL.Query().Get(k)\<close>: the first value, or the empty string.\<close>

definition query_get :: "string \<Rightarrow> string \<Rightarrow> string" where
  "query_get k q = (case map_of (query_pairs q) k of None \<Rightarrow> '''' | Some v \<Rightarrow> v)"

text \<open>\<open>net.SplitHostPort\<close>: host and port, \<open>None\<close> for an error.\<close>

definition last_colon :: "string \<Rightarrow> nat option" where
  "last_colon s =
     (if CHR '':'' \<in> set s then Some (length s - 1 - length (takeWhile (\<lambda>c. c \<noteq> CHR '':'') (rev s))) else None)"

definition split_host_port :: "string \<Rightarrow> (string \<times> string) option" where
  "split_host_port s =
     (case last_colon s of
        None \<Rightarrow> None
      | Some i \<Rightarrow>
          (case s of
             [] \<Rightarrow> None
           | c # t \<Rightarrow>
               if c = CHR ''['' then
                 (let e = length (takeWhile (\<lambda>c. c \<noteq> CHR '']'') s)
                  in if e = length s \<or> e + 1 \<noteq> i then None
                     else if CHR ''['' \<in> set t \<or> CHR '']'' \<in> set (drop (e + 1) s) then None
                     else Some (take (e - 1) t, drop (i + 1) s))
               else
                 (let host = take i s
                  in if CHR '':'' \<in> set host \<or> CHR ''['' \<in> set s \<or> CHR '']'' \<in> set s then None
                     else Some (host, drop (i + 1) s))))"

lemma hex_char_value [simp]: "n < 16 \<Longrightarrow> digit_value (hex_char n) = Some n"
  by (auto simp: hex_char_def digit_value.simps in_range_def)

lemma of_char_less: "of_char (c :: char) < (256 :: nat)"
proof -
  have "of_char c = (of_char (char_of (of_char c :: nat) :: char) :: nat)" by simp
  also have "\<dots> < 256" by (simp only: of_char_of)
  finally show ?thesis .
qed

lemma high_nibble_less: "of_char (c :: char) div 16 < (16 :: nat)"
  using of_char_less [of c] by (rule less_mult_imp_div_less [of _ 16 16, simplified])

lemma unescape_percent_byte:
  "query_unescape (percent_byte c @ s) = map_option (\<lambda>r. c # r) (query_unescape s)"
proof -
  have "16 * (of_char c div 16) + of_char c mod 16 = (of_char c :: nat)"
    by simp
  then show ?thesis by (simp add: percent_byte_def high_nibble_less)
qed

lemma unreserved_not_special: "uri_unreserved c \<Longrightarrow> c \<noteq> CHR ''%'' \<and> c \<noteq> CHR ''+''"
  by (auto simp: uri_unreserved_def in_range_def)

lemma unescape_encode: "query_unescape (encode_uri_component s) = Some s"
proof (induction s)
  case (Cons c s)
  have "query_unescape (encode_uri_component (c # s)) = map_option (\<lambda>r. c # r) (query_unescape (encode_uri_component s))"
    using unreserved_not_special [of c]
    by (simp add: encode_uri_component_def unescape_percent_byte)
  with Cons show ?case by simp
qed (simp add: encode_uri_component_def)

text \<open>An encoded component has none of the characters that structure a request target.\<close>

lemma hex_char_unreserved: "n < 16 \<Longrightarrow> uri_unreserved (hex_char n)"
  by (auto simp: uri_unreserved_def hex_char_def in_range_def)

lemma encode_chars: "c \<in> set (encode_uri_component s) \<Longrightarrow> uri_unreserved c \<or> c = CHR ''%''"
  by (auto simp: encode_uri_component_def percent_byte_def hex_char_unreserved high_nibble_less
      split: if_splits)

section \<open>The api object\<close>

definition getStatus :: request where "getStatus = api_request ''/status'' GET None"
definition getSystem :: request where "getSystem = api_request ''/system'' GET None"
definition getSites :: request where "getSites = api_request ''/sites'' GET None"

definition createSite :: "site_create_request \<Rightarrow> request" where
  "createSite d = api_request ''/sites'' POST (Some (create_request_to_json d))"

definition updateSite :: "string \<Rightarrow> site \<Rightarrow> request" where
  "updateSite i d = api_request (''/sites/'' @ i) PUT (Some (site_to_json d))"

definition deleteSite :: "string \<Rightarrow> request" where
  "deleteSite i = api_request (''/sites/'' @ i) DELETE None"

definition getRuntimes :: request where "getRuntimes = api_request ''/runtimes'' GET None"
definition getLogs :: request where "getLogs = api_request ''/logs'' GET None"
definition getConfig :: request where "getConfig = api_request ''/config'' GET None"

definition saveConfig :: "json \<Rightarrow> request" where
  "saveConfig cfg = api_request ''/config/save'' POST (Some cfg)"

definition healthCheck :: request where "healthCheck = api_request ''/health'' GET None"

definition getDeployments :: request where "getDeployments = api_request ''/deploy/list'' GET None"

definition createDeployment :: "string \<Rightarrow> string option \<Rightarrow> request" where
  "createDeployment version srcDir =
     api_request ''/deploy/create'' POST
       (Some (JObj ((''version'', JStr version) # opt_member ''src_dir'' (map_option JStr srcDir))))"

definition activateDeployment :: "string \<Rightarrow> request" where
  "activateDeployment i = api_request ''/deploy/activate'' POST (Some (JObj [(''id'', JStr i)]))"

definition rollbackDeployment :: request where
  "rollbackDeployment = api_request ''/deploy/rollback'' POST None"

definition getDoctor :: request where "getDoctor = api_request ''/doctor'' GET None"

definition getDoctorCompat :: "string option \<Rightarrow> request" where
  "getDoctorCompat path =
     api_request (''/doctor/compat'' @
       (case path of None \<Rightarrow> []
        | Some p \<Rightarrow> if p = [] then [] else ''?path='' @ encode_uri_component p)) GET None"

definition explainRequest :: "string \<Rightarrow> request" where
  "explainRequest url = api_request (''/explain?url='' @ encode_uri_component url) GET None"

definition getMetricsHistory :: request where "getMetricsHistory = api_request ''/metrics/history'' GET None"
definition getExtensions :: request where "getExtensions = api_request ''/extensions'' GET None"
definition getProfiles :: request where "getProfiles = api_request ''/profiles'' GET None"

definition getSiteExtensions :: "string \<Rightarrow> request" where
  "getSiteExtensions i = api_request (''/sites/'' @ i @ ''/extensions'') GET None"

definition updateSiteExtensions :: "string \<Rightarrow> string list \<Rightarrow> string \<Rightarrow> request" where
  "updateSiteExtensions i exts profile =
     api_request (''/sites/'' @ i @ ''/extensions'') PUT
       (Some (JObj [(''extensions'', jstrs exts), (''profile'', JStr profile)]))"

lemmas api_defs =
  getStatus_def getSystem_def getSites_def createSite_def updateSite_def deleteSite_def
  getRuntimes_def getLogs_def getConfig_def saveConfig_def healthCheck_def getDeployments_def
  createDeployment_def activateDeployment_def rollbackDeployment_def getDoctor_def
  getDoctorCompat_def explainRequest_def getMetricsHistory_def getExtensions_def getProfiles_def
  getSiteExtensions_def updateSiteExtensions_def api_request_def base_path_def

section \<open>Properties\<close>

text \<open>Whatever the network and the server do, a call of the client settles in one of two ways: it
  rejects with an \<open>Error\<close> that carries a message, or the response was a success with a JSON body and it
  resolves with that body.\<close>

theorem client_settles_with_error_or_body:
  "(\<exists>m. client_result out = Inl (JsError m)) \<and> (\<forall>st j. out \<noteq> Response True st (Inr j)) \<or>
   (\<exists>st j. out = Response True st (Inr j) \<and> client_result out = Inr j)"
proof (cases "client_result out")
  case (Inl e)
  then have "\<forall>st j. out \<noteq> Response True st (Inr j)"
    using client_result_ok_iff by (metis Inl_Inr_False)
  with Inl client_result_error [OF Inl] show ?thesis by blast
next
  case (Inr j)
  with client_result_ok_iff [of out j] show ?thesis by blast
qed

text \<open>The text a handler of the server puts into the \<open>error\<close> member of an error response is the text
  the page shows: the call rejects with it, the hook stores it and leaves the loading state, and the
  fallback of the caller is not used.\<close>

theorem server_error_text_is_shown:
  assumes "member_of ''error'' ms = Some (JStr m)" and "m \<noteq> ''''" and "ua_mounted a"
  shows "\<exists>e. client_result (Response False st (Inr (JObj ms))) = Inl e \<and>
     (\<forall>fallback. exn_message fallback e = m) \<and>
     ua_error (ua_reject i e a) = Some m \<and> \<not> ua_loading (ua_reject i e a)"
  using assms by (simp add: client_result_def read_error_def ua_defs)

lemma encoded_no_delimiter:
  assumes "c \<in> set (encode_uri_component s)"
  shows "c \<noteq> CHR ''&''" "c \<noteq> CHR ''#''" "c \<noteq> CHR '';''" "c \<noteq> CHR ''=''" "c \<noteq> CHR '' ''"
proof -
  have "\<not> uri_unreserved (CHR ''&'')" "\<not> uri_unreserved (CHR ''#'')" "\<not> uri_unreserved (CHR '';'')"
    "\<not> uri_unreserved (CHR ''='')" "\<not> uri_unreserved (CHR '' '')"
    by (simp_all add: uri_unreserved_def in_range_def)
  with encode_chars [OF assms]
  show "c \<noteq> CHR ''&''" "c \<noteq> CHR ''#''" "c \<noteq> CHR '';''" "c \<noteq> CHR ''=''" "c \<noteq> CHR '' ''"
    by fastforce+
qed

text \<open>C38. The URL typed into the route tester or the explorer reaches the server as it was typed: the
  query of the request holds only unreserved characters and escapes, so nothing in it starts another
  parameter or a fragment, and unescaping it gives the URL back.\<close>

theorem explain_url_roundtrip:
  "\<exists>q. rq_path (explainRequest url) = ''/api/explain?url='' @ q \<and> query_unescape q = Some url \<and>
     list_all (\<lambda>c. c \<noteq> CHR ''&'' \<and> c \<noteq> CHR ''#'' \<and> c \<noteq> CHR '';'' \<and> c \<noteq> CHR ''='' \<and> c \<noteq> CHR '' '') q"
proof (intro exI conjI)
  show "rq_path (explainRequest url) = ''/api/explain?url='' @ encode_uri_component url"
    by (simp add: api_defs)
  show "list_all (\<lambda>c. c \<noteq> CHR ''&'' \<and> c \<noteq> CHR ''#'' \<and> c \<noteq> CHR '';'' \<and> c \<noteq> CHR ''='' \<and> c \<noteq> CHR '' '')
      (encode_uri_component url)"
    unfolding list_all_iff using encoded_no_delimiter by metis
qed (rule unescape_encode)

theorem server_error_text_is_shown_witness:
  "\<exists>e. client_result (Response False ''Conflict'' (Inr (JObj [(''error'', JStr ''port in use'')]))) = Inl e \<and>
     ua_error (ua_reject 0 e (ua_start :: nat use_api)) = Some ''port in use''"
proof -
  have "member_of ''error'' [(''error'', JStr ''port in use'')] = Some (JStr ''port in use'')"
    by (simp add: member_of_def)
  moreover have "ua_mounted (ua_start :: nat use_api)" by (simp add: ua_defs)
  ultimately show ?thesis
    using server_error_text_is_shown [of "[(''error'', JStr ''port in use'')]" "''port in use''" ua_start "''Conflict''" 0]
    by auto
qed

end
