(* ===== verification/View.thy ===== *)
theory View
  imports Prelude
begin

text \<open>
  Rendered output, and the presentational components of \<open>dashboard/src/components\<close>
  (\<open>StatCard.tsx\<close>, \<open>Modal.tsx\<close>).

  A component returns a tree of nodes. A node keeps its tag (or the name of the third-party
  component: an icon, a link, a chart), its text, its values, its event handlers and the class
  names that depend on the state; fixed style classes are not kept. Handlers are messages of the
  page, so that what a user can do in a state is what its rendered tree offers: the clicks of
  enabled elements and the changes of its inputs (a \<open>select\<close> only yields one of its options).
\<close>

datatype 'm attr =
    OnClick 'm
  | OnChange "string \<Rightarrow> 'm"
  | Disabled bool
  | Class string
  | Attr string string

datatype 'm vnode =
    Txt string
  | El string "'m attr list" "'m vnode list"

abbreviation only :: "bool \<Rightarrow> 'a list \<Rightarrow> 'a list" where
  "only c xs \<equiv> (if c then xs else [])"

text \<open>The glyphs outside ASCII that the pages print, as UTF-8 bytes: a cross, a check mark and a dash.\<close>

definition times_glyph :: string where "times_glyph = [CHR 0xC3, CHR 0x97]"
definition check_glyph :: string where "check_glyph = [CHR 0xE2, CHR 0x9C, CHR 0x93]"
definition dash_glyph :: string where "dash_glyph = [CHR 0xE2, CHR 0x80, CHR 0x94]"

section \<open>What a tree offers\<close>

primrec attr_click :: "'m attr \<Rightarrow> 'm list" where
  "attr_click (OnClick m) = [m]"
| "attr_click (OnChange h) = []"
| "attr_click (Disabled b) = []"
| "attr_click (Class c) = []"
| "attr_click (Attr k v) = []"

primrec attr_change :: "'m attr \<Rightarrow> (string \<Rightarrow> 'm) list" where
  "attr_change (OnClick m) = []"
| "attr_change (OnChange h) = [h]"
| "attr_change (Disabled b) = []"
| "attr_change (Class c) = []"
| "attr_change (Attr k v) = []"

primrec attr_disabled :: "'m attr \<Rightarrow> bool" where
  "attr_disabled (OnClick m) = False"
| "attr_disabled (OnChange h) = False"
| "attr_disabled (Disabled b) = b"
| "attr_disabled (Class c) = False"
| "attr_disabled (Attr k v) = False"

primrec attr_value :: "'m attr \<Rightarrow> string list" where
  "attr_value (OnClick m) = []"
| "attr_value (OnChange h) = []"
| "attr_value (Disabled b) = []"
| "attr_value (Class c) = []"
| "attr_value (Attr k v) = (if k = ''value'' then [v] else [])"

fun clicks :: "'m vnode \<Rightarrow> 'm list" where
  "clicks (Txt s) = []"
| "clicks (El t as cs) =
     (if list_ex attr_disabled as then [] else concat (map attr_click as)) @ concat (map clicks cs)"

fun option_values :: "'m vnode \<Rightarrow> string list" where
  "option_values (Txt s) = []"
| "option_values (El t as cs) =
     (if t = ''option'' then concat (map attr_value as) else concat (map option_values cs))"

text \<open>An input with its handler: \<open>None\<close> for free text, \<open>Some vs\<close> for a \<open>select\<close> with the options \<open>vs\<close>.\<close>

fun inputs :: "'m vnode \<Rightarrow> (string list option \<times> (string \<Rightarrow> 'm)) list" where
  "inputs (Txt s) = []"
| "inputs (El t as cs) =
     (if list_ex attr_disabled as then []
      else map (\<lambda>h. (if t = ''select'' then Some (concat (map option_values cs)) else None, h))
             (concat (map attr_change as)))
     @ concat (map inputs cs)"

definition input_offers :: "string list option \<times> (string \<Rightarrow> 'm) \<Rightarrow> 'm \<Rightarrow> bool" where
  "input_offers i m \<longleftrightarrow> (case i of (opts, h) \<Rightarrow>
     \<exists>v. m = h v \<and> (case opts of None \<Rightarrow> True | Some vs \<Rightarrow> v \<in> set vs))"

definition offers :: "'m vnode \<Rightarrow> 'm \<Rightarrow> bool" where
  "offers v m \<longleftrightarrow> m \<in> set (clicks v) \<or> list_ex (\<lambda>i. input_offers i m) (inputs v)"

text \<open>The texts of a tree, in document order.\<close>

fun texts :: "'m vnode \<Rightarrow> string list" where
  "texts (Txt s) = [s]"
| "texts (El t as cs) = concat (map texts cs)"

text \<open>The elements with a given tag, in document order.\<close>

fun elements :: "string \<Rightarrow> 'm vnode \<Rightarrow> 'm vnode list" where
  "elements t (Txt s) = []"
| "elements t (El u as cs) = only (t = u) [El u as cs] @ concat (map (elements t) cs)"

lemma list_ex_map: "list_ex P (map f xs) \<longleftrightarrow> list_ex (\<lambda>x. P (f x)) xs"
  by (induction xs) auto

lemma list_ex_disj: "list_ex (\<lambda>x. P x \<or> Q x) xs \<longleftrightarrow> list_ex P xs \<or> list_ex Q xs"
  by (induction xs) auto

lemma list_ex_concat: "list_ex P (concat xss) \<longleftrightarrow> list_ex (\<lambda>xs. list_ex P xs) xss"
  by (induction xss) auto

lemma offers_Txt [simp]: "\<not> offers (Txt s) m"
  by (simp add: offers_def)

definition attrs_offer :: "string \<Rightarrow> 'm attr list \<Rightarrow> 'm vnode list \<Rightarrow> 'm \<Rightarrow> bool" where
  "attrs_offer t as cs m \<longleftrightarrow> \<not> list_ex attr_disabled as \<and>
     (m \<in> set (concat (map attr_click as)) \<or>
      list_ex (\<lambda>h. input_offers (if t = ''select'' then Some (concat (map option_values cs)) else None, h) m)
        (concat (map attr_change as)))"

text \<open>A node offers what its own handlers offer and what its children offer.\<close>

lemma offers_El: "offers (El t as cs) m \<longleftrightarrow> attrs_offer t as cs m \<or> list_ex (\<lambda>c. offers c m) cs"
proof -
  have "list_ex (\<lambda>i. input_offers i m) (inputs (El t as cs)) \<longleftrightarrow>
      \<not> list_ex attr_disabled as \<and>
        list_ex (\<lambda>h. input_offers (if t = ''select'' then Some (concat (map option_values cs)) else None, h) m)
          (concat (map attr_change as))
      \<or> list_ex (\<lambda>c. list_ex (\<lambda>i. input_offers i m) (inputs c)) cs"
    by (simp add: list_ex_map list_ex_concat o_def)
  moreover have "m \<in> set (clicks (El t as cs)) \<longleftrightarrow>
      \<not> list_ex attr_disabled as \<and> m \<in> set (concat (map attr_click as))
      \<or> list_ex (\<lambda>c. m \<in> set (clicks c)) cs"
    by (auto simp: list_ex_iff)
  ultimately show ?thesis
    by (simp only: offers_def attrs_offer_def list_ex_disj) blast
qed

lemma input_offers_None [simp]: "input_offers (None, h) m \<longleftrightarrow> (\<exists>v. m = h v)"
  by (simp add: input_offers_def)

lemma input_offers_Some [simp]: "input_offers (Some vs, h) m \<longleftrightarrow> (\<exists>v \<in> set vs. m = h v)"
  by (auto simp: input_offers_def)

lemma attrs_offer_no_handler [simp]:
  "concat (map attr_click as) = [] \<Longrightarrow> concat (map attr_change as) = [] \<Longrightarrow> \<not> attrs_offer t as cs m"
  by (simp add: attrs_offer_def del: concat_eq_Nil_conv)

lemmas offers_simps = offers_El attrs_offer_def

section \<open>StatCard.tsx\<close>

datatype card_color = CAccent | CSuccess | CError | CInfo

primrec color_map :: "card_color \<Rightarrow> string" where
  "color_map CAccent = ''text-accent bg-accent/10''"
| "color_map CSuccess = ''text-success bg-success/10''"
| "color_map CError = ''text-error bg-error/10''"
| "color_map CInfo = ''text-info bg-info/10''"

definition stat_card :: "string \<Rightarrow> string \<Rightarrow> string \<Rightarrow> string option \<Rightarrow> card_color \<Rightarrow> 'm vnode" where
  "stat_card label val icon trend color =
     El ''div'' []
      [El ''div'' []
        [El ''div'' []
          ([El ''p'' [] [Txt label], El ''p'' [] [Txt val]]
           @ (case trend of None \<Rightarrow> [] | Some t \<Rightarrow> only (t \<noteq> '''') [El ''p'' [] [Txt t]])),
         El ''div'' [Class (color_map color)] [El icon [] []]]]"

text \<open>No card of the dashboard passes an \<open>action\<close>; a card is its title and its children.\<close>

definition card :: "string \<Rightarrow> 'm vnode list \<Rightarrow> 'm vnode" where
  "card title children =
     El ''div'' []
      [El ''div'' [] [El ''h3'' [] [Txt title]],
       El ''div'' [] children]"

section \<open>Modal.tsx\<close>

text \<open>
  A closed modal renders nothing. The overlay closes it only when the overlay itself is the
  target of the click; the cross button closes it; while it is open the Escape key does.
\<close>

definition modal :: "bool \<Rightarrow> 'm \<Rightarrow> string \<Rightarrow> 'm vnode list \<Rightarrow> 'm vnode list" where
  "modal isOpen onClose title children =
     (if \<not> isOpen then []
      else [El ''overlay'' [OnClick onClose]
             [El ''div'' []
               [El ''div'' []
                 [El ''h2'' [] [Txt title],
                  El ''button'' [OnClick onClose] [El ''X'' [] []]],
                El ''div'' [] children]]])"

definition modal_key :: "bool \<Rightarrow> string \<Rightarrow> 'm \<Rightarrow> 'm list" where
  "modal_key isOpen key onClose = (if \<not> isOpen then [] else only (key = ''Escape'') [onClose])"

text \<open>\<open>document.body.style.overflow\<close> after the effect ran; the cleanup of the effect clears it.\<close>

definition modal_overflow :: "bool \<Rightarrow> string" where
  "modal_overflow isOpen = (if isOpen then ''hidden'' else '''')"

datatype toast_type = TSuccess | TError | TInfo

record toast =
  t_message :: string
  t_type :: toast_type

definition mk_toast :: "toast_type \<Rightarrow> string \<Rightarrow> toast" where
  "mk_toast ty msg = \<lparr>t_message = msg, t_type = ty\<rparr>"

primrec toast_colors :: "toast_type \<Rightarrow> string" where
  "toast_colors TSuccess = ''border-success/30 bg-success/10 text-success''"
| "toast_colors TError = ''border-error/30 bg-error/10 text-error''"
| "toast_colors TInfo = ''border-info/30 bg-info/10 text-info''"

definition toast_view :: "toast option \<Rightarrow> 'm \<Rightarrow> 'm vnode list" where
  "toast_view t onClose =
     (case t of None \<Rightarrow> []
      | Some t \<Rightarrow>
         [El ''div'' [Class (toast_colors (t_type t)), Attr ''role'' ''alert'']
           [El ''div'' []
             [El ''span'' [] [Txt (t_message t)],
              El ''button'' [OnClick onClose] [Txt times_glyph]]]])"

lemma offers_stat_card [simp]: "\<not> offers (stat_card l v i t c) m"
  by (auto simp: stat_card_def offers_simps list_ex_iff split: option.splits if_splits)

lemma offers_card [simp]: "offers (card t cs) m \<longleftrightarrow> list_ex (\<lambda>c. offers c m) cs"
  by (simp add: card_def offers_simps)

lemma offers_modal [simp]:
  "list_ex (\<lambda>c. offers c m) (modal isOpen close t cs)
   \<longleftrightarrow> isOpen \<and> (m = close \<or> list_ex (\<lambda>c. offers c m) cs)"
  by (auto simp: modal_def offers_simps)

lemma offers_toast [simp]:
  "list_ex (\<lambda>c. offers c m) (toast_view t close) \<longleftrightarrow> t \<noteq> None \<and> m = close"
  by (auto simp: toast_view_def offers_simps split: option.splits)

lemma texts_card: "concat (map texts [card t cs]) = t # concat (map texts cs)"
  by (simp add: card_def)

end
