(* ===== verification/SitesPage.thy ===== *)
theory SitesPage
  imports Client View
begin

text \<open>
  \<open>dashboard/src/pages/Sites.tsx\<close>: the page that creates, edits, starts, stops and deletes sites.

  \<open>sites_page\<close> holds the React states of the component (the \<open>useApi\<close> state of the site list, the
  dialog, the form), the calls of its async handlers that have not settled, and the requests sent
  so far. A handler is split at its \<open>await\<close>: \<open>sites_update\<close> runs it up to the request,
  \<open>sites_ok\<close> and \<open>sites_fail\<close> run the rest. What the rest reads from the render in which the
  handler was created (the form, the edited site, the site list) is stored in the call.
\<close>

section \<open>Tables\<close>

definition site_all_extensions :: "string list" where
  "site_all_extensions =
     [''curl'', ''json'', ''mbstring'', ''pdo'', ''pdo_sqlite'', ''pdo_mysql'', ''pdo_pgsql'',
      ''opcache'', ''intl'', ''xml'', ''gd'', ''zip'', ''bcmath'', ''redis'', ''memcached'',
      ''xdebug'', ''imagick'', ''sockets'', ''gmp'', ''bz2'', ''mysqlnd'']"

definition site_profiles :: "(string \<times> string) list" where
  "site_profiles =
     [('''', ''None (use gateway defaults)''),
      (''minimal'', ''Minimal set for basic PHP scripts''),
      (''web-standard'', ''Standard set for most web applications''),
      (''wordpress'', ''Optimized for WordPress''),
      (''laravel'', ''Optimized for Laravel''),
      (''development'', ''Full feature set for development'')]"

definition next_port :: "site list \<Rightarrow> int" where
  "next_port sites =
     (case sites of [] \<Rightarrow> 8081
      | s # ss \<Rightarrow> fold max (map s_port ss) (s_port s) + 1)"

section \<open>State\<close>

datatype sites_call =
    CallSubmit "site option" site_create_request "site list"
  | CallDelete site
  | CallToggle site site_status

record sites_page =
  sp_api :: "site list use_api"
  sp_modal_open :: bool
  sp_editing :: "site option"
  sp_toast :: "toast option"
  sp_form :: site_create_request
  sp_site_profile :: string
  sp_site_exts :: "string list"
  sp_pending :: "sites_call list"
  sp_sent :: "request list"

datatype sites_msg =
    OpenCreate | OpenEdit site | Submit | AskDelete site | ToggleSite site
  | SetName string | SetPort string | SetPhp string | SetWebroot string
  | SetProfile string | ToggleExt string | CloseModal | CloseToast

definition empty_form :: "int \<Rightarrow> site_create_request" where
  "empty_form port = \<lparr>f_name = '''', f_port = port, f_webroot = '''', f_php_version = ''8.3''\<rparr>"

definition sites_init :: sites_page where
  "sites_init =
     \<lparr>sp_api = ua_start, sp_modal_open = False, sp_editing = None, sp_toast = None,
      sp_form = empty_form 8081, sp_site_profile = '''', sp_site_exts = [],
      sp_pending = [], sp_sent = [getSites]\<rparr>"

text \<open>\<open>data?.sites || []\<close>.\<close>

definition sites_of :: "sites_page \<Rightarrow> site list" where
  "sites_of s = (case ua_data (sp_api s) of None \<Rightarrow> [] | Some xs \<Rightarrow> xs)"

section \<open>Handlers\<close>

text \<open>\<open>resetForm\<close>, with the site list of the render it closes over.\<close>

definition reset_form :: "site list \<Rightarrow> sites_page \<Rightarrow> sites_page" where
  "reset_form sites s =
     s\<lparr>sp_form := empty_form (next_port sites), sp_site_profile := '''', sp_site_exts := [],
       sp_editing := None\<rparr>"

definition open_create :: "sites_page \<Rightarrow> sites_page" where
  "open_create s =
     (let s1 = reset_form (sites_of s) s
      in s1\<lparr>sp_form := (sp_form s1)\<lparr>f_port := next_port (sites_of s)\<rparr>, sp_modal_open := True\<rparr>)"

definition open_edit :: "site \<Rightarrow> sites_page \<Rightarrow> sites_page" where
  "open_edit x s =
     s\<lparr>sp_editing := Some x,
       sp_form := \<lparr>f_name = s_name x, f_port = s_port x, f_webroot = s_webroot x,
                   f_php_version = s_php_version x\<rparr>,
       sp_site_profile := opt_or (s_profile x) '''',
       sp_site_exts := (case s_extensions x of None \<Rightarrow> [] | Some es \<Rightarrow> es),
       sp_modal_open := True\<rparr>"

text \<open>
  The object \<open>handleSubmit\<close> sends for an edit:
  \<open>{ ...editing, ...form, profile, extensions, updated_at }\<close>.
\<close>

definition edited_site :: "string \<Rightarrow> site \<Rightarrow> site_create_request \<Rightarrow> string \<Rightarrow> string list \<Rightarrow> site" where
  "edited_site now x f profile exts =
     x\<lparr>s_name := f_name f, s_port := f_port f, s_webroot := f_webroot f,
       s_php_version := f_php_version f,
       s_profile := (if profile = '''' then None else Some profile),
       s_extensions := (if length exts > 0 then Some exts else None),
       s_updated_at := now\<rparr>"

definition send :: "request \<Rightarrow> sites_call \<Rightarrow> sites_page \<Rightarrow> sites_page" where
  "send r c s = s\<lparr>sp_sent := sp_sent s @ [r], sp_pending := sp_pending s @ [c]\<rparr>"

definition handle_submit :: "string \<Rightarrow> sites_page \<Rightarrow> sites_page" where
  "handle_submit now s =
     (let call = CallSubmit (sp_editing s) (sp_form s) (sites_of s)
      in case sp_editing s of
           Some x \<Rightarrow>
             send (updateSite (s_id x)
                     (edited_site now x (sp_form s) (sp_site_profile s) (sp_site_exts s))) call s
         | None \<Rightarrow> send (createSite (sp_form s)) call s)"

definition handle_delete :: "bool \<Rightarrow> site \<Rightarrow> sites_page \<Rightarrow> sites_page" where
  "handle_delete confirmed x s =
     (if \<not> confirmed then s else send (deleteSite (s_id x)) (CallDelete x) s)"

definition toggled_status :: "site \<Rightarrow> site_status" where
  "toggled_status x = (if s_status x = Active then Stopped else Active)"

definition handle_toggle :: "string \<Rightarrow> site \<Rightarrow> sites_page \<Rightarrow> sites_page" where
  "handle_toggle now x s =
     send (updateSite (s_id x) (x\<lparr>s_status := toggled_status x, s_updated_at := now\<rparr>))
       (CallToggle x (toggled_status x)) s"

definition sites_refetch :: "sites_page \<Rightarrow> sites_page" where
  "sites_refetch s = s\<lparr>sp_api := ua_load (sp_api s), sp_sent := sp_sent s @ [getSites]\<rparr>"

definition quoted :: "string \<Rightarrow> string" where
  "quoted n = [CHR 0x22] @ n @ [CHR 0x22]"

text \<open>The handlers after their request succeeded.\<close>

definition submit_message :: "site option \<Rightarrow> site_create_request \<Rightarrow> string" where
  "submit_message editing f =
     (case editing of
        Some _ \<Rightarrow> ''Site '' @ quoted (f_name f) @ '' updated''
      | None \<Rightarrow> ''Site '' @ quoted (f_name f) @ '' created on port '' @ int_to_str (f_port f))"

primrec sites_ok :: "sites_call \<Rightarrow> sites_page \<Rightarrow> sites_page" where
  "sites_ok (CallSubmit editing f sites) s =
     sites_refetch (reset_form sites
       (s\<lparr>sp_toast := Some (mk_toast TSuccess (submit_message editing f)), sp_modal_open := False\<rparr>))"
| "sites_ok (CallDelete x) s =
     sites_refetch (s\<lparr>sp_toast := Some (mk_toast TSuccess (''Site '' @ quoted (s_name x) @ '' deleted''))\<rparr>)"
| "sites_ok (CallToggle x st) s =
     sites_refetch (s\<lparr>sp_toast := Some (mk_toast TSuccess
       (''Site '' @ quoted (s_name x) @ '' '' @ (if st = Active then ''started'' else ''stopped'')))\<rparr>)"

text \<open>All three handlers share the same \<open>catch\<close>.\<close>

definition sites_fail :: "js_exn \<Rightarrow> sites_page \<Rightarrow> sites_page" where
  "sites_fail e s = s\<lparr>sp_toast := Some (mk_toast TError (exn_message ''Failed'' e))\<rparr>"

text \<open>One user action; \<open>now\<close> is the clock and \<open>confirmed\<close> the answer of \<open>confirm\<close>.\<close>

primrec sites_update :: "string \<Rightarrow> bool \<Rightarrow> sites_msg \<Rightarrow> sites_page \<Rightarrow> sites_page" where
  "sites_update now confirmed OpenCreate s = open_create s"
| "sites_update now confirmed (OpenEdit x) s = open_edit x s"
| "sites_update now confirmed Submit s = handle_submit now s"
| "sites_update now confirmed (AskDelete x) s = handle_delete confirmed x s"
| "sites_update now confirmed (ToggleSite x) s = handle_toggle now x s"
| "sites_update now confirmed (SetName v) s = s\<lparr>sp_form := (sp_form s)\<lparr>f_name := v\<rparr>\<rparr>"
| "sites_update now confirmed (SetPort v) s = s\<lparr>sp_form := (sp_form s)\<lparr>f_port := parse_int_or_0 v\<rparr>\<rparr>"
| "sites_update now confirmed (SetPhp v) s = s\<lparr>sp_form := (sp_form s)\<lparr>f_php_version := v\<rparr>\<rparr>"
| "sites_update now confirmed (SetWebroot v) s = s\<lparr>sp_form := (sp_form s)\<lparr>f_webroot := v\<rparr>\<rparr>"
| "sites_update now confirmed (SetProfile v) s = s\<lparr>sp_site_profile := v\<rparr>"
| "sites_update now confirmed (ToggleExt n) s = s\<lparr>sp_site_exts := toggle n (sp_site_exts s)\<rparr>"
| "sites_update now confirmed CloseModal s = reset_form (sites_of s) (s\<lparr>sp_modal_open := False\<rparr>)"
| "sites_update now confirmed CloseToast s = s\<lparr>sp_toast := None\<rparr>"

section \<open>View\<close>

definition site_field :: "string \<Rightarrow> string \<Rightarrow> string \<Rightarrow> string \<Rightarrow> (string \<Rightarrow> 'm) \<Rightarrow> string \<Rightarrow> 'm vnode" where
  "site_field label ty val placeholder h hint =
     El ''div'' []
       ([El ''label'' [] [Txt label],
         El ''input'' [Attr ''type'' ty, Attr ''value'' val, OnChange h, Attr ''placeholder'' placeholder] []]
        @ only (hint \<noteq> '''') [El ''p'' [] [Txt hint]])"

definition plural :: "nat \<Rightarrow> string" where
  "plural n = (if n \<noteq> 1 then ''s'' else '''')"

definition count_title :: "nat \<Rightarrow> string \<Rightarrow> string" where
  "count_title n what = nat_to_str n @ '' '' @ what @ plural n"

definition ext_cell :: "site \<Rightarrow> 'm vnode" where
  "ext_cell x =
     (let exts = (case s_extensions x of None \<Rightarrow> [] | Some es \<Rightarrow> es)
      in if length exts > 0 then El ''span'' [] [Txt (count_title (length exts) ''ext'')]
         else if opt_or (s_profile x) '''' \<noteq> '''' then El ''span'' [] [Txt (opt_or (s_profile x) '''')]
         else El ''span'' [] [Txt ''default''])"

primrec site_badge_class :: "site_status \<Rightarrow> string" where
  "site_badge_class Active = ''bg-success/10 text-success''"
| "site_badge_class Errored = ''bg-error/10 text-error''"
| "site_badge_class Stopped = ''bg-bg text-text-muted''"

primrec site_dot_class :: "site_status \<Rightarrow> string" where
  "site_dot_class Active = ''bg-success''"
| "site_dot_class Errored = ''bg-error''"
| "site_dot_class Stopped = ''bg-text-muted''"

definition site_row :: "site \<Rightarrow> sites_msg vnode" where
  "site_row x =
     El ''tr'' [Attr ''key'' (s_id x)]
       [El ''td'' [] [El ''div'' [] [Txt (s_name x)], El ''div'' [] [Txt (s_id x)]],
        El ''td'' [] [El ''code'' [] [Txt (int_to_str (s_port x))]],
        El ''td'' [Attr ''title'' (s_webroot x)] [Txt (s_webroot x)],
        El ''td'' [] [Txt (s_php_version x)],
        El ''td'' [] [ext_cell x],
        El ''td'' []
          [El ''span'' [Class (site_badge_class (s_status x))]
            [El ''span'' [Class (site_dot_class (s_status x))] [],
             Txt (site_status_str (s_status x))]],
        El ''td'' []
          [El ''div'' []
            [El ''a'' [Attr ''href'' (''http://127.0.0.1:'' @ int_to_str (s_port x)), Attr ''title'' ''Open site'']
               [El ''ExternalLink'' [] []],
             El ''button'' [OnClick (ToggleSite x), Attr ''title'' (if s_status x = Active then ''Stop'' else ''Start'')]
               [if s_status x = Active then El ''Square'' [] [] else El ''Play'' [] []],
             El ''button'' [OnClick (OpenEdit x), Attr ''title'' ''Edit''] [El ''Pencil'' [] []],
             El ''button'' [OnClick (AskDelete x), Attr ''title'' ''Delete''] [El ''Trash2'' [] []]]]]"

definition sites_list :: "sites_page \<Rightarrow> sites_msg vnode" where
  "sites_list s =
     (if ua_loading (sp_api s) then El ''p'' [] [Txt ''Loading sites...'']
      else if length (sites_of s) = 0 then
        El ''div'' []
          [El ''Globe'' [] [],
           El ''p'' [] [Txt ''No sites yet''],
           El ''p'' [] [Txt ''Create your first site to get started'']]
      else
        El ''div'' []
          [El ''table'' []
            [El ''thead'' []
              [El ''tr'' []
                (map (\<lambda>h. El ''th'' [] [Txt h])
                  [''Name'', ''Port'', ''Webroot'', ''PHP'', ''Extensions'', ''Status'', ''Actions''])],
             El ''tbody'' [] (map site_row (sites_of s))]])"

definition ext_button :: "string list \<Rightarrow> string \<Rightarrow> sites_msg vnode" where
  "ext_button chosen n =
     (let on = (n \<in> set chosen)
      in El ''button''
           [OnClick (ToggleExt n),
            Class (if on then ''border-accent/30 bg-accent/10 text-accent''
                   else ''border-border text-text-muted hover:text-text hover:border-border-light'')]
           [Txt n, Txt (if on then '' '' @ check_glyph else '''')])"

definition site_form :: "sites_page \<Rightarrow> sites_msg vnode list" where
  "site_form s =
     [El ''div'' []
       [site_field ''Site Name'' ''text'' (f_name (sp_form s)) ''my-app'' SetName '''',
        El ''div'' []
          [site_field ''Port'' ''number'' (int_to_str (f_port (sp_form s))) ''8081'' SetPort '''',
           El ''div'' []
             [El ''label'' [] [Txt ''PHP Version''],
              El ''select'' [Attr ''value'' (f_php_version (sp_form s)), OnChange SetPhp]
                [El ''option'' [Attr ''value'' ''8.3''] [Txt ''PHP 8.3''],
                 El ''option'' [Attr ''value'' ''8.2''] [Txt ''PHP 8.2''],
                 El ''option'' [Attr ''value'' ''8.1''] [Txt ''PHP 8.1''],
                 El ''option'' [Attr ''value'' ''8.0''] [Txt ''PHP 8.0'']]]],
        site_field ''Webroot Directory'' ''text'' (f_webroot (sp_form s)) ''/var/www/my-app'' SetWebroot
          ''The content directory for this site. If empty, a directory will be created automatically.'',
        El ''hr'' [] [],
        El ''div'' []
          [El ''h4'' [] [El ''Puzzle'' [] [], Txt ''Extension Overrides''],
           El ''p'' [] [Txt ''Override gateway-wide extension settings for this site.''],
           El ''div'' []
             [El ''label'' [] [Txt ''Extension Profile''],
              El ''select'' [Attr ''value'' (sp_site_profile s), OnChange SetProfile]
                (map (\<lambda>p. El ''option'' [Attr ''value'' (fst p)]
                       [Txt (fst p), Txt ('' '' @ dash_glyph @ '' ''), Txt (snd p)]) site_profiles)],
           El ''div'' []
             [El ''label'' [] [Txt ''Individual Extensions''],
              El ''div'' [] (map (ext_button (sp_site_exts s)) site_all_extensions),
              El ''p'' [] [Txt ''Extensions checked here will be enabled for this site in addition to the profile.'']]],
        El ''div'' []
          [El ''button'' [OnClick CloseModal] [Txt ''Cancel''],
           El ''button'' [OnClick Submit, Disabled (f_name (sp_form s) = '''' \<or> f_port (sp_form s) = 0)]
             [Txt (if sp_editing s \<noteq> None then ''Save Changes'' else ''Create Site'')]]]]"

definition sites_view :: "sites_page \<Rightarrow> sites_msg vnode" where
  "sites_view s =
     El ''div'' []
       ([El ''div'' []
          [El ''div'' []
            [El ''h2'' [] [Txt ''Sites''],
             El ''p'' [] [Txt ''Manage your PHP sites. Each site runs on its own port with a dedicated webroot.'']],
           El ''button'' [OnClick OpenCreate] [El ''Plus'' [] [], Txt ''New Site'']],
         card (count_title (length (sites_of s)) ''site'') [sites_list s]]
        @ modal (sp_modal_open s) CloseModal
            (if sp_editing s \<noteq> None then ''Edit Site'' else ''Create Site'') (site_form s)
        @ toast_view (sp_toast s) CloseToast)"

section \<open>What the page offers\<close>

lemma offers_site_field [simp]: "offers (site_field l ty v p h hint) m \<longleftrightarrow> (\<exists>x. m = h x)"
  by (auto simp: site_field_def offers_simps)

lemma offers_ext_cell [simp]: "\<not> offers (ext_cell x) m"
  by (simp add: ext_cell_def offers_simps Let_def)

lemma offers_site_row [simp]:
  "offers (site_row x) m \<longleftrightarrow> m = ToggleSite x \<or> m = OpenEdit x \<or> m = AskDelete x"
  by (auto simp: site_row_def offers_simps)

lemma offers_ext_button [simp]: "offers (ext_button c n) m \<longleftrightarrow> m = ToggleExt n"
  by (auto simp: ext_button_def offers_simps Let_def)

lemma offers_sites_list:
  "offers (sites_list s) m \<longleftrightarrow>
     \<not> ua_loading (sp_api s) \<and> (\<exists>x \<in> set (sites_of s). m = ToggleSite x \<or> m = OpenEdit x \<or> m = AskDelete x)"
  by (auto simp: sites_list_def offers_simps list_ex_map list_ex_iff)

lemma offers_site_form:
  "list_ex (\<lambda>c. offers c m) (site_form s) \<longleftrightarrow>
     (\<exists>v. m = SetName v \<or> m = SetPort v \<or> m = SetWebroot v) \<or>
     (\<exists>v \<in> {''8.3'', ''8.2'', ''8.1'', ''8.0''}. m = SetPhp v) \<or>
     (\<exists>p \<in> set site_profiles. m = SetProfile (fst p)) \<or>
     (\<exists>n \<in> set site_all_extensions. m = ToggleExt n) \<or>
     m = CloseModal \<or> m = Submit \<and> f_name (sp_form s) \<noteq> '''' \<and> f_port (sp_form s) \<noteq> 0"
  unfolding site_form_def
  by (simp add: offers_simps list_ex_map list_ex_iff o_def) blast

lemma offers_sites_view:
  "offers (sites_view s) m \<longleftrightarrow>
     m = OpenCreate \<or>
     (\<not> ua_loading (sp_api s) \<and> (\<exists>x \<in> set (sites_of s). m = ToggleSite x \<or> m = OpenEdit x \<or> m = AskDelete x)) \<or>
     (sp_modal_open s \<and> (m = CloseModal \<or> list_ex (\<lambda>c. offers c m) (site_form s))) \<or>
     (sp_toast s \<noteq> None \<and> m = CloseToast)"
  by (auto simp: sites_view_def offers_simps offers_sites_list)

section \<open>Runs of the page\<close>

text \<open>
  A step is a user action the rendered page offers, the Escape key in the dialog, the timer of the
  toast, or the settling of an outstanding request, in any order.
\<close>

inductive sites_step :: "sites_page \<Rightarrow> sites_page \<Rightarrow> bool" where
  user: "offers (sites_view s) m \<Longrightarrow> sites_step s (sites_update now confirmed m s)"
| escape: "m \<in> set (modal_key (sp_modal_open s) key CloseModal) \<Longrightarrow>
    sites_step s (sites_update now confirmed m s)"
| toast_timer: "sp_toast s \<noteq> None \<Longrightarrow> sites_step s (sites_update now confirmed CloseToast s)"
| call_ok: "sp_pending s = cs @ c # ds \<Longrightarrow> sites_step s (sites_ok c (s\<lparr>sp_pending := cs @ ds\<rparr>))"
| call_fail: "sp_pending s = cs @ c # ds \<Longrightarrow> sites_step s (sites_fail e (s\<lparr>sp_pending := cs @ ds\<rparr>))"
| list_ok: "i \<in> set (ua_inflight (sp_api s)) \<Longrightarrow>
    sites_step s (s\<lparr>sp_api := ua_resolve i xs (sp_api s)\<rparr>)"
| list_fail: "i \<in> set (ua_inflight (sp_api s)) \<Longrightarrow>
    sites_step s (s\<lparr>sp_api := ua_reject i e (sp_api s)\<rparr>)"

inductive_cases sites_stepE: "sites_step s t"

definition sites_start :: "sites_page \<Rightarrow> bool" where
  "sites_start s \<longleftrightarrow> s = sites_init"

lemmas sites_defs =
  reset_form_def open_create_def open_edit_def handle_submit_def handle_delete_def handle_toggle_def
  send_def sites_refetch_def sites_fail_def Let_def

text \<open>The requests the page may send: the guard of the submit button reaches the wire.\<close>

definition sites_request_ok :: "request \<Rightarrow> bool" where
  "sites_request_ok r \<longleftrightarrow>
     r = getSites \<or>
     (\<exists>f. r = createSite f \<and> f_name f \<noteq> '''' \<and> f_port f \<noteq> 0) \<or>
     (\<exists>x now f p es. r = updateSite (s_id x) (edited_site now x f p es) \<and> f_name f \<noteq> '''' \<and> f_port f \<noteq> 0) \<or>
     (\<exists>x now. r = updateSite (s_id x) (x\<lparr>s_status := toggled_status x, s_updated_at := now\<rparr>)) \<or>
     (\<exists>i. r = deleteSite i)"

definition sites_inv :: "sites_page \<Rightarrow> bool" where
  "sites_inv s \<longleftrightarrow>
     (sp_modal_open s \<or> sp_editing s = None) \<and> ua_mounted (sp_api s) \<and>
     list_all sites_request_ok (sp_sent s)"

lemma sites_request_ok_getSites [simp]: "sites_request_ok getSites"
  by (simp add: sites_request_ok_def)

lemma sites_request_ok_edit:
  "f_name f \<noteq> '''' \<Longrightarrow> f_port f \<noteq> 0 \<Longrightarrow>
   sites_request_ok (updateSite (s_id x) (edited_site now x f p es))"
  unfolding sites_request_ok_def by blast

lemma sites_request_ok_toggle [simp]:
  "sites_request_ok (updateSite (s_id x) (x\<lparr>s_status := toggled_status x, s_updated_at := now\<rparr>))"
  unfolding sites_request_ok_def by blast

lemma sites_request_ok_delete [simp]: "sites_request_ok (deleteSite i)"
  by (auto simp: sites_request_ok_def)

lemma sites_request_ok_create:
  "f_name f \<noteq> '''' \<Longrightarrow> f_port f \<noteq> 0 \<Longrightarrow> sites_request_ok (createSite f)"
  by (auto simp: sites_request_ok_def)

lemma edited_site_id [simp]: "s_id (edited_site now x f p es) = s_id x"
  by (simp add: edited_site_def)

lemma sites_inv_update:
  assumes "sites_inv s" and "m = Submit \<Longrightarrow> f_name (sp_form s) \<noteq> '''' \<and> f_port (sp_form s) \<noteq> 0"
  shows "sites_inv (sites_update now confirmed m s)"
  using assms
  by (cases m) (auto simp: sites_inv_def sites_defs sites_request_ok_create sites_request_ok_edit split: option.splits)

lemma sites_inv_ok: "sites_inv s \<Longrightarrow> sites_inv (sites_ok c s)"
  by (cases c) (auto simp: sites_inv_def sites_defs)

lemma sites_inv_fail: "sites_inv s \<Longrightarrow> sites_inv (sites_fail e s)"
  by (auto simp: sites_inv_def sites_defs)

lemma sites_inv_step: "sites_step s t \<Longrightarrow> sites_inv s \<Longrightarrow> sites_inv t"
proof (induction rule: sites_step.induct)
  case (user s m now confirmed)
  then show ?case
    by (auto simp: offers_sites_view offers_site_form intro!: sites_inv_update)
next
  case (escape m s key now confirmed)
  then show ?case
    by (intro sites_inv_update) (auto simp: modal_key_def split: if_splits)
next
  case (toast_timer s now confirmed)
  then show ?case by (intro sites_inv_update) auto
next
  case (call_ok s cs c ds)
  then show ?case by (intro sites_inv_ok) (simp add: sites_inv_def)
next
  case (call_fail s cs c ds e)
  then show ?case by (intro sites_inv_fail) (simp add: sites_inv_def)
qed (auto simp: sites_inv_def)

interpretation sites: invariant_machine sites_start sites_step sites_inv
proof unfold_locales
  show "sites_inv s" if "sites_start s" for s
    using that by (simp add: sites_start_def sites_init_def sites_inv_def ua_defs)
  show "sites_inv t" if "sites_step s t" and "sites_inv s" for s t
    using that by (rule sites_inv_step)
qed

section \<open>Properties\<close>

text \<open>
  A run of the page with the user's actions on it: the page as it was rendered, the message, the clock and the answer of
  the \<open>confirm\<close> dialog. The other steps are those of \<open>sites_step\<close>.
\<close>

record sites_action =
  sa_page :: sites_page
  sa_msg :: sites_msg
  sa_now :: string
  sa_confirmed :: bool

inductive sites_run :: "sites_action list \<Rightarrow> sites_page \<Rightarrow> bool" where
  start: "sites_run [] sites_init"
| user: "sites_run as s \<Longrightarrow> offers (sites_view s) m \<Longrightarrow>
    sites_run (as @ [\<lparr>sa_page = s, sa_msg = m, sa_now = now, sa_confirmed = confirmed\<rparr>]) (sites_update now confirmed m s)"
| escape: "sites_run as s \<Longrightarrow> m \<in> set (modal_key (sp_modal_open s) key CloseModal) \<Longrightarrow>
    sites_run as (sites_update now confirmed m s)"
| toast_timer: "sites_run as s \<Longrightarrow> sp_toast s \<noteq> None \<Longrightarrow> sites_run as (sites_update now confirmed CloseToast s)"
| call_ok: "sites_run as s \<Longrightarrow> sp_pending s = cs @ c # ds \<Longrightarrow> sites_run as (sites_ok c (s\<lparr>sp_pending := cs @ ds\<rparr>))"
| call_fail: "sites_run as s \<Longrightarrow> sp_pending s = cs @ c # ds \<Longrightarrow> sites_run as (sites_fail e (s\<lparr>sp_pending := cs @ ds\<rparr>))"
| list_ok: "sites_run as s \<Longrightarrow> i \<in> set (ua_inflight (sp_api s)) \<Longrightarrow>
    sites_run as (s\<lparr>sp_api := ua_resolve i xs (sp_api s)\<rparr>)"
| list_fail: "sites_run as s \<Longrightarrow> i \<in> set (ua_inflight (sp_api s)) \<Longrightarrow>
    sites_run as (s\<lparr>sp_api := ua_reject i e (sp_api s)\<rparr>)"

lemma reachable_sites_run: "reachable sites_start sites_step s \<longleftrightarrow> (\<exists>as. sites_run as s)"
proof
  assume "reachable sites_start sites_step s"
  then show "\<exists>as. sites_run as s"
  proof (induction rule: reachable.induct)
    case (reachable_init s)
    then show ?case by (auto simp: sites_start_def intro: sites_run.start)
  next
    case (reachable_step s t)
    then obtain as where "sites_run as s" by blast
    with reachable_step(2) show ?case by (cases rule: sites_step.cases) (blast intro: sites_run.intros)+
  qed
next
  assume "\<exists>as. sites_run as s"
  then obtain as where "sites_run as s" ..
  then show "reachable sites_start sites_step s"
  proof induction
    case start
    then show ?case by (auto simp: sites_start_def intro: reachable_init)
  qed (blast intro: reachable_step sites_step.intros)+
qed

text \<open>What the user asks for with an action: the requests it should send.\<close>

definition asked_for :: "sites_action \<Rightarrow> request list" where
  "asked_for a =
     (let s = sa_page a; f = sp_form s
      in case sa_msg a of
           Submit \<Rightarrow>
             (case sp_editing s of
                None \<Rightarrow> [createSite f]
              | Some x \<Rightarrow> [updateSite (s_id x) (edited_site (sa_now a) x f (sp_site_profile s) (sp_site_exts s))])
         | AskDelete x \<Rightarrow> if sa_confirmed a then [deleteSite (s_id x)] else []
         | ToggleSite x \<Rightarrow> [updateSite (s_id x) (x\<lparr>s_status := toggled_status x, s_updated_at := sa_now a\<rparr>)]
         | _ \<Rightarrow> [])"

text \<open>When an action that sends something is possible.\<close>

definition action_guarded :: "sites_action \<Rightarrow> bool" where
  "action_guarded a =
     (case sa_msg a of
        Submit \<Rightarrow> sp_modal_open (sa_page a) \<and> f_name (sp_form (sa_page a)) \<noteq> '''' \<and> f_port (sp_form (sa_page a)) \<noteq> 0
      | AskDelete x \<Rightarrow> \<not> ua_loading (sp_api (sa_page a)) \<and> x \<in> set (sites_of (sa_page a))
      | ToggleSite x \<Rightarrow> \<not> ua_loading (sp_api (sa_page a)) \<and> x \<in> set (sites_of (sa_page a))
      | _ \<Rightarrow> True)"

lemma offered_guarded:
  "offers (sites_view s) m \<Longrightarrow> action_guarded \<lparr>sa_page = s, sa_msg = m, sa_now = now, sa_confirmed = confirmed\<rparr>"
  by (cases m) (auto simp: action_guarded_def offers_sites_view offers_site_form)

lemma not_getSites [simp]: "createSite f \<noteq> getSites" "updateSite i x \<noteq> getSites" "deleteSite i \<noteq> getSites"
  by (simp_all add: api_defs)

lemma sent_update:
  "filter (\<lambda>r. r \<noteq> getSites) (sp_sent (sites_update now confirmed m s)) =
     filter (\<lambda>r. r \<noteq> getSites) (sp_sent s) @
     asked_for \<lparr>sa_page = s, sa_msg = m, sa_now = now, sa_confirmed = confirmed\<rparr>"
  by (cases m) (simp_all add: asked_for_def sites_defs split: option.split)

lemma sent_run:
  "sites_run as s \<Longrightarrow>
     filter (\<lambda>r. r \<noteq> getSites) (sp_sent s) = concat (map asked_for as) \<and> (\<forall>a \<in> set as. action_guarded a)"
proof (induction rule: sites_run.induct)
  case start
  then show ?case by (simp add: sites_init_def)
next
  case (user as s m now confirmed)
  then show ?case by (auto simp: sent_update offered_guarded)
next
  case (escape as s m key now confirmed)
  then have "m = CloseModal" by (auto simp: modal_key_def split: if_splits)
  moreover have "asked_for \<lparr>sa_page = s, sa_msg = CloseModal, sa_now = now, sa_confirmed = confirmed\<rparr> = []" by (simp add: asked_for_def)
  ultimately show ?case using escape by (simp only: sent_update append_Nil2) simp
next
  case (toast_timer as s now confirmed)
  moreover have "asked_for \<lparr>sa_page = s, sa_msg = CloseToast, sa_now = now, sa_confirmed = confirmed\<rparr> = []" by (simp add: asked_for_def)
  ultimately show ?case by (simp only: sent_update append_Nil2) simp
next
  case (call_ok as s cs c ds)
  then show ?case by (cases c) (simp_all add: sites_defs)
next
  case (call_fail as s cs c ds e)
  then show ?case by (simp add: sites_defs)
qed simp_all

text \<open>C3. Apart from requests for the list, the page sends exactly what the user asks for, in this order, whatever the user does
  and in whatever order responses arrive: a creation or an edit for each submission of the dialog, which is only possible with a
  name and a non-zero port; a change of status for each click on the button of a listed site; and a deletion for
  each click on the button of a listed site that the user confirms. A deletion that is not confirmed sends nothing.\<close>

theorem sites_requests_guarded:
  assumes "sites_run as s"
  shows "filter (\<lambda>r. r \<noteq> getSites) (sp_sent s) = concat (map asked_for as) \<and> (\<forall>a \<in> set as. action_guarded a)"
  using assms by (rule sent_run)

lemma fold_max_ge: "x \<le> fold max ps (x :: int) \<and> (\<forall>p \<in> set ps. p \<le> fold max ps x)"
proof (induction ps arbitrary: x)
  case (Cons p ps)
  from Cons.IH [of "max p x"] show ?case by auto
qed simp

lemma fold_max_mem: "fold max ps (x :: int) \<in> insert x (set ps)"
proof (induction ps arbitrary: x)
  case (Cons p ps)
  from Cons.IH [of "max p x"] show ?case by (auto simp: max_def split: if_splits)
qed simp

text \<open>The port a new site is offered is above every port of the loaded sites, hence free among
  them, and it is the least such number; with no sites it is 8081.\<close>

theorem next_port_least_above:
  "next_port [] = 8081 \<and>
   (\<forall>x \<in> set sites. s_port x < next_port sites) \<and>
   (\<forall>p. sites \<noteq> [] \<and> (\<forall>x \<in> set sites. s_port x < p) \<longrightarrow> next_port sites \<le> p)"
proof (cases sites)
  case (Cons s ss)
  have mem: "fold max (map s_port ss) (s_port s) \<in> insert (s_port s) (set (map s_port ss))"
    by (rule fold_max_mem)
  have "next_port sites \<le> p" if "\<forall>x \<in> set sites. s_port x < p" for p
  proof -
    from mem that Cons have "fold max (map s_port ss) (s_port s) < p" by auto
    then show ?thesis by (simp add: next_port_def Cons)
  qed
  then show ?thesis
    using fold_max_ge [of "s_port s" "map s_port ss"] by (auto simp: next_port_def Cons)
qed (simp add: next_port_def)

text \<open>C39. Opening a site for editing and saving it without a change sends the site back as it
  was loaded, members the interface does not declare included, with only the time of the update
  changed.\<close>

theorem edit_unchanged_roundtrip:
  assumes "s_profile x \<noteq> Some ''''" and "s_extensions x \<noteq> Some []"
  shows "sp_sent (sites_update now c Submit (sites_update now c (OpenEdit x) s)) =
         sp_sent s @ [updateSite (s_id x) (x\<lparr>s_updated_at := now\<rparr>)]"
proof -
  have "edited_site now x (sp_form (open_edit x s)) (sp_site_profile (open_edit x s))
          (sp_site_exts (open_edit x s)) = x\<lparr>s_updated_at := now\<rparr>"
    using assms
    by (cases x) (auto simp: edited_site_def open_edit_def opt_or_def str_or_def split: option.splits)
  then show ?thesis by (simp add: handle_submit_def send_def open_edit_def)
qed

text \<open>The extension profile and the extensions chosen in the creation dialog never reach the
  gateway: the request is the same whatever was chosen.\<close>

theorem create_ignores_overrides:
  assumes "sp_editing s = None"
  shows "sp_sent (sites_update now c Submit (s\<lparr>sp_site_profile := p, sp_site_exts := es\<rparr>)) =
         sp_sent s @ [createSite (sp_form s)]"
  using assms by (simp add: handle_submit_def send_def)

text \<open>The row actions are offered exactly for the loaded sites, and only while no list request
  is being shown as loading.\<close>

theorem site_actions_offered:
  "offers (sites_view s) (AskDelete x) \<longleftrightarrow> \<not> ua_loading (sp_api s) \<and> x \<in> set (sites_of s)"
  by (auto simp: offers_sites_view offers_site_form)

lemma sites_reach_init: "reachable sites_start sites_step sites_init"
  by (rule reachable_init) (simp add: sites_start_def)

lemma sites_reach_user:
  "reachable sites_start sites_step s \<Longrightarrow> offers (sites_view s) m \<Longrightarrow>
   reachable sites_start sites_step (sites_update now c m s)"
  by (blast intro: reachable_step sites_step.user)

lemma sites_reach_list:
  "reachable sites_start sites_step s \<Longrightarrow> i \<in> set (ua_inflight (sp_api s)) \<Longrightarrow>
   reachable sites_start sites_step (s\<lparr>sp_api := ua_resolve i xs (sp_api s)\<rparr>)"
  by (blast intro: reachable_step sites_step.list_ok)

text \<open>The submit button stays enabled while its request is outstanding: a second click sends the
  creation again.\<close>

theorem double_submit_reachable:
  "\<exists>s f. reachable sites_start sites_step s \<and> sp_sent s = [getSites, createSite f, createSite f]"
proof -
  define f where "f = (empty_form 8081)\<lparr>f_name := ''blog''\<rparr>"
  define s1 where "s1 = sites_update '''' True OpenCreate sites_init"
  define s2 where "s2 = sites_update '''' True (SetName ''blog'') s1"
  define s3 where "s3 = sites_update '''' True Submit s2"
  have form2: "sp_form s2 = f" "sp_modal_open s2" "sp_editing s2 = None" "sp_sent s2 = [getSites]"
    by (simp_all add: s2_def s1_def f_def sites_init_def sites_defs empty_form_def next_port_def
        sites_of_def ua_defs)
  have guard: "f_name f \<noteq> ''''" "f_port f \<noteq> 0"
    by (simp_all add: f_def empty_form_def)
  have form3: "sp_form s3 = f" "sp_modal_open s3" "sp_editing s3 = None"
      "sp_sent s3 = [getSites, createSite f]"
    using form2 by (simp_all add: s3_def sites_defs)
  have r1: "reachable sites_start sites_step s1"
    unfolding s1_def by (rule sites_reach_user [OF sites_reach_init]) (simp add: offers_sites_view)
  have r2: "reachable sites_start sites_step s2"
    unfolding s2_def
    by (rule sites_reach_user [OF r1])
      (simp add: offers_sites_view offers_site_form s1_def sites_defs)
  have r3: "reachable sites_start sites_step s3"
    unfolding s3_def
    by (rule sites_reach_user [OF r2]) (use form2 guard in \<open>simp add: offers_sites_view offers_site_form\<close>)
  have r4: "reachable sites_start sites_step (sites_update '''' True Submit s3)"
    by (rule sites_reach_user [OF r3]) (use form3 guard in \<open>simp add: offers_sites_view offers_site_form\<close>)
  have "sp_sent (sites_update '''' True Submit s3) = [getSites, createSite f, createSite f]"
    using form3 by (simp add: sites_defs)
  with r4 show ?thesis by blast
qed

text \<open>Witnesses: a site that was loaded, edited and submitted.\<close>

definition demo_site :: site where
  "demo_site =
     \<lparr>s_id = ''blog'', s_name = ''Blog'', s_port = 8081, s_webroot = ''/srv/blog'', s_domain = '''',
      s_php_version = ''8.3'', s_status = Active, s_routes = 0, s_ssl = False,
      s_created_at = ''2025-01-01T00:00:00Z'', s_updated_at = ''2025-01-01T00:00:00Z'',
      s_extensions = Some [''curl''], s_profile = None, s_rest = [(''root'', JStr '''')]\<rparr>"

text \<open>The site is loaded; a first deletion is not confirmed, a second one is.\<close>

definition demo_listed :: sites_page where
  "demo_listed = sites_init\<lparr>sp_api := ua_resolve 0 [demo_site] (sp_api sites_init)\<rparr>"

definition demo_delete :: "bool \<Rightarrow> sites_action" where
  "demo_delete confirmed = \<lparr>sa_page = demo_listed, sa_msg = AskDelete demo_site, sa_now = '''', sa_confirmed = confirmed\<rparr>"

lemma demo_delete_run:
  "sites_run [demo_delete False, demo_delete True] (handle_delete True demo_site demo_listed)"
proof -
  have flight: "0 \<in> set (ua_inflight (sp_api sites_init))" by (simp add: sites_init_def ua_defs)
  have r: "sites_run [] demo_listed"
    unfolding demo_listed_def by (rule sites_run.list_ok [OF sites_run.start flight])
  have offer: "offers (sites_view demo_listed) (AskDelete demo_site)"
    by (simp add: offers_sites_view demo_listed_def sites_of_def sites_init_def ua_defs)
  have same: "sites_update '''' False (AskDelete demo_site) demo_listed = demo_listed" by (simp add: handle_delete_def)
  have "sites_run [demo_delete False] demo_listed"
    using sites_run.user [OF r offer, of "''''" False] unfolding same demo_delete_def by simp
  from sites_run.user [OF this offer, of "''''" True] show ?thesis by (simp add: demo_delete_def)
qed

theorem sites_requests_guarded_witness:
  "sites_run [demo_delete False, demo_delete True] (handle_delete True demo_site demo_listed) \<and>
   filter (\<lambda>r. r \<noteq> getSites) (sp_sent (handle_delete True demo_site demo_listed)) = [deleteSite ''blog''] \<and>
   demo_site \<in> set (sites_of demo_listed)"
proof -
  from sites_requests_guarded [OF demo_delete_run]
  have "filter (\<lambda>r. r \<noteq> getSites) (sp_sent (handle_delete True demo_site demo_listed)) =
      asked_for (demo_delete False) @ asked_for (demo_delete True)" and "action_guarded (demo_delete True)"
    by simp_all
  then show ?thesis using demo_delete_run
    by (simp add: asked_for_def action_guarded_def demo_delete_def demo_site_def Let_def)
qed

theorem next_port_least_above_witness:
  "next_port [demo_site, demo_site\<lparr>s_port := 9000\<rparr>] = 9001"
proof -
  have "\<forall>x \<in> set [demo_site, demo_site\<lparr>s_port := 9000\<rparr>].
      s_port x < next_port [demo_site, demo_site\<lparr>s_port := 9000\<rparr>]"
    using next_port_least_above by blast
  moreover have "next_port [demo_site, demo_site\<lparr>s_port := 9000\<rparr>] \<le> 9001"
    using next_port_least_above [of "[demo_site, demo_site\<lparr>s_port := 9000\<rparr>]"]
    by (simp add: demo_site_def)
  ultimately show ?thesis by simp
qed

theorem edit_unchanged_roundtrip_witness:
  "s_profile demo_site \<noteq> Some '''' \<and> s_extensions demo_site \<noteq> Some [] \<and>
   sp_sent (sites_update ''now'' True Submit (sites_update ''now'' True (OpenEdit demo_site) sites_init)) =
     [getSites, updateSite ''blog'' (demo_site\<lparr>s_updated_at := ''now''\<rparr>)]"
proof -
  have h: "s_profile demo_site \<noteq> Some ''''" "s_extensions demo_site \<noteq> Some []"
    by (simp_all add: demo_site_def)
  have i: "s_id demo_site = ''blog''" "sp_sent sites_init = [getSites]"
    by (simp_all add: demo_site_def sites_init_def)
  show ?thesis using edit_unchanged_roundtrip [OF h, of "''now''" True sites_init] h i by simp
qed

theorem create_ignores_overrides_witness:
  "sp_editing sites_init = None \<and>
   sp_sent (sites_update '''' True Submit (sites_init\<lparr>sp_site_profile := ''laravel'', sp_site_exts := [''gd'']\<rparr>)) =
     [getSites, createSite (empty_form 8081)]"
proof -
  have h: "sp_editing sites_init = None" by (simp add: sites_init_def)
  have i: "sp_sent sites_init = [getSites]" "sp_form sites_init = empty_form 8081"
    by (simp_all add: sites_init_def)
  show ?thesis using create_ignores_overrides [OF h, where now = "''''" and c = True and p = "''laravel''" and es = "[''gd'']"] h i by simp
qed

end
