(* ===== verification/DeploymentsPage.thy ===== *)
theory DeploymentsPage
  imports Client View
begin

text \<open>
  \<open>dashboard/src/pages/Deployments.tsx\<close>: the page that creates, activates and rolls back releases.
  The state, the split of the handlers at their \<open>await\<close> and the runs follow \<open>SitesPage\<close>.
  Local time is a parameter of the view: \<open>fmt_date\<close> is \<open>new Date(s).toLocaleString()\<close>.
\<close>

datatype deploy_call = CallCreate string | CallActivate string | CallRollback

record deploy_page =
  dp_api :: "release list use_api"
  dp_modal_open :: bool
  dp_version :: string
  dp_toast :: "toast option"
  dp_pending :: "deploy_call list"
  dp_sent :: "request list"

datatype deploy_msg =
    DCreate | DActivate string | DRollback | DOpenModal | DCloseModal | DSetVersion string | DCloseToast

definition deploy_init :: deploy_page where
  "deploy_init =
     \<lparr>dp_api = ua_start, dp_modal_open = False, dp_version = ''1.0.1'', dp_toast = None,
      dp_pending = [], dp_sent = [getDeployments]\<rparr>"

text \<open>\<open>data?.releases || []\<close>.\<close>

definition releases_of :: "deploy_page \<Rightarrow> release list" where
  "releases_of s = (case ua_data (dp_api s) of None \<Rightarrow> [] | Some xs \<Rightarrow> xs)"

definition deploy_send :: "request \<Rightarrow> deploy_call \<Rightarrow> deploy_page \<Rightarrow> deploy_page" where
  "deploy_send r c s = s\<lparr>dp_sent := dp_sent s @ [r], dp_pending := dp_pending s @ [c]\<rparr>"

definition handle_create :: "deploy_page \<Rightarrow> deploy_page" where
  "handle_create s = deploy_send (createDeployment (dp_version s) None) (CallCreate (dp_version s)) s"

definition handle_activate :: "string \<Rightarrow> deploy_page \<Rightarrow> deploy_page" where
  "handle_activate i s = deploy_send (activateDeployment i) (CallActivate i) s"

definition handle_rollback :: "deploy_page \<Rightarrow> deploy_page" where
  "handle_rollback s = deploy_send rollbackDeployment CallRollback s"

definition deploy_refetch :: "deploy_page \<Rightarrow> deploy_page" where
  "deploy_refetch s = s\<lparr>dp_api := ua_load (dp_api s), dp_sent := dp_sent s @ [getDeployments]\<rparr>"

primrec deploy_update :: "deploy_msg \<Rightarrow> deploy_page \<Rightarrow> deploy_page" where
  "deploy_update DCreate s = handle_create s"
| "deploy_update (DActivate i) s = handle_activate i s"
| "deploy_update DRollback s = handle_rollback s"
| "deploy_update DOpenModal s = s\<lparr>dp_modal_open := True\<rparr>"
| "deploy_update DCloseModal s = s\<lparr>dp_modal_open := False\<rparr>"
| "deploy_update (DSetVersion v) s = s\<lparr>dp_version := v\<rparr>"
| "deploy_update DCloseToast s = s\<lparr>dp_toast := None\<rparr>"

text \<open>The handlers after their request succeeded, and after it failed: each has its own fallback.\<close>

primrec deploy_ok :: "deploy_call \<Rightarrow> deploy_page \<Rightarrow> deploy_page" where
  "deploy_ok (CallCreate v) s =
     deploy_refetch (s\<lparr>dp_toast := Some (mk_toast TSuccess (''Deployment release v'' @ v @ '' created'')),
                       dp_modal_open := False\<rparr>)"
| "deploy_ok (CallActivate i) s =
     deploy_refetch (s\<lparr>dp_toast := Some (mk_toast TSuccess (''Release '' @ i @ '' activated successfully''))\<rparr>)"
| "deploy_ok CallRollback s =
     deploy_refetch (s\<lparr>dp_toast := Some (mk_toast TSuccess ''Rolled back to previous active release'')\<rparr>)"

primrec deploy_fallback :: "deploy_call \<Rightarrow> string" where
  "deploy_fallback (CallCreate v) = ''Deployment failed''"
| "deploy_fallback (CallActivate i) = ''Activation failed''"
| "deploy_fallback CallRollback = ''Rollback failed''"

definition deploy_fail :: "deploy_call \<Rightarrow> js_exn \<Rightarrow> deploy_page \<Rightarrow> deploy_page" where
  "deploy_fail c e s = s\<lparr>dp_toast := Some (mk_toast TError (exn_message (deploy_fallback c) e))\<rparr>"

section \<open>View\<close>

definition release_badge_class :: "release_state \<Rightarrow> string" where
  "release_badge_class st =
     (if st = RActive then ''bg-success/10 text-success''
      else if st = RFailed then ''bg-error/10 text-error''
      else ''bg-bg text-text-muted'')"

definition release_row :: "(string \<Rightarrow> string) \<Rightarrow> release \<Rightarrow> deploy_msg vnode" where
  "release_row fmt_date r =
     El ''tr'' [Attr ''key'' (r_id r)]
       [El ''td'' [] [Txt (r_id r)],
        El ''td'' [] [El ''span'' [] [Txt (r_version r)]],
        El ''td'' []
          [El ''span'' [Class (release_badge_class (r_state r))]
            [if r_state r = RActive then El ''CheckCircle'' [] [] else El ''Clock'' [] [],
             Txt (release_state_str (r_state r))]],
        El ''td'' [] [Txt (fmt_date (r_created_at r))],
        El ''td'' []
          (only (r_state r \<noteq> RActive) [El ''button'' [OnClick (DActivate (r_id r))] [Txt ''Activate'']])]"

definition release_list :: "(string \<Rightarrow> string) \<Rightarrow> deploy_page \<Rightarrow> deploy_msg vnode" where
  "release_list fmt_date s =
     (if ua_loading (dp_api s) then El ''p'' [] [Txt ''Loading releases...'']
      else if length (releases_of s) = 0 then
        El ''div'' []
          [El ''Rocket'' [] [],
           El ''p'' [] [Txt ''No deployments yet''],
           El ''p'' [] [Txt ''Create your first zero-downtime release snapshot'']]
      else
        El ''div'' []
          [El ''table'' []
            [El ''thead'' []
              [El ''tr'' []
                (map (\<lambda>h. El ''th'' [] [Txt h])
                  [''Release ID'', ''Version'', ''State'', ''Created At'', ''Actions''])],
             El ''tbody'' [] (map (release_row fmt_date) (releases_of s))]])"

definition release_form :: "deploy_page \<Rightarrow> deploy_msg vnode list" where
  "release_form s =
     [El ''div'' []
       [El ''div'' []
          [El ''label'' [] [Txt ''Release Version''],
           El ''input'' [Attr ''type'' ''text'', Attr ''value'' (dp_version s), OnChange DSetVersion,
                         Attr ''placeholder'' ''1.0.1''] []],
        El ''div'' []
          [El ''AlertCircle'' [] [],
           El ''span'' [] [Txt ''This will snapshot current application files into an immutable release directory. You can activate it immediately or later.'']],
        El ''div'' []
          [El ''button'' [OnClick DCloseModal] [Txt ''Cancel''],
           El ''button'' [OnClick DCreate] [Txt ''Create Release'']]]]"

definition deploy_view :: "(string \<Rightarrow> string) \<Rightarrow> deploy_page \<Rightarrow> deploy_msg vnode" where
  "deploy_view fmt_date s =
     El ''div'' []
       ([El ''div'' []
          [El ''div'' []
            [El ''h2'' [] [Txt ''Zero-Downtime Deployments''],
             El ''p'' [] [Txt ''Manage immutable release snapshots and atomic symlink switches.'']],
           El ''div'' []
            [El ''button'' [OnClick DRollback] [El ''RotateCcw'' [] [], Txt ''Rollback''],
             El ''button'' [OnClick DOpenModal] [El ''Plus'' [] [], Txt ''New Release'']]],
         card (nat_to_str (length (releases_of s)) @ '' Release'' @
                (if length (releases_of s) \<noteq> 1 then ''s'' else '''')) [release_list fmt_date s]]
        @ modal (dp_modal_open s) DCloseModal ''Create New Release'' (release_form s)
        @ toast_view (dp_toast s) DCloseToast)"

lemma offers_release_row [simp]:
  "offers (release_row fd r) m \<longleftrightarrow> r_state r \<noteq> RActive \<and> m = DActivate (r_id r)"
  by (auto simp: release_row_def offers_simps)

lemma offers_release_list:
  "offers (release_list fd s) m \<longleftrightarrow>
     \<not> ua_loading (dp_api s) \<and> (\<exists>r \<in> set (releases_of s). r_state r \<noteq> RActive \<and> m = DActivate (r_id r))"
  by (auto simp: release_list_def offers_simps list_ex_map list_ex_iff)

lemma offers_release_form:
  "list_ex (\<lambda>c. offers c m) (release_form s) \<longleftrightarrow>
     (\<exists>v. m = DSetVersion v) \<or> m = DCloseModal \<or> m = DCreate"
  by (auto simp: release_form_def offers_simps)

lemma offers_deploy_view:
  "offers (deploy_view fd s) m \<longleftrightarrow>
     m = DRollback \<or> m = DOpenModal \<or> offers (release_list fd s) m \<or>
     (dp_modal_open s \<and> (m = DCloseModal \<or> list_ex (\<lambda>c. offers c m) (release_form s))) \<or>
     (dp_toast s \<noteq> None \<and> m = DCloseToast)"
  by (auto simp: deploy_view_def offers_simps)

section \<open>Runs of the page\<close>

inductive deploy_step :: "(string \<Rightarrow> string) \<Rightarrow> deploy_page \<Rightarrow> deploy_page \<Rightarrow> bool" for fmt_date where
  user: "offers (deploy_view fmt_date s) m \<Longrightarrow> deploy_step fmt_date s (deploy_update m s)"
| escape: "m \<in> set (modal_key (dp_modal_open s) key DCloseModal) \<Longrightarrow>
    deploy_step fmt_date s (deploy_update m s)"
| toast_timer: "dp_toast s \<noteq> None \<Longrightarrow> deploy_step fmt_date s (deploy_update DCloseToast s)"
| call_ok: "dp_pending s = cs @ c # ds \<Longrightarrow> deploy_step fmt_date s (deploy_ok c (s\<lparr>dp_pending := cs @ ds\<rparr>))"
| call_fail: "dp_pending s = cs @ c # ds \<Longrightarrow> deploy_step fmt_date s (deploy_fail c e (s\<lparr>dp_pending := cs @ ds\<rparr>))"
| list_ok: "i \<in> set (ua_inflight (dp_api s)) \<Longrightarrow>
    deploy_step fmt_date s (s\<lparr>dp_api := ua_resolve i xs (dp_api s)\<rparr>)"
| list_fail: "i \<in> set (ua_inflight (dp_api s)) \<Longrightarrow>
    deploy_step fmt_date s (s\<lparr>dp_api := ua_reject i e (dp_api s)\<rparr>)"

definition deploy_start :: "deploy_page \<Rightarrow> bool" where
  "deploy_start s \<longleftrightarrow> s = deploy_init"

text \<open>
  What a call that is still outstanding says about the wire: its request has been sent, and every
  successful end is followed by a request of the list.
\<close>

primrec call_request :: "deploy_call \<Rightarrow> request" where
  "call_request (CallCreate v) = createDeployment v None"
| "call_request (CallActivate i) = activateDeployment i"
| "call_request CallRollback = rollbackDeployment"

definition deploy_inv :: "deploy_page \<Rightarrow> bool" where
  "deploy_inv s \<longleftrightarrow>
     ua_mounted (dp_api s) \<and>
     (\<forall>c \<in> set (dp_pending s). call_request c \<in> set (dp_sent s)) \<and>
     count_list (dp_sent s) getDeployments = ua_issued (dp_api s)"

lemmas deploy_defs =
  deploy_send_def handle_create_def handle_activate_def handle_rollback_def deploy_refetch_def
  deploy_fail_def

lemma getDeployments_neq [simp]:
  "createDeployment v d \<noteq> getDeployments" "activateDeployment i \<noteq> getDeployments"
  "rollbackDeployment \<noteq> getDeployments"
  by (simp_all add: api_defs)

lemma deploy_inv_update: "deploy_inv s \<Longrightarrow> deploy_inv (deploy_update m s)"
  by (cases m) (auto simp: deploy_inv_def deploy_defs)

lemma deploy_inv_ok: "deploy_inv s \<Longrightarrow> deploy_inv (deploy_ok c s)"
  by (cases c) (auto simp: deploy_inv_def deploy_defs)

lemma deploy_inv_step: "deploy_step fd s t \<Longrightarrow> deploy_inv s \<Longrightarrow> deploy_inv t"
proof (induction rule: deploy_step.induct)
  case (call_ok s cs c ds)
  then show ?case by (intro deploy_inv_ok) (auto simp: deploy_inv_def)
next
  case (call_fail s cs c ds e)
  then show ?case by (auto simp: deploy_inv_def deploy_fail_def)
next
  case (list_ok i s xs)
  then show ?case by (simp add: deploy_inv_def)
next
  case (list_fail i s e)
  then show ?case by (simp add: deploy_inv_def)
qed (simp_all only: deploy_inv_update)

interpretation deployments: invariant_machine deploy_start "deploy_step fd" deploy_inv
  for fd :: "string \<Rightarrow> string"
proof unfold_locales
  show "deploy_inv s" if "deploy_start s" for s
    using that by (simp add: deploy_start_def deploy_init_def deploy_inv_def ua_defs)
  show "deploy_inv t" if "deploy_step fd s t" and "deploy_inv s" for s t
    using that by (rule deploy_inv_step)
qed

section \<open>Properties\<close>

lemma deploy_user_sends:
  "dp_sent (deploy_update m s) = dp_sent s @ [activateDeployment i] \<Longrightarrow> m = DActivate i"
  by (cases m) (auto simp: deploy_defs api_defs)

text \<open>An activation request goes out only for a release that the page lists at that moment and
  that the list does not show as active.\<close>

theorem activation_only_for_listed_inactive:
  assumes "deploy_step fd s t" and "dp_sent t = dp_sent s @ [activateDeployment i]"
  shows "\<exists>r \<in> set (releases_of s). r_id r = i \<and> r_state r \<noteq> RActive"
  using assms
proof (induction rule: deploy_step.induct)
  case (user s m)
  then have "m = DActivate i" by (simp add: deploy_user_sends)
  with user show ?case by (auto simp: offers_deploy_view offers_release_list offers_release_form)
next
  case (escape m s key)
  then show ?case by (auto simp: modal_key_def split: if_splits)
next
  case (call_ok s cs c ds)
  then show ?case by (cases c) (auto simp: deploy_defs api_defs)
qed (auto simp: deploy_defs)

text \<open>In every run, each outstanding creation, activation or rollback has been sent, and the list
  has been requested exactly as often as the list hook has issued a fetch.\<close>

theorem deployments_requests_accounted:
  assumes "reachable deploy_start (deploy_step fd) s"
  shows "(\<forall>c \<in> set (dp_pending s). call_request c \<in> set (dp_sent s)) \<and>
         count_list (dp_sent s) getDeployments = ua_issued (dp_api s)"
  using deployments.reachable_inv [OF assms]
  by (simp add: deploy_inv_def)

theorem activation_only_for_listed_inactive_witness:
  "\<exists>s t r. deploy_step id s t \<and> dp_sent t = dp_sent s @ [activateDeployment ''rel_1''] \<and>
     r \<in> set (releases_of s) \<and> r_id r = ''rel_1'' \<and> r_state r \<noteq> RActive"
proof -
  define r where "r = \<lparr>r_id = ''rel_1'', r_version = ''1.0.1'', r_runtime_id = ''php8.3'',
    r_state = RCreated, r_created_at = '''', r_activated_at = None, r_deactivated_at = None,
    r_dir = ''releases/archive/rel_1'', r_metadata = None\<rparr>"
  define s where "s = deploy_init\<lparr>dp_api := ua_resolve 0 [r] ua_start\<rparr>"
  have s: "releases_of s = [r]" "\<not> ua_loading (dp_api s)"
    by (simp_all add: s_def releases_of_def ua_defs)
  have "offers (deploy_view id s) (DActivate ''rel_1'')"
    using s by (simp add: offers_deploy_view offers_release_list r_def)
  then have step: "deploy_step id s (deploy_update (DActivate ''rel_1'') s)"
    by (rule deploy_step.user)
  have sent: "dp_sent (deploy_update (DActivate ''rel_1'') s) = dp_sent s @ [activateDeployment ''rel_1'']"
    by (simp add: deploy_defs)
  from activation_only_for_listed_inactive [OF step sent] step sent show ?thesis by blast
qed

theorem deployments_requests_accounted_witness:
  "reachable deploy_start (deploy_step id) deploy_init \<and>
   count_list (dp_sent deploy_init) getDeployments = ua_issued (dp_api deploy_init)"
proof -
  have h: "reachable deploy_start (deploy_step id) deploy_init"
    by (rule reachable_init) (simp add: deploy_start_def)
  from deployments_requests_accounted [OF h] h show ?thesis by simp
qed

end
