(* ===== verification/ConfigPage.thy ===== *)
theory ConfigPage
  imports Client View "HOL-Library.Sublist"
begin

text \<open>
  \<open>dashboard/src/pages/Config.tsx\<close>: the form that edits the gateway configuration. The configuration
  is kept as the JSON value it is at run time, because \<open>update\<close> writes into it along a path given as
  a string. Reading a member of something that is not an object throws: an edit that throws leaves
  the state as it is, and a render that throws (\<open>None\<close>) takes the application down.
  The values on the paths of the form are objects or primitives; arrays are never traversed.
\<close>

section \<open>Paths in a JSON object\<close>

definition set_member :: "string \<Rightarrow> json \<Rightarrow> (string \<times> json) list \<Rightarrow> (string \<times> json) list" where
  "set_member k v ms =
     (if k \<in> fst ` set ms then map (\<lambda>(k', x). if k' = k then (k', v) else (k', x)) ms
      else ms @ [(k, v)])"

fun get_path :: "string list \<Rightarrow> json \<Rightarrow> json option" where
  "get_path [] j = Some j"
| "get_path (k # ks) (JObj ms) =
     (case member_of k ms of None \<Rightarrow> None | Some j \<Rightarrow> get_path ks j)"
| "get_path (k # ks) j = None"

text \<open>The loop of \<open>update\<close> over the keys, on a clone of the configuration.\<close>

fun set_path :: "string list \<Rightarrow> json \<Rightarrow> json \<Rightarrow> json option" where
  "set_path [k] v (JObj ms) = Some (JObj (set_member k v ms))"
| "set_path (k # l # ks) v (JObj ms) =
     (case member_of k ms of
        None \<Rightarrow> None
      | Some j \<Rightarrow> map_option (\<lambda>j'. JObj (set_member k j' ms)) (set_path (l # ks) v j))"
| "set_path ks v j = None"

lemma map_of_map_val:
  "map_of (map (\<lambda>(k', x). if k' = k then (k', v) else (k', x)) ms) l =
     (if l = k \<and> k \<in> fst ` set ms then Some v else map_of ms l)"
proof (induction ms)
  case (Cons m ms)
  then show ?case by (cases m; cases "l = k"; cases "fst m = k") simp_all
qed simp

lemma member_of_set_member:
  "member_of l (set_member k v ms) = (if l = k then Some v else member_of l ms)"
proof (cases "k \<in> fst ` set ms")
  case True
  have "rev (map (\<lambda>(k', x). if k' = k then (k', v) else (k', x)) ms)
      = map (\<lambda>(k', x). if k' = k then (k', v) else (k', x)) (rev ms)"
    by (simp only: rev_map)
  with True show ?thesis
    by (simp only: member_of_def set_member_def if_True map_of_map_val set_rev simp_thms)
next
  case False
  then show ?thesis by (simp add: member_of_def set_member_def)
qed

lemma member_set_same [simp]: "member_of k (set_member k v ms) = Some v"
  by (simp add: member_of_set_member)

lemma member_set_other [simp]: "l \<noteq> k \<Longrightarrow> member_of l (set_member k v ms) = member_of l ms"
  by (simp add: member_of_set_member)

lemma get_set_path: "set_path ks v j = Some j' \<Longrightarrow> get_path ks j' = Some v"
  by (induction ks v j arbitrary: j' rule: set_path.induct) (auto split: option.splits)

lemma get_set_path_other:
  "set_path ks v j = Some j' \<Longrightarrow> \<not> prefix ks ls \<Longrightarrow> \<not> prefix ls ks \<Longrightarrow> get_path ls j' = get_path ls j"
proof (induction ks v j arbitrary: j' ls rule: set_path.induct)
  case (1 k v ms)
  then show ?case by (cases ls) auto
next
  case (2 k l ks v ms)
  obtain a as where ls: "ls = a # as" using 2(4) by (cases ls) auto
  from 2(2) obtain j0 j1 where m: "member_of k ms = Some j0" "set_path (l # ks) v j0 = Some j1"
      "j' = JObj (set_member k j1 ms)"
    by (auto split: option.splits)
  show ?case
  proof (cases "a = k")
    case True
    with 2(3,4) ls have "\<not> prefix (l # ks) as" "\<not> prefix as (l # ks)" by auto
    with 2(1) m True ls show ?thesis by simp
  next
    case False
    with m ls show ?thesis by simp
  qed
qed auto

text \<open>An edit throws exactly when a proper prefix of its path does not lead to an object.\<close>

lemma set_path_Some_iff:
  "set_path (ks @ [k]) v j \<noteq> None \<longleftrightarrow> (\<exists>ms. get_path ks j = Some (JObj ms))"
proof (induction ks arbitrary: j)
  case Nil
  then show ?case by (cases j) auto
next
  case (Cons a ks)
  show ?case
  proof (cases j)
    case (JObj ms)
    obtain b bs where b: "ks @ [k] = b # bs" by (cases ks) auto
    with Cons.IH JObj show ?thesis by (auto split: option.splits)
  qed (cases ks; simp)+
qed

section \<open>State and handlers\<close>

record config_page =
  cf_api :: "json use_api"
  cf_local :: "json option"
  cf_toast :: "toast option"
  cf_saving :: bool
  cf_pending :: "json list"
  cf_sent :: "request list"

datatype config_msg = CfgSet string json | CfgReset | CfgSave | CfgCloseToast

definition config_init :: config_page where
  "config_init =
     \<lparr>cf_api = ua_start, cf_local = None, cf_toast = None, cf_saving = False, cf_pending = [],
      cf_sent = [getConfig]\<rparr>"

text \<open>\<open>if (config) setLocal(structuredClone(config))\<close>: the effect on \<open>[config]\<close> and the reset button.\<close>

definition set_local :: "config_page \<Rightarrow> config_page" where
  "set_local s =
     (case ua_data (cf_api s) of
        None \<Rightarrow> s
      | Some c \<Rightarrow> if truthy c then s\<lparr>cf_local := Some c\<rparr> else s)"

definition config_response :: "nat \<Rightarrow> json \<Rightarrow> config_page \<Rightarrow> config_page" where
  "config_response i c s =
     (let s' = s\<lparr>cf_api := ua_resolve i c (cf_api s)\<rparr>
      in if ua_mounted (cf_api s) then set_local s' else s')"

definition handle_save :: "config_page \<Rightarrow> config_page" where
  "handle_save s =
     (case cf_local s of
        None \<Rightarrow> s
      | Some c \<Rightarrow> s\<lparr>cf_saving := True, cf_sent := cf_sent s @ [saveConfig c],
                     cf_pending := cf_pending s @ [c]\<rparr>)"

definition save_ok :: "config_page \<Rightarrow> config_page" where
  "save_ok s =
     s\<lparr>cf_toast := Some (mk_toast TSuccess ''Configuration saved''),
       cf_api := ua_load (cf_api s), cf_sent := cf_sent s @ [getConfig], cf_saving := False\<rparr>"

definition save_fail :: "js_exn \<Rightarrow> config_page \<Rightarrow> config_page" where
  "save_fail e s =
     s\<lparr>cf_toast := Some (mk_toast TError (exn_message ''Failed to save'' e)), cf_saving := False\<rparr>"

definition config_set :: "string \<Rightarrow> json \<Rightarrow> config_page \<Rightarrow> config_page" where
  "config_set path v s =
     (case cf_local s of
        None \<Rightarrow> s
      | Some c \<Rightarrow>
          (case set_path (split_on (CHR ''.'') path) v c of
             None \<Rightarrow> s
           | Some next_cfg \<Rightarrow> s\<lparr>cf_local := Some next_cfg\<rparr>))"

primrec config_update :: "config_msg \<Rightarrow> config_page \<Rightarrow> config_page" where
  "config_update (CfgSet path v) s = config_set path v s"
| "config_update CfgReset s = set_local s"
| "config_update CfgSave s = handle_save s"
| "config_update CfgCloseToast s = s\<lparr>cf_toast := None\<rparr>"

section \<open>View\<close>

definition config_field :: "string \<Rightarrow> string \<Rightarrow> string \<Rightarrow> (string \<Rightarrow> 'm) \<Rightarrow> 'm vnode" where
  "config_field label ty val h =
     El ''div'' []
       [El ''label'' [] [Txt label],
        El ''input'' [Attr ''type'' ty, Attr ''value'' val, OnChange h] []]"

definition select_field :: "string \<Rightarrow> string \<Rightarrow> string list \<Rightarrow> (string \<Rightarrow> 'm) \<Rightarrow> 'm vnode" where
  "select_field label val options h =
     El ''div'' []
       [El ''label'' [] [Txt label],
        El ''select'' [Attr ''value'' val, OnChange h]
          (map (\<lambda>x. El ''option'' [Attr ''key'' x, Attr ''value'' x] [Txt x]) options)]"

text \<open>The text an input shows for the member of a section; an absent or null member shows nothing.\<close>

definition shown_value :: "string \<Rightarrow> (string \<times> json) list \<Rightarrow> string" where
  "shown_value k ms =
     (case member_of k ms of None \<Rightarrow> '''' | Some j \<Rightarrow> if j = JNull then '''' else js_string j)"

definition number_value :: "string \<Rightarrow> (string \<times> json) list \<Rightarrow> string" where
  "number_value k ms = (case member_of k ms of None \<Rightarrow> ''undefined'' | Some j \<Rightarrow> js_string j)"

text \<open>
  \<open>local.server\<close> as the source of further members: \<open>None\<close> when reading them throws, no members
  when the value is a primitive.
\<close>

definition section_of :: "string \<Rightarrow> json \<Rightarrow> (string \<times> json) list option" where
  "section_of k c = Option.bind (get_path [k] c) members_of"

text \<open>\<open>(local.security.protected_patterns || []).map\<close>: \<open>None\<close> if the value has no \<open>map\<close>.\<close>

definition patterns_of :: "(string \<times> json) list \<Rightarrow> string list option" where
  "patterns_of ms =
     (case member_of ''protected_patterns'' ms of
        None \<Rightarrow> Some []
      | Some j \<Rightarrow> if \<not> truthy j then Some []
                  else (case j of JArr xs \<Rightarrow> those (map child_text xs) | _ \<Rightarrow> None))"

definition edit :: "string \<Rightarrow> string \<Rightarrow> config_msg" where
  "edit path v = CfgSet path (JStr v)"

definition edit_number :: "string \<Rightarrow> string \<Rightarrow> config_msg" where
  "edit_number path v = CfgSet path (JNum (parse_int_or_0 v))"

definition config_form ::
  "bool \<Rightarrow> (string \<times> json) list \<Rightarrow> (string \<times> json) list \<Rightarrow> (string \<times> json) list \<Rightarrow> (string \<times> json) list
    \<Rightarrow> string list \<Rightarrow> config_msg vnode list" where
  "config_form saving srv php logging sec patterns =
     [El ''div'' []
       [El ''div'' []
         [El ''h2'' [] [Txt ''Configuration''],
          El ''p'' [] [Txt ''Edit gateway configuration. Changes require a save to take effect.'']],
        El ''div'' []
         [El ''button'' [OnClick CfgReset] [El ''RotateCcw'' [] [], Txt ''Reset''],
          El ''button'' [OnClick CfgSave, Disabled saving]
            [El ''Save'' [] [], Txt (if saving then ''Saving...'' else ''Save'')]]],
      El ''div'' []
       [card ''Server''
         [El ''div'' []
           [config_field ''Listen Address'' ''text'' (shown_value ''addr'' srv) (edit ''server.addr''),
            config_field ''Read Timeout'' ''text'' (shown_value ''read_timeout'' srv) (edit ''server.read_timeout''),
            config_field ''Write Timeout'' ''text'' (shown_value ''write_timeout'' srv) (edit ''server.write_timeout'')]],
        card ''PHP-FPM''
         [El ''div'' []
           [config_field ''Binary Path'' ''text'' (shown_value ''binary'' php) (edit ''php.binary''),
            config_field ''Socket Path'' ''text'' (shown_value ''socket_path'' php) (edit ''php.socket_path''),
            config_field ''Max Children'' ''number'' (number_value ''max_children'' php) (edit_number ''php.max_children''),
            config_field ''Request Timeout'' ''text'' (shown_value ''request_timeout'' php) (edit ''php.request_timeout'')]],
        card ''Logging''
         [El ''div'' []
           [select_field ''Format'' (shown_value ''format'' logging) [''json'', ''text''] (edit ''logging.format''),
            select_field ''Level'' (shown_value ''level'' logging) [''debug'', ''info'', ''warn'', ''error''] (edit ''logging.level'')]],
        card ''Security''
         [El ''div'' []
           [select_field ''Symlink Mode'' (shown_value ''symlink_mode'' sec) [''within_root'', ''deny''] (edit ''security.symlink_mode''),
            config_field ''Max Body Size'' ''text'' (shown_value ''max_body_size'' sec) (edit ''security.max_body_size''),
            El ''div'' []
             [El ''label'' [] [Txt ''Protected Patterns''],
              El ''div'' [] (map (\<lambda>p. El ''span'' [] [Txt p]) patterns)]]]]]"

definition config_view :: "config_page \<Rightarrow> config_msg vnode option" where
  "config_view s =
     (case (if ua_loading (cf_api s) then None else cf_local s) of
        None \<Rightarrow> Some (El ''div'' [] [Txt ''Loading configuration...''])
      | Some c \<Rightarrow>
          (case (section_of ''server'' c, section_of ''php'' c, section_of ''logging'' c, section_of ''security'' c) of
             (Some srv, Some php, Some logging, Some sec) \<Rightarrow>
               map_option (\<lambda>ps. El ''div'' []
                   (config_form (cf_saving s) srv php logging sec ps @ toast_view (cf_toast s) CfgCloseToast))
                 (patterns_of sec)
           | _ \<Rightarrow> None))"

lemma offers_config_field [simp]: "offers (config_field l t v h) m \<longleftrightarrow> (\<exists>x. m = h x)"
  by (auto simp: config_field_def offers_simps)

lemma option_values_select [simp]:
  "concat (map (option_values \<circ> (\<lambda>x. El ''option'' [Attr ''key'' x, Attr ''value'' x] [Txt x])) xs) = xs"
  by (induction xs) simp_all

lemma offers_select_field [simp]: "offers (select_field l v opts h) m \<longleftrightarrow> (\<exists>x \<in> set opts. m = h x)"
  by (auto simp: select_field_def offers_simps list_ex_map list_ex_iff)

text \<open>The paths the form writes, and the strings its inputs can write there.\<close>

definition text_paths :: "string list" where
  "text_paths =
     [''server.addr'', ''server.read_timeout'', ''server.write_timeout'', ''php.binary'', ''php.socket_path'',
      ''php.request_timeout'', ''logging.format'', ''logging.level'', ''security.symlink_mode'',
      ''security.max_body_size'']"

lemma offers_config_form:
  "list_ex (\<lambda>c. offers c m) (config_form saving srv php lo se ps) \<Longrightarrow>
     m = CfgReset \<or> (m = CfgSave \<and> \<not> saving) \<or>
     (\<exists>p \<in> set text_paths. \<exists>v. m = edit p v) \<or> (\<exists>v. m = edit_number ''php.max_children'' v)"
  unfolding config_form_def text_paths_def
  by (simp add: offers_simps list_ex_map list_ex_iff o_def) blast

section \<open>Runs of the page\<close>

text \<open>
  \<open>good\<close> is what the server may return as its configuration. A user acts on what is rendered; a
  state whose render throws offers nothing.
\<close>

inductive config_step :: "(json \<Rightarrow> bool) \<Rightarrow> config_page \<Rightarrow> config_page \<Rightarrow> bool" for good where
  user: "config_view s = Some v \<Longrightarrow> offers v m \<Longrightarrow> config_step good s (config_update m s)"
| toast_timer: "cf_toast s \<noteq> None \<Longrightarrow> config_step good s (config_update CfgCloseToast s)"
| saved: "cf_pending s = cs @ c # ds \<Longrightarrow> config_step good s (save_ok (s\<lparr>cf_pending := cs @ ds\<rparr>))"
| not_saved: "cf_pending s = cs @ c # ds \<Longrightarrow> config_step good s (save_fail e (s\<lparr>cf_pending := cs @ ds\<rparr>))"
| loaded: "i \<in> set (ua_inflight (cf_api s)) \<Longrightarrow> good c \<Longrightarrow> config_step good s (config_response i c s)"
| not_loaded: "i \<in> set (ua_inflight (cf_api s)) \<Longrightarrow>
    config_step good s (s\<lparr>cf_api := ua_reject i e (cf_api s)\<rparr>)"

lemma config_step_mono: "config_step good s t \<Longrightarrow> (\<And>c. good c \<Longrightarrow> good' c) \<Longrightarrow> config_step good' s t"
proof (induction rule: config_step.induct)
  case (user s v m)
  then show ?case by (intro config_step.user)
next
  case (toast_timer s)
  then show ?case by (intro config_step.toast_timer)
next
  case (loaded i s c)
  then show ?case by (intro config_step.loaded)
qed (blast intro: config_step.saved config_step.not_saved config_step.not_loaded)+

definition config_start :: "config_page \<Rightarrow> bool" where
  "config_start s \<longleftrightarrow> s = config_init"

lemmas config_defs =
  set_local_def config_response_def handle_save_def save_ok_def save_fail_def config_set_def Let_def

text \<open>What the form shows is what can be edited: a toast button, the buttons or a path of the form.\<close>

lemma offers_config_view:
  assumes "config_view s = Some v" and "offers v m"
  shows "m = CfgCloseToast \<or> m = CfgReset \<or> (m = CfgSave \<and> \<not> cf_saving s) \<or>
     (\<exists>p \<in> set text_paths. \<exists>x. m = edit p x) \<or> (\<exists>x. m = edit_number ''php.max_children'' x)"
proof -
  have "m = CfgCloseToast \<or>
      (\<exists>srv php lo se ps. list_ex (\<lambda>c. offers c m) (config_form (cf_saving s) srv php lo se ps))"
    using assms by (auto simp: config_view_def offers_simps split: option.splits if_splits)
  then show ?thesis using offers_config_form by blast
qed

lemma config_pending_simps [simp]:
  "cf_pending (set_local s) = cf_pending s" "cf_saving (set_local s) = cf_saving s"
  "cf_pending (config_response i c s) = cf_pending s" "cf_saving (config_response i c s) = cf_saving s"
  "cf_pending (config_set p v s) = cf_pending s" "cf_saving (config_set p v s) = cf_saving s"
  "cf_sent (set_local s) = cf_sent s" "cf_sent (config_set p v s) = cf_sent s"
  "cf_sent (config_response i c s) = cf_sent s"
  by (auto simp: config_defs split: option.splits)

lemma config_view_shows:
  assumes "config_view s = Some v" and "offers v m"
  shows "m = CfgCloseToast \<or> cf_local s \<noteq> None"
  using assms by (auto simp: config_view_def offers_simps split: option.splits if_splits)

interpretation config_save: single_flight config_start "config_step good" cf_saving cf_pending
  for good :: "json \<Rightarrow> bool"
proof unfold_locales
  show "\<not> cf_saving s \<and> cf_pending s = []" if "config_start s" for s
    using that by (simp add: config_start_def config_init_def)
  show "cf_saving t = cf_saving s \<and> cf_pending t = cf_pending s
      \<or> \<not> cf_saving s \<and> cf_saving t \<and> (\<exists>c. cf_pending t = cf_pending s @ [c])
      \<or> (\<exists>xs c ys. cf_pending s = xs @ c # ys \<and> cf_pending t = xs @ ys) \<and> \<not> cf_saving t"
    if "config_step good s t" for s t
    using that
  proof (induction rule: config_step.induct)
    case (user s v m)
    from offers_config_view [OF this] config_view_shows [OF this] show ?case
      by (auto simp: edit_def edit_number_def handle_save_def)
  next
    case (saved s cs c ds)
    then show ?case by (auto simp: save_ok_def)
  next
    case (not_saved s cs c ds e)
    then show ?case by (auto simp: save_fail_def)
  qed simp_all
qed

section \<open>A configuration the form can show\<close>

definition config_sections :: "string list" where
  "config_sections = [''server'', ''php'', ''logging'', ''security'']"

text \<open>What \<open>GatewayConfig\<close> of \<open>types/index.ts\<close> promises, as far as the form relies on it.\<close>

definition config_ok :: "json \<Rightarrow> bool" where
  "config_ok c \<longleftrightarrow>
     list_all (\<lambda>k. case get_path [k] c of Some (JObj ms) \<Rightarrow> True | _ \<Rightarrow> False) config_sections \<and>
     (case section_of ''security'' c of None \<Rightarrow> False | Some se \<Rightarrow> patterns_of se \<noteq> None)"

lemma section_of_obj: "section_of k c = Some ms" if "get_path [k] c = Some (JObj ms)"
  using that by (simp add: section_of_def)

lemma config_ok_iff:
  "config_ok c \<longleftrightarrow>
     (\<forall>k \<in> set config_sections. \<exists>ms. get_path [k] c = Some (JObj ms)) \<and>
     (\<exists>se. get_path [''security''] c = Some (JObj se) \<and> patterns_of se \<noteq> None)"
proof -
  have k: "(case get_path [k] c of Some (JObj ms) \<Rightarrow> True | _ \<Rightarrow> False) \<longleftrightarrow>
      (\<exists>ms. get_path [k] c = Some (JObj ms))" for k
    by (simp split: option.split json.split)
  have mem: "''security'' \<in> set config_sections" by (simp add: config_sections_def)
  have "(case section_of ''security'' c of None \<Rightarrow> False | Some se \<Rightarrow> patterns_of se \<noteq> None) \<longleftrightarrow>
      patterns_of se \<noteq> None"
    if "get_path [''security''] c = Some (JObj se)" for se
    using that by (simp only: section_of_obj option.case)
  with mem show ?thesis unfolding config_ok_def k list_all_iff by fastforce
qed

lemma config_ok_truthy: "config_ok c \<Longrightarrow> truthy c"
  by (cases c) (auto simp: config_ok_iff config_sections_def)

lemma config_ok_sections:
  assumes "config_ok c"
  obtains srv php lo se ps where
    "section_of ''server'' c = Some srv" "section_of ''php'' c = Some php"
    "section_of ''logging'' c = Some lo" "section_of ''security'' c = Some se" "patterns_of se = Some ps"
proof -
  have sec: "\<exists>ms. section_of k c = Some ms" if "k \<in> set config_sections" for k
    using assms that section_of_obj unfolding config_ok_iff by blast
  have "\<exists>se ps. section_of ''security'' c = Some se \<and> patterns_of se = Some ps"
    using assms section_of_obj unfolding config_ok_iff by blast
  then obtain se ps where se: "section_of ''security'' c = Some se" "patterns_of se = Some ps" by blast
  have "\<exists>srv. section_of ''server'' c = Some srv" "\<exists>php. section_of ''php'' c = Some php"
    "\<exists>lo. section_of ''logging'' c = Some lo"
    by (rule sec; simp add: config_sections_def)+
  with se that show thesis by blast
qed

text \<open>The paths of the form have two parts: a section, and a field other than the pattern list.\<close>

lemma form_path_parts:
  "p \<in> set (''php.max_children'' # text_paths) \<Longrightarrow>
     \<exists>a b. split_on (CHR ''.'') p = [a, b] \<and> a \<in> set config_sections \<and> b \<noteq> ''protected_patterns''"
  by (auto simp: text_paths_def config_sections_def)

lemma config_ok_set_path:
  assumes "config_ok c" and "a \<in> set config_sections" and "b \<noteq> ''protected_patterns''"
  shows "\<exists>c'. set_path [a, b] v c = Some c' \<and> config_ok c'"
proof -
  from assms obtain ms where ms: "get_path [a] c = Some (JObj ms)"
    unfolding config_ok_iff by blast
  then obtain top where top: "c = JObj top" by (cases c) auto
  with ms have mem: "member_of a top = Some (JObj ms)" by (auto split: option.splits)
  define c' where "c' = JObj (set_member a (JObj (set_member b v ms)) top)"
  have set: "set_path [a, b] v c = Some c'" by (simp add: top mem c'_def)
  have other: "get_path [k] c' = get_path [k] c" if "k \<noteq> a" for k
    using that by (simp add: c'_def top)
  have this_one: "get_path [a] c' = Some (JObj (set_member b v ms))" by (simp add: c'_def)
  have pats: "patterns_of (set_member b v ms) = patterns_of ms"
    using assms(3) by (simp add: patterns_of_def)
  have "\<exists>ms. get_path [k] c' = Some (JObj ms)" if "k \<in> set config_sections" for k
    using assms(1) that other [of k] this_one unfolding config_ok_iff by (cases "k = a") auto
  moreover have "\<exists>se. get_path [''security''] c' = Some (JObj se) \<and> patterns_of se \<noteq> None"
  proof (cases "a = ''security''")
    case True
    with assms(1) ms pats this_one show ?thesis unfolding config_ok_iff by auto
  next
    case False
    with assms(1) other show ?thesis unfolding config_ok_iff by metis
  qed
  ultimately show ?thesis using set unfolding config_ok_iff by blast
qed

definition config_inv :: "config_page \<Rightarrow> bool" where
  "config_inv s \<longleftrightarrow>
     ua_mounted (cf_api s) \<and> pred_option config_ok (ua_data (cf_api s)) \<and> pred_option config_ok (cf_local s)"

lemma config_inv_set_local: "config_inv s \<Longrightarrow> config_inv (set_local s)"
  by (auto simp: config_inv_def set_local_def split: option.splits)

lemma config_inv_edit:
  assumes "config_inv s" and "p \<in> set (''php.max_children'' # text_paths)"
  shows "config_inv (config_set p v s)"
proof (cases "cf_local s")
  case None
  with assms(1) show ?thesis by (simp add: config_set_def)
next
  case (Some c)
  from form_path_parts [OF assms(2)] obtain a b where
    p: "split_on (CHR ''.'') p = [a, b]" "a \<in> set config_sections" "b \<noteq> ''protected_patterns''" by blast
  from assms(1) Some have "config_ok c" by (simp add: config_inv_def)
  from config_ok_set_path [OF this p(2,3)] obtain c' where
    "set_path [a, b] v c = Some c'" "config_ok c'" by blast
  with assms(1) Some p(1) show ?thesis by (simp add: config_inv_def config_set_def del: set_path.simps)
qed

lemma config_inv_step: "config_step config_ok s t \<Longrightarrow> config_inv s \<Longrightarrow> config_inv t"
proof (induction rule: config_step.induct)
  case (user s v m)
  from offers_config_view [OF user(1,2)] show ?case
  proof (elim disjE bexE exE conjE)
    fix p x assume "p \<in> set text_paths" "m = edit p x"
    with config_inv_edit [OF user(3), of p] show ?thesis by (simp add: edit_def)
  next
    fix x assume "m = edit_number ''php.max_children'' x"
    with config_inv_edit [OF user(3), of "''php.max_children''"] show ?thesis by (simp add: edit_number_def)
  next
    assume "m = CfgReset"
    with user(3) show ?thesis by (simp add: config_inv_set_local)
  qed (use user(3) in \<open>auto simp: config_inv_def handle_save_def split: option.splits\<close>)
next
  case (loaded i s c)
  then have "config_inv (s\<lparr>cf_api := ua_resolve i c (cf_api s)\<rparr>)" by (simp add: config_inv_def ua_defs)
  then show ?case by (simp add: config_response_def Let_def config_inv_set_local)
qed (auto simp: config_inv_def save_ok_def save_fail_def)

interpretation config: invariant_machine config_start "config_step config_ok" config_inv
proof unfold_locales
  show "config_inv s" if "config_start s" for s
    using that by (simp add: config_start_def config_init_def config_inv_def ua_defs)
  show "config_inv t" if "config_step config_ok s t" and "config_inv s" for s t
    using that by (rule config_inv_step)
qed

section \<open>Properties\<close>

lemma config_ok_view: "pred_option config_ok (cf_local s) \<Longrightarrow> config_view s \<noteq> None"
  by (cases "cf_local s") (auto simp: config_view_def elim!: config_ok_sections split: option.splits)

text \<open>C4. If the server only ever answers with configurations that have the promised shape, then in
  every run, whatever was typed, saved, reset or refetched, the configuration page renders: no read of a
  missing section and no \<open>map\<close> of a value that is not a list takes the application down.\<close>

theorem config_page_always_renders:
  assumes "reachable config_start (config_step config_ok) s"
  shows "config_view s \<noteq> None"
  using config.reachable_inv [OF assms] by (simp add: config_inv_def config_ok_view)

text \<open>In every run, whatever the server answers, at most one save is outstanding: exactly one while
  the button reads ``Saving...'', none otherwise.\<close>

theorem config_saves_one_at_a_time:
  assumes "reachable config_start (config_step good) s"
  shows "length (cf_pending s) = (if cf_saving s then 1 else 0)"
  using config_save.one_outstanding [OF assms] .

text \<open>On a configuration of the promised shape, typing in a field of the form succeeds, sets exactly
  the member that the field names, leaves the member behind every other field alone, and the result has
  the promised shape again.\<close>

theorem form_edits_are_independent:
  assumes "cf_local s = Some c" and "config_ok c"
    and "p \<in> set (''php.max_children'' # text_paths)" and "q \<in> set (''php.max_children'' # text_paths)"
    and "p \<noteq> q"
  shows "\<exists>c'. cf_local (config_set p v s) = Some c' \<and> config_ok c' \<and>
     get_path (split_on (CHR ''.'') p) c' = Some v \<and>
     get_path (split_on (CHR ''.'') q) c' = get_path (split_on (CHR ''.'') q) c"
proof -
  from form_path_parts [OF assms(3)] obtain a b where
    p: "split_on (CHR ''.'') p = [a, b]" "a \<in> set config_sections" "b \<noteq> ''protected_patterns''" by blast
  from form_path_parts [OF assms(4)] obtain a' b' where q: "split_on (CHR ''.'') q = [a', b']" by blast
  from config_ok_set_path [OF assms(2) p(2,3)] obtain c' where
    c': "set_path [a, b] v c = Some c'" "config_ok c'" by blast
  have "[a, b] \<noteq> [a', b']" using assms(5) p(1) q split_on_inj [of "CHR ''.''" p q] by metis
  then have "\<not> prefix [a, b] [a', b']" "\<not> prefix [a', b'] [a, b]" by auto
  with get_set_path_other [OF c'(1)] get_set_path [OF c'(1)] c' assms(1) p(1) q show ?thesis
    by (simp add: config_set_def del: set_path.simps get_path.simps)
qed

text \<open>The number field shows an edited number as it was typed: after typing the decimal text of a
  number into ``Max Children'', the configuration holds that number and the field shows the same text.\<close>

theorem max_children_roundtrip:
  assumes "cf_local s = Some c" and "config_ok c"
  shows "\<exists>c' php. cf_local (config_update (edit_number ''php.max_children'' (int_to_str n)) s) = Some c' \<and>
     section_of ''php'' c' = Some php \<and> member_of ''max_children'' php = Some (JNum n) \<and>
     number_value ''max_children'' php = int_to_str n"
proof -
  have sp: "split_on (CHR ''.'') ''php.max_children'' = [''php'', ''max_children'']" by simp
  have "\<exists>c'. set_path [''php'', ''max_children''] (JNum n) c = Some c' \<and> config_ok c'"
    by (rule config_ok_set_path [OF assms(2)]) (simp_all add: config_sections_def)
  then obtain c' where c': "set_path [''php'', ''max_children''] (JNum n) c = Some c'" "config_ok c'" by blast
  then have upd: "cf_local (config_update (edit_number ''php.max_children'' (int_to_str n)) s) = Some c'"
    using assms(1) by (simp add: edit_number_def config_set_def sp parse_int_or_0_def del: set_path.simps split_on.simps)
  from c'(2) obtain php where php: "get_path [''php''] c' = Some (JObj php)"
    unfolding config_ok_iff by (auto simp: config_sections_def)
  from get_set_path [OF c'(1)] php have "member_of ''max_children'' php = Some (JNum n)"
    by (cases c') (auto split: option.splits)
  with upd section_of_obj [OF php] show ?thesis by (simp add: number_value_def)
qed

text \<open>A save request carries the configuration that the form shows at that moment, and is only sent
  while no other save is outstanding.\<close>

theorem save_sends_what_is_shown:
  assumes "config_step good s t" and "cf_sent t = cf_sent s @ [saveConfig c]"
  shows "cf_local s = Some c \<and> \<not> cf_saving s \<and> \<not> ua_loading (cf_api s)"
  using assms
proof (induction rule: config_step.induct)
  case (user s v m)
  have "m = CfgSave"
    using user(3) by (cases m) auto
  moreover have "\<not> ua_loading (cf_api s)"
    using user(1,2) \<open>m = CfgSave\<close> by (auto simp: config_view_def offers_simps split: if_splits)
  ultimately show ?case
    using user(3) offers_config_view [OF user(1,2)]
    by (auto simp: handle_save_def edit_def edit_number_def api_defs split: option.splits)
qed (auto simp: save_ok_def save_fail_def api_defs)

section \<open>Witnesses\<close>

definition demo_config :: json where
  "demo_config =
     JObj [(''server'', JObj [(''addr'', JStr '':8080'')]),
           (''php'', JObj [(''max_children'', JNum 5)]),
           (''logging'', JObj [(''format'', JStr ''json'')]),
           (''security'', JObj [(''protected_patterns'', JArr [JStr ''.env''])])]"

definition demo_loaded :: config_page where
  "demo_loaded = config_response 0 demo_config config_init"

lemma demo_config_ok: "config_ok demo_config"
  by (simp add: config_ok_def demo_config_def config_sections_def section_of_def patterns_of_def member_of_def)

lemma demo_loaded_state:
  "cf_local demo_loaded = Some demo_config" "ua_loading (cf_api demo_loaded) = False"
  "cf_saving demo_loaded = False" "cf_pending demo_loaded = []"
  by (simp_all add: demo_loaded_def config_defs config_init_def ua_defs config_ok_truthy [OF demo_config_ok])

lemma demo_reachable: "reachable config_start (config_step config_ok) demo_loaded"
proof (rule reachable_step [where s = config_init])
  show "reachable config_start (config_step config_ok) config_init"
    by (rule reachable_init) (simp add: config_start_def)
  show "config_step config_ok config_init demo_loaded"
    unfolding demo_loaded_def using demo_config_ok
    by (intro config_step.loaded) (simp_all add: config_init_def ua_defs)
qed

lemma demo_save_offered: "\<exists>v. config_view demo_loaded = Some v \<and> offers v CfgSave"
proof -
  have "\<exists>v. config_view demo_loaded = Some v"
    using config_ok_view [of demo_loaded] demo_config_ok by (auto simp: demo_loaded_state)
  then obtain v where v: "config_view demo_loaded = Some v" by blast
  have "list_ex (\<lambda>c. offers c CfgSave) (config_form False srv php lo se ps)" for srv php lo se ps
    by (simp add: config_form_def offers_simps)
  with v have "offers v CfgSave"
    by (auto simp: config_view_def demo_loaded_state offers_simps split: option.splits)
  with v show ?thesis by blast
qed

lemma demo_save_step: "config_step good demo_loaded (handle_save demo_loaded)"
  using demo_save_offered config_step.user by fastforce

theorem config_page_always_renders_witness:
  "reachable config_start (config_step config_ok) demo_loaded \<and> config_view demo_loaded \<noteq> None"
  using config_page_always_renders [OF demo_reachable] demo_reachable by simp

theorem config_saves_one_at_a_time_witness:
  "reachable config_start (config_step config_ok) (handle_save demo_loaded) \<and>
   cf_pending (handle_save demo_loaded) = [demo_config] \<and> cf_saving (handle_save demo_loaded)"
proof -
  have h: "reachable config_start (config_step config_ok) (handle_save demo_loaded)"
    by (rule reachable_step [OF demo_reachable demo_save_step])
  from config_saves_one_at_a_time [OF h] h show ?thesis by (simp add: handle_save_def demo_loaded_state)
qed

theorem form_edits_are_independent_witness:
  "\<exists>c'. cf_local (config_set ''server.addr'' (JStr '':80'') demo_loaded) = Some c' \<and> config_ok c' \<and>
     get_path [''server'', ''addr''] c' = Some (JStr '':80'') \<and>
     get_path [''php'', ''max_children''] c' = Some (JNum 5)"
  using form_edits_are_independent [OF demo_loaded_state(1) demo_config_ok,
      of "''server.addr''" "''php.max_children''" "JStr '':80''"]
  by (simp add: text_paths_def demo_config_def member_of_def del: config_update.simps)

theorem max_children_roundtrip_witness:
  "\<exists>c' php. cf_local (config_update (edit_number ''php.max_children'' (int_to_str 12)) demo_loaded) = Some c' \<and>
     section_of ''php'' c' = Some php \<and> member_of ''max_children'' php = Some (JNum 12) \<and>
     number_value ''max_children'' php = int_to_str 12"
  by (rule max_children_roundtrip [OF demo_loaded_state(1) demo_config_ok])

theorem save_sends_what_is_shown_witness:
  "config_step config_ok demo_loaded (handle_save demo_loaded) \<and>
   cf_sent (handle_save demo_loaded) = cf_sent demo_loaded @ [saveConfig demo_config] \<and>
   cf_local demo_loaded = Some demo_config"
proof -
  have sent: "cf_sent (handle_save demo_loaded) = cf_sent demo_loaded @ [saveConfig demo_config]"
    by (simp add: handle_save_def demo_loaded_state)
  from save_sends_what_is_shown [OF demo_save_step sent] show ?thesis
    using sent demo_save_step [of config_ok] by simp
qed

end
