(* ===== verification/LogsPage.thy ===== *)
theory LogsPage
  imports Client View
begin

text \<open>
  \<open>dashboard/src/pages/Logs.tsx\<close>: the live log. The page shows a snapshot fetched over HTTP and
  appends what the WebSocket delivers; it polls every three seconds while the socket is down.

  The use of \<open>useInterval\<close> is an \<open>interval\<close> whose saved function is represented by the value of
  \<open>wsConnected\<close> it closes over. A change of \<open>wsConnected\<close> renders the page again, which hands the
  interval its new function and period.
\<close>

record logs_response =
  lr_entries :: "log_entry list option"
  lr_total :: int

record logs_page =
  lg_api :: "logs_response use_api"
  lg_entries :: "log_entry list"
  lg_search :: string
  lg_level :: string
  lg_ws_connected :: bool
  lg_ws_open :: bool
  lg_interval :: "bool interval"
  lg_sent :: "request list"

datatype logs_msg = SetSearch string | SetLevel string | Refresh

definition ws_url :: "string \<Rightarrow> string \<Rightarrow> string" where
  "ws_url protocol host = (if protocol = ''https:'' then ''wss:'' else ''ws:'') @ ''//'' @ host @ ''/api/ws/logs''"

definition poll_period :: "bool \<Rightarrow> nat option" where
  "poll_period connected = (if connected then None else Some 3000)"

definition logs_init :: logs_page where
  "logs_init =
     \<lparr>lg_api = ua_start, lg_entries = [], lg_search = '''', lg_level = ''all'',
      lg_ws_connected = False, lg_ws_open = True,
      lg_interval = iv_mount False (poll_period False), lg_sent = [getLogs]\<rparr>"

section \<open>Effects and handlers\<close>

definition logs_refetch :: "logs_page \<Rightarrow> logs_page" where
  "logs_refetch s = s\<lparr>lg_api := ua_load (lg_api s), lg_sent := lg_sent s @ [getLogs]\<rparr>"

text \<open>A response of \<open>getLogs\<close>, and the effect on \<open>[data]\<close> that follows it.\<close>

definition data_effect :: "logs_page \<Rightarrow> logs_page" where
  "data_effect s =
     (case ua_data (lg_api s) of
        None \<Rightarrow> s
      | Some r \<Rightarrow> (case lr_entries r of None \<Rightarrow> s | Some es \<Rightarrow> s\<lparr>lg_entries := es\<rparr>))"

definition on_response :: "nat \<Rightarrow> logs_response \<Rightarrow> logs_page \<Rightarrow> logs_page" where
  "on_response i r s = data_effect (s\<lparr>lg_api := ua_resolve i r (lg_api s)\<rparr>)"

text \<open>\<open>setWsConnected(b)\<close>, the render after it and the effects of the interval.\<close>

definition set_connected :: "bool \<Rightarrow> logs_page \<Rightarrow> logs_page" where
  "set_connected b s =
     s\<lparr>lg_ws_connected := b, lg_interval := iv_render b (poll_period b) (lg_interval s)\<rparr>"

text \<open>\<open>ws.onmessage\<close>: \<open>None\<close> is a message that \<open>JSON.parse\<close> rejects.\<close>

definition on_message :: "log_entry option \<Rightarrow> logs_page \<Rightarrow> logs_page" where
  "on_message evt s =
     (case evt of
        None \<Rightarrow> s
      | Some entry \<Rightarrow> s\<lparr>lg_entries := take_last 499 (lg_entries s) @ [entry]\<rparr>)"

text \<open>The body of the interval: \<open>if (!wsConnected) refetch()\<close>, once per live timer.\<close>

definition on_tick :: "logs_page \<Rightarrow> logs_page" where
  "on_tick s = fold (\<lambda>connected. if \<not> connected then logs_refetch else id) (iv_fire (lg_interval s)) s"

primrec logs_update :: "logs_msg \<Rightarrow> logs_page \<Rightarrow> logs_page" where
  "logs_update (SetSearch v) s = s\<lparr>lg_search := v\<rparr>"
| "logs_update (SetLevel v) s = s\<lparr>lg_level := v\<rparr>"
| "logs_update Refresh s = logs_refetch s"

text \<open>Leaving the page runs the cleanups of its effects.\<close>

definition logs_unmount :: "logs_page \<Rightarrow> logs_page" where
  "logs_unmount s =
     s\<lparr>lg_api := ua_unmount (lg_api s), lg_ws_open := False, lg_interval := iv_unmount (lg_interval s)\<rparr>"

section \<open>View\<close>

definition log_matches :: "string \<Rightarrow> string \<Rightarrow> log_entry \<Rightarrow> bool" where
  "log_matches search lvl e \<longleftrightarrow>
     includes_str (to_lower (l_message e)) (to_lower search) \<and>
     (lvl = ''all'' \<or> to_lower (l_level e) = lvl)"

definition filtered :: "logs_page \<Rightarrow> log_entry list" where
  "filtered s = filter (log_matches (lg_search s) (lg_level s)) (lg_entries s)"

definition level_color :: "string \<Rightarrow> string" where
  "level_color lvl =
     (let l = to_lower lvl
      in if l = ''error'' then ''text-error''
         else if l = ''warn'' then ''text-warning''
         else if l = ''info'' then ''text-info''
         else if l = ''debug'' then ''text-text-muted''
         else ''text-text-secondary'')"

text \<open>\<open>fmt\<close> is \<open>new Date(ts).toLocaleString('en-US', ...)\<close>, \<open>None\<close> if it throws.\<close>

definition format_time :: "(string \<Rightarrow> string option) \<Rightarrow> string \<Rightarrow> string" where
  "format_time fmt ts = (case fmt ts of Some d \<Rightarrow> d | None \<Rightarrow> ts)"

definition log_row :: "(string \<Rightarrow> string option) \<Rightarrow> log_entry \<Rightarrow> logs_msg vnode" where
  "log_row fmt e =
     El ''row'' []
       [El ''span'' [] [Txt (format_time fmt (l_timestamp e))],
        El ''span'' [Class (level_color (l_level e))] [Txt (to_upper (l_level e))],
        El ''span'' [] [Txt (l_message e)]]"

definition logs_feed :: "(string \<Rightarrow> string option) \<Rightarrow> logs_page \<Rightarrow> logs_msg vnode" where
  "logs_feed fmt s =
     (if ua_loading (lg_api s) \<and> length (lg_entries s) = 0 then
        El ''p'' [] [Txt ''Connecting to log stream...'']
      else if length (filtered s) = 0 then
        El ''div'' [] [El ''ScrollText'' [] [], El ''p'' [] [Txt ''No log entries found'']]
      else El ''div'' [] [El ''div'' [] (map (log_row fmt) (filtered s) @ [El ''div'' [] []])])"

definition logs_view :: "(string \<Rightarrow> string option) \<Rightarrow> logs_page \<Rightarrow> logs_msg vnode" where
  "logs_view fmt s =
     El ''div'' []
       [El ''div'' []
         [El ''div'' []
           [El ''h2'' [] [Txt ''Real-Time System Logs''],
            El ''p'' [] [Txt (''Showing '' @ nat_to_str (length (filtered s)) @
                              '' log entries. Streamed in real-time via WebSockets.'')]],
          El ''div'' []
           [El ''div'' []
             [El ''Radio'' [Class (if lg_ws_connected s then ''text-success animate-pulse'' else ''text-text-muted'')] [],
              El ''span'' [Class (if lg_ws_connected s then ''text-success'' else ''text-text-muted'')]
                [Txt (if lg_ws_connected s then ''WebSocket Live'' else ''Polling (3s)'')]],
            El ''button'' [OnClick Refresh] [El ''RefreshCw'' [] []]]],
        El ''div'' []
         [El ''div'' []
           [El ''Search'' [] [],
            El ''input'' [Attr ''type'' ''text'', Attr ''value'' (lg_search s), OnChange SetSearch,
                          Attr ''placeholder'' ''Search log messages...''] []],
          El ''select'' [Attr ''value'' (lg_level s), OnChange SetLevel]
            [El ''option'' [Attr ''value'' ''all''] [Txt ''All Levels''],
             El ''option'' [Attr ''value'' ''info''] [Txt ''INFO''],
             El ''option'' [Attr ''value'' ''warn''] [Txt ''WARN''],
             El ''option'' [Attr ''value'' ''error''] [Txt ''ERROR''],
             El ''option'' [Attr ''value'' ''debug''] [Txt ''DEBUG'']]],
        card ''Live Terminal Feed'' [logs_feed fmt s]]"

lemma offers_logs_feed [simp]: "\<not> offers (logs_feed fmt s) m"
  by (auto simp: logs_feed_def log_row_def offers_simps list_ex_map list_ex_iff)

lemma offers_logs_view:
  "offers (logs_view fmt s) m \<longleftrightarrow>
     m = Refresh \<or> (\<exists>v. m = SetSearch v) \<or>
     (\<exists>v \<in> {''all'', ''info'', ''warn'', ''error'', ''debug''}. m = SetLevel v)"
  by (auto simp: logs_view_def offers_simps)

section \<open>Runs of the page\<close>

text \<open>
  \<open>limit\<close> is the number of entries the gateway puts into one response at most (its handler sends the
  last 100); browsers only deliver messages on an open socket.
\<close>

definition response_size :: "logs_response \<Rightarrow> nat" where
  "response_size r = (case lr_entries r of None \<Rightarrow> 0 | Some es \<Rightarrow> length es)"

inductive logs_step :: "(string \<Rightarrow> string option) \<Rightarrow> nat \<Rightarrow> logs_page \<Rightarrow> logs_page \<Rightarrow> bool" for fmt limit where
  user: "offers (logs_view fmt s) m \<Longrightarrow> logs_step fmt limit s (logs_update m s)"
| ws_event: "lg_ws_open s \<Longrightarrow> logs_step fmt limit s (set_connected b s)"
| ws_message: "lg_ws_open s \<Longrightarrow> lg_ws_connected s \<Longrightarrow> logs_step fmt limit s (on_message evt s)"
| tick: "logs_step fmt limit s (on_tick s)"
| response: "i \<in> set (ua_inflight (lg_api s)) \<Longrightarrow> response_size r \<le> limit \<Longrightarrow>
    logs_step fmt limit s (on_response i r s)"
| failure: "i \<in> set (ua_inflight (lg_api s)) \<Longrightarrow>
    logs_step fmt limit s (s\<lparr>lg_api := ua_reject i e (lg_api s)\<rparr>)"

definition logs_start :: "logs_page \<Rightarrow> bool" where
  "logs_start s \<longleftrightarrow> s = logs_init"

definition logs_timer_ok :: "logs_page \<Rightarrow> bool" where
  "logs_timer_ok s \<longleftrightarrow>
     ua_mounted (lg_api s) \<and> iv_ok (lg_interval s) \<and>
     iv_ms (lg_interval s) = poll_period (lg_ws_connected s) \<and>
     iv_saved (lg_interval s) = lg_ws_connected s"

lemmas logs_defs = logs_refetch_def on_response_def set_connected_def on_message_def data_effect_def

lemma on_tick_ok:
  "logs_timer_ok s \<Longrightarrow> on_tick s = (if lg_ws_connected s then s else logs_refetch s)"
  by (auto simp: on_tick_def logs_timer_ok_def iv_fire_ok poll_period_def split: if_splits)

lemma logs_timer_step: "logs_step fmt limit s t \<Longrightarrow> logs_timer_ok s \<Longrightarrow> logs_timer_ok t"
proof (induction rule: logs_step.induct)
  case (user s m)
  then show ?case by (cases m) (simp_all add: logs_timer_ok_def logs_defs)
next
  case (tick s)
  then show ?case by (auto simp: on_tick_ok) (auto simp: logs_timer_ok_def logs_defs)
qed (auto simp: logs_timer_ok_def logs_defs iv_ok_render split: option.splits)

interpretation logs_timer: invariant_machine logs_start "logs_step fmt limit" logs_timer_ok
  for fmt :: "string \<Rightarrow> string option" and limit :: nat
proof unfold_locales
  show "logs_timer_ok s" if "logs_start s" for s
    using that iv_ok_mount [of False "Some 3000"]
    by (simp add: logs_start_def logs_init_def logs_timer_ok_def ua_defs poll_period_def iv_mount_def iv_effect_def)
  show "logs_timer_ok t" if "logs_step fmt limit s t" and "logs_timer_ok s" for s t
    using that by (rule logs_timer_step)
qed

definition logs_bounded :: "nat \<Rightarrow> logs_page \<Rightarrow> bool" where
  "logs_bounded limit s \<longleftrightarrow>
     length (lg_entries s) \<le> max 500 limit \<and>
     (case ua_data (lg_api s) of None \<Rightarrow> True | Some r \<Rightarrow> response_size r \<le> limit)"

lemma logs_bounded_step: "logs_step fmt limit s t \<Longrightarrow> logs_bounded limit s \<Longrightarrow> logs_bounded limit t"
proof (induction rule: logs_step.induct)
  case (user s m)
  then show ?case by (cases m) (simp_all add: logs_bounded_def logs_defs)
next
  case (tick s)
  have "lg_entries (on_tick s) = lg_entries s \<and> ua_data (lg_api (on_tick s)) = ua_data (lg_api s)"
    unfolding on_tick_def
    by (rule fold_invariant [where Q = "\<lambda>_. True"]) (auto simp: logs_defs)
  with tick show ?case by (simp add: logs_bounded_def)
next
  case (response i s r)
  then show ?case
    by (auto simp: logs_bounded_def on_response_def data_effect_def response_size_def ua_resolve_def
        Let_def split: option.splits)
qed (auto simp: logs_bounded_def logs_defs split: option.splits)

interpretation logs_bound: invariant_machine logs_start "logs_step fmt limit" "logs_bounded limit"
  for fmt :: "string \<Rightarrow> string option" and limit :: nat
proof unfold_locales
  show "logs_bounded limit s" if "logs_start s" for s
    using that by (simp add: logs_start_def logs_init_def logs_bounded_def ua_defs)
  show "logs_bounded limit t" if "logs_step fmt limit s t" and "logs_bounded limit s" for s t
    using that by (rule logs_bounded_step)
qed

section \<open>Properties\<close>

text \<open>The page never holds more than 500 entries, or as many as the largest response the gateway
  sends, however long the stream runs.\<close>

theorem log_entries_bounded:
  assumes "reachable logs_start (logs_step fmt limit) s"
  shows "length (lg_entries s) \<le> max 500 limit"
  using logs_bound.reachable_inv [OF assms] by (simp add: logs_bounded_def)

lemma take_last_500: "take_last 499 xs @ [x] = take_last 500 (xs @ [x])"
  by (simp add: take_last_def Suc_diff_le)

lemma on_message_entries: "lg_entries (on_message (Some e) s) = take_last 500 (lg_entries s @ [e])"
  by (simp add: on_message_def take_last_500)

text \<open>Dropping old entries one message at a time is the same as keeping the last 500 of the whole
  history: after any non-empty sequence of messages the page shows the last 500 of the entries it had
  and the entries that were streamed, in order.\<close>

theorem streamed_entries_are_last_500:
  assumes "es \<noteq> []"
  shows "lg_entries (fold (\<lambda>e. on_message (Some e)) es s) = take_last 500 (lg_entries s @ es)"
proof -
  have "lg_entries (fold (\<lambda>e. on_message (Some e)) es s) =
        (if es = [] then lg_entries s else take_last 500 (lg_entries s @ es))" for es s
  proof (induction es arbitrary: s)
    case (Cons e es)
    have "take_last 500 (take_last 500 (lg_entries s @ [e]) @ es) = take_last 500 (lg_entries s @ e # es)"
      by (simp add: take_last_append_take_last)
    then show ?case by (simp add: Cons.IH on_message_entries)
  qed simp
  with assms show ?thesis by simp
qed

text \<open>The page polls exactly while the socket is down: a tick of the clock sends one request of the
  log if the page shows the socket as disconnected, and nothing otherwise.\<close>

theorem polls_iff_disconnected:
  assumes "reachable logs_start (logs_step fmt limit) s"
  shows "lg_sent (on_tick s) = lg_sent s @ (if lg_ws_connected s then [] else [getLogs])"
  using logs_timer.reachable_inv [OF assms] by (simp add: on_tick_ok logs_refetch_def)

lemma elements_log_row: "elements ''row'' (log_row fmt e) = [log_row fmt e]"
  by (simp add: log_row_def)

text \<open>The feed shows exactly the entries whose message contains the search text and whose level is
  the chosen one, both compared without regard to case, in the order they are held.\<close>

theorem feed_shows_matching_entries:
  "elements ''row'' (logs_view fmt s) =
     map (log_row fmt)
       (filter (\<lambda>e. includes_str (to_lower (l_message e)) (to_lower (lg_search s)) \<and>
                    (lg_level s = ''all'' \<or> to_lower (l_level e) = lg_level s)) (lg_entries s))"
proof -
  have "elements ''row'' (logs_view fmt s) = elements ''row'' (logs_feed fmt s)"
    by (simp add: logs_view_def card_def)
  also have "\<dots> = map (log_row fmt) (filtered s)"
    by (auto simp: logs_feed_def o_def elements_log_row filtered_def)
  finally show ?thesis by (simp add: filtered_def log_matches_def [abs_def])
qed

lemma logs_reach_init: "reachable logs_start (logs_step fmt limit) logs_init"
  by (rule reachable_init) (simp add: logs_start_def)

definition demo_entry :: "nat \<Rightarrow> log_entry" where
  "demo_entry n = \<lparr>l_timestamp = '''', l_level = ''info'', l_message = nat_to_str n, l_extra = None\<rparr>"

theorem log_entries_bounded_witness:
  "reachable logs_start (logs_step Some 100) logs_init \<and> length (lg_entries logs_init) \<le> max 500 100"
  using log_entries_bounded [OF logs_reach_init [of Some 100]] logs_reach_init [of Some 100] by simp

theorem streamed_entries_are_last_500_witness:
  "[demo_entry 1, demo_entry 2] \<noteq> [] \<and>
   lg_entries (fold (\<lambda>e. on_message (Some e)) [demo_entry 1, demo_entry 2] logs_init) =
     [demo_entry 1, demo_entry 2]"
proof -
  have h: "[demo_entry 1, demo_entry 2] \<noteq> []" by simp
  show ?thesis using streamed_entries_are_last_500 [OF h, of logs_init] by (simp add: logs_init_def)
qed

theorem polls_iff_disconnected_witness:
  "reachable logs_start (logs_step Some 100) (set_connected True logs_init) \<and>
   lg_sent (on_tick (set_connected True logs_init)) = [getLogs]"
proof -
  have h: "reachable logs_start (logs_step Some 100) (set_connected True logs_init)"
    by (rule reachable_step [OF logs_reach_init]) (rule logs_step.ws_event, simp add: logs_init_def)
  from polls_iff_disconnected [OF h] h show ?thesis by (simp add: set_connected_def logs_init_def)
qed

end
