(* ===== verification/ExtensionsPage.thy ===== *)
theory ExtensionsPage
  imports View
begin

text \<open>
  \<open>dashboard/src/pages/Extensions.tsx\<close>: the page that selects a profile of PHP extensions and
  toggles single extensions. Its ``Apply Profile'' handler sends no request: it waits 300 ms and then
  shows a badge for 2000 ms. The page state holds both kinds of outstanding timers, by their delay.
\<close>

section \<open>Tables\<close>

record table_extension =
  e_name :: string
  e_type :: string
  e_description :: string
  e_version :: string

record table_profile =
  p_name :: string
  p_description :: string
  p_extensions :: "string list"

definition all_extensions :: "table_extension list" where
  "all_extensions =
     [\<lparr>e_name = ''curl'', e_type = ''extension'', e_description = ''cURL client library'', e_version = ''built-in''\<rparr>,
      \<lparr>e_name = ''json'', e_type = ''extension'', e_description = ''JSON serialization support'', e_version = ''built-in''\<rparr>,
      \<lparr>e_name = ''mbstring'', e_type = ''extension'', e_description = ''Multibyte string functions'', e_version = ''built-in''\<rparr>,
      \<lparr>e_name = ''pdo'', e_type = ''extension'', e_description = ''PHP Data Objects interface'', e_version = ''built-in''\<rparr>,
      \<lparr>e_name = ''pdo_sqlite'', e_type = ''extension'', e_description = ''PDO driver for SQLite'', e_version = ''built-in''\<rparr>,
      \<lparr>e_name = ''pdo_mysql'', e_type = ''extension'', e_description = ''PDO driver for MySQL'', e_version = ''built-in''\<rparr>,
      \<lparr>e_name = ''pdo_pgsql'', e_type = ''extension'', e_description = ''PDO driver for PostgreSQL'', e_version = ''built-in''\<rparr>,
      \<lparr>e_name = ''opcache'', e_type = ''extension'', e_description = ''OPcache bytecode cache'', e_version = ''built-in''\<rparr>,
      \<lparr>e_name = ''intl'', e_type = ''extension'', e_description = ''Internationalization extension'', e_version = ''built-in''\<rparr>,
      \<lparr>e_name = ''xml'', e_type = ''extension'', e_description = ''XML parsing and processing'', e_version = ''built-in''\<rparr>,
      \<lparr>e_name = ''gd'', e_type = ''extension'', e_description = ''Image processing library'', e_version = ''built-in''\<rparr>,
      \<lparr>e_name = ''mysqlnd'', e_type = ''extension'', e_description = ''MySQL native driver'', e_version = ''built-in''\<rparr>,
      \<lparr>e_name = ''redis'', e_type = ''extension'', e_description = ''Redis key-value store client'', e_version = ''built-in''\<rparr>,
      \<lparr>e_name = ''memcached'', e_type = ''extension'', e_description = ''Memcached client library'', e_version = ''built-in''\<rparr>,
      \<lparr>e_name = ''xdebug'', e_type = ''zend_extension'', e_description = ''PHP debugger and profiler'', e_version = ''built-in''\<rparr>,
      \<lparr>e_name = ''imagick'', e_type = ''extension'', e_description = ''ImageMagick image processing'', e_version = ''built-in''\<rparr>,
      \<lparr>e_name = ''zip'', e_type = ''extension'', e_description = ''ZIP file management'', e_version = ''built-in''\<rparr>,
      \<lparr>e_name = ''bz2'', e_type = ''extension'', e_description = ''BZip2 compression support'', e_version = ''built-in''\<rparr>,
      \<lparr>e_name = ''bcmath'', e_type = ''extension'', e_description = ''Arbitrary precision mathematics'', e_version = ''built-in''\<rparr>,
      \<lparr>e_name = ''gmp'', e_type = ''extension'', e_description = ''GNU Multiple Precision arithmetic'', e_version = ''built-in''\<rparr>,
      \<lparr>e_name = ''sockets'', e_type = ''extension'', e_description = ''Socket communication'', e_version = ''built-in''\<rparr>]"

definition built_in_profiles :: "table_profile list" where
  "built_in_profiles =
     [\<lparr>p_name = ''minimal'', p_description = ''Minimal set for basic PHP scripts'',
       p_extensions = [''curl'', ''json'', ''mbstring'', ''pdo'', ''pdo_sqlite'', ''opcache'', ''xml'']\<rparr>,
      \<lparr>p_name = ''web-standard'', p_description = ''Standard set for most web applications'',
       p_extensions = [''curl'', ''json'', ''mbstring'', ''pdo'', ''pdo_sqlite'', ''pdo_mysql'', ''pdo_pgsql'', ''opcache'', ''intl'', ''xml'', ''gd'', ''zip'', ''bcmath'']\<rparr>,
      \<lparr>p_name = ''wordpress'', p_description = ''Optimized for WordPress'',
       p_extensions = [''curl'', ''json'', ''mbstring'', ''pdo'', ''pdo_mysql'', ''mysqlnd'', ''opcache'', ''intl'', ''xml'', ''gd'', ''zip'', ''bcmath'', ''sockets'']\<rparr>,
      \<lparr>p_name = ''laravel'', p_description = ''Optimized for Laravel'',
       p_extensions = [''curl'', ''json'', ''mbstring'', ''pdo'', ''pdo_mysql'', ''pdo_pgsql'', ''opcache'', ''intl'', ''xml'', ''gd'', ''zip'', ''bcmath'', ''sockets'']\<rparr>,
      \<lparr>p_name = ''development'', p_description = ''Full feature set for development environments'',
       p_extensions = [''curl'', ''json'', ''mbstring'', ''pdo'', ''pdo_sqlite'', ''pdo_mysql'', ''pdo_pgsql'', ''opcache'', ''intl'', ''xml'', ''gd'', ''zip'', ''bcmath'', ''xdebug'', ''imagick'', ''memcached'', ''redis'']\<rparr>]"

definition find_profile :: "string \<Rightarrow> table_profile option" where
  "find_profile name = List.find (\<lambda>p. p_name p = name) built_in_profiles"

section \<open>State and handlers\<close>

record ext_page =
  ex_profile :: string
  ex_enabled :: "string list"
  ex_saving :: bool
  ex_saved :: bool
  ex_waits :: "nat list"
  ex_hides :: "nat list"

datatype ext_msg = SelectProfile string | ToggleCard string | ApplyProfile

text \<open>The effect on \<open>[selectedProfile]\<close>.\<close>

definition profile_effect :: "ext_page \<Rightarrow> ext_page" where
  "profile_effect s =
     (case find_profile (ex_profile s) of
        None \<Rightarrow> s
      | Some p \<Rightarrow> s\<lparr>ex_enabled := p_extensions p\<rparr>)"

text \<open>The page after its first render and effect.\<close>

definition ext_init :: ext_page where
  "ext_init =
     profile_effect
       \<lparr>ex_profile = ''web-standard'', ex_enabled = [], ex_saving = False, ex_saved = False,
        ex_waits = [], ex_hides = []\<rparr>"

text \<open>The effect runs only when the new profile differs from the old one.\<close>

definition select_profile :: "string \<Rightarrow> ext_page \<Rightarrow> ext_page" where
  "select_profile name s =
     (if name = ex_profile s then s else profile_effect (s\<lparr>ex_profile := name\<rparr>))"

definition ext_handle_toggle :: "string \<Rightarrow> ext_page \<Rightarrow> ext_page" where
  "ext_handle_toggle name s = s\<lparr>ex_enabled := toggle name (ex_enabled s)\<rparr>"

text \<open>\<open>handleSave\<close> up to its \<open>await\<close>, the rest once the timer has fired, and the timer that hides the badge.\<close>

definition ext_handle_save :: "ext_page \<Rightarrow> ext_page" where
  "ext_handle_save s = s\<lparr>ex_saving := True, ex_saved := False, ex_waits := ex_waits s @ [300]\<rparr>"

definition ext_waited :: "ext_page \<Rightarrow> ext_page" where
  "ext_waited s = s\<lparr>ex_saved := True, ex_hides := ex_hides s @ [2000], ex_saving := False\<rparr>"

definition ext_hide :: "ext_page \<Rightarrow> ext_page" where
  "ext_hide s = s\<lparr>ex_saved := False\<rparr>"

primrec ext_update :: "ext_msg \<Rightarrow> ext_page \<Rightarrow> ext_page" where
  "ext_update (SelectProfile p) s = select_profile p s"
| "ext_update (ToggleCard n) s = ext_handle_toggle n s"
| "ext_update ApplyProfile s = ext_handle_save s"

section \<open>View\<close>

definition ext_card :: "string list \<Rightarrow> table_extension \<Rightarrow> ext_msg vnode" where
  "ext_card enabled x =
     (let isEnabled = e_name x \<in> set enabled
      in El ''button''
           [Attr ''key'' (e_name x), OnClick (ToggleCard (e_name x)),
            Class (if isEnabled then ''border-accent/30 bg-accent/5''
                   else ''border-border/50 bg-bg hover:border-border-light'')]
           [El ''div'' [Class (if isEnabled then ''bg-accent/10 text-accent'' else ''bg-surface text-text-muted'')]
             [El ''Puzzle'' [] []],
            El ''div'' []
             [El ''div'' []
               (El ''span'' [Class (if isEnabled then ''text-text'' else ''text-text-secondary'')] [Txt (e_name x)]
                # only (e_type x = ''zend_extension'') [El ''span'' [] [Txt ''Zend'']]),
              El ''p'' [] [Txt (e_description x)]],
            (if isEnabled then El ''CheckCircle'' [] [] else El ''XCircle'' [] [])])"

definition profile_card :: "ext_page \<Rightarrow> ext_msg vnode" where
  "profile_card s =
     card ''Extension Profile''
       [El ''div'' []
         [El ''div'' []
           [El ''label'' [] [Txt ''Profile''],
            El ''select'' [Attr ''value'' (ex_profile s), OnChange SelectProfile]
              (map (\<lambda>p. El ''option'' [Attr ''key'' (p_name p), Attr ''value'' (p_name p)] [Txt (p_name p)])
                 built_in_profiles),
            El ''p'' []
              (case find_profile (ex_profile s) of None \<Rightarrow> [] | Some p \<Rightarrow> [Txt (p_description p)])],
          El ''div'' []
           (El ''button'' [OnClick ApplyProfile, Disabled (ex_saving s)]
              (only (ex_saving s) [El ''RefreshCw'' [] []] @ [Txt ''Apply Profile''])
            # only (ex_saved s) [El ''span'' [] [El ''CheckCircle'' [] [], Txt ''Profile applied'']])]]"

definition extensions_card :: "ext_page \<Rightarrow> ext_msg vnode" where
  "extensions_card s =
     card (''Extensions ('' @ nat_to_str (length (ex_enabled s)) @ '' of '' @
             nat_to_str (length all_extensions) @ '' enabled)'')
       [El ''div'' [] (map (ext_card (ex_enabled s)) all_extensions)]"

definition ext_view :: "ext_page \<Rightarrow> ext_msg vnode" where
  "ext_view s =
     El ''div'' []
       [El ''div'' []
         [El ''h2'' [] [Txt ''PHP Extensions''],
          El ''p'' [] [Txt ''Manage PHP extension profiles and individual extension toggles.'']],
        profile_card s,
        extensions_card s]"

section \<open>Runs of the page\<close>

inductive ext_step :: "ext_page \<Rightarrow> ext_page \<Rightarrow> bool" where
  user: "offers (ext_view s) m \<Longrightarrow> ext_step s (ext_update m s)"
| waited: "ex_waits s = ds @ d # es \<Longrightarrow> ext_step s (ext_waited (s\<lparr>ex_waits := ds @ es\<rparr>))"
| hidden: "ex_hides s = ds @ d # es \<Longrightarrow> ext_step s (ext_hide (s\<lparr>ex_hides := ds @ es\<rparr>))"

inductive_cases ext_stepE: "ext_step s t"

definition ext_start :: "ext_page \<Rightarrow> bool" where
  "ext_start s \<longleftrightarrow> s = ext_init"

definition extension_names :: "string list" where
  "extension_names = map e_name all_extensions"

definition profile_names :: "string list" where
  "profile_names = map p_name built_in_profiles"

lemma offers_ext_card [simp]: "offers (ext_card en x) m \<longleftrightarrow> m = ToggleCard (e_name x)"
  by (auto simp: ext_card_def offers_simps Let_def)

lemma option_values_profiles:
  "concat (map (option_values \<circ> (\<lambda>p. El ''option'' [Attr ''key'' (p_name p), Attr ''value'' (p_name p)] [Txt (p_name p)])) ps)
     = map p_name ps"
  by (induction ps) simp_all

lemma offers_profile_card [simp]:
  "offers (profile_card s) m \<longleftrightarrow>
     (\<exists>p \<in> set profile_names. m = SelectProfile p) \<or> (m = ApplyProfile \<and> \<not> ex_saving s)"
  by (auto simp: profile_card_def offers_simps list_ex_map list_ex_iff option_values_profiles
      profile_names_def split: option.splits)

lemma offers_extensions_card [simp]:
  "offers (extensions_card s) m \<longleftrightarrow> (\<exists>n \<in> set extension_names. m = ToggleCard n)"
  by (auto simp: extensions_card_def offers_simps list_ex_map list_ex_iff extension_names_def)

lemma offers_ext_view:
  "offers (ext_view s) m \<longleftrightarrow>
     (\<exists>p \<in> set profile_names. m = SelectProfile p) \<or> (m = ApplyProfile \<and> \<not> ex_saving s) \<or>
     (\<exists>n \<in> set extension_names. m = ToggleCard n)"
  by (simp add: ext_view_def offers_simps)

text \<open>The tables: names are distinct, and every profile lists known extensions once.\<close>

lemma distinct_extension_names: "distinct extension_names"
  by code_simp

lemma profiles_known:
  "list_all (\<lambda>p. distinct (p_extensions p) \<and> list_all (\<lambda>x. List.member extension_names x) (p_extensions p))
     built_in_profiles"
  by code_simp

lemma find_profile_known:
  "find_profile n = Some p \<Longrightarrow> distinct (p_extensions p) \<and> set (p_extensions p) \<subseteq> set extension_names"
  using profiles_known by (auto simp: find_profile_def list_all_iff dest!: find_SomeD)

lemma find_profile_of_name: "n \<in> set profile_names \<Longrightarrow> find_profile n \<noteq> None"
  by (auto simp: profile_names_def find_profile_def find_None_iff)

definition ext_inv :: "ext_page \<Rightarrow> bool" where
  "ext_inv s \<longleftrightarrow>
     ex_profile s \<in> set profile_names \<and>
     distinct (ex_enabled s) \<and> set (ex_enabled s) \<subseteq> set extension_names \<and>
     \<not> (ex_saving s \<and> ex_saved s) \<and> (ex_saved s \<longrightarrow> ex_hides s \<noteq> [])"

lemma ext_inv_profile_effect:
  "ext_inv s \<Longrightarrow> ext_inv (profile_effect s)"
  by (auto simp: ext_inv_def profile_effect_def dest: find_profile_known split: option.splits)

lemma ext_inv_select: "ext_inv s \<Longrightarrow> n \<in> set profile_names \<Longrightarrow> ext_inv (select_profile n s)"
  unfolding select_profile_def using ext_inv_profile_effect [of "s\<lparr>ex_profile := n\<rparr>"]
  by (simp add: ext_inv_def)

lemma ext_inv_toggle: "ext_inv s \<Longrightarrow> n \<in> set extension_names \<Longrightarrow> ext_inv (ext_handle_toggle n s)"
  by (auto simp: ext_inv_def ext_handle_toggle_def set_toggle split: if_splits)

lemma ext_inv_step: "ext_step s t \<Longrightarrow> ext_inv s \<Longrightarrow> ext_inv t"
proof (induction rule: ext_step.induct)
  case (user s m)
  then show ?case
    by (auto simp: offers_ext_view ext_inv_select ext_inv_toggle) (simp add: ext_inv_def ext_handle_save_def)
next
  case (waited s ds d es)
  then show ?case by (simp add: ext_inv_def ext_waited_def)
next
  case (hidden s ds d es)
  then show ?case by (simp add: ext_inv_def ext_hide_def)
qed

interpretation extensions: invariant_machine ext_start ext_step ext_inv
proof unfold_locales
  have "''web-standard'' \<in> set profile_names" by (simp add: profile_names_def built_in_profiles_def)
  then have "ext_inv ext_init"
    unfolding ext_init_def by (intro ext_inv_profile_effect) (simp add: ext_inv_def)
  then show "ext_inv s" if "ext_start s" for s
    using that by (simp add: ext_start_def)
qed (rule ext_inv_step)

lemma profile_effect_simps [simp]:
  "ex_saving (profile_effect s) = ex_saving s" "ex_waits (profile_effect s) = ex_waits s"
  "ex_saving (select_profile n s) = ex_saving s" "ex_waits (select_profile n s) = ex_waits s"
  by (simp_all add: profile_effect_def select_profile_def split: option.splits)

interpretation ext_apply: single_flight ext_start ext_step ex_saving ex_waits
proof unfold_locales
  show "\<not> ex_saving s \<and> ex_waits s = []" if "ext_start s" for s
    using that by (simp add: ext_start_def ext_init_def)
  show "ex_saving t = ex_saving s \<and> ex_waits t = ex_waits s
      \<or> \<not> ex_saving s \<and> ex_saving t \<and> (\<exists>c. ex_waits t = ex_waits s @ [c])
      \<or> (\<exists>xs c ys. ex_waits s = xs @ c # ys \<and> ex_waits t = xs @ ys) \<and> \<not> ex_saving t"
    if "ext_step s t" for s t
    using that
  proof (induction rule: ext_step.induct)
    case (user s m)
    then show ?case by (auto simp: offers_ext_view ext_handle_toggle_def ext_handle_save_def)
  next
    case (waited s ds d es)
    then show ?case by (auto simp: ext_waited_def)
  qed (simp add: ext_hide_def)
qed

section \<open>Properties\<close>

text \<open>The cards that carry the check mark.\<close>

lemma checked_cards:
  "length (elements ''CheckCircle'' (extensions_card s))
     = length (filter (\<lambda>n. n \<in> set (ex_enabled s)) extension_names)"
proof -
  have one: "elements ''CheckCircle'' (ext_card en x) = only (e_name x \<in> set en) [El ''CheckCircle'' [] []]" for en x
    by (simp add: ext_card_def Let_def)
  have "length (concat (map (elements ''CheckCircle'') (map (ext_card en) xs)))
      = length (filter (\<lambda>n. n \<in> set en) (map e_name xs))" for en xs
    by (induction xs) (simp_all add: one)
  then show ?thesis by (simp add: extensions_card_def card_def extension_names_def)
qed

lemma length_filter_member:
  assumes "distinct xs" and "distinct ys" and "set ys \<subseteq> set xs"
  shows "length (filter (\<lambda>x. x \<in> set ys) xs) = length ys"
proof -
  have "set (filter (\<lambda>x. x \<in> set ys) xs) = set ys" using assms(3) by auto
  moreover have "distinct (filter (\<lambda>x. x \<in> set ys) xs)" using assms(1) by simp
  ultimately show ?thesis using assms(2) by (metis distinct_card)
qed

text \<open>In every run the selected profile is one of the table, the enabled extensions are pairwise
  different and all known, and the number in the title of the extension list is the number of cards that
  show a check mark.\<close>

theorem extension_count_matches_cards:
  assumes "reachable ext_start ext_step s"
  shows "ex_profile s \<in> set profile_names \<and> distinct (ex_enabled s) \<and>
     set (ex_enabled s) \<subseteq> set extension_names \<and>
     length (elements ''CheckCircle'' (extensions_card s)) = length (ex_enabled s)"
  using extensions.reachable_inv [OF assms] distinct_extension_names
  by (simp add: ext_inv_def checked_cards length_filter_member)

text \<open>In every run at most one ``Apply Profile'' is under way, exactly while its button is disabled;
  the badge ``Profile applied'' is never shown meanwhile, and whenever it is shown a timer that hides it
  is still to fire.\<close>

theorem apply_badge_lifecycle:
  assumes "reachable ext_start ext_step s"
  shows "length (ex_waits s) = (if ex_saving s then 1 else 0) \<and>
     (ex_saving s \<longrightarrow> \<not> ex_saved s) \<and> (ex_saved s \<longrightarrow> ex_hides s \<noteq> [])"
  using extensions.reachable_inv [OF assms] ext_apply.one_outstanding [OF assms]
  by (simp add: ext_inv_def)

definition demo_ext :: ext_page where
  "demo_ext = ext_waited ((ext_handle_save ext_init)\<lparr>ex_waits := []\<rparr>)"

lemma demo_ext_reachable: "reachable ext_start ext_step demo_ext"
proof (rule reachable_step [where s = "ext_handle_save ext_init"])
  have "reachable ext_start ext_step ext_init" by (rule reachable_init) (simp add: ext_start_def)
  moreover have "ext_step ext_init (ext_update ApplyProfile ext_init)"
    by (rule ext_step.user) (simp add: offers_ext_view ext_init_def)
  ultimately show "reachable ext_start ext_step (ext_handle_save ext_init)"
    by (auto intro: reachable_step)
  show "ext_step (ext_handle_save ext_init) demo_ext"
    unfolding demo_ext_def
    by (rule ext_step.waited [where ds = "[]" and es = "[]", simplified])
      (simp add: ext_handle_save_def ext_init_def)
qed

theorem extension_count_matches_cards_witness:
  "reachable ext_start ext_step demo_ext \<and>
   length (elements ''CheckCircle'' (extensions_card demo_ext)) = length (ex_enabled demo_ext)"
  using extension_count_matches_cards [OF demo_ext_reachable] demo_ext_reachable by simp

theorem apply_badge_lifecycle_witness:
  "reachable ext_start ext_step demo_ext \<and> ex_saved demo_ext \<and> ex_hides demo_ext \<noteq> []"
  using apply_badge_lifecycle [OF demo_ext_reachable] demo_ext_reachable
  by (simp add: demo_ext_def ext_waited_def)

end
