(* ===== verification/InspectPages.thy ===== *)
theory InspectPages
  imports Client View
begin

text \<open>
  The inspection pages: \<open>dashboard/src/pages/Routes.tsx\<close> (the route table and the route tester),
  \<open>RequestExplorer.tsx\<close>, \<open>Doctor.tsx\<close> and \<open>Runtimes.tsx\<close>. The tester and the explorer send one
  \<open>explain\<close> request at a time and show its answer; a failure clears what is shown. Both keep the
  contract \<open>tracer\<close> of the prelude.
\<close>

section \<open>Routes.tsx: the table\<close>

definition fallback_routes :: "json list" where
  "fallback_routes =
     [JObj [(''host'', JStr ''*''), (''path'', JStr ''/*''), (''target'', JStr ''index.php''),
            (''type'', JStr ''php_front_controller'')],
      JObj [(''host'', JStr ''*''), (''path'', JStr ''/assets/*''), (''target'', JStr ''public/assets''),
            (''type'', JStr ''static'')]]"

text \<open>\<open>config?.routes || [\<dots>]\<close>, and its use as an array: anything else truthy throws.\<close>

definition configured_routes :: "json option \<Rightarrow> json list option" where
  "configured_routes config =
     (case Option.bind (Option.bind config members_of) (member_of ''routes'') of
        None \<Rightarrow> Some fallback_routes
      | Some j \<Rightarrow>
          if truthy j then (case j of JArr rs \<Rightarrow> Some rs | _ \<Rightarrow> None) else Some fallback_routes)"

definition route_cells :: "json \<Rightarrow> string list option" where
  "route_cells r =
     Option.bind (members_of r)
       (\<lambda>ms. those
          [child_text (first_truthy [''host''] ms (JStr ''*'')),
           child_text (first_truthy [''path'', ''path_prefix''] ms (JStr ''/*'')),
           (case member_of ''target'' ms of None \<Rightarrow> Some '''' | Some j \<Rightarrow> child_text j),
           child_text (first_truthy [''type''] ms (JStr ''front_controller''))])"

definition route_row :: "string list \<Rightarrow> 'm vnode" where
  "route_row cells = El ''tr'' [] (map (\<lambda>c. El ''td'' [] [Txt c]) cells)"

section \<open>Routes.tsx: the page\<close>

record routes_page =
  rt_api :: "json use_api"
  rt_url :: string
  rt_result :: "explanation option"
  rt_testing :: bool
  rt_pending :: "string list"
  rt_sent :: "request list"

datatype routes_msg = RtSetUrl string | RtTest

definition routes_init :: routes_page where
  "routes_init =
     \<lparr>rt_api = ua_start, rt_url = ''/index.php'', rt_result = None, rt_testing = False,
      rt_pending = [], rt_sent = [getConfig]\<rparr>"

definition handle_test :: "routes_page \<Rightarrow> routes_page" where
  "handle_test s =
     s\<lparr>rt_testing := True, rt_sent := rt_sent s @ [explainRequest (rt_url s)],
       rt_pending := rt_pending s @ [rt_url s]\<rparr>"

definition test_ok :: "explanation \<Rightarrow> routes_page \<Rightarrow> routes_page" where
  "test_ok r s = s\<lparr>rt_result := Some r, rt_testing := False\<rparr>"

definition test_fail :: "routes_page \<Rightarrow> routes_page" where
  "test_fail s = s\<lparr>rt_result := None, rt_testing := False\<rparr>"

primrec routes_update :: "routes_msg \<Rightarrow> routes_page \<Rightarrow> routes_page" where
  "routes_update (RtSetUrl v) s = s\<lparr>rt_url := v\<rparr>"
| "routes_update RtTest s = handle_test s"

definition test_result_view :: "explanation option \<Rightarrow> 'm vnode list" where
  "test_result_view res =
     (case res of None \<Rightarrow> []
      | Some r \<Rightarrow>
         [El ''div'' []
           [El ''div'' []
             [El ''span'' [] [Txt ''Evaluation Trace Result''],
              El ''span'' [] [El ''CheckCircle2'' [] [], Txt (e_summary r)]],
            El ''div'' []
             [El ''div'' []
               [El ''span'' [] [Txt ''Normalized Path:''],
                El ''span'' [] [Txt (pn_normalized (e_path_normalization r))]],
              El ''div'' []
               [El ''span'' [] [Txt ''Policy Decision:''],
                El ''span'' [] [Txt (pc_decision (e_policy_check r))]]]]])"

definition routes_view :: "routes_page \<Rightarrow> routes_msg vnode option" where
  "routes_view s =
     Option.bind (configured_routes (ua_data (rt_api s)))
       (\<lambda>routes. map_option
          (\<lambda>rows. El ''div'' []
             [El ''div'' []
               [El ''h2'' [] [Txt ''Route Inspector & Tester''],
                El ''p'' [] [Txt ''View configured routes and test request evaluation rules.'']],
              card ''Interactive Route Tester''
               [El ''div'' []
                 (El ''div'' []
                   [El ''div'' []
                     [El ''Search'' [] [],
                      El ''input'' [Attr ''type'' ''text'', Attr ''value'' (rt_url s), OnChange RtSetUrl,
                         Attr ''placeholder'' ''/api/users or http://localhost/blog''] []],
                    El ''button'' [OnClick RtTest, Disabled (rt_testing s)]
                     [Txt ''Test Route'', El ''ArrowRight'' [] []]]
                  # test_result_view (rt_result s))],
              card (''Configured Routes ('' @ nat_to_str (length routes) @ '')'')
               [El ''div'' []
                 [El ''table'' []
                   [El ''thead'' []
                     [El ''tr'' []
                       (map (\<lambda>h. El ''th'' [] [Txt h]) [''Host'', ''Path Pattern'', ''Target'', ''Type''])],
                    El ''tbody'' [] (map route_row rows)]]]])
          (those (map route_cells routes)))"

text \<open>The responses of the server: \<open>answers u r\<close> when \<open>r\<close> may be its explanation of the URL \<open>u\<close>.\<close>

inductive routes_step :: "(string \<Rightarrow> explanation \<Rightarrow> bool) \<Rightarrow> routes_page \<Rightarrow> routes_page \<Rightarrow> bool"
  for answers where
  user: "routes_view s = Some v \<Longrightarrow> offers v m \<Longrightarrow> routes_step answers s (routes_update m s)"
| tested: "rt_pending s = us @ u # vs \<Longrightarrow> answers u r \<Longrightarrow>
    routes_step answers s (test_ok r (s\<lparr>rt_pending := us @ vs\<rparr>))"
| not_tested: "rt_pending s = us @ u # vs \<Longrightarrow> routes_step answers s (test_fail (s\<lparr>rt_pending := us @ vs\<rparr>))"
| config_ok: "i \<in> set (ua_inflight (rt_api s)) \<Longrightarrow>
    routes_step answers s (s\<lparr>rt_api := ua_resolve i c (rt_api s)\<rparr>)"
| config_fail: "i \<in> set (ua_inflight (rt_api s)) \<Longrightarrow>
    routes_step answers s (s\<lparr>rt_api := ua_reject i e (rt_api s)\<rparr>)"

definition routes_start :: "routes_page \<Rightarrow> bool" where
  "routes_start s \<longleftrightarrow> s = routes_init"

lemma offers_route_row [simp]: "\<not> offers (route_row cs) m"
  by (auto simp: route_row_def offers_simps list_ex_map list_ex_iff)

lemma list_ex_False [simp]: "\<not> list_ex (\<lambda>x. False) xs"
  by (induction xs) simp_all

lemma offers_test_result [simp]: "\<not> list_ex (\<lambda>c. offers c m) (test_result_view r)"
  by (auto simp: test_result_view_def offers_simps split: option.splits)

lemma offers_routes_view:
  "routes_view s = Some v \<Longrightarrow> offers v m \<longleftrightarrow> (\<exists>u. m = RtSetUrl u) \<or> (m = RtTest \<and> \<not> rt_testing s)"
  by (auto simp: routes_view_def offers_simps list_ex_map bind_eq_Some_conv)

section \<open>RequestExplorer.tsx\<close>

record explorer_page =
  xp_url :: string
  xp_result :: "explanation option"
  xp_loading :: bool
  xp_pending :: "string list"
  xp_sent :: "request list"

datatype explorer_msg = XpSetUrl string | XpTrace

definition explorer_init :: explorer_page where
  "explorer_init =
     \<lparr>xp_url = ''/index.php'', xp_result = None, xp_loading = False, xp_pending = [], xp_sent = []\<rparr>"

definition handle_trace :: "explorer_page \<Rightarrow> explorer_page" where
  "handle_trace s =
     s\<lparr>xp_loading := True, xp_sent := xp_sent s @ [explainRequest (xp_url s)],
       xp_pending := xp_pending s @ [xp_url s]\<rparr>"

definition trace_ok :: "explanation \<Rightarrow> explorer_page \<Rightarrow> explorer_page" where
  "trace_ok r s = s\<lparr>xp_result := Some r, xp_loading := False\<rparr>"

definition trace_fail :: "explorer_page \<Rightarrow> explorer_page" where
  "trace_fail s = s\<lparr>xp_result := None, xp_loading := False\<rparr>"

primrec explorer_update :: "explorer_msg \<Rightarrow> explorer_page \<Rightarrow> explorer_page" where
  "explorer_update (XpSetUrl v) s = s\<lparr>xp_url := v\<rparr>"
| "explorer_update XpTrace s = handle_trace s"

definition explain_line :: "string \<Rightarrow> string \<Rightarrow> string \<Rightarrow> 'm vnode" where
  "explain_line label cls val =
     El ''div'' [] [El ''span'' [] [Txt label], El ''span'' [Class cls] [Txt val]]"

definition bool_str :: "bool \<Rightarrow> string" where
  "bool_str b = (if b then ''true'' else ''false'')"

definition explanation_cards :: "explanation \<Rightarrow> 'm vnode list" where
  "explanation_cards r =
     [card ''1. Path Normalization''
       [El ''div'' []
         [explain_line ''Raw Target:'' ''text-text'' (pn_raw (e_path_normalization r)),
          explain_line ''Normalized:'' ''text-accent'' (pn_normalized (e_path_normalization r)),
          explain_line ''Status:''
            (if pn_valid (e_path_normalization r) then ''text-success'' else ''text-error'')
            (if pn_valid (e_path_normalization r) then ''Valid (No Traversal)'' else ''Rejected'')]],
      card ''2. Policy Inspection''
       [El ''div'' []
         [El ''div'' []
           [El ''span'' [] [Txt ''WAF Decision:''],
            El ''span'' [Class ''text-success''] [El ''ShieldCheck'' [] [], Txt (pc_decision (e_policy_check r))]],
          explain_line ''Matched Rules:'' ''text-text''
            (nat_to_str (case pc_matched_rules (e_policy_check r) of None \<Rightarrow> 0 | Some xs \<Rightarrow> length xs) @ '' rules'')]],
      card ''3. Filesystem Resolution''
       [El ''div'' []
         [explain_line ''Protected File Check:''
            (if fc_protected (e_file_check r) then ''text-error'' else ''text-success'')
            (if fc_protected (e_file_check r) then ''Protected (Denied)'' else ''Allowed''),
          explain_line ''File Target Found:'' ''text-text'' (bool_str (fc_found (e_file_check r)))]],
      card ''4. FastCGI Script Target''
       [El ''div'' []
         [explain_line ''SCRIPT_NAME:'' ''text-accent'' (sc_script_name (e_script_check r)),
          explain_line ''SCRIPT_FILENAME:'' ''text-text'' (sc_script_path (e_script_check r))]]]"

definition explorer_result_view :: "explanation option \<Rightarrow> 'm vnode list" where
  "explorer_result_view res =
     (case res of None \<Rightarrow> []
      | Some r \<Rightarrow>
         [El ''div'' []
           [El ''div'' []
             [El ''div'' []
               [El ''Compass'' [] [],
                El ''div'' []
                 [El ''h3'' [] [Txt ''Decision Pipeline Summary''],
                  El ''p'' [] [Txt (''Total execution time: '' @ e_duration r)]]],
              El ''span'' [] [Txt (e_summary r)]],
            El ''div'' [] (explanation_cards r)]])"

definition explorer_view :: "explorer_page \<Rightarrow> explorer_msg vnode" where
  "explorer_view s =
     El ''div'' []
       ([El ''div'' []
          [El ''h2'' [] [Txt ''Request Decision Explorer''],
           El ''p'' [] [Txt ''Trace any request URL through the 5-step gateway decision pipeline.'']],
         card ''Inspect Request Execution''
          [El ''div'' []
            [El ''div'' []
              [El ''Search'' [] [],
               El ''input'' [Attr ''type'' ''text'', Attr ''value'' (xp_url s), OnChange XpSetUrl,
                  Attr ''placeholder'' ''/index.php or /api/v1/users''] []],
             El ''button'' [OnClick XpTrace, Disabled (xp_loading s)]
              [Txt ''Trace Pipeline'', El ''ArrowRight'' [] []]]]]
        @ explorer_result_view (xp_result s))"

inductive explorer_step :: "(string \<Rightarrow> explanation \<Rightarrow> bool) \<Rightarrow> explorer_page \<Rightarrow> explorer_page \<Rightarrow> bool"
  for answers where
  user: "offers (explorer_view s) m \<Longrightarrow> explorer_step answers s (explorer_update m s)"
| traced: "xp_pending s = us @ u # vs \<Longrightarrow> answers u r \<Longrightarrow>
    explorer_step answers s (trace_ok r (s\<lparr>xp_pending := us @ vs\<rparr>))"
| not_traced: "xp_pending s = us @ u # vs \<Longrightarrow>
    explorer_step answers s (trace_fail (s\<lparr>xp_pending := us @ vs\<rparr>))"

definition explorer_start :: "explorer_page \<Rightarrow> bool" where
  "explorer_start s \<longleftrightarrow> s = explorer_init"

lemma offers_explain_line [simp]: "\<not> offers (explain_line l c v) m"
  by (simp add: explain_line_def offers_simps)

lemma offers_explorer_result [simp]: "\<not> list_ex (\<lambda>c. offers c m) (explorer_result_view r)"
  by (auto simp: explorer_result_view_def explanation_cards_def offers_simps split: option.splits)

lemma offers_explorer_view:
  "offers (explorer_view s) m \<longleftrightarrow> (\<exists>u. m = XpSetUrl u) \<or> (m = XpTrace \<and> \<not> xp_loading s)"
  by (auto simp: explorer_view_def offers_simps)

section \<open>One trace at a time\<close>

lemma explain_neq_config [simp]: "explainRequest u \<noteq> getConfig" "getConfig \<noteq> explainRequest u"
  by (simp_all add: api_defs)

definition answers_request :: "(string \<Rightarrow> explanation \<Rightarrow> bool) \<Rightarrow> request \<Rightarrow> explanation \<Rightarrow> bool" where
  "answers_request answers q r \<longleftrightarrow> (\<exists>u. q = explainRequest u \<and> answers u r)"

definition last_sent :: "request list \<Rightarrow> request option" where
  "last_sent qs = (if qs = [] then None else Some (last qs))"

lemma last_sent_snoc [simp]: "last_sent (qs @ [q]) = Some q"
  by (simp add: last_sent_def)

lemma answers_requestI: "answers u r \<Longrightarrow> answers_request answers (explainRequest u) r"
  by (auto simp: answers_request_def)

lemma settle_map:
  "answers u r \<Longrightarrow> \<exists>xs c ys. map explainRequest us @ explainRequest u # map explainRequest vs = xs @ c # ys \<and>
     map explainRequest us @ map explainRequest vs = xs @ ys \<and> answers_request answers c r"
  using answers_requestI by blast

interpretation route_tester: tracer routes_start "routes_step answers" rt_testing
    "\<lambda>s. map explainRequest (rt_pending s)" rt_result "\<lambda>s. last_sent (rt_sent s)" "answers_request answers"
  for answers :: "string \<Rightarrow> explanation \<Rightarrow> bool"
proof (unfold_locales, goal_cases)
  case (2 s t)
  then show ?case
  proof (induction rule: routes_step.induct)
    case (user s v m)
    then show ?case by (auto simp: offers_routes_view handle_test_def)
  next
    case (tested s us u vs r)
    then show ?case by (auto simp: test_ok_def)
  next
    case (not_tested s us u vs)
    then show ?case by (auto simp: test_fail_def)
  qed simp_all
next
  case (4 s t)
  then show ?case
  proof (induction rule: routes_step.induct)
    case (user s v m)
    then show ?case by (auto simp: offers_routes_view handle_test_def)
  next
    case (tested s us u vs r)
    then show ?case by (auto simp: test_ok_def intro: settle_map)
  next
    case (not_tested s us u vs)
    then show ?case by (auto simp: test_fail_def)
  qed simp_all
qed (simp_all add: routes_start_def routes_init_def)

interpretation explorer: tracer explorer_start "explorer_step answers" xp_loading
    "\<lambda>s. map explainRequest (xp_pending s)" xp_result "\<lambda>s. last_sent (xp_sent s)" "answers_request answers"
  for answers :: "string \<Rightarrow> explanation \<Rightarrow> bool"
proof (unfold_locales, goal_cases)
  case (2 s t)
  then show ?case
  proof (induction rule: explorer_step.induct)
    case (user s m)
    then show ?case by (auto simp: offers_explorer_view handle_trace_def)
  next
    case (traced s us u vs r)
    then show ?case by (auto simp: trace_ok_def)
  next
    case (not_traced s us u vs)
    then show ?case by (auto simp: trace_fail_def)
  qed
next
  case (4 s t)
  then show ?case
  proof (induction rule: explorer_step.induct)
    case (user s m)
    then show ?case by (auto simp: offers_explorer_view handle_trace_def)
  next
    case (traced s us u vs r)
    then show ?case by (auto simp: trace_ok_def intro: settle_map)
  next
    case (not_traced s us u vs)
    then show ?case by (auto simp: trace_fail_def)
  qed
qed (simp_all add: explorer_start_def explorer_init_def)

section \<open>Doctor.tsx\<close>

record doctor_page =
  dc_report :: "doctor_report use_api"
  dc_compat :: "compat_report use_api"
  dc_sent :: "request list"

datatype doctor_msg = Rerun

definition doctor_init :: doctor_page where
  "doctor_init = \<lparr>dc_report = ua_start, dc_compat = ua_start, dc_sent = [getDoctor, getDoctorCompat None]\<rparr>"

primrec doctor_update :: "doctor_msg \<Rightarrow> doctor_page \<Rightarrow> doctor_page" where
  "doctor_update Rerun s = s\<lparr>dc_report := ua_load (dc_report s), dc_sent := dc_sent s @ [getDoctor]\<rparr>"

definition check_icon :: "check_status \<Rightarrow> string" where
  "check_icon st =
     (case st of ChkOk \<Rightarrow> ''CheckCircle'' | ChkWarn \<Rightarrow> ''AlertTriangle'' | ChkFail \<Rightarrow> ''XCircle'')"

definition check_class :: "check_status \<Rightarrow> string" where
  "check_class st =
     (if st = ChkOk then ''bg-success/10 text-success''
      else if st = ChkWarn then ''bg-warning/10 text-warning''
      else ''bg-error/10 text-error'')"

definition check_row :: "check_result \<Rightarrow> 'm vnode" where
  "check_row c =
     El ''div'' []
       [El ''div'' []
         [El (check_icon (c_status c)) [] [],
          El ''div'' []
           [El ''div'' [] [Txt (c_name c)],
            El ''div'' [] [Txt (c_message c)]]],
        El ''span'' [Class (check_class (c_status c))] [Txt (check_status_str (c_status c))]]"

definition checks_of :: "doctor_page \<Rightarrow> check_result list" where
  "checks_of s =
     (case ua_data (dc_report s) of None \<Rightarrow> []
      | Some r \<Rightarrow> (case d_checks r of None \<Rightarrow> [] | Some cs \<Rightarrow> cs))"

definition checks_card :: "doctor_page \<Rightarrow> 'm vnode" where
  "checks_card s =
     card ''System Readiness Checks''
       [if ua_loading (dc_report s) then El ''p'' [] [Txt ''Running system doctor checks...'']
        else El ''div'' [] (map check_row (checks_of s))]"

definition warning_row :: "compat_issue \<Rightarrow> 'm vnode" where
  "warning_row w =
     El ''div'' []
       (El ''div'' []
          [El ''AlertTriangle'' [] [], Txt (''['' @ i_category w @ ''] '' @ i_message w)]
        # (case i_suggestion w of None \<Rightarrow> [] | Some t \<Rightarrow> only (t \<noteq> '''') [El ''div'' [] [Txt t]]))"

definition compat_card :: "compat_report option \<Rightarrow> 'm vnode list" where
  "compat_card r =
     (case r of None \<Rightarrow> []
      | Some r \<Rightarrow>
         [card ''Application Compatibility Scanner''
           [El ''div'' []
             (El ''div'' []
               [El ''div'' []
                 [El ''span'' [] [Txt ''Detected Framework''],
                  El ''span'' [] [Txt (opt_or (cr_framework r) ''Plain PHP'')]],
                El ''div'' []
                 [El ''span'' [] [Txt ''Compatibility Score''],
                  El ''span'' [] [Txt (int_to_str (cr_score r) @ ''/100'')]]]
              # (case cr_warnings r of None \<Rightarrow> []
                 | Some ws \<Rightarrow> only (length ws > 0)
                     [El ''div'' [] (El ''h4'' [] [Txt ''Recommendations''] # map warning_row ws)]))]])"

definition doctor_view :: "doctor_page \<Rightarrow> doctor_msg vnode" where
  "doctor_view s =
     El ''div'' []
       ([El ''div'' []
          [El ''div'' []
            [El ''h2'' [] [Txt ''Diagnostics & System Doctor''],
             El ''p'' [] [Txt ''Automated environment checks and framework compatibility analysis.'']],
           El ''button'' [OnClick Rerun] [El ''RefreshCw'' [] [], Txt ''Re-run Doctor'']],
         checks_card s]
        @ compat_card (ua_data (dc_compat s)))"

inductive doctor_step :: "doctor_page \<Rightarrow> doctor_page \<Rightarrow> bool" where
  user: "offers (doctor_view s) m \<Longrightarrow> doctor_step s (doctor_update m s)"
| report_ok: "i \<in> set (ua_inflight (dc_report s)) \<Longrightarrow>
    doctor_step s (s\<lparr>dc_report := ua_resolve i r (dc_report s)\<rparr>)"
| report_fail: "i \<in> set (ua_inflight (dc_report s)) \<Longrightarrow>
    doctor_step s (s\<lparr>dc_report := ua_reject i e (dc_report s)\<rparr>)"
| compat_ok: "i \<in> set (ua_inflight (dc_compat s)) \<Longrightarrow>
    doctor_step s (s\<lparr>dc_compat := ua_resolve i c (dc_compat s)\<rparr>)"
| compat_fail: "i \<in> set (ua_inflight (dc_compat s)) \<Longrightarrow>
    doctor_step s (s\<lparr>dc_compat := ua_reject i e (dc_compat s)\<rparr>)"

definition doctor_start :: "doctor_page \<Rightarrow> bool" where
  "doctor_start s \<longleftrightarrow> s = doctor_init"

text \<open>
  Both hooks keep their own invariant; the doctor is requested once per fetch of its hook and the
  compatibility report once in all, and it stays once it is shown.
\<close>

definition doctor_inv :: "doctor_page \<Rightarrow> bool" where
  "doctor_inv s \<longleftrightarrow>
     ua_inv (dc_report s) \<and> ua_inv (dc_compat s) \<and> ua_mounted (dc_report s) \<and> ua_mounted (dc_compat s) \<and>
     count_list (dc_sent s) getDoctor = ua_issued (dc_report s) \<and>
     count_list (dc_sent s) (getDoctorCompat None) = 1 \<and>
     (ua_data (dc_compat s) = None \<longrightarrow> ua_error (dc_compat s) = None \<longrightarrow> ua_inflight (dc_compat s) \<noteq> []) \<and>
     length (ua_inflight (dc_compat s)) \<le> 1"

lemma doctor_neq [simp]: "getDoctor \<noteq> getDoctorCompat None" "getDoctorCompat None \<noteq> getDoctor"
  by (simp_all add: api_defs)

lemma doctor_inv_step: "doctor_step s t \<Longrightarrow> doctor_inv s \<Longrightarrow> doctor_inv t"
proof (induction rule: doctor_step.induct)
  case (user s m)
  then show ?case by (cases m) (simp add: doctor_inv_def ua_inv_ops)
next
  case (compat_ok i s c)
  then show ?case by (simp add: doctor_inv_def ua_inv_ops) (simp add: ua_defs length_remove1)
next
  case (compat_fail i s e)
  then show ?case by (simp add: doctor_inv_def ua_inv_ops) (simp add: ua_defs length_remove1)
qed (simp_all add: doctor_inv_def ua_inv_ops)

interpretation doctor: invariant_machine doctor_start doctor_step doctor_inv
proof unfold_locales
  show "doctor_inv s" if "doctor_start s" for s
    using that by (simp add: doctor_start_def doctor_init_def doctor_inv_def ua_inv_start) (simp add: ua_defs)
qed (rule doctor_inv_step)

section \<open>Runtimes.tsx\<close>

definition runtime_row :: "runtime \<Rightarrow> 'm vnode" where
  "runtime_row rt =
     El ''div'' [Attr ''key'' (rt_version rt)]
       [El ''div'' []
         [El ''div'' [Class (if rt_active rt then ''bg-accent/10 text-accent'' else ''bg-bg text-text-muted'')]
           [El ''Cpu'' [] []],
          El ''div'' []
           [El ''div'' []
             (El ''span'' [] [Txt (''PHP '' @ rt_version rt)]
              # only (rt_active rt) [El ''span'' [] [Txt ''Active'']]),
            El ''span'' [] [Txt (rt_binary rt)]]],
        El ''div'' []
         [El ''span'' []
           (only (rt_managed rt) [El ''Wrench'' [] []] @ [Txt (if rt_managed rt then ''Managed'' else ''System'')]),
          El ''span'' [Class (if rt_status rt = ''ready'' then ''text-success'' else ''text-error'')]
           [if rt_status rt = ''ready'' then El ''CheckCircle'' [] [] else El ''XCircle'' [] [],
            Txt (rt_status rt)]]]"

definition runtimes_of :: "runtime list use_api \<Rightarrow> runtime list" where
  "runtimes_of a = (case ua_data a of None \<Rightarrow> [] | Some rs \<Rightarrow> rs)"

definition runtimes_view :: "runtime list use_api \<Rightarrow> 'm vnode" where
  "runtimes_view a =
     El ''div'' []
       [El ''div'' []
         [El ''h2'' [] [Txt ''PHP Runtimes''],
          El ''p'' [] [Txt ''Detected PHP-FPM installations on this system.'']],
        card (nat_to_str (length (runtimes_of a)) @ '' runtime'' @
               (if length (runtimes_of a) \<noteq> 1 then ''s'' else '''') @ '' detected'')
         [if ua_loading a then El ''p'' [] [Txt ''Scanning for PHP runtimes...'']
          else if length (runtimes_of a) = 0 then
            El ''div'' []
             [El ''Cpu'' [] [], El ''p'' [] [Txt ''No PHP runtimes found''],
              El ''p'' [] [Txt ''Install PHP-FPM to get started'']]
          else El ''div'' [] (map runtime_row (runtimes_of a))],
        card ''About PHP Runtimes''
         [El ''div'' []
           [El ''p'' [] [Txt ''Gateway scans common PHP-FPM binary locations at startup. Each site can be assigned a specific PHP version.''],
            El ''p'' []
             [Txt ''To install additional runtimes, use your system package manager or the '',
              El ''code'' [] [Txt ''gateway runtime install''],
              Txt '' command.'']]]]"

section \<open>Properties\<close>

text \<open>In every run of the request explorer, when no trace is under way, an explanation that is shown
  is an answer to the URL that was traced last: no answer to an earlier URL is ever left on the page.\<close>

theorem explorer_shows_answer_to_last_url:
  assumes "reachable explorer_start (explorer_step answers) s"
    and "\<not> xp_loading s" and "xp_result s = Some r"
  shows "\<exists>u. xp_sent s \<noteq> [] \<and> last (xp_sent s) = explainRequest u \<and> answers u r"
  using explorer.idle_shows_answer [OF assms]
  by (auto simp: last_sent_def answers_request_def split: if_splits)

text \<open>In every run of the route tester at most one test is outstanding, exactly while its button is
  disabled, the outstanding test is the request sent last, and when the tester is idle a shown result
  answers the URL that was tested last.\<close>

theorem tester_answers_last_url:
  assumes "reachable routes_start (routes_step answers) s"
  shows "length (rt_pending s) = (if rt_testing s then 1 else 0) \<and>
     (\<forall>u \<in> set (rt_pending s). last (rt_sent s) = explainRequest u) \<and>
     (\<not> rt_testing s \<longrightarrow> (\<forall>r. rt_result s = Some r \<longrightarrow>
        (\<exists>u. last (rt_sent s) = explainRequest u \<and> answers u r)))"
  using route_tester.one_outstanding [OF assms] route_tester.answered_inv [OF assms]
  by (auto simp: last_sent_def answers_request_def split: if_splits)

lemma those_map_Some: "(\<forall>x \<in> set xs. f x \<noteq> None) \<Longrightarrow> \<exists>ys. those (map f xs) = Some ys \<and> length ys = length xs"
  by (induction xs) auto

lemma elements_route_row: "elements ''tr'' (route_row cs) = [route_row cs]"
proof -
  have "concat (map (elements ''tr'') (map (\<lambda>c. El ''td'' [] [Txt c] :: 'a vnode) cs)) = []"
    by (induction cs) simp_all
  then show ?thesis unfolding route_row_def elements.simps by (simp del: map_map)
qed

lemma elements_route_rows:
  "concat (map (\<lambda>x. elements ''tr'' (route_row x)) rows) = map route_row rows"
  by (induction rows) (simp_all add: elements_route_row)

lemma no_rows_in_result: "concat (map (elements ''tr'') (test_result_view r)) = []"
  by (auto simp: test_result_view_def split: option.splits)

text \<open>When the configuration answer has no routes, or null, the route page renders and its table has
  the header and the two built-in rows; when it has a list of rows whose members are strings, the page
  renders, and the table has the header and one row for each of them.\<close>

theorem route_table_rows:
  assumes "ua_data (rt_api s) = Some (JObj ms)"
    and "(case member_of ''routes'' ms of None \<Rightarrow> n = 2
          | Some JNull \<Rightarrow> n = 2
          | Some (JArr rs) \<Rightarrow> n = length rs \<and> (\<forall>r \<in> set rs. \<exists>fs. r = JObj fs \<and> (\<forall>k j. member_of k fs = Some j \<longrightarrow> (\<exists>t. j = JStr t)))
          | _ \<Rightarrow> False)"
  shows "\<exists>v. routes_view s = Some v \<and> length (elements ''tr'' v) = Suc n"
proof -
  have row: "route_cells (JObj fs) \<noteq> None" if "\<forall>k j. member_of k fs = Some j \<longrightarrow> (\<exists>t. j = JStr t)" for fs
  proof -
    have truthy: "\<exists>t. first_truthy ks fs (JStr d) = JStr t" for ks d
      using that by (induction ks) (auto split: option.splits)
    then obtain a b c where "first_truthy [''host''] fs (JStr ''*'') = JStr a"
      "first_truthy [''path'', ''path_prefix''] fs (JStr ''/*'') = JStr b"
      "first_truthy [''type''] fs (JStr ''front_controller'') = JStr c" by blast
    moreover have "\<exists>t. child_text j = Some t" if "member_of ''target'' fs = Some j" for j
      using \<open>\<forall>k j. member_of k fs = Some j \<longrightarrow> (\<exists>t. j = JStr t)\<close> that by fastforce
    ultimately show ?thesis
      by (simp add: route_cells_def del: first_truthy.simps split: option.splits)
  qed
  have fallback: "\<forall>r \<in> set fallback_routes. route_cells r \<noteq> None" "length fallback_routes = 2"
    by (simp_all add: fallback_routes_def route_cells_def member_of_def)
  have "\<exists>rs. configured_routes (Some (JObj ms)) = Some rs \<and> length rs = n \<and> (\<forall>r \<in> set rs. route_cells r \<noteq> None)"
    using assms(2) fallback row
    by (auto simp: configured_routes_def split: option.splits json.splits)
  then obtain rs where rs: "configured_routes (Some (JObj ms)) = Some rs" "length rs = n"
      "\<forall>r \<in> set rs. route_cells r \<noteq> None" by blast
  from those_map_Some [OF rs(3)] obtain rows where rows: "those (map route_cells rs) = Some rows" "length rows = n"
    using rs(2) by auto
  have "\<exists>v. routes_view s = Some v" by (simp add: routes_view_def assms(1) rs rows)
  then obtain v where v: "routes_view s = Some v" by blast
  then have "length (elements ''tr'' v) = Suc (length rows)"
    by (auto simp: routes_view_def assms(1) rs rows card_def o_def elements_route_rows no_rows_in_result)
  with v rows show ?thesis by simp
qed

text \<open>In every run of the diagnostics page the doctor is requested once for each fetch of its hook,
  the compatibility report exactly once however often the doctor is re-run, and a hook that shows its
  loading state has a request outstanding.\<close>

theorem doctor_page_requests:
  assumes "reachable doctor_start doctor_step s"
  shows "count_list (dc_sent s) getDoctor = ua_issued (dc_report s) \<and>
     count_list (dc_sent s) (getDoctorCompat None) = 1 \<and>
     (ua_loading (dc_report s) \<longrightarrow> ua_inflight (dc_report s) \<noteq> [])"
  using doctor.reachable_inv [OF assms] by (simp add: doctor_inv_def ua_inv_def)

lemma texts_check_rows:
  "concat (map (texts \<circ> check_row) cs) = concat (map (\<lambda>c. [c_name c, c_message c, check_status_str (c_status c)]) cs)"
  by (induction cs) (simp_all add: check_row_def)

lemma failed_check_rows:
  "length (concat (map (elements ''XCircle'' \<circ> check_row) cs)) = length (filter (\<lambda>c. c_status c = ChkFail) cs)"
proof (induction cs)
  case (Cons c cs)
  then show ?case by (cases "c_status c") (simp_all add: check_row_def check_icon_def)
qed simp

text \<open>Once the doctor has answered, the readiness card lists every check of the report in order, with
  its name, its message and its status, and each with the icon of its status.\<close>

theorem doctor_lists_every_check:
  assumes "\<not> ua_loading (dc_report s)"
  shows "texts (checks_card s) = ''System Readiness Checks'' #
       concat (map (\<lambda>c. [c_name c, c_message c, check_status_str (c_status c)]) (checks_of s)) \<and>
     length (elements ''XCircle'' (checks_card s)) = length (filter (\<lambda>c. c_status c = ChkFail) (checks_of s))"
  using assms by (simp add: checks_card_def card_def texts_check_rows failed_check_rows)

section \<open>Witnesses\<close>

definition demo_explanation :: "string \<Rightarrow> explanation" where
  "demo_explanation u =
     \<lparr>e_request = \<lparr>q_method = ''GET'', q_host = ''localhost'', q_path = u, q_query = '''', q_headers = [],
                   q_tls = False, q_remote = ''''\<rparr>,
      e_path_normalization = \<lparr>pn_raw = u, pn_decoded = u, pn_normalized = u, pn_valid = True\<rparr>,
      e_policy_check = \<lparr>pc_decision = ''allow'', pc_matched_rules = None\<rparr>,
      e_route_match = \<lparr>rm_matched = True, rm_target = None\<rparr>,
      e_file_check = \<lparr>fc_found = True, fc_is_php = True, fc_protected = False, fc_error = None\<rparr>,
      e_script_check = \<lparr>sc_found = True, sc_script_name = u, sc_script_path = u\<rparr>,
      e_summary = ''ok'', e_duration = ''1ms''\<rparr>"

definition demo_answers :: "string \<Rightarrow> explanation \<Rightarrow> bool" where
  "demo_answers u r \<longleftrightarrow> r = demo_explanation u"

definition demo_traced :: explorer_page where
  "demo_traced = trace_ok (demo_explanation ''/index.php'') ((handle_trace explorer_init)\<lparr>xp_pending := []\<rparr>)"

definition demo_tested :: routes_page where
  "demo_tested = test_ok (demo_explanation ''/index.php'') ((handle_test routes_init)\<lparr>rt_pending := []\<rparr>)"

lemma first_trace_reachable:
  assumes "answers ''/index.php'' r"
  shows "reachable explorer_start (explorer_step answers) (trace_ok r ((handle_trace explorer_init)\<lparr>xp_pending := []\<rparr>))"
proof (rule reachable_step [where s = "handle_trace explorer_init"])
  have "reachable explorer_start (explorer_step answers) explorer_init"
    by (rule reachable_init) (simp add: explorer_start_def)
  moreover have "explorer_step answers explorer_init (explorer_update XpTrace explorer_init)"
    by (rule explorer_step.user) (simp add: offers_explorer_view explorer_init_def)
  ultimately show "reachable explorer_start (explorer_step answers) (handle_trace explorer_init)"
    by (auto intro: reachable_step)
  show "explorer_step answers (handle_trace explorer_init) (trace_ok r ((handle_trace explorer_init)\<lparr>xp_pending := []\<rparr>))"
    using assms
    by (intro explorer_step.traced [where us = "[]" and vs = "[]" and u = "''/index.php''", simplified])
      (simp_all add: handle_trace_def explorer_init_def)
qed

lemma demo_traced_reachable: "reachable explorer_start (explorer_step demo_answers) demo_traced"
  unfolding demo_traced_def by (rule first_trace_reachable) (simp add: demo_answers_def)

lemma routes_init_view: "\<exists>v. routes_view routes_init = Some v"
  by (simp add: routes_view_def routes_init_def ua_defs configured_routes_def fallback_routes_def
      route_cells_def member_of_def)

lemma demo_tested_reachable: "reachable routes_start (routes_step demo_answers) demo_tested"
proof (rule reachable_step [where s = "handle_test routes_init"])
  have "reachable routes_start (routes_step demo_answers) routes_init"
    by (rule reachable_init) (simp add: routes_start_def)
  moreover obtain v where v: "routes_view routes_init = Some v" using routes_init_view ..
  then have "routes_step demo_answers routes_init (routes_update RtTest routes_init)"
    by (rule routes_step.user) (simp add: offers_routes_view [OF v] routes_init_def)
  ultimately show "reachable routes_start (routes_step demo_answers) (handle_test routes_init)"
    by (auto intro: reachable_step)
  show "routes_step demo_answers (handle_test routes_init) demo_tested"
    unfolding demo_tested_def
    by (rule routes_step.tested [where us = "[]" and vs = "[]", simplified])
      (simp_all add: handle_test_def routes_init_def demo_answers_def)
qed

theorem explorer_shows_answer_to_last_url_witness:
  "\<exists>u. xp_result demo_traced = Some (demo_explanation ''/index.php'') \<and>
       last (xp_sent demo_traced) = explainRequest u \<and> demo_answers u (demo_explanation ''/index.php'')"
proof -
  have "\<not> xp_loading demo_traced" "xp_result demo_traced = Some (demo_explanation ''/index.php'')"
    by (simp_all add: demo_traced_def trace_ok_def)
  with explorer_shows_answer_to_last_url [OF demo_traced_reachable] show ?thesis by blast
qed

theorem tester_answers_last_url_witness:
  "reachable routes_start (routes_step demo_answers) demo_tested \<and> rt_pending demo_tested = [] \<and>
   (\<exists>u. last (rt_sent demo_tested) = explainRequest u \<and> demo_answers u (demo_explanation ''/index.php''))"
proof -
  have "\<not> rt_testing demo_tested" "rt_result demo_tested = Some (demo_explanation ''/index.php'')"
    by (simp_all add: demo_tested_def test_ok_def)
  with tester_answers_last_url [OF demo_tested_reachable] demo_tested_reachable show ?thesis by simp
qed

theorem route_table_rows_witness:
  "\<exists>v. routes_view (routes_init\<lparr>rt_api := ua_resolve 0 (JObj [(''routes'', JArr [JObj [(''host'', JStr ''a'')]])]) ua_start\<rparr>)
        = Some v \<and> length (elements ''tr'' v) = 2"
  using route_table_rows [of "routes_init\<lparr>rt_api := ua_resolve 0 (JObj [(''routes'', JArr [JObj [(''host'', JStr ''a'')]])]) ua_start\<rparr>"
      "[(''routes'', JArr [JObj [(''host'', JStr ''a'')]])]" 1]
  by (simp add: ua_defs member_of_def numeral_2_eq_2 split: if_splits)

theorem doctor_page_requests_witness:
  "reachable doctor_start doctor_step (doctor_update Rerun doctor_init) \<and>
   count_list (dc_sent (doctor_update Rerun doctor_init)) (getDoctorCompat None) = 1"
proof -
  have "reachable doctor_start doctor_step doctor_init"
    by (rule reachable_init) (simp add: doctor_start_def)
  moreover have "doctor_step doctor_init (doctor_update Rerun doctor_init)"
    by (rule doctor_step.user) (simp add: doctor_view_def offers_simps)
  ultimately have h: "reachable doctor_start doctor_step (doctor_update Rerun doctor_init)"
    by (rule reachable_step)
  from doctor_page_requests [OF h] h show ?thesis by simp
qed

definition demo_report :: doctor_report where
  "demo_report =
     \<lparr>d_checks = Some [\<lparr>c_name = ''php-fpm'', c_status = ChkFail, c_message = ''not found''\<rparr>],
      d_os = ''linux'', d_arch = ''amd64'', d_go_version = ''go1.22'', d_hostname = ''h''\<rparr>"

theorem doctor_lists_every_check_witness:
  "texts (checks_card (doctor_init\<lparr>dc_report := ua_resolve 0 demo_report ua_start\<rparr>) :: doctor_msg vnode)
     = [''System Readiness Checks'', ''php-fpm'', ''not found'', ''fail'']"
proof -
  have "\<not> ua_loading (dc_report (doctor_init\<lparr>dc_report := ua_resolve 0 demo_report ua_start\<rparr>))"
    by (simp add: ua_defs)
  then show ?thesis
    by (rule trans [OF conjunct1 [OF doctor_lists_every_check]]) (simp add: checks_of_def ua_defs demo_report_def)
qed

end
