(* ===== verification/DashboardPage.thy ===== *)
theory DashboardPage
  imports Client View
begin

text \<open>
  \<open>dashboard/src/pages/Dashboard.tsx\<close>: the start page, with the status of the gateway, the system and
  the metrics. An interval of 5000 ms refetches the status and the metrics.
  The locale of the browser is a parameter of the view: \<open>fmt_count\<close> is \<open>n.toLocaleString()\<close>.
\<close>

section \<open>Formatting\<close>

definition format_uptime :: "int \<Rightarrow> string" where
  "format_uptime seconds =
     (if seconds < 60 then int_to_str seconds @ ''s''
      else
        (let mins = seconds div 60
         in if mins < 60 then int_to_str mins @ ''m '' @ int_to_str (seconds mod 60) @ ''s''
            else
              (let hours = mins div 60
               in if hours < 24 then int_to_str hours @ ''h '' @ int_to_str (mins mod 60) @ ''m''
                  else
                    (let days = hours div 24
                     in int_to_str days @ ''d '' @ int_to_str (hours mod 24) @ ''h''))))"

text \<open>\<open>x.toFixed(1)\<close> of the rational \<open>n / d\<close>: the nearest tenth, the larger one of two.\<close>

definition to_fixed_1 :: "int \<times> nat \<Rightarrow> string" where
  "to_fixed_1 q =
     (let n = \<bar>fst q\<bar>; d = int (snd q); t = (20 * n + d) div (2 * d)
      in (if fst q < 0 then ''-'' else '''') @ int_to_str (t div 10) @ ''.'' @ int_to_str (t mod 10))"

section \<open>State\<close>

record dash_page =
  ds_status :: "gateway_status use_api"
  ds_system :: "system_info use_api"
  ds_metrics :: "metric_point list use_api"
  ds_path :: "string option"
  ds_sent :: "request list"

datatype dash_msg = GoDoctor | GoExplorer | GoSites

definition dash_init :: dash_page where
  "dash_init =
     \<lparr>ds_status = ua_start, ds_system = ua_start, ds_metrics = ua_start, ds_path = None,
      ds_sent = [getStatus, getSystem, getMetricsHistory]\<rparr>"

definition dash_period :: "nat option" where
  "dash_period = Some 5000"

text \<open>The function of the interval.\<close>

definition dash_tick :: "dash_page \<Rightarrow> dash_page" where
  "dash_tick s =
     s\<lparr>ds_status := ua_load (ds_status s), ds_metrics := ua_load (ds_metrics s),
       ds_sent := ds_sent s @ [getStatus, getMetricsHistory]\<rparr>"

text \<open>\<open>navigate(path)\<close>: where the router is asked to go.\<close>

primrec dash_update :: "dash_msg \<Rightarrow> dash_page \<Rightarrow> dash_page" where
  "dash_update GoDoctor s = s\<lparr>ds_path := Some ''/doctor''\<rparr>"
| "dash_update GoExplorer s = s\<lparr>ds_path := Some ''/explorer''\<rparr>"
| "dash_update GoSites s = s\<lparr>ds_path := Some ''/sites''\<rparr>"

section \<open>View\<close>

definition dash_row :: "string \<Rightarrow> string \<Rightarrow> 'm vnode" where
  "dash_row label val = El ''tr'' [] [El ''td'' [] [Txt label], El ''td'' [] [Txt val]]"

definition history_of :: "dash_page \<Rightarrow> metric_point list" where
  "history_of s = (case ua_data (ds_metrics s) of None \<Rightarrow> [] | Some h \<Rightarrow> h)"

text \<open>The charts are third-party components: a chart keeps the key it plots and the plotted points.\<close>

definition chart :: "string \<Rightarrow> string \<Rightarrow> (metric_point \<Rightarrow> string) \<Rightarrow> metric_point list \<Rightarrow> 'm vnode" where
  "chart kind key val history =
     El kind [Attr ''dataKey'' key]
       (map (\<lambda>p. El ''point'' [Attr ''timestamp'' (m_timestamp p), Attr key (val p)] []) history)"

definition status_cards :: "(int \<Rightarrow> string) \<Rightarrow> gateway_status \<Rightarrow> 'm vnode list" where
  "status_cards fmt_count st =
     [stat_card ''Uptime'' (format_uptime (gs_uptime_seconds st)) ''Clock'' None CInfo,
      stat_card ''Total Requests'' (fmt_count (gs_total_requests st)) ''Activity''
        (Some (int_to_str (gs_active_requests st) @ '' active'')) CAccent,
      stat_card ''Configured Sites'' (int_to_str (gs_sites_count st)) ''Globe'' None CSuccess,
      stat_card ''Total Errors'' (fmt_count (gs_total_errors st)) ''AlertTriangle'' None
        (if gs_total_errors st > 0 then CError else CSuccess)]"

definition engine_rows :: "gateway_status \<Rightarrow> (string \<times> string) list" where
  "engine_rows st =
     [(''Gateway Version'', gs_version st),
      (''Process PID'', int_to_str (gs_pid st)),
      (''Listening Address'', gs_addr st),
      (''Document Root'', gs_doc_root st)]
     @ only (gs_framework st \<noteq> '''') [(''Detected Framework'', gs_framework st)]
     @ [(''PHP Runtimes'', str_or (join '', '' (gs_runtimes st)) ''None detected''),
        (''Active Goroutines'', int_to_str (gs_goroutines st))]"

definition system_rows :: "system_info \<Rightarrow> (string \<times> string) list" where
  "system_rows sy =
     [(''Hostname'', sys_hostname sy),
      (''OS / Architecture'', sys_os sy @ '' / '' @ sys_arch sy),
      (''Go Runtime'', sys_go_version sy),
      (''CPU Cores'', int_to_str (sys_num_cpu sy)),
      (''Memory (Allocated)'', to_fixed_1 (sys_mem_alloc_mb sy) @ '' MB''),
      (''Memory (System Sys)'', to_fixed_1 (sys_mem_sys_mb sy) @ '' MB''),
      (''PID'', int_to_str (sys_pid sy))]"

definition rows_table :: "(string \<times> string) list \<Rightarrow> 'm vnode" where
  "rows_table rows = El ''table'' [] [El ''tbody'' [] (map (\<lambda>(l, v). dash_row l v) rows)]"

definition dash_view :: "(int \<Rightarrow> string) \<Rightarrow> (int \<times> nat \<Rightarrow> string) \<Rightarrow> dash_page \<Rightarrow> dash_msg vnode" where
  "dash_view fmt_count fmt_number s =
     (case (if ua_loading (ds_status s) then None else ua_data (ds_status s)) of
        None \<Rightarrow> El ''div'' [] [Txt ''Loading dashboard...'']
      | Some st \<Rightarrow>
          El ''div'' []
            [El ''div'' []
              [El ''div'' []
                [El ''Zap'' [] [],
                 El ''h3'' [] [Txt ''Gateway Control Center''],
                 El ''p'' [] [Txt ''Quick actions and real-time monitoring'']],
               El ''div'' []
                [El ''button'' [OnClick GoDoctor] [El ''CheckCircle2'' [] [], Txt ''Run Doctor''],
                 El ''button'' [OnClick GoExplorer] [El ''Terminal'' [] [], Txt ''Trace Request''],
                 El ''button'' [OnClick GoSites] [Txt ''Manage Sites'', El ''ArrowRight'' [] []]]],
             El ''div'' [] (status_cards fmt_count st),
             El ''div'' []
              [card ''Request Throughput (Req/sec)''
                 [chart ''AreaChart'' ''requests'' (\<lambda>p. int_to_str (m_requests p)) (history_of s)],
               card ''Latency Distribution (ms)''
                 [chart ''BarChart'' ''latency_ms'' (\<lambda>p. fmt_number (m_latency_ms p)) (history_of s)]],
             El ''div'' []
              (card ''Gateway Runtime Engine'' [rows_table (engine_rows st)]
               # (case ua_data (ds_system s) of None \<Rightarrow> []
                  | Some sy \<Rightarrow> [card ''Host System Environment'' [rows_table (system_rows sy)]]))])"

section \<open>Runs of the page\<close>

inductive dash_step :: "(int \<Rightarrow> string) \<Rightarrow> (int \<times> nat \<Rightarrow> string) \<Rightarrow> dash_page \<Rightarrow> dash_page \<Rightarrow> bool"
  for fmt_count fmt_number where
  user: "offers (dash_view fmt_count fmt_number s) m \<Longrightarrow> dash_step fmt_count fmt_number s (dash_update m s)"
| tick: "dash_step fmt_count fmt_number s (dash_tick s)"
| status_ok: "i \<in> set (ua_inflight (ds_status s)) \<Longrightarrow>
    dash_step fmt_count fmt_number s (s\<lparr>ds_status := ua_resolve i st (ds_status s)\<rparr>)"
| status_fail: "i \<in> set (ua_inflight (ds_status s)) \<Longrightarrow>
    dash_step fmt_count fmt_number s (s\<lparr>ds_status := ua_reject i e (ds_status s)\<rparr>)"
| system_ok: "i \<in> set (ua_inflight (ds_system s)) \<Longrightarrow>
    dash_step fmt_count fmt_number s (s\<lparr>ds_system := ua_resolve i sy (ds_system s)\<rparr>)"
| system_fail: "i \<in> set (ua_inflight (ds_system s)) \<Longrightarrow>
    dash_step fmt_count fmt_number s (s\<lparr>ds_system := ua_reject i e (ds_system s)\<rparr>)"
| metrics_ok: "i \<in> set (ua_inflight (ds_metrics s)) \<Longrightarrow>
    dash_step fmt_count fmt_number s (s\<lparr>ds_metrics := ua_resolve i h (ds_metrics s)\<rparr>)"
| metrics_fail: "i \<in> set (ua_inflight (ds_metrics s)) \<Longrightarrow>
    dash_step fmt_count fmt_number s (s\<lparr>ds_metrics := ua_reject i e (ds_metrics s)\<rparr>)"

definition dash_start :: "dash_page \<Rightarrow> bool" where
  "dash_start s \<longleftrightarrow> s = dash_init"

definition dash_inv :: "dash_page \<Rightarrow> bool" where
  "dash_inv s \<longleftrightarrow>
     ua_inv (ds_status s) \<and> ua_inv (ds_system s) \<and> ua_inv (ds_metrics s) \<and>
     ua_mounted (ds_status s) \<and> ua_mounted (ds_system s) \<and> ua_mounted (ds_metrics s) \<and>
     count_list (ds_sent s) getStatus = ua_issued (ds_status s) \<and>
     count_list (ds_sent s) getMetricsHistory = ua_issued (ds_metrics s) \<and>
     ua_issued (ds_metrics s) = ua_issued (ds_status s) \<and>
     count_list (ds_sent s) getSystem = 1 \<and>
     ds_path s \<in> {None, Some ''/doctor'', Some ''/explorer'', Some ''/sites''}"

lemma dash_requests_neq [simp]:
  "getStatus \<noteq> getSystem" "getStatus \<noteq> getMetricsHistory" "getSystem \<noteq> getStatus"
  "getSystem \<noteq> getMetricsHistory" "getMetricsHistory \<noteq> getStatus" "getMetricsHistory \<noteq> getSystem"
  by (simp_all add: api_defs)

lemma dash_inv_step: "dash_step fc fn s t \<Longrightarrow> dash_inv s \<Longrightarrow> dash_inv t"
proof (induction rule: dash_step.induct)
  case (user s m)
  then show ?case by (cases m) (simp_all add: dash_inv_def)
next
  case (tick s)
  then show ?case by (simp add: dash_inv_def dash_tick_def ua_inv_ops)
qed (simp_all add: dash_inv_def ua_inv_ops)

interpretation dashboard: invariant_machine dash_start "dash_step fc fn" dash_inv
  for fc :: "int \<Rightarrow> string" and fn :: "int \<times> nat \<Rightarrow> string"
proof unfold_locales
  show "dash_inv s" if "dash_start s" for s
    using that
    by (simp add: dash_start_def dash_init_def dash_inv_def ua_inv_start) (simp add: ua_defs)
  show "dash_inv t" if "dash_step fc fn s t" and "dash_inv s" for s t
    using that by (rule dash_inv_step)
qed

section \<open>Properties\<close>

definition unit_seconds :: "char \<Rightarrow> int" where
  "unit_seconds u =
     (if u = CHR ''d'' then 86400 else if u = CHR ''h'' then 3600 else if u = CHR ''m'' then 60 else 1)"

definition print_duration :: "(int \<times> char) list \<Rightarrow> string" where
  "print_duration parts = join '' '' (map (\<lambda>(n, u). int_to_str n @ [u]) parts)"

definition duration_seconds :: "(int \<times> char) list \<Rightarrow> int" where
  "duration_seconds parts = sum_list (map (\<lambda>(n, u). n * unit_seconds u) parts)"

text \<open>The parts of a duration, as a reference: two adjacent units at most, the coarsest first.\<close>

definition duration_parts :: "int \<Rightarrow> (int \<times> char) list" where
  "duration_parts s =
     (if s < 60 then [(s, CHR ''s'')]
      else if s < 3600 then [(s div 60, CHR ''m''), (s mod 60, CHR ''s'')]
      else if s < 86400 then [(s div 3600, CHR ''h''), (s mod 3600 div 60, CHR ''m'')]
      else [(s div 86400, CHR ''d''), (s mod 86400 div 3600, CHR ''h'')])"

lemma div_mod_units:
  fixes s :: int
  shows "s div 60 div 60 = s div 3600" "s div 60 mod 60 = s mod 3600 div 60"
    "s div 3600 div 24 = s div 86400" "s div 3600 mod 24 = s mod 86400 div 3600"
    "s div 60 < 60 \<longleftrightarrow> s < 3600" "s div 3600 < 24 \<longleftrightarrow> s < 86400"
proof -
  have "s mod 3600 = 60 * (s div 60 mod 60) + s mod 60" using zmod_zmult2_eq [of 60 s 60] by simp
  then show "s div 60 mod 60 = s mod 3600 div 60" by simp
  have "s mod 86400 = 3600 * (s div 3600 mod 24) + s mod 3600" using zmod_zmult2_eq [of 24 s 3600] by simp
  then show "s div 3600 mod 24 = s mod 86400 div 3600" by simp
  show "s div 60 div 60 = s div 3600" using zdiv_zmult2_eq [of 60 s 60] by simp
  show "s div 3600 div 24 = s div 86400" using zdiv_zmult2_eq [of 24 s 3600] by simp
  show "s div 60 < 60 \<longleftrightarrow> s < 3600" by linarith
  show "s div 3600 < 24 \<longleftrightarrow> s < 86400" by linarith
qed

lemma format_uptime_parts: "format_uptime s = print_duration (duration_parts s)"
  by (simp add: format_uptime_def print_duration_def duration_parts_def Let_def div_mod_units)

lemma two_units:
  fixes s a b :: int
  assumes "0 < b"
  shows "s mod a div b * b + s div a * a \<le> s" and "s < s mod a div b * b + s div a * a + b"
proof -
  have "s div a * a + s mod a = s" "s mod a div b * b + s mod a mod b = s mod a" by simp_all
  moreover have "0 \<le> s mod a mod b" "s mod a mod b < b" using assms by simp_all
  ultimately show "s mod a div b * b + s div a * a \<le> s" "s < s mod a div b * b + s div a * a + b"
    by linarith+
qed

lemma duration_seconds_simps:
  "duration_seconds (duration_parts s) =
     (if s < 3600 then s
      else if s < 86400 then s mod 3600 div 60 * 60 + s div 3600 * 3600
      else s mod 86400 div 3600 * 3600 + s div 86400 * 86400)"
  "unit_seconds (snd (last (duration_parts s))) =
     (if s < 3600 then 1 else if s < 86400 then 60 else 3600)"
  by (simp_all add: duration_seconds_def duration_parts_def unit_seconds_def)

lemma duration_parts_bounds:
  "duration_seconds (duration_parts s) \<le> s"
  "s < duration_seconds (duration_parts s) + unit_seconds (snd (last (duration_parts s)))"
  unfolding duration_seconds_simps by (simp_all only: two_units split: if_splits) simp_all

text \<open>The uptime text is the decimal text of at most two parts with their units, coarsest first; the
  parts are not negative, the finer one is smaller than one unit of the coarser one, and together they are
  the uptime cut off at the finest unit shown.\<close>

theorem uptime_text_denotes_uptime:
  assumes "0 \<le> s"
  shows "\<exists>parts. format_uptime s = print_duration parts \<and> parts \<noteq> [] \<and> length parts \<le> 2 \<and>
     list_all (\<lambda>(n, u). 0 \<le> n) parts \<and>
     list_all (\<lambda>(n, u). n * unit_seconds u < unit_seconds (snd (hd parts))) (tl parts) \<and>
     duration_seconds parts \<le> s \<and> s < duration_seconds parts + unit_seconds (snd (last parts))"
proof (intro exI conjI)
  show "format_uptime s = print_duration (duration_parts s)" by (rule format_uptime_parts)
  show "duration_parts s \<noteq> []" "length (duration_parts s) \<le> 2" by (simp_all add: duration_parts_def)
  show "list_all (\<lambda>(n, u). 0 \<le> n) (duration_parts s)"
    using assms by (simp add: duration_parts_def pos_imp_zdiv_nonneg_iff)
  have "s mod 3600 div 60 < 60" "s mod 86400 div 3600 < 24" by linarith+
  then show "list_all (\<lambda>(n, u). n * unit_seconds u < unit_seconds (snd (hd (duration_parts s)))) (tl (duration_parts s))"
    by (simp add: duration_parts_def unit_seconds_def)
qed (rule duration_parts_bounds)+

text \<open>In every run of the start page the status and the metrics are requested equally often, each
  exactly once per fetch its hook has issued, and the system information only once; a hook in its loading
  state has a request outstanding; and the buttons only lead to routes of the application.\<close>

theorem dashboard_requests_accounted:
  assumes "reachable dash_start (dash_step fc fn) s"
  shows "count_list (ds_sent s) getStatus = ua_issued (ds_status s) \<and>
     count_list (ds_sent s) getMetricsHistory = count_list (ds_sent s) getStatus \<and>
     count_list (ds_sent s) getSystem = 1 \<and>
     (ua_loading (ds_status s) \<longrightarrow> ua_inflight (ds_status s) \<noteq> []) \<and>
     ds_path s \<in> {None, Some ''/doctor'', Some ''/explorer'', Some ''/sites''}"
  using dashboard.reachable_inv [OF assms] by (auto simp: dash_inv_def ua_inv_def)

text \<open>Every tick of the five-second interval blanks the page: whatever was shown, the page becomes the
  loading placeholder and offers nothing, and it stays so until a status response arrives; a failed one
  brings the old status back, if there was one.\<close>

theorem every_tick_blanks_dashboard:
  "dash_view fc fn (dash_tick s) = El ''div'' [] [Txt ''Loading dashboard...''] \<and>
   \<not> offers (dash_view fc fn (dash_tick s)) m \<and>
   ua_data (ds_status (dash_tick s)) = ua_data (ds_status s)"
  by (simp add: dash_view_def dash_tick_def ua_defs offers_simps)

theorem uptime_text_denotes_uptime_witness:
  "\<exists>parts. format_uptime 90061 = print_duration parts \<and> parts \<noteq> [] \<and>
     duration_seconds parts \<le> 90061 \<and> 90061 < duration_seconds parts + unit_seconds (snd (last parts))"
  using uptime_text_denotes_uptime [of 90061] by auto

theorem dashboard_requests_accounted_witness:
  "reachable dash_start (dash_step int_to_str to_fixed_1) (dash_tick dash_init) \<and>
   count_list (ds_sent (dash_tick dash_init)) getMetricsHistory = 2"
proof -
  have "reachable dash_start (dash_step int_to_str to_fixed_1) dash_init"
    by (rule reachable_init) (simp add: dash_start_def)
  then have h: "reachable dash_start (dash_step int_to_str to_fixed_1) (dash_tick dash_init)"
    by (rule reachable_step) (rule dash_step.tick)
  from dashboard_requests_accounted [OF h] h show ?thesis
    by (simp add: dash_init_def dash_tick_def)
qed

end
