(* ===== verification/Shell.thy ===== *)
theory Shell
  imports Client View
begin

text \<open>
  The frame around the pages: the route table of \<open>App.tsx\<close>, the sidebar, header, theme and health
  indicator of \<open>components/Layout.tsx\<close> and the command palette of \<open>components/CommandPalette.tsx\<close>.

  \<open>shell\<close> holds the React states of both components, the two browser states the theme effect
  writes (\<open>localStorage.theme\<close> and the \<open>dark\<close> class of the document) and the current path.
\<close>

section \<open>App.tsx\<close>

datatype page =
    DashboardP | SitesP | DeploymentsP | RoutesP | RuntimesP | ExtensionsP | ConfigP | LogsP | DoctorP | ExplorerP

definition app_routes :: "(string \<times> page) list" where
  "app_routes =
     [(''/'', DashboardP), (''/sites'', SitesP), (''/deployments'', DeploymentsP), (''/routes'', RoutesP),
      (''/runtimes'', RuntimesP), (''/extensions'', ExtensionsP), (''/config'', ConfigP),
      (''/logs'', LogsP), (''/doctor'', DoctorP), (''/explorer'', ExplorerP)]"

section \<open>Layout.tsx: navigation\<close>

record nav_item =
  n_to :: string
  n_icon :: string
  n_label :: string

definition nav :: "string \<Rightarrow> string \<Rightarrow> string \<Rightarrow> nav_item" where
  "nav t i l = \<lparr>n_to = t, n_icon = i, n_label = l\<rparr>"

definition nav_items :: "nav_item list" where
  "nav_items =
     [nav ''/'' ''LayoutDashboard'' ''Dashboard'',
      nav ''/sites'' ''Globe'' ''Sites'',
      nav ''/deployments'' ''Rocket'' ''Deployments'',
      nav ''/routes'' ''GitFork'' ''Routes'',
      nav ''/runtimes'' ''Cpu'' ''Runtimes'',
      nav ''/extensions'' ''Puzzle'' ''Extensions'',
      nav ''/config'' ''Settings'' ''Configuration'',
      nav ''/logs'' ''ScrollText'' ''Logs'',
      nav ''/doctor'' ''Activity'' ''Diagnostics'',
      nav ''/explorer'' ''Compass'' ''Explorer'']"

definition nav_active :: "string \<Rightarrow> nav_item \<Rightarrow> bool" where
  "nav_active pathname i \<longleftrightarrow>
     pathname = n_to i \<or> (n_to i \<noteq> ''/'' \<and> starts_with pathname (n_to i))"

definition page_title :: "string \<Rightarrow> string" where
  "page_title pathname =
     (case List.find (\<lambda>n. n_to n = pathname) nav_items of
        Some n \<Rightarrow> str_or (n_label n) ''Dashboard''
      | None \<Rightarrow> ''Dashboard'')"

section \<open>State\<close>

record shell =
  sh_path :: string
  sh_sidebar_open :: bool
  sh_palette_open :: bool
  sh_dark :: bool
  sh_storage :: "string option"
  sh_dark_class :: bool
  sh_query :: string
  sh_health :: "string use_api"
  sh_interval :: "unit interval"
  sh_sent :: "request list"

datatype shell_msg =
    OpenSidebar | CloseSidebar | Follow string | ToggleTheme
  | OpenPalette | ClosePalette | SetQuery string | SelectGo string | SelectTheme

text \<open>The effect on \<open>[darkMode]\<close>.\<close>

definition theme_effect :: "shell \<Rightarrow> shell" where
  "theme_effect s =
     (if sh_dark s then s\<lparr>sh_dark_class := True, sh_storage := Some ''dark''\<rparr>
      else s\<lparr>sh_dark_class := False, sh_storage := Some ''light''\<rparr>)"

definition shell_init :: "string \<Rightarrow> string option \<Rightarrow> bool \<Rightarrow> shell" where
  "shell_init path stored cls =
     theme_effect
       \<lparr>sh_path = path, sh_sidebar_open = False, sh_palette_open = False,
        sh_dark = (stored = Some ''dark''), sh_storage = stored, sh_dark_class = cls, sh_query = '''',
        sh_health = ua_start, sh_interval = iv_mount () (Some 10000), sh_sent = [healthCheck]\<rparr>"

definition toggle_theme :: "shell \<Rightarrow> shell" where
  "toggle_theme s = theme_effect (s\<lparr>sh_dark := \<not> sh_dark s\<rparr>)"

definition navigate :: "string \<Rightarrow> shell \<Rightarrow> shell" where
  "navigate path s = s\<lparr>sh_path := path\<rparr>"

text \<open>\<open>handleSelect\<close>: the action of the entry, then \<open>onClose\<close>.\<close>

definition close_palette :: "shell \<Rightarrow> shell" where
  "close_palette s = s\<lparr>sh_palette_open := False\<rparr>"

primrec shell_update :: "shell_msg \<Rightarrow> shell \<Rightarrow> shell" where
  "shell_update OpenSidebar s = s\<lparr>sh_sidebar_open := True\<rparr>"
| "shell_update CloseSidebar s = s\<lparr>sh_sidebar_open := False\<rparr>"
| "shell_update (Follow p) s = navigate p (s\<lparr>sh_sidebar_open := False\<rparr>)"
| "shell_update ToggleTheme s = toggle_theme s"
| "shell_update OpenPalette s = s\<lparr>sh_palette_open := True\<rparr>"
| "shell_update ClosePalette s = close_palette s"
| "shell_update (SetQuery v) s = s\<lparr>sh_query := v\<rparr>"
| "shell_update (SelectGo p) s = close_palette (navigate p s)"
| "shell_update SelectTheme s = close_palette (toggle_theme s)"

record key_event =
  k_meta :: bool
  k_ctrl :: bool
  k_key :: string

text \<open>\<open>handleKeyDown\<close> of the palette, installed on the window whether or not the palette is open.\<close>

definition palette_key :: "key_event \<Rightarrow> shell \<Rightarrow> shell" where
  "palette_key e s =
     (let s1 = (if (k_meta e \<or> k_ctrl e) \<and> k_key e = ''k'' then
                  (if sh_palette_open s then close_palette s else s\<lparr>sh_query := ''''\<rparr>)
                else s)
      in if k_key e = ''Escape'' \<and> sh_palette_open s then close_palette s1 else s1)"

text \<open>The health check every ten seconds.\<close>

definition health_tick :: "shell \<Rightarrow> shell" where
  "health_tick s =
     fold (\<lambda>_ s. s\<lparr>sh_health := ua_load (sh_health s), sh_sent := sh_sent s @ [healthCheck]\<rparr>)
       (iv_fire (sh_interval s)) s"

definition health_connected :: "string use_api \<Rightarrow> bool" where
  "health_connected h \<longleftrightarrow> ua_data h = Some ''ok''"

definition health_label :: "string use_api \<Rightarrow> string" where
  "health_label h = (if health_connected h then ''Connected'' else ''Offline'')"

section \<open>CommandPalette.tsx\<close>

record palette_item =
  p_label :: string
  p_icon :: string
  p_action :: shell_msg

definition palette_items :: "bool \<Rightarrow> palette_item list" where
  "palette_items dark =
     map (\<lambda>(l, i, p). \<lparr>p_label = l, p_icon = i, p_action = SelectGo p\<rparr>)
       [(''Go to Dashboard'', ''LayoutDashboard'', ''/''),
        (''Manage Sites'', ''Globe'', ''/sites''),
        (''Deployments & Releases'', ''Rocket'', ''/deployments''),
        (''Route Inspector'', ''GitFork'', ''/routes''),
        (''PHP Runtimes'', ''Cpu'', ''/runtimes''),
        (''PHP Extensions'', ''Puzzle'', ''/extensions''),
        (''Configuration'', ''Settings'', ''/config''),
        (''System Logs'', ''ScrollText'', ''/logs''),
        (''System Doctor & Health'', ''Activity'', ''/doctor''),
        (''Request Decision Explorer'', ''Compass'', ''/explorer'')]
     @ [\<lparr>p_label = (if dark then ''Switch to Light Theme'' else ''Switch to Dark Theme''),
          p_icon = (if dark then ''Sun'' else ''Moon''), p_action = SelectTheme\<rparr>]"

definition palette_filtered :: "shell \<Rightarrow> palette_item list" where
  "palette_filtered s =
     filter (\<lambda>i. includes_str (to_lower (p_label i)) (to_lower (sh_query s))) (palette_items (sh_dark s))"

definition palette_entry :: "palette_item \<Rightarrow> shell_msg vnode" where
  "palette_entry i =
     El ''button'' [OnClick (p_action i)] [El (p_icon i) [] [], El ''span'' [] [Txt (p_label i)]]"

definition palette_view :: "shell \<Rightarrow> shell_msg vnode list" where
  "palette_view s =
     (if \<not> sh_palette_open s then []
      else
        [El ''div'' []
          [El ''div'' []
            [El ''div'' []
              [El ''Search'' [] [],
               El ''input'' [Attr ''type'' ''text'', Attr ''placeholder'' ''Type a command or search...'',
                             Attr ''value'' (sh_query s), OnChange SetQuery] [],
               El ''button'' [OnClick ClosePalette] [El ''X'' [] []]],
             El ''div'' []
               (if length (palette_filtered s) = 0 then [El ''div'' [] [Txt ''No matching commands found'']]
                else map palette_entry (palette_filtered s)),
             El ''div'' []
               [El ''span'' [] [Txt ''Navigation shortcut''], El ''kbd'' [] [Txt ''ESC to close'']]]]])"

section \<open>Layout.tsx: view\<close>

definition nav_link :: "string \<Rightarrow> nav_item \<Rightarrow> shell_msg vnode" where
  "nav_link pathname i =
     El ''Link''
       [Attr ''key'' (n_to i), Attr ''to'' (n_to i), OnClick (Follow (n_to i)),
        Class (if nav_active pathname i then ''bg-accent/10 text-accent''
               else ''text-text-secondary hover:text-text hover:bg-surface-hover'')]
       [El (n_icon i) [] [], Txt (n_label i)]"

definition cmd_k_glyph :: string where
  "cmd_k_glyph = [CHR 0xE2, CHR 0x8C, CHR 0x98, CHR ''K'']"

definition shell_view :: "shell_msg vnode \<Rightarrow> shell \<Rightarrow> shell_msg vnode" where
  "shell_view outlet s =
     El ''div'' []
       (only (sh_sidebar_open s) [El ''div'' [OnClick CloseSidebar] []]
        @ [El ''aside'' [Class (if sh_sidebar_open s then ''translate-x-0''
                                else ''-translate-x-full lg:translate-x-0'')]
            [El ''div'' []
              [El ''div'' [] [El ''Server'' [] []],
               El ''div'' [] [El ''span'' [] [Txt ''Go-PHP Gateway''], El ''span'' [] [Txt ''Management Console'']],
               El ''button'' [OnClick CloseSidebar] [El ''X'' [] []]],
             El ''nav'' [] (map (nav_link (sh_path s)) nav_items),
             El ''div'' []
              [El ''div'' []
                [El ''span'' [Class (if health_connected (sh_health s) then ''bg-success'' else ''bg-error'')] [],
                 El ''span'' [] [Txt (health_label (sh_health s))]],
               El ''button'' [OnClick ToggleTheme,
                    Attr ''title'' (if sh_dark s then ''Switch to Light Mode'' else ''Switch to Dark Mode'')]
                 [if sh_dark s then El ''Sun'' [] [] else El ''Moon'' [] []]]],
           El ''main'' []
            [El ''header'' []
              [El ''div'' []
                [El ''button'' [OnClick OpenSidebar] [El ''Menu'' [] []],
                 El ''h1'' [] [Txt (page_title (sh_path s))]],
               El ''div'' []
                [El ''button'' [OnClick OpenPalette]
                  [El ''Search'' [] [], El ''span'' [] [Txt ''Quick Search...''],
                   El ''kbd'' [] [Txt cmd_k_glyph]]]],
             El ''div'' [] [outlet]]]
        @ palette_view s)"

section \<open>Runs\<close>

inductive shell_step :: "shell \<Rightarrow> shell \<Rightarrow> bool" where
  user: "offers (shell_view (Txt '''') s) m \<Longrightarrow> shell_step s (shell_update m s)"
| key: "shell_step s (palette_key e s)"
| tick: "shell_step s (health_tick s)"
| health_ok: "i \<in> set (ua_inflight (sh_health s)) \<Longrightarrow>
    shell_step s (s\<lparr>sh_health := ua_resolve i st (sh_health s)\<rparr>)"
| health_fail: "i \<in> set (ua_inflight (sh_health s)) \<Longrightarrow>
    shell_step s (s\<lparr>sh_health := ua_reject i e (sh_health s)\<rparr>)"
| page_link: "p \<in> fst ` set app_routes \<Longrightarrow> shell_step s (navigate p s)"

definition shell_start :: "shell \<Rightarrow> bool" where
  "shell_start s \<longleftrightarrow> (\<exists>path \<in> fst ` set app_routes. \<exists>stored cls. s = shell_init path stored cls)"

lemma offers_palette_entry [simp]: "offers (palette_entry i) m \<longleftrightarrow> m = p_action i"
  by (auto simp: palette_entry_def offers_simps)

lemma offers_nav_link [simp]: "offers (nav_link p i) m \<longleftrightarrow> m = Follow (n_to i)"
  by (auto simp: nav_link_def offers_simps)

lemma offers_palette_view:
  "list_ex (\<lambda>c. offers c m) (palette_view s) \<longleftrightarrow>
     sh_palette_open s \<and>
     ((\<exists>v. m = SetQuery v) \<or> m = ClosePalette \<or> m \<in> p_action ` set (palette_filtered s))"
  by (auto simp: palette_view_def offers_simps list_ex_map list_ex_iff)

lemma offers_shell_view:
  "offers (shell_view (Txt t) s) m \<longleftrightarrow>
     m = CloseSidebar \<or> m \<in> Follow ` n_to ` set nav_items \<or> m = ToggleTheme \<or> m = OpenSidebar \<or>
     m = OpenPalette \<or> list_ex (\<lambda>c. offers c m) (palette_view s)"
  by (auto simp: shell_view_def offers_simps list_ex_map list_ex_iff)

section \<open>Invariants\<close>

text \<open>The path is always one of the routes, and storage and document agree with the theme state.\<close>

definition shell_inv :: "shell \<Rightarrow> bool" where
  "shell_inv s \<longleftrightarrow>
     sh_path s \<in> fst ` set app_routes \<and>
     sh_dark_class s = sh_dark s \<and>
     sh_storage s = Some (if sh_dark s then ''dark'' else ''light'')"

lemma shell_init_fields [simp]:
  "sh_path (shell_init p st c) = p"
  "sh_dark (shell_init p st c) = (st = Some ''dark'')"
  "sh_dark_class (shell_init p st c) = (st = Some ''dark'')"
  "sh_storage (shell_init p st c) = Some (if st = Some ''dark'' then ''dark'' else ''light'')"
  "\<not> sh_palette_open (shell_init p st c)"
  by (simp_all add: shell_init_def theme_effect_def)

lemmas shell_defs =
  toggle_theme_def theme_effect_def navigate_def close_palette_def palette_key_def Let_def

lemma nav_paths: "n_to ` set nav_items = fst ` set app_routes"
  by (simp add: nav_items_def nav_def app_routes_def)

lemma palette_paths: "SelectGo p \<in> p_action ` set (palette_items d) \<longleftrightarrow> p \<in> fst ` set app_routes"
  by (auto simp: palette_items_def app_routes_def)

lemma palette_filtered_subset: "set (palette_filtered s) \<subseteq> set (palette_items (sh_dark s))"
  by (auto simp: palette_filtered_def)

lemma offers_go:
  "offers (shell_view (Txt t) s) (SelectGo p) \<Longrightarrow> p \<in> fst ` set app_routes"
  "offers (shell_view (Txt t) s) (Follow p) \<Longrightarrow> p \<in> fst ` set app_routes"
proof -
  show "offers (shell_view (Txt t) s) (SelectGo p) \<Longrightarrow> p \<in> fst ` set app_routes"
    using palette_filtered_subset [of s] palette_paths [of p "sh_dark s"]
    by (auto simp: offers_shell_view offers_palette_view)
  have "Follow p \<notin> p_action ` set (palette_filtered s)"
    using palette_filtered_subset [of s] by (auto simp: palette_items_def)
  then show "offers (shell_view (Txt t) s) (Follow p) \<Longrightarrow> p \<in> fst ` set app_routes"
    by (auto simp: offers_shell_view offers_palette_view simp flip: nav_paths)
qed

lemma shell_inv_update:
  assumes "shell_inv s"
    and "\<And>p. m = SelectGo p \<or> m = Follow p \<Longrightarrow> p \<in> fst ` set app_routes"
  shows "shell_inv (shell_update m s)"
  using assms by (cases m) (simp_all add: shell_inv_def shell_defs)

lemma shell_inv_tick: "shell_inv s \<Longrightarrow> shell_inv (health_tick s)"
  unfolding health_tick_def
  by (rule fold_invariant [where Q = "\<lambda>_. True"]) (simp_all add: shell_inv_def)

lemma shell_inv_step: "shell_step s t \<Longrightarrow> shell_inv s \<Longrightarrow> shell_inv t"
proof (induction rule: shell_step.induct)
  case (user s m)
  then show ?case by (intro shell_inv_update) (auto dest: offers_go)
next
  case (tick s)
  then show ?case by (intro shell_inv_tick)
qed (simp_all add: shell_inv_def shell_defs)

interpretation shell: invariant_machine shell_start shell_step shell_inv
proof unfold_locales
  show "shell_inv s" if "shell_start s" for s
    using that unfolding shell_start_def shell_inv_def by (elim bexE exE) simp
  show "shell_inv t" if "shell_step s t" and "shell_inv s" for s t
    using that by (rule shell_inv_step)
qed

section \<open>Properties\<close>

text \<open>On every page exactly one navigation entry is highlighted, its own, and the header shows the
  label of that entry.\<close>

theorem nav_highlights_current_page:
  "\<forall>i \<in> set nav_items. filter (nav_active (n_to i)) nav_items = [i] \<and> page_title (n_to i) = n_label i"
  by (simp add: nav_items_def nav_def nav_active_def page_title_def str_or_def)

text \<open>The sidebar and the command palette each lead to every route of the application and to nothing
  else, so in every run the current path is one of the routes.\<close>

theorem navigation_stays_on_routes:
  "n_to ` set nav_items = fst ` set app_routes \<and>
   {p. SelectGo p \<in> p_action ` set (palette_items d)} = fst ` set app_routes \<and>
   (\<forall>s. reachable shell_start shell_step s \<longrightarrow> sh_path s \<in> fst ` set app_routes)"
  using shell.reachable_inv nav_paths palette_paths by (auto simp: shell_inv_def)

text \<open>The theme survives a reload: in every reachable state the stored theme and the class of the
  document are those of the theme shown, and a page loaded from that storage starts with it.\<close>

theorem theme_survives_reload:
  assumes "reachable shell_start shell_step s"
  shows "sh_dark_class s = sh_dark s \<and> sh_dark (shell_init p (sh_storage s) c) = sh_dark s"
  using shell.reachable_inv [OF assms]
  by (auto simp: shell_inv_def)

text \<open>No sequence of key presses opens the command palette: the shortcut its button advertises only
  clears the query of a closed palette.\<close>

theorem keyboard_never_opens_palette:
  assumes "\<not> sh_palette_open s"
  shows "\<not> sh_palette_open (fold palette_key ks s)"
  using assms by (induction ks arbitrary: s) (simp_all add: palette_key_def close_palette_def Let_def)

text \<open>Once a health check has succeeded, the indicator says Connected for as long as no check
  answers, however many checks are sent and fail.\<close>

theorem connected_despite_failures:
  assumes "health_connected h"
    and "\<forall>x \<in> set ops. \<forall>i st. x \<noteq> HResolve i st"
  shows "health_label (fold (hook_apply ua_load ua_resolve ua_reject) ops h) = ''Connected''"
  using assms hook.shown_failures [OF assms(2), of h] by (simp add: health_label_def health_connected_def)

lemma shell_reach_init: "reachable shell_start shell_step (shell_init ''/'' None False)"
proof (rule reachable_init)
  have "''/'' \<in> fst ` set app_routes" by (simp add: app_routes_def)
  then show "shell_start (shell_init ''/'' None False)" unfolding shell_start_def by blast
qed

theorem nav_highlights_current_page_witness:
  "filter (nav_active ''/routes'') nav_items = [nav ''/routes'' ''GitFork'' ''Routes''] \<and>
   page_title ''/routes'' = ''Routes''"
proof -
  have mem: "nav ''/routes'' ''GitFork'' ''Routes'' \<in> set nav_items"
    by (simp add: nav_items_def)
  from nav_highlights_current_page mem show ?thesis by (fastforce simp: nav_def)
qed

theorem navigation_stays_on_routes_witness:
  "reachable shell_start shell_step (shell_init ''/'' None False) \<and>
   sh_path (shell_init ''/'' None False) \<in> fst ` set app_routes"
  using navigation_stays_on_routes shell_reach_init by blast

theorem theme_survives_reload_witness:
  "reachable shell_start shell_step (toggle_theme (shell_init ''/'' None False)) \<and>
   sh_dark (shell_init ''/'' (sh_storage (toggle_theme (shell_init ''/'' None False))) False)"
proof -
  have "shell_step (shell_init ''/'' None False) (shell_update ToggleTheme (shell_init ''/'' None False))"
    by (rule shell_step.user) (simp add: offers_shell_view)
  then have h: "reachable shell_start shell_step (toggle_theme (shell_init ''/'' None False))"
    using reachable_step [OF shell_reach_init] by simp
  have "sh_dark (toggle_theme (shell_init ''/'' None False))"
    by (simp add: toggle_theme_def theme_effect_def)
  with theme_survives_reload [OF h, of "''/''" False] h show ?thesis by simp
qed

theorem keyboard_never_opens_palette_witness:
  "\<not> sh_palette_open (shell_init ''/'' None False) \<and>
   \<not> sh_palette_open (fold palette_key [\<lparr>k_meta = True, k_ctrl = False, k_key = ''k''\<rparr>] (shell_init ''/'' None False))"
proof -
  have h: "\<not> sh_palette_open (shell_init ''/'' None False)"
    by (simp add: shell_init_def theme_effect_def)
  from keyboard_never_opens_palette [OF h] h show ?thesis by blast
qed

theorem connected_despite_failures_witness:
  "health_connected (ua_resolve 0 ''ok'' ua_start) \<and>
   health_label (fold (hook_apply ua_load ua_resolve ua_reject)
     [HLoad, HReject 1 (JsError ''Failed to fetch''), HLoad, HReject 2 (JsError ''Failed to fetch'')]
     (ua_resolve 0 ''ok'' ua_start)) = ''Connected''"
proof -
  have h1: "health_connected (ua_resolve 0 ''ok'' ua_start)"
    by (simp add: health_connected_def ua_defs)
  have h2: "\<forall>x \<in> set [HLoad, HReject 1 (JsError ''Failed to fetch''), HLoad, HReject 2 (JsError ''Failed to fetch'')].
      \<forall>i st. x \<noteq> HResolve i (st :: string)" by simp
  from connected_despite_failures [OF h1 h2] h1 show ?thesis by blast
qed

end
