(* ===== verification/SiteServer.thy ===== *)
theory SiteServer
  imports Client
begin

text \<open>
  The side of the gateway that the dashboard talks to: \<open>internal/ui/handlers.go\<close> (sites, per-site
  extensions, the lists of extensions and profiles, configuration, health, logs), the registry of running sites in \<open>internal/ui/siteManager.go\<close>
  and the log buffer in \<open>internal/ui/server.go\<close>.

  A handler maps the request (method, path, decoded JSON body, \<open>None\<close> for a body that is no JSON) and the
  server state to a response and the new state; one request is handled at a time. \<open>env\<close> is
  what a handler asks its environment: the clock, the home directory, the outcome of \<open>MkdirAll\<close>, of the
  check of a webroot and of opening a listener, the validity of a time stamp, and \<open>fmt\<close>'s quoting.
  Go strings are byte strings; a nil slice is \<open>None\<close>.
\<close>

section \<open>Log buffer\<close>

definition lb_add :: "nat \<Rightarrow> log_entry \<Rightarrow> log_entry list \<Rightarrow> log_entry list" where
  "lb_add mx e es =
     (let es' = es @ [e] in if length es' > mx then drop (length es' - mx) es' else es')"

definition lb_recent :: "nat \<Rightarrow> log_entry list \<Rightarrow> log_entry list" where
  "lb_recent n es =
     (let total = length es; k = (if n > total then total else n) in drop (total - k) es)"

lemma lb_add_take_last: "lb_add mx e es = take_last mx (es @ [e])"
  by (simp add: lb_add_def take_last_def Let_def)

lemma lb_recent_take_last: "lb_recent n es = take_last n es"
  by (simp add: lb_recent_def take_last_def Let_def)

section \<open>State\<close>

record site_config =
  g_id :: string
  g_name :: string
  g_port :: int
  g_webroot :: string
  g_domain :: string
  g_root :: string
  g_php_version :: string
  g_status :: string
  g_routes :: int
  g_ssl :: bool
  g_headers :: "(string \<times> string) list"
  g_extensions :: "string list option"
  g_profile :: string
  g_created_at :: string
  g_updated_at :: string

record server =
  sv_sites :: "site_config list option"
  sv_running :: "string \<Rightarrow> site_config option"
  sv_log :: "log_entry list"
  sv_doc_root :: string

record env =
  env_now :: string
  env_home :: string
  env_mkdir :: "string \<Rightarrow> string option"
  env_dir :: "string \<Rightarrow> string option"
  env_listen :: "int \<Rightarrow> string option"
  env_time :: "string \<Rightarrow> bool"
  env_quote :: "string \<Rightarrow> string"

record response =
  rs_code :: nat
  rs_body :: json

definition json_resp :: "json \<Rightarrow> response" where
  "json_resp j = \<lparr>rs_code = 200, rs_body = j\<rparr>"

definition json_err :: "string \<Rightarrow> nat \<Rightarrow> response" where
  "json_err msg code = \<lparr>rs_code = code, rs_body = JObj [(''error'', JStr msg)]\<rparr>"

definition log_add :: "env \<Rightarrow> string \<Rightarrow> string \<Rightarrow> server \<Rightarrow> server" where
  "log_add e level msg s =
     s\<lparr>sv_log := lb_add 500 \<lparr>l_timestamp = env_now e, l_level = level, l_message = msg, l_extra = None\<rparr> (sv_log s)\<rparr>"

definition sites_list_of :: "server \<Rightarrow> site_config list" where
  "sites_list_of s = (case sv_sites s of None \<Rightarrow> [] | Some xs \<Rightarrow> xs)"

section \<open>JSON of a site\<close>

text \<open>
  \<open>encoding/json\<close>: a member is matched with a field without regard to case (the last one wins), an absent
  or null member leaves the zero value, and a member of another type is an error (\<open>None\<close>).
\<close>

definition field_of :: "string \<Rightarrow> (string \<times> json) list \<Rightarrow> json option" where
  "field_of k ms = map_of (rev (map (\<lambda>(n, v). (to_lower n, v)) ms)) k"

definition dec_str :: "json option \<Rightarrow> string option" where
  "dec_str v = (case v of None \<Rightarrow> Some '''' | Some JNull \<Rightarrow> Some '''' | Some (JStr s) \<Rightarrow> Some s | Some _ \<Rightarrow> None)"

definition dec_int :: "json option \<Rightarrow> int option" where
  "dec_int v =
     (case v of None \<Rightarrow> Some 0 | Some JNull \<Rightarrow> Some 0
      | Some (JNum n) \<Rightarrow> if - (2 ^ 63) \<le> n \<and> n < 2 ^ 63 then Some n else None
      | Some _ \<Rightarrow> None)"

definition dec_bool :: "json option \<Rightarrow> bool option" where
  "dec_bool v = (case v of None \<Rightarrow> Some False | Some JNull \<Rightarrow> Some False | Some (JBool b) \<Rightarrow> Some b | Some _ \<Rightarrow> None)"

definition dec_strs :: "json option \<Rightarrow> string list option option" where
  "dec_strs v =
     (case v of None \<Rightarrow> Some None | Some JNull \<Rightarrow> Some None
      | Some (JArr xs) \<Rightarrow> map_option Some (those (map (\<lambda>x. dec_str (Some x)) xs))
      | Some _ \<Rightarrow> None)"

definition dec_strmap :: "json option \<Rightarrow> (string \<times> string) list option" where
  "dec_strmap v =
     (case v of None \<Rightarrow> Some [] | Some JNull \<Rightarrow> Some []
      | Some (JObj ms) \<Rightarrow> those (map (\<lambda>(k, x). map_option (Pair k) (dec_str (Some x))) ms)
      | Some _ \<Rightarrow> None)"

definition zero_time :: string where
  "zero_time = ''0001-01-01T00:00:00Z''"

definition dec_time :: "env \<Rightarrow> json option \<Rightarrow> string option" where
  "dec_time e v =
     (case v of None \<Rightarrow> Some zero_time | Some JNull \<Rightarrow> Some zero_time
      | Some (JStr t) \<Rightarrow> if env_time e t then Some t else None
      | Some _ \<Rightarrow> None)"

definition zero_site :: site_config where
  "zero_site =
     \<lparr>g_id = '''', g_name = '''', g_port = 0, g_webroot = '''', g_domain = '''', g_root = '''', g_php_version = '''',
      g_status = '''', g_routes = 0, g_ssl = False, g_headers = [], g_extensions = None, g_profile = '''',
      g_created_at = zero_time, g_updated_at = zero_time\<rparr>"

definition decode_members :: "env \<Rightarrow> (string \<times> json) list \<Rightarrow> site_config option" where
  "decode_members e ms =
     (case (dec_str (field_of ''id'' ms), dec_str (field_of ''name'' ms), dec_int (field_of ''port'' ms),
            dec_str (field_of ''webroot'' ms), dec_str (field_of ''domain'' ms)) of
        (Some i, Some n, Some p, Some w, Some d) \<Rightarrow>
          (case (dec_str (field_of ''root'' ms), dec_str (field_of ''php_version'' ms), dec_str (field_of ''status'' ms),
                 dec_int (field_of ''routes'' ms), dec_bool (field_of ''ssl'' ms)) of
             (Some r, Some v, Some st, Some ro, Some ssl) \<Rightarrow>
               (case (dec_strmap (field_of ''headers'' ms), dec_strs (field_of ''extensions'' ms),
                      dec_str (field_of ''profile'' ms), dec_time e (field_of ''created_at'' ms),
                      dec_time e (field_of ''updated_at'' ms)) of
                  (Some h, Some ex, Some pr, Some c, Some u) \<Rightarrow>
                    Some \<lparr>g_id = i, g_name = n, g_port = p, g_webroot = w, g_domain = d, g_root = r,
                          g_php_version = v, g_status = st, g_routes = ro, g_ssl = ssl, g_headers = h,
                          g_extensions = ex, g_profile = pr, g_created_at = c, g_updated_at = u\<rparr>
                | _ \<Rightarrow> None)
           | _ \<Rightarrow> None)
      | _ \<Rightarrow> None)"

definition decode_site :: "env \<Rightarrow> json option \<Rightarrow> site_config option" where
  "decode_site e body =
     (case body of
        Some (JObj ms) \<Rightarrow> decode_members e ms
      | Some JNull \<Rightarrow> Some zero_site
      | _ \<Rightarrow> None)"

text \<open>\<open>omitempty\<close> leaves out an empty string, list or map.\<close>

definition encode_site :: "site_config \<Rightarrow> json" where
  "encode_site x = JObj
     ([(''id'', JStr (g_id x)), (''name'', JStr (g_name x)), (''port'', JNum (g_port x)),
       (''webroot'', JStr (g_webroot x)), (''domain'', JStr (g_domain x)), (''root'', JStr (g_root x)),
       (''php_version'', JStr (g_php_version x)), (''status'', JStr (g_status x)),
       (''routes'', JNum (g_routes x)), (''ssl'', JBool (g_ssl x))]
      @ (if g_headers x = [] then [] else [(''headers'', JObj (map (\<lambda>(k, v). (k, JStr v)) (g_headers x)))])
      @ (case g_extensions x of None \<Rightarrow> [] | Some es \<Rightarrow> if es = [] then [] else [(''extensions'', jstrs es)])
      @ (if g_profile x = '''' then [] else [(''profile'', JStr (g_profile x))])
      @ [(''created_at'', JStr (g_created_at x)), (''updated_at'', JStr (g_updated_at x))])"

section \<open>siteManager.go\<close>

definition is_running :: "string \<Rightarrow> server \<Rightarrow> bool" where
  "is_running i s \<longleftrightarrow> sv_running s i \<noteq> None"

text \<open>The error of \<open>StartSite\<close>, or the registry with the started server.\<close>

definition start_site :: "env \<Rightarrow> site_config \<Rightarrow> server \<Rightarrow> string + server" where
  "start_site e cfg s =
     (if is_running (g_id cfg) s then Inl (''site '' @ g_id cfg @ '' is already running'')
      else if g_webroot cfg = '''' then Inl ''webroot is required''
      else
        (case env_dir e (g_webroot cfg) of
           Some m \<Rightarrow> Inl m
         | None \<Rightarrow>
             (case env_listen e (g_port cfg) of
                Some m \<Rightarrow> Inl (''start site '' @ g_id cfg @ '': '' @ m)
              | None \<Rightarrow> Inr (s\<lparr>sv_running := (sv_running s)(g_id cfg \<mapsto> cfg)\<rparr>))))"

text \<open>\<open>StopSite\<close> never returns an error: a failed shutdown is only logged, and the entry is removed.\<close>

definition stop_site :: "string \<Rightarrow> server \<Rightarrow> server" where
  "stop_site i s = s\<lparr>sv_running := (sv_running s)(i := None)\<rparr>"

section \<open>handlers.go: sites\<close>

definition id_char :: "char \<Rightarrow> string" where
  "id_char c =
     (if in_range (CHR ''a'') (CHR ''z'') c \<or> in_range (CHR ''0'') (CHR ''9'') c then [c]
      else if in_range (CHR ''A'') (CHR ''Z'') c then [char_of (of_char c + 32 :: nat)]
      else if c = CHR '' '' \<or> c = CHR ''-'' then ''-''
      else '''')"

definition generate_id :: "string \<Rightarrow> string" where
  "generate_id name = (let i = concat (map id_char name) in if i = '''' then ''site'' else i)"

definition annotate :: "server \<Rightarrow> site_config \<Rightarrow> site_config" where
  "annotate s x =
     (if is_running (g_id x) s then x\<lparr>g_status := ''active''\<rparr>
      else if g_status x = ''active'' then x\<lparr>g_status := ''stopped''\<rparr>
      else x)"

text \<open>\<open>filepath.Join(home, ".gateway", "sites", id, "webroot")\<close> for a clean home directory.\<close>

definition default_webroot :: "env \<Rightarrow> string \<Rightarrow> string" where
  "default_webroot e i =
     (if env_home e = '''' then '''' else env_home e @ ''/'') @ ''.gateway/sites/'' @ i @ ''/webroot''"

definition post_site :: "env \<Rightarrow> site_config \<Rightarrow> server \<Rightarrow> response \<times> server" where
  "post_site e body s =
     (let i = generate_id (g_name body);
          site = body\<lparr>g_id := i, g_created_at := env_now e, g_updated_at := env_now e,
                      g_status := str_or (g_status body) ''active''\<rparr>
      in if g_port site \<le> 0 \<or> g_port site > 65535 then (json_err ''invalid port number'' 400, s)
         else
           (let site = site\<lparr>g_webroot := str_or (g_webroot site) (default_webroot e i)\<rparr>
            in case env_mkdir e (g_webroot site) of
                 Some m \<Rightarrow> (json_err (''failed to create webroot: '' @ m) 500, s)
               | None \<Rightarrow>
                   (case List.find (\<lambda>x. g_port x = g_port site) (sites_list_of s) of
                      Some x \<Rightarrow>
                        (json_err (''port '' @ int_to_str (g_port site) @ '' is already in use by site '' @
                           env_quote e (g_name x)) 409, s)
                    | None \<Rightarrow>
                        (case start_site e site s of
                           Inl m \<Rightarrow>
                             (json_err (''failed to start site server: '' @ m) 500,
                              log_add e ''error'' (''failed to start site '' @ g_name site @ '': '' @ m) s)
                         | Inr s' \<Rightarrow>
                             (json_resp (JObj [(''site'', encode_site site)]),
                              log_add e ''info''
                                (''site created and started: '' @ g_name site @ '' (port '' @ int_to_str (g_port site) @
                                   '', webroot: '' @ g_webroot site @ '')'')
                                (s'\<lparr>sv_sites := Some (sites_list_of s @ [site])\<rparr>))))))"

definition not_allowed :: response where
  "not_allowed = json_err ''method not allowed'' 405"

definition handle_sites :: "env \<Rightarrow> http_method \<Rightarrow> json option \<Rightarrow> server \<Rightarrow> response \<times> server" where
  "handle_sites e m body s =
     (case m of
        GET \<Rightarrow> (json_resp (JObj [(''sites'', JArr (map (\<lambda>x. encode_site (annotate s x)) (sites_list_of s)))]), s)
      | POST \<Rightarrow>
          (case decode_site e body of
             None \<Rightarrow> (json_err ''invalid request body'' 400, s)
           | Some x \<Rightarrow> post_site e x s)
      | _ \<Rightarrow> (not_allowed, s))"

text \<open>The index of the first site with an ID.\<close>

fun index_of :: "string \<Rightarrow> site_config list \<Rightarrow> nat option" where
  "index_of i [] = None"
| "index_of i (x # xs) = (if g_id x = i then Some 0 else map_option Suc (index_of i xs))"

text \<open>The restart of a changed site: stopped if it runs, started if it is to be active.\<close>

definition put_site :: "env \<Rightarrow> string \<Rightarrow> nat \<Rightarrow> site_config \<Rightarrow> server \<Rightarrow> response \<times> server" where
  "put_site e i idx body s =
     (let old = sites_list_of s ! idx;
          site = body\<lparr>g_id := i, g_created_at := g_created_at old, g_updated_at := env_now e\<rparr>;
          changed = (g_port site \<noteq> g_port old \<or> g_webroot site \<noteq> g_webroot old \<or> g_status site \<noteq> g_status old);
          s1 = (if changed \<and> is_running i s then stop_site i s else s);
          outcome = (if changed \<and> g_status site = ''active'' then start_site e site s1 else Inr s1)
      in case outcome of
           Inl m \<Rightarrow>
             (json_err (''failed to start site server: '' @ m) 500,
              (log_add e ''error'' (''failed to start site '' @ g_name site @ '': '' @ m) s1)
                \<lparr>sv_sites := Some ((sites_list_of s)[idx := site\<lparr>g_status := ''error''\<rparr>])\<rparr>)
         | Inr s2 \<Rightarrow>
             (json_resp (JObj [(''site'', encode_site site)]),
              log_add e ''info'' (''site updated: '' @ g_name site)
                (s2\<lparr>sv_sites := Some ((sites_list_of s)[idx := site])\<rparr>)))"

definition delete_site :: "env \<Rightarrow> nat \<Rightarrow> server \<Rightarrow> response \<times> server" where
  "delete_site e idx s =
     (let old = sites_list_of s ! idx; s1 = stop_site (g_id old) s
      in (json_resp (JObj [(''status'', JStr ''deleted'')]),
          log_add e ''info'' (''site deleted: '' @ g_name old)
            (s1\<lparr>sv_sites := Some (take idx (sites_list_of s) @ drop (Suc idx) (sites_list_of s))\<rparr>)))"

definition sites_prefix :: string where "sites_prefix = ''/api/sites/''"
definition extensions_suffix :: string where "extensions_suffix = ''/extensions''"

definition not_found :: response where
  "not_found = json_err ''site not found'' 404"

definition put_extensions :: "env \<Rightarrow> nat \<Rightarrow> string list option \<Rightarrow> string \<Rightarrow> server \<Rightarrow> server" where
  "put_extensions e idx exts profile s =
     s\<lparr>sv_sites := Some ((sites_list_of s)
        [idx := (sites_list_of s ! idx)\<lparr>g_extensions := exts, g_profile := profile, g_updated_at := env_now e\<rparr>])\<rparr>"

definition exts_json :: "string list option \<Rightarrow> json" where
  "exts_json v = (case v of None \<Rightarrow> JNull | Some es \<Rightarrow> jstrs es)"

definition handle_extensions_site ::
  "env \<Rightarrow> http_method \<Rightarrow> string \<Rightarrow> json option \<Rightarrow> server \<Rightarrow> response \<times> server" where
  "handle_extensions_site e m path body s =
     (if length path \<le> length sites_prefix + length extensions_suffix then (json_err ''site ID required'' 400, s)
      else
        (let i = take (length path - length extensions_suffix - length sites_prefix) (drop (length sites_prefix) path)
         in case index_of i (sites_list_of s) of
              None \<Rightarrow> (not_found, s)
            | Some idx \<Rightarrow>
                (case m of
                   GET \<Rightarrow>
                     (json_resp (JObj [(''site_id'', JStr i),
                        (''extensions'', exts_json (g_extensions (sites_list_of s ! idx))),
                        (''profile'', JStr (g_profile (sites_list_of s ! idx)))]), s)
                 | PUT \<Rightarrow>
                     (case body of
                        Some (JObj ms) \<Rightarrow>
                          (case (dec_strs (field_of ''extensions'' ms), dec_str (field_of ''profile'' ms)) of
                             (Some exts, Some profile) \<Rightarrow>
                               (json_resp (JObj [(''status'', JStr ''ok''), (''site_id'', JStr i),
                                  (''extensions'', exts_json exts), (''profile'', JStr profile)]),
                                put_extensions e idx exts profile s)
                           | _ \<Rightarrow> (json_err ''invalid request body'' 400, s))
                      | Some JNull \<Rightarrow>
                          (json_resp (JObj [(''status'', JStr ''ok''), (''site_id'', JStr i),
                             (''extensions'', JNull), (''profile'', JStr '''')]),
                           put_extensions e idx None '''' s)
                      | _ \<Rightarrow> (json_err ''invalid request body'' 400, s))
                 | _ \<Rightarrow> (not_allowed, s))))"

definition handle_site_by_id ::
  "env \<Rightarrow> http_method \<Rightarrow> string \<Rightarrow> json option \<Rightarrow> server \<Rightarrow> response \<times> server" where
  "handle_site_by_id e m path body s =
     (if ends_with path extensions_suffix then handle_extensions_site e m path body s
      else
        (let i = drop (length sites_prefix) path
         in if i = '''' then (json_err ''site ID required'' 400, s)
            else if sv_sites s = None then (not_found, s)
            else
              (case (m, index_of i (sites_list_of s)) of
                 (GET, None) \<Rightarrow> (not_found, s)
               | (GET, Some idx) \<Rightarrow> (json_resp (JObj [(''site'', encode_site (sites_list_of s ! idx))]), s)
               | (PUT, None) \<Rightarrow> (not_found, s)
               | (PUT, Some idx) \<Rightarrow>
                   (case decode_site e body of
                      None \<Rightarrow> (json_err ''invalid request body'' 400, s)
                    | Some x \<Rightarrow> put_site e i idx x s)
               | (DELETE, None) \<Rightarrow> (not_found, s)
               | (DELETE, Some idx) \<Rightarrow> delete_site e idx s
               | _ \<Rightarrow> (not_allowed, s))))"

section \<open>handlers.go: configuration, health, logs\<close>

definition config_json :: "server \<Rightarrow> json" where
  "config_json s = JObj
     [(''schema'', JStr ''gateway/v1''),
      (''server'', JObj [(''addr'', JStr '':8080''), (''read_timeout'', JStr ''30s''), (''write_timeout'', JStr ''60s'')]),
      (''php'', JObj [(''binary'', JStr (sv_doc_root s)), (''socket_path'', JStr ''''), (''max_children'', JNum 20),
                     (''request_timeout'', JStr ''60s''), (''extension_profile'', JStr ''''), (''extensions'', JArr [])]),
      (''routes'', JNull),
      (''logging'', JObj [(''format'', JStr ''json''), (''level'', JStr ''info'')]),
      (''security'', JObj [(''protected_patterns'', JNull), (''symlink_mode'', JStr ''within_root''),
                          (''max_body_size'', JStr ''20MB'')]),
      (''sites'', (case sv_sites s of None \<Rightarrow> JNull | Some xs \<Rightarrow> JArr (map encode_site xs)))]"

definition handle_config :: "http_method \<Rightarrow> server \<Rightarrow> response \<times> server" where
  "handle_config m s = (if m \<noteq> GET then (not_allowed, s) else (json_resp (config_json s), s))"

text \<open>
  Decoding the body into \<open>GatewayConfig\<close>: whether a value fits its Go type, and the sites. A struct is
  null or an object whose members fit; an unknown member is ignored.
\<close>

definition fits_struct :: "(string \<times> (json option \<Rightarrow> bool)) list \<Rightarrow> json option \<Rightarrow> bool" where
  "fits_struct fs v =
     (case v of None \<Rightarrow> True | Some JNull \<Rightarrow> True
      | Some (JObj ms) \<Rightarrow> list_all (\<lambda>(k, fits). fits (field_of k ms)) fs
      | Some _ \<Rightarrow> False)"

definition fits_slice :: "(json option \<Rightarrow> bool) \<Rightarrow> json option \<Rightarrow> bool" where
  "fits_slice fits v =
     (case v of None \<Rightarrow> True | Some JNull \<Rightarrow> True | Some (JArr xs) \<Rightarrow> list_all (\<lambda>x. fits (Some x)) xs | Some _ \<Rightarrow> False)"

definition fits_str :: "json option \<Rightarrow> bool" where "fits_str v \<longleftrightarrow> dec_str v \<noteq> None"
definition fits_int :: "json option \<Rightarrow> bool" where "fits_int v \<longleftrightarrow> dec_int v \<noteq> None"
definition fits_strs :: "json option \<Rightarrow> bool" where "fits_strs v \<longleftrightarrow> dec_strs v \<noteq> None"
definition fits_strmap :: "json option \<Rightarrow> bool" where "fits_strmap v \<longleftrightarrow> dec_strmap v \<noteq> None"

definition fits_route :: "json option \<Rightarrow> bool" where
  "fits_route = fits_struct
     [(''host'', fits_str), (''path'', fits_str), (''target'', fits_str), (''status'', fits_int),
      (''methods'', fits_strs), (''headers'', fits_strmap),
      (''extensions'', fits_struct [(''enable'', fits_strs), (''disable'', fits_strs)])]"

definition fits_config :: "json option \<Rightarrow> bool" where
  "fits_config = fits_struct
     [(''schema'', fits_str),
      (''server'', fits_struct [(''addr'', fits_str), (''read_timeout'', fits_str), (''write_timeout'', fits_str)]),
      (''php'', fits_struct [(''binary'', fits_str), (''socket_path'', fits_str), (''max_children'', fits_int),
         (''request_timeout'', fits_str), (''extension_profile'', fits_str), (''extensions'', fits_strs)]),
      (''routes'', fits_slice fits_route),
      (''logging'', fits_struct [(''format'', fits_str), (''level'', fits_str)]),
      (''security'', fits_struct [(''protected_patterns'', fits_strs), (''symlink_mode'', fits_str),
         (''max_body_size'', fits_str)])]"

definition dec_sites :: "env \<Rightarrow> json option \<Rightarrow> site_config list option" where
  "dec_sites e v =
     (case v of None \<Rightarrow> Some [] | Some JNull \<Rightarrow> Some []
      | Some (JArr xs) \<Rightarrow> those (map (\<lambda>x. decode_site e (Some x)) xs)
      | Some _ \<Rightarrow> None)"

definition decode_config_sites :: "env \<Rightarrow> json option \<Rightarrow> site_config list option" where
  "decode_config_sites e body =
     (case body of
        None \<Rightarrow> None
      | Some j \<Rightarrow>
          if \<not> fits_config (Some j) then None
          else (case j of JObj ms \<Rightarrow> dec_sites e (field_of ''sites'' ms) | _ \<Rightarrow> Some []))"

text \<open>
  A body that is not the JSON of a configuration is ignored and answered like any other; so is a
  configuration without sites. What \<open>config.Parse\<close> makes of the body is discarded.
\<close>

definition handle_config_save :: "env \<Rightarrow> http_method \<Rightarrow> json option \<Rightarrow> server \<Rightarrow> response \<times> server" where
  "handle_config_save e m body s =
     (if m \<noteq> POST then (not_allowed, s)
      else
        (let s1 = (case decode_config_sites e body of
                     Some xs \<Rightarrow> if length xs > 0 then s\<lparr>sv_sites := Some xs\<rparr> else s
                   | None \<Rightarrow> s)
         in (json_resp (JObj [(''status'', JStr ''saved'')]), log_add e ''info'' ''configuration updated'' s1)))"

definition log_entry_json :: "log_entry \<Rightarrow> json" where
  "log_entry_json l = JObj
     ([(''timestamp'', JStr (l_timestamp l)), (''level'', JStr (l_level l)), (''message'', JStr (l_message l))]
      @ opt_member ''extra'' (l_extra l))"

definition handle_logs :: "server \<Rightarrow> response" where
  "handle_logs s =
     json_resp (JObj [(''entries'', JArr (map log_entry_json (lb_recent 100 (sv_log s)))),
                      (''total'', JNum (int (length (sv_log s))))])"

definition handle_health :: response where
  "handle_health = json_resp (JObj [(''status'', JStr ''ok'')])"

section \<open>handlers.go: extensions, profiles and recent logs\<close>

text \<open>\<open>runtime.BuiltInProfiles\<close>: name, description and extensions.\<close>

definition go_profiles :: "(string \<times> string \<times> string list) list" where
  "go_profiles =
     [(''minimal'', ''Bare minimum for basic PHP scripts'',
       [''pdo'', ''pdo_sqlite'', ''mbstring'', ''curl'', ''json'', ''xml'']),
      (''web-standard'', ''Standard web application extensions'',
       [''pdo'', ''pdo_mysql'', ''pdo_sqlite'', ''mysqli'', ''mbstring'', ''curl'', ''gd'', ''bcmath'', ''fileinfo'',
        ''intl'', ''zip'', ''exif'']),
      (''wordpress'', ''WordPress-optimized extension set'',
       [''pdo'', ''pdo_mysql'', ''mysqli'', ''mbstring'', ''curl'', ''gd'', ''bcmath'', ''fileinfo'', ''intl'', ''zip'',
        ''exif'', ''sockets'', ''openssl'']),
      (''laravel'', ''Laravel-optimized extension set'',
       [''pdo'', ''pdo_mysql'', ''pdo_sqlite'', ''pdo_pgsql'', ''pgsql'', ''mysqli'', ''mbstring'', ''curl'', ''gd'',
        ''bcmath'', ''fileinfo'', ''intl'', ''zip'', ''exif'', ''openssl'', ''sodium'']),
      (''development'', ''Extensions useful in development (includes xdebug)'',
       [''pdo'', ''pdo_mysql'', ''pdo_sqlite'', ''mysqli'', ''mbstring'', ''curl'', ''gd'', ''bcmath'', ''fileinfo'',
        ''intl'', ''zip'', ''exif'', ''xdebug'', ''pcov''])]"

definition handle_extensions :: "env \<Rightarrow> http_method \<Rightarrow> json option \<Rightarrow> server \<Rightarrow> response \<times> server" where
  "handle_extensions e m body s =
     (case m of
        GET \<Rightarrow>
          (json_resp (JObj
             [(''extensions'', JArr []),
              (''profiles'', JArr (map (\<lambda>(n, d, es). JObj [(''count'', JNum (int (length es))), (''description'', JStr d),
                 (''name'', JStr n)]) go_profiles))]), s)
      | POST \<Rightarrow>
          (case (case body of Some (JObj ms) \<Rightarrow> Some ms | Some JNull \<Rightarrow> Some [] | _ \<Rightarrow> None) of
             None \<Rightarrow> (json_err ''invalid request body'' 400, s)
           | Some ms \<Rightarrow>
               (case (dec_str (field_of ''action'' ms), dec_str (field_of ''name'' ms)) of
                  (Some action, Some name) \<Rightarrow>
                    if name = '''' then (json_err ''extension name is required'' 400, s)
                    else (json_resp (JObj [(''action'', JStr action), (''extension'', JStr name), (''status'', JStr ''ok'')]),
                          log_add e ''info'' (''extension '' @ action @ '': '' @ name) s)
                | _ \<Rightarrow> (json_err ''invalid request body'' 400, s)))
      | _ \<Rightarrow> (not_allowed, s))"

definition handle_profiles :: "http_method \<Rightarrow> response" where
  "handle_profiles m =
     (if m \<noteq> GET then not_allowed
      else json_resp (JObj [(''profiles'', JArr (map (\<lambda>(n, d, es). JObj [(''description'', JStr d),
             (''extensions'', jstrs es), (''name'', JStr n)]) go_profiles))]))"

definition handle_recent_logs :: "server \<Rightarrow> response" where
  "handle_recent_logs s =
     json_resp (JObj [(''entries'', JArr (map log_entry_json (lb_recent 50 (sv_log s)))),
                      (''total'', JNum (int (length (sv_log s))))])"

section \<open>handlers.go: the log stream\<close>

text \<open>
  One connection of \<open>handleWSLogs\<close>: how many entries it takes as sent, and what it has written.
\<close>

record ws_conn =
  ws_last :: nat
  ws_out :: "log_entry list"

definition ws_open :: "log_entry list \<Rightarrow> ws_conn" where
  "ws_open buf = (let recent = lb_recent 50 buf in \<lparr>ws_last = length recent, ws_out = recent\<rparr>)"

definition ws_tick :: "log_entry list \<Rightarrow> ws_conn \<Rightarrow> ws_conn" where
  "ws_tick buf c =
     (let current = lb_recent 100 buf
      in if length current > ws_last c
         then c\<lparr>ws_out := ws_out c @ drop (ws_last c) current, ws_last := length current\<rparr>
         else c)"

section \<open>server.go: routes\<close>

datatype handler =
    HStatus | HSites | HSiteByID | HExtensions | HProfiles | HConfig | HConfigValidate | HConfigSave
  | HRuntimes | HLogs | HRecentLogs | HWSLogs | HHealth | HSystem | HDoctor | HDoctorCompat | HExplain
  | HDeployList | HDeployCreate | HDeployActivate | HDeployRollback | HMetricsHistory | HStatic

definition exact_routes :: "(string \<times> handler) list" where
  "exact_routes =
     [(''/api/status'', HStatus), (''/api/sites'', HSites), (''/api/extensions'', HExtensions),
      (''/api/profiles'', HProfiles), (''/api/config'', HConfig), (''/api/config/validate'', HConfigValidate),
      (''/api/config/save'', HConfigSave), (''/api/runtimes'', HRuntimes), (''/api/logs'', HLogs),
      (''/api/logs/recent'', HRecentLogs), (''/api/ws/logs'', HWSLogs), (''/api/health'', HHealth),
      (''/api/system'', HSystem), (''/api/doctor'', HDoctor), (''/api/doctor/compat'', HDoctorCompat),
      (''/api/explain'', HExplain), (''/api/deploy/list'', HDeployList), (''/api/deploy/create'', HDeployCreate),
      (''/api/deploy/activate'', HDeployActivate), (''/api/deploy/rollback'', HDeployRollback),
      (''/api/metrics/history'', HMetricsHistory)]"

text \<open>
  \<open>ServeMux\<close> on a clean path: an exact pattern, else the longest pattern ending in a slash that is a
  prefix, of which there are two.
\<close>

definition dispatch :: "string \<Rightarrow> handler" where
  "dispatch path =
     (case map_of exact_routes path of
        Some h \<Rightarrow> h
      | None \<Rightarrow> if starts_with path sites_prefix then HSiteByID else HStatic)"

section \<open>Runs of the server\<close>

text \<open>
  A request to one of the handlers that change the sites or the log, with the environment it meets. \<open>save\<close> says
  whether configurations are saved in the run.
\<close>

inductive server_step :: "bool \<Rightarrow> server \<Rightarrow> server \<Rightarrow> bool" for save where
  sites: "server_step save s (snd (handle_sites e m body s))"
| site_by_id: "starts_with path sites_prefix \<Longrightarrow> server_step save s (snd (handle_site_by_id e m path body s))"
| extensions: "server_step save s (snd (handle_extensions e m body s))"
| config_save: "save \<Longrightarrow> server_step save s (snd (handle_config_save e m body s))"

definition server_start :: "server \<Rightarrow> bool" where
  "server_start s \<longleftrightarrow> sv_sites s = None \<and> sv_running s = Map.empty \<and> sv_log s = []"

lemma log_add_simps [simp]:
  "sv_sites (log_add e l m s) = sv_sites s" "sv_running (log_add e l m s) = sv_running s"
  "sites_list_of (log_add e l m s) = sites_list_of s" "sv_doc_root (log_add e l m s) = sv_doc_root s"
  "sv_log (log_add e l m s) = lb_add 500 \<lparr>l_timestamp = env_now e, l_level = l, l_message = m, l_extra = None\<rparr> (sv_log s)"
  by (simp_all add: log_add_def sites_list_of_def)

lemma sites_list_of_Some [simp]: "sv_sites s = Some xs \<Longrightarrow> sites_list_of s = xs"
  by (simp add: sites_list_of_def)

lemma stop_site_simps [simp]:
  "sv_sites (stop_site i s) = sv_sites s" "sv_log (stop_site i s) = sv_log s"
  "sites_list_of (stop_site i s) = sites_list_of s"
  "sv_running (stop_site i s) = (sv_running s)(i := None)"
  by (simp_all add: stop_site_def sites_list_of_def)

lemma start_site_Inr:
  "start_site e c s = Inr t \<longleftrightarrow>
     \<not> is_running (g_id c) s \<and> g_webroot c \<noteq> '''' \<and> env_dir e (g_webroot c) = None \<and> env_listen e (g_port c) = None \<and>
     t = s\<lparr>sv_running := (sv_running s)(g_id c \<mapsto> c)\<rparr>"
  by (auto simp: start_site_def split: option.splits)

lemma index_of_Some:
  "index_of i xs = Some k \<Longrightarrow> k < length xs \<and> g_id (xs ! k) = i"
  by (induction xs arbitrary: k) (auto split: if_splits)

lemma index_of_None_iff: "index_of i xs = None \<longleftrightarrow> i \<notin> g_id ` set xs"
  by (induction xs) auto

text \<open>What the handlers can do to the sites: each change is one of these, and is logged at most once.\<close>

inductive site_change :: "env \<Rightarrow> server \<Rightarrow> server \<Rightarrow> bool" for e s where
  unchanged: "site_change e s s"
| logged: "site_change e s (log_add e l m s)"
| created: "g_id x = generate_id (g_name x) \<Longrightarrow> 0 < g_port x \<Longrightarrow> g_port x \<le> 65535 \<Longrightarrow> g_port x \<notin> g_port ` set (sites_list_of s) \<Longrightarrow>
    start_site e x s = Inr t \<Longrightarrow> site_change e s (log_add e l m (t\<lparr>sv_sites := Some (sites_list_of s @ [x])\<rparr>))"
| replaced: "k < length (sites_list_of s) \<Longrightarrow> g_id x = g_id (sites_list_of s ! k) \<Longrightarrow>
    sv_running t = sv_running s \<or> sv_running t = (sv_running s)(g_id x := None) \<or>
      (\<exists>c. g_id c = g_id x \<and> g_webroot c \<noteq> '''' \<and> env_listen e (g_port c) = None \<and> sv_running t = (sv_running s)(g_id x \<mapsto> c)) \<Longrightarrow>
    sv_sites t = Some ((sites_list_of s)[k := x]) \<Longrightarrow> sv_log t = sv_log s \<or> (\<exists>le. sv_log t = lb_add 500 le (sv_log s)) \<Longrightarrow>
    site_change e s t"
| removed: "k < length (sites_list_of s) \<Longrightarrow>
    sv_running t = (sv_running s)(g_id (sites_list_of s ! k) := None) \<Longrightarrow>
    sv_sites t = Some (take k (sites_list_of s) @ drop (Suc k) (sites_list_of s)) \<Longrightarrow> sv_log t = lb_add 500 le (sv_log s) \<Longrightarrow>
    site_change e s t"

text \<open>The site a creation request asks for, and the two ways the handler ends.\<close>

definition new_site :: "env \<Rightarrow> site_config \<Rightarrow> site_config" where
  "new_site e x =
     x\<lparr>g_id := generate_id (g_name x), g_created_at := env_now e, g_updated_at := env_now e,
       g_status := str_or (g_status x) ''active'',
       g_webroot := str_or (g_webroot x) (default_webroot e (generate_id (g_name x)))\<rparr>"

lemma new_site_simps [simp]:
  "g_id (new_site e x) = generate_id (g_name x)" "g_name (new_site e x) = g_name x"
  "g_port (new_site e x) = g_port x"
  by (simp_all add: new_site_def)

lemma post_site_alt:
  "post_site e x s =
     (if g_port x \<le> 0 \<or> g_port x > 65535 then (json_err ''invalid port number'' 400, s)
      else case env_mkdir e (g_webroot (new_site e x)) of
        Some m \<Rightarrow> (json_err (''failed to create webroot: '' @ m) 500, s)
      | None \<Rightarrow>
          (case List.find (\<lambda>y. g_port y = g_port x) (sites_list_of s) of
             Some y \<Rightarrow>
               (json_err (''port '' @ int_to_str (g_port x) @ '' is already in use by site '' @ env_quote e (g_name y)) 409, s)
           | None \<Rightarrow>
               (case start_site e (new_site e x) s of
                  Inl m \<Rightarrow>
                    (json_err (''failed to start site server: '' @ m) 500,
                     log_add e ''error'' (''failed to start site '' @ g_name x @ '': '' @ m) s)
                | Inr s' \<Rightarrow>
                    (json_resp (JObj [(''site'', encode_site (new_site e x))]),
                     log_add e ''info''
                       (''site created and started: '' @ g_name x @ '' (port '' @ int_to_str (g_port x) @
                          '', webroot: '' @ g_webroot (new_site e x) @ '')'')
                       (s'\<lparr>sv_sites := Some (sites_list_of s @ [new_site e x])\<rparr>)))))"
  unfolding post_site_def new_site_def Let_def by (simp split: option.split sum.split)

lemma post_site_cases:
  obtains (error) r t where "post_site e x s = (r, t)" "rs_code r \<in> {400, 409, 500}"
      "t = s \<or> (\<exists>l m. t = log_add e l m s)"
    | (created) t l m where "start_site e (new_site e x) s = Inr t" "0 < g_port x" "g_port x \<le> 65535"
      "g_port x \<notin> g_port ` set (sites_list_of s)"
      "post_site e x s = (json_resp (JObj [(''site'', encode_site (new_site e x))]),
         log_add e l m (t\<lparr>sv_sites := Some (sites_list_of s @ [new_site e x])\<rparr>))"
proof (cases "g_port x \<le> 0 \<or> g_port x > 65535 \<or> env_mkdir e (g_webroot (new_site e x)) \<noteq> None \<or>
    List.find (\<lambda>y. g_port y = g_port x) (sites_list_of s) \<noteq> None")
  case True
  then have "snd (post_site e x s) = s \<and> rs_code (fst (post_site e x s)) \<in> {400, 409, 500}"
    by (auto simp: post_site_alt json_err_def split: option.split)
  then show thesis by (intro error [of "fst (post_site e x s)" "snd (post_site e x s)"]) (simp_all add: prod_eq_iff)
next
  case False
  then have port: "0 < g_port x" "g_port x \<le> 65535" "g_port x \<notin> g_port ` set (sites_list_of s)"
    by (auto simp: find_None_iff)
  show thesis
  proof (cases "start_site e (new_site e x) s")
    case (Inl m)
    with False show thesis by (intro error) (auto simp: post_site_alt json_err_def)
  next
    case (Inr t)
    with False port show thesis by (intro created) (auto simp: post_site_alt)
  qed
qed

lemma site_change_post: "site_change e s (snd (post_site e x s))"
proof (rule post_site_cases [of e x s])
  fix r t assume "post_site e x s = (r, t)" "t = s \<or> (\<exists>l m. t = log_add e l m s)"
  then show ?thesis by (auto intro: site_change.unchanged site_change.logged)
next
  fix t l m
  assume "start_site e (new_site e x) s = Inr t" "0 < g_port x" "g_port x \<le> 65535"
    "g_port x \<notin> g_port ` set (sites_list_of s)"
    "post_site e x s = (json_resp (JObj [(''site'', encode_site (new_site e x))]),
       log_add e l m (t\<lparr>sv_sites := Some (sites_list_of s @ [new_site e x])\<rparr>))"
  then show ?thesis using site_change.created [of "new_site e x" s e t l m] by simp
qed

lemma site_change_put:
  assumes "k < length (sites_list_of s)" and "g_id (sites_list_of s ! k) = i"
  shows "site_change e s (snd (put_site e i k x s))"
proof -
  define old where "old = sites_list_of s ! k"
  define site where "site = x\<lparr>g_id := i, g_created_at := g_created_at old, g_updated_at := env_now e\<rparr>"
  define changed where "changed \<longleftrightarrow>
    g_port site \<noteq> g_port old \<or> g_webroot site \<noteq> g_webroot old \<or> g_status site \<noteq> g_status old"
  define s1 where "s1 = (if changed \<and> is_running i s then stop_site i s else s)"
  define out where "out = (if changed \<and> g_status site = ''active'' then start_site e site s1 else Inr s1)"
  have id: "g_id site = i" by (simp add: site_def)
  have s1: "sites_list_of s1 = sites_list_of s" "sv_log s1 = sv_log s"
      "sv_running s1 = sv_running s \<or> sv_running s1 = (sv_running s)(i := None)"
    by (auto simp: s1_def)
  have put: "snd (put_site e i k x s) =
      (case out of
         Inl m \<Rightarrow> (log_add e ''error'' (''failed to start site '' @ g_name site @ '': '' @ m) s1)
            \<lparr>sv_sites := Some ((sites_list_of s)[k := site\<lparr>g_status := ''error''\<rparr>])\<rparr>
       | Inr s2 \<Rightarrow> log_add e ''info'' (''site updated: '' @ g_name site)
            (s2\<lparr>sv_sites := Some ((sites_list_of s)[k := site])\<rparr>))"
    unfolding put_site_def Let_def old_def [symmetric] site_def [symmetric] changed_def [symmetric]
      s1_def [symmetric] out_def [symmetric]
    by (simp split: sum.split)
  show ?thesis
  proof (cases out)
    case (Inl m)
    show ?thesis unfolding put Inl sum.case
      by (rule site_change.replaced [where k = k and x = "site\<lparr>g_status := ''error''\<rparr>"])
        (use assms id s1 in auto)
  next
    case (Inr s2)
    have run: "sv_running s2 = sv_running s \<or> sv_running s2 = (sv_running s)(i := None) \<or>
        (\<exists>c. g_id c = i \<and> g_webroot c \<noteq> '''' \<and> env_listen e (g_port c) = None \<and> sv_running s2 = (sv_running s)(i \<mapsto> c))"
      and log: "sv_log s2 = sv_log s"
      using Inr s1 id by (auto simp: out_def start_site_Inr split: if_splits)
    show ?thesis unfolding put Inr sum.case
      by (rule site_change.replaced [where k = k and x = site]) (use assms id run log in auto)
  qed
qed

lemma site_change_delete: "k < length (sites_list_of s) \<Longrightarrow> site_change e s (snd (delete_site e k s))"
  by (rule site_change.removed [where k = k]) (simp_all add: delete_site_def Let_def)

lemma site_change_put_extensions:
  "k < length (sites_list_of s) \<Longrightarrow> site_change e s (put_extensions e k exts p s)"
  by (rule site_change.replaced [where k = k
        and x = "(sites_list_of s ! k)\<lparr>g_extensions := exts, g_profile := p, g_updated_at := env_now e\<rparr>"])
    (simp_all add: put_extensions_def)

lemma site_change_sites: "site_change e s (snd (handle_sites e m body s))"
  by (auto simp: handle_sites_def site_change_post intro: site_change.unchanged
      split: http_method.split option.split)

lemma site_change_extensions_site: "site_change e s (snd (handle_extensions_site e m path body s))"
  unfolding handle_extensions_site_def Let_def
  by (auto intro: site_change.unchanged site_change_put_extensions dest: index_of_Some
      split: option.split http_method.split json.split)

lemma site_change_by_id: "site_change e s (snd (handle_site_by_id e m path body s))"
  unfolding handle_site_by_id_def Let_def
  by (auto intro: site_change.unchanged site_change_put site_change_delete site_change_extensions_site
      dest: index_of_Some split: option.split http_method.split)

lemma site_change_extensions: "site_change e s (snd (handle_extensions e m body s))"
  by (auto simp: handle_extensions_def intro: site_change.unchanged site_change.logged
      split: http_method.split option.split json.split prod.split)

lemma server_step_cases:
  assumes "server_step save s t"
  obtains (change) e where "site_change e s t"
    | (saved) e body xs where "save" "decode_config_sites e body = Some xs" "0 < length xs"
        "t = log_add e ''info'' ''configuration updated'' (s\<lparr>sv_sites := Some xs\<rparr>)"
  using assms
proof cases
  case (config_save e m body)
  have "t = s \<or> t = log_add e ''info'' ''configuration updated'' s \<or>
      (\<exists>xs. decode_config_sites e body = Some xs \<and> 0 < length xs \<and>
         t = log_add e ''info'' ''configuration updated'' (s\<lparr>sv_sites := Some xs\<rparr>))"
    using config_save(1) by (auto simp: handle_config_save_def Let_def split: option.splits if_splits)
  with change saved config_save(2) site_change.unchanged site_change.logged show thesis by blast
qed (auto intro: change site_change_sites site_change_by_id site_change_extensions)

text \<open>
  The registry only holds servers under their own ID with a webroot, the log is bounded, and, as long as
  no configuration is saved, every running server belongs to a listed site.
\<close>

definition registry_ok :: "bool \<Rightarrow> server \<Rightarrow> bool" where
  "registry_ok save s \<longleftrightarrow>
     (\<forall>i c. sv_running s i = Some c \<longrightarrow> g_id c = i \<and> g_webroot c \<noteq> '''' \<and>
        (\<not> save \<longrightarrow> i \<in> g_id ` set (sites_list_of s))) \<and>
     length (sv_log s) \<le> 500"

lemma length_lb_add [simp]: "length (lb_add mx e es) \<le> mx"
  by (simp add: lb_add_take_last)

lemma ids_update: "k < length xs \<Longrightarrow> g_id x = g_id (xs ! k) \<Longrightarrow> g_id ` set (xs[k := x]) = g_id ` set xs"
proof -
  assume "k < length xs" "g_id x = g_id (xs ! k)"
  then have "map g_id (xs[k := x]) = map g_id xs" by (simp add: map_update list_update_same_conv)
  then show ?thesis by (metis list.set_map)
qed

lemma ids_remove: "k < length xs \<Longrightarrow> g_id ` set xs \<subseteq> insert (g_id (xs ! k)) (g_id ` set (take k xs @ drop (Suc k) xs))"
proof -
  assume "k < length xs"
  then have "set xs = insert (xs ! k) (set (take k xs @ drop (Suc k) xs))"
    by (metis id_take_nth_drop list.set(2) set_append Un_insert_right)
  then show ?thesis by auto
qed

lemma registry_ok_change: "site_change e s t \<Longrightarrow> registry_ok save s \<Longrightarrow> registry_ok save t"
proof (induction rule: site_change.induct)
  case (created x t l m)
  then show ?case by (auto simp: registry_ok_def start_site_Inr sites_list_of_def)
next
  case (replaced k x t)
  have ids: "g_id ` set (sites_list_of t) = g_id ` set (sites_list_of s)"
    using replaced(1,2,4) by (simp add: ids_update)
  have mem: "g_id x \<in> g_id ` set (sites_list_of s)"
    using replaced(1,2) by (metis image_eqI nth_mem)
  have "g_id c = i \<and> g_webroot c \<noteq> '''' \<and> (\<not> save \<longrightarrow> i \<in> g_id ` set (sites_list_of s))"
    if "sv_running t i = Some c" for i c
    using replaced(3,6) that mem by (auto simp: registry_ok_def split: if_splits)
  moreover have "length (sv_log t) \<le> 500" using replaced(5,6) by (auto simp: registry_ok_def)
  ultimately show ?case by (simp add: registry_ok_def ids)
next
  case (removed k t le)
  have rest: "sites_list_of t = take k (sites_list_of s) @ drop (Suc k) (sites_list_of s)"
    using removed(3) by (rule sites_list_of_Some)
  have "g_id c = i \<and> g_webroot c \<noteq> '''' \<and> (\<not> save \<longrightarrow> i \<in> g_id ` set (sites_list_of t))"
    if run: "sv_running t i = Some c" for i c
  proof -
    from run removed(2) have i: "i \<noteq> g_id (sites_list_of s ! k)" "sv_running s i = Some c"
      by (auto split: if_splits)
    with removed(5) have s: "g_id c = i" "g_webroot c \<noteq> ''''" "\<not> save \<longrightarrow> i \<in> g_id ` set (sites_list_of s)"
      by (auto simp: registry_ok_def)
    have "i \<in> g_id ` set (sites_list_of t)" if "i \<in> g_id ` set (sites_list_of s)"
      using that i(1) ids_remove [OF removed(1)] unfolding rest by blast
    with s show ?thesis by blast
  qed
  with removed(4) show ?case by (simp add: registry_ok_def)
qed (auto simp: registry_ok_def)

lemma registry_ok_step: "server_step save s t \<Longrightarrow> registry_ok save s \<Longrightarrow> registry_ok save t"
proof (erule server_step_cases)
  show "registry_ok save t" if "site_change e s t" "registry_ok save s" for e
    using that by (rule registry_ok_change)
qed (auto simp: registry_ok_def)

interpretation site_server: invariant_machine server_start "server_step save" "registry_ok save"
  for save :: bool
proof unfold_locales
  show "registry_ok save s" if "server_start s" for s
    using that by (simp add: server_start_def registry_ok_def)
  show "registry_ok save t" if "server_step save s t" and "registry_ok save s" for s t
    using that by (rule registry_ok_step)
qed

section \<open>IDs and routes\<close>

definition id_safe :: "char \<Rightarrow> bool" where
  "id_safe c \<longleftrightarrow> in_range (CHR ''a'') (CHR ''z'') c \<or> in_range (CHR ''0'') (CHR ''9'') c \<or> c = CHR ''-''"

lemma id_char_safe: "x \<in> set (id_char c) \<Longrightarrow> id_safe x"
  by (auto simp: id_char_def id_safe_def in_range_def split: if_splits)

lemma generate_id_safe: "generate_id name \<noteq> '''' \<and> (\<forall>c \<in> set (generate_id name). id_safe c)"
proof -
  have "\<forall>c \<in> set ''site''. id_safe c" by (simp add: id_safe_def in_range_def)
  then show ?thesis by (auto simp: generate_id_def Let_def dest: id_char_safe)
qed

text \<open>The path of a request target is what precedes its first question mark.\<close>

definition url_path :: "string \<Rightarrow> string" where
  "url_path target = takeWhile (\<lambda>c. c \<noteq> CHR ''?'') target"

definition url_query :: "string \<Rightarrow> string" where
  "url_query target = drop 1 (dropWhile (\<lambda>c. c \<noteq> CHR ''?'') target)"

lemma id_safe_plain: "id_safe c \<Longrightarrow> c \<noteq> CHR ''?'' \<and> c \<noteq> CHR ''/''"
  by (auto simp: id_safe_def in_range_def)

lemma url_path_id: "\<forall>c \<in> set i. id_safe c \<Longrightarrow> url_path (''/api/sites/'' @ i) = ''/api/sites/'' @ i"
  unfolding url_path_def by (subst takeWhile_eq_all_conv) (auto dest: id_safe_plain)

lemma dispatch_id: "i \<noteq> '''' \<Longrightarrow> dispatch (''/api/sites/'' @ i) = HSiteByID"
proof -
  assume "i \<noteq> ''''"
  then have "map_of exact_routes (''/api/sites/'' @ i) = None"
    by (auto simp: exact_routes_def)
  then show ?thesis by (simp add: dispatch_def sites_prefix_def)
qed

section \<open>Properties\<close>

lemma url_path_explain: "url_path (''/api/explain?url='' @ q) = ''/api/explain''"
  by (simp add: url_path_def)

lemma url_path_compat: "url_path (''/api/doctor/compat?path='' @ q) = ''/api/doctor/compat''"
  by (simp add: url_path_def)

lemma url_path_site_extensions:
  "\<forall>c \<in> set i. id_safe c \<Longrightarrow> url_path (''/api/sites/'' @ i @ ''/extensions'') = ''/api/sites/'' @ i @ ''/extensions''"
  unfolding url_path_def by (subst takeWhile_eq_all_conv) (auto dest: id_safe_plain)

text \<open>C7. A request to create a site either changes neither the sites nor the running servers and is
  answered with an error, or it appends one site whose ID comes from its name, with a valid port that no listed site
  has, whose server was not running before and runs now.\<close>

theorem create_site_outcome:
  assumes "decode_site e body = Some x" and "handle_sites e POST body s = (r, t)"
  shows "(rs_code r \<in> {400, 409, 500} \<and> sv_sites t = sv_sites s \<and> sv_running t = sv_running s) \<or>
     (rs_code r = 200 \<and>
      (\<exists>site. sites_list_of t = sites_list_of s @ [site] \<and> rs_body r = JObj [(''site'', encode_site site)] \<and>
         g_id site = generate_id (g_name x) \<and> g_port site = g_port x \<and> 0 < g_port x \<and> g_port x \<le> 65535 \<and>
         g_port x \<notin> g_port ` set (sites_list_of s) \<and>
         \<not> is_running (g_id site) s \<and> is_running (g_id site) t))"
proof -
  have post: "post_site e x s = (r, t)" using assms by (simp add: handle_sites_def)
  show ?thesis
  proof (rule post_site_cases [of e x s])
    fix r' t' assume "post_site e x s = (r', t')" "rs_code r' \<in> {400, 409, 500}" "t' = s \<or> (\<exists>l m. t' = log_add e l m s)"
    with post show ?thesis by auto
  next
    fix t' l m
    assume start: "start_site e (new_site e x) s = Inr t'" and port: "0 < g_port x" "g_port x \<le> 65535"
      "g_port x \<notin> g_port ` set (sites_list_of s)"
      and res: "post_site e x s = (json_resp (JObj [(''site'', encode_site (new_site e x))]),
         log_add e l m (t'\<lparr>sv_sites := Some (sites_list_of s @ [new_site e x])\<rparr>))"
    from start have "\<not> is_running (generate_id (g_name x)) s" "is_running (generate_id (g_name x)) t'"
      by (auto simp: start_site_Inr is_running_def)
    with post res port show ?thesis by (auto simp: json_resp_def is_running_def sites_list_of_def)
  qed
qed

text \<open>C5. In every run without a saved configuration, each running server runs under the ID of a listed site
  with a webroot, and the log never holds more than 500 entries.\<close>

theorem running_servers_are_listed:
  assumes "reachable server_start (server_step False) s"
  shows "(\<forall>i c. sv_running s i = Some c \<longrightarrow>
       g_id c = i \<and> g_webroot c \<noteq> '''' \<and> (\<exists>x \<in> set (sites_list_of s). g_id x = i)) \<and>
     length (sv_log s) \<le> 500"
  using site_server.reachable_inv [OF assms] by (fastforce simp: registry_ok_def image_iff)

text \<open>An update of a site that changes neither port, webroot nor status starts and stops nothing, but is
  answered as a success. So a site whose stored status is active while its server is not running, listed as
  stopped, cannot be started from the dashboard: the request that should start it sends the stored status.\<close>

theorem start_request_without_change_does_nothing:
  assumes "index_of i (sites_list_of s) = Some k" and "i \<noteq> ''''"
    and "\<not> is_running i s" and "g_status (sites_list_of s ! k) = ''active''"
    and "decode_site e body = Some (x\<lparr>g_status := ''active''\<rparr>)"
    and "g_port x = g_port (sites_list_of s ! k)" and "g_webroot x = g_webroot (sites_list_of s ! k)"
    and "\<not> ends_with (sites_prefix @ i) extensions_suffix"
    and "handle_site_by_id e PUT (sites_prefix @ i) body s = (r, t)"
  shows "rs_code r = 200 \<and> \<not> is_running i t \<and> g_status (annotate t (sites_list_of t ! k)) = ''stopped''"
proof -
  from index_of_Some [OF assms(1)] have k: "k < length (sites_list_of s)" "g_id (sites_list_of s ! k) = i" by auto
  then have some: "sv_sites s \<noteq> None" by (auto simp: sites_list_of_def split: option.splits)
  have "handle_site_by_id e PUT (sites_prefix @ i) body s = put_site e i k (x\<lparr>g_status := ''active''\<rparr>) s"
    using assms(1,2,5,8) some by (auto simp: handle_site_by_id_def)
  with assms(9) have "put_site e i k (x\<lparr>g_status := ''active''\<rparr>) s = (r, t)" by simp
  with assms(3,4,6,7) k show ?thesis
    by (auto simp: put_site_def Let_def json_resp_def annotate_def is_running_def)
qed

text \<open>The log stream falls silent: once a connection has counted 100 entries, no tick ever sends another
  entry, whatever is logged afterwards, while the dashboard, whose socket is open, does not poll.\<close>

theorem log_stream_goes_silent:
  assumes "100 \<le> ws_last c"
  shows "ws_out (fold ws_tick bufs c) = ws_out c \<and> ws_last (fold ws_tick bufs c) = ws_last c"
  using assms
  by (induction bufs arbitrary: c) (simp_all add: ws_tick_def lb_recent_take_last Let_def)

text \<open>A new connection to a log of 51 to 100 entries is sent entries twice: the first tick repeats the last
  entries that were sent on opening, as many as the log has beyond 50.\<close>

theorem log_stream_repeats_entries:
  assumes "50 < length buf" and "length buf \<le> 100"
  shows "ws_out (ws_tick buf (ws_open buf)) = take_last 50 buf @ take_last (length buf - 50) buf"
proof -
  have "ws_last (ws_open buf) = 50" "ws_out (ws_open buf) = take_last 50 buf"
    using assms by (simp_all add: ws_open_def lb_recent_take_last Let_def)
  moreover have "lb_recent 100 buf = buf" using assms by (simp add: lb_recent_take_last)
  moreover have "drop 50 buf = take_last (length buf - 50) buf" using assms by (simp add: take_last_def)
  ultimately show ?thesis using assms by (simp add: ws_tick_def Let_def)
qed

lemma to_lower_tags [simp]:
  "to_lower ''id'' = ''id''" "to_lower ''name'' = ''name''" "to_lower ''port'' = ''port''"
  "to_lower ''webroot'' = ''webroot''" "to_lower ''domain'' = ''domain''" "to_lower ''root'' = ''root''"
  "to_lower ''php_version'' = ''php_version''" "to_lower ''status'' = ''status''" "to_lower ''routes'' = ''routes''"
  "to_lower ''ssl'' = ''ssl''" "to_lower ''headers'' = ''headers''" "to_lower ''extensions'' = ''extensions''"
  "to_lower ''profile'' = ''profile''" "to_lower ''created_at'' = ''created_at''"
  "to_lower ''updated_at'' = ''updated_at''"
  by (simp_all add: to_lower_def to_lower_char_def in_range_def)

lemma field_of_Cons: "field_of k ((n, v) # ms) = (case field_of k ms of None \<Rightarrow> if to_lower n = k then Some v else None | Some w \<Rightarrow> Some w)"
  by (simp add: field_of_def map_add_def split: option.split)

lemma field_of_Nil [simp]: "field_of k [] = None"
  by (simp add: field_of_def)

lemma field_of_append: "field_of k (xs @ ys) = (case field_of k ys of None \<Rightarrow> field_of k xs | Some w \<Rightarrow> Some w)"
  by (simp add: field_of_def map_add_def split: option.split)

lemma those_map_Some_id: "(\<And>x. x \<in> set xs \<Longrightarrow> f x = Some (g x)) \<Longrightarrow> those (map f xs) = Some (map g xs)"
  by (induction xs) auto

lemma dec_simps [simp]:
  "dec_str (Some (JStr t)) = Some t" "dec_str None = Some ''''" "dec_bool (Some (JBool b)) = Some b"
  "dec_strs None = Some None" "dec_strmap None = Some []" "dec_bool None = Some False" "dec_int None = Some 0"
  "dec_time e None = Some zero_time"
  by (simp_all add: dec_str_def dec_bool_def dec_strs_def dec_strmap_def dec_int_def dec_time_def)

lemma dec_int_JNum [simp]: "- (2 ^ 63) \<le> n \<Longrightarrow> n < 2 ^ 63 \<Longrightarrow> dec_int (Some (JNum n)) = Some n"
  by (simp add: dec_int_def)

lemma dec_time_JStr [simp]: "env_time e t \<Longrightarrow> dec_time e (Some (JStr t)) = Some t"
  by (simp add: dec_time_def)

lemma dec_strs_jstrs [simp]: "dec_strs (Some (jstrs es)) = Some (Some es)"
  using those_map_Some_id [of es Some "\<lambda>x. x"] by (simp add: dec_strs_def jstrs_def o_def)

lemma dec_strmap_headers [simp]: "dec_strmap (Some (JObj (map (\<lambda>(k, v). (k, JStr v)) hs))) = Some hs"
proof -
  have "those (map ((\<lambda>(k, x). map_option (Pair k) (dec_str (Some x))) \<circ> (\<lambda>(k, v). (k, JStr v))) hs) = Some (map id hs)"
    by (rule those_map_Some_id) auto
  then show ?thesis by (simp add: dec_strmap_def)
qed

text \<open>The optional members, by name.\<close>

definition opt_fields :: "site_config \<Rightarrow> (string \<times> json) list" where
  "opt_fields x =
     (if g_headers x = [] then [] else [(''headers'', JObj (map (\<lambda>(k, v). (k, JStr v)) (g_headers x)))])
      @ (case g_extensions x of None \<Rightarrow> [] | Some es \<Rightarrow> if es = [] then [] else [(''extensions'', jstrs es)])
      @ (if g_profile x = '''' then [] else [(''profile'', JStr (g_profile x))])"

lemma field_of_opt_fields:
  "field_of k (opt_fields x) =
     (if k = ''headers'' then if g_headers x = [] then None else Some (JObj (map (\<lambda>(k, v). (k, JStr v)) (g_headers x)))
      else if k = ''extensions'' then (case g_extensions x of None \<Rightarrow> None | Some es \<Rightarrow> if es = [] then None else Some (jstrs es))
      else if k = ''profile'' then if g_profile x = '''' then None else Some (JStr (g_profile x))
      else None)"
  by (auto simp: opt_fields_def field_of_append field_of_Cons split: option.split)

lemma encode_site_alt:
  "encode_site x = JObj
     ([(''id'', JStr (g_id x)), (''name'', JStr (g_name x)), (''port'', JNum (g_port x)),
       (''webroot'', JStr (g_webroot x)), (''domain'', JStr (g_domain x)), (''root'', JStr (g_root x)),
       (''php_version'', JStr (g_php_version x)), (''status'', JStr (g_status x)),
       (''routes'', JNum (g_routes x)), (''ssl'', JBool (g_ssl x))]
      @ opt_fields x @ [(''created_at'', JStr (g_created_at x)), (''updated_at'', JStr (g_updated_at x))])"
  by (simp add: encode_site_def opt_fields_def)

definition int64 :: "int \<Rightarrow> bool" where
  "int64 n \<longleftrightarrow> - (2 ^ 63) \<le> n \<and> n < 2 ^ 63"

text \<open>C34. A site survives its JSON form: decoding what the server sends for a site gives the site back, for
  numbers in the range of Go's int and valid time stamps; only an empty list of extensions becomes an absent
  one.\<close>

theorem site_json_roundtrip:
  assumes "int64 (g_port x)" and "int64 (g_routes x)" and "env_time e (g_created_at x)" and "env_time e (g_updated_at x)"
  shows "decode_site e (Some (encode_site x)) =
     Some (x\<lparr>g_extensions := (if g_extensions x = Some [] then None else g_extensions x)\<rparr>)"
proof -
  have h: "dec_strmap (field_of ''headers'' (opt_fields x)) = Some (g_headers x)"
    by (simp add: field_of_opt_fields)
  have ex: "dec_strs (field_of ''extensions'' (opt_fields x)) =
      Some (if g_extensions x = Some [] then None else g_extensions x)"
    by (cases "g_extensions x") (simp_all add: field_of_opt_fields)
  have pr: "dec_str (field_of ''profile'' (opt_fields x)) = Some (g_profile x)"
    by (simp add: field_of_opt_fields)
  have none: "field_of k (opt_fields x) = None" if "k \<notin> {''headers'', ''extensions'', ''profile''}" for k
    using that by (simp add: field_of_opt_fields)
  define ms where "ms =
     [(''id'', JStr (g_id x)), (''name'', JStr (g_name x)), (''port'', JNum (g_port x)),
       (''webroot'', JStr (g_webroot x)), (''domain'', JStr (g_domain x)), (''root'', JStr (g_root x)),
       (''php_version'', JStr (g_php_version x)), (''status'', JStr (g_status x)),
       (''routes'', JNum (g_routes x)), (''ssl'', JBool (g_ssl x))]
      @ opt_fields x @ [(''created_at'', JStr (g_created_at x)), (''updated_at'', JStr (g_updated_at x))]"
  note step = ms_def field_of_append field_of_Cons
  have plain: "field_of ''id'' ms = Some (JStr (g_id x))" "field_of ''name'' ms = Some (JStr (g_name x))"
    "field_of ''port'' ms = Some (JNum (g_port x))" "field_of ''webroot'' ms = Some (JStr (g_webroot x))"
    "field_of ''domain'' ms = Some (JStr (g_domain x))" "field_of ''root'' ms = Some (JStr (g_root x))"
    "field_of ''php_version'' ms = Some (JStr (g_php_version x))" "field_of ''status'' ms = Some (JStr (g_status x))"
    "field_of ''routes'' ms = Some (JNum (g_routes x))" "field_of ''ssl'' ms = Some (JBool (g_ssl x))"
    "field_of ''created_at'' ms = Some (JStr (g_created_at x))" "field_of ''updated_at'' ms = Some (JStr (g_updated_at x))"
    by (simp_all add: step none)
  have opt: "field_of ''headers'' ms = field_of ''headers'' (opt_fields x)"
    "field_of ''extensions'' ms = field_of ''extensions'' (opt_fields x)"
    "field_of ''profile'' ms = field_of ''profile'' (opt_fields x)"
    by (simp_all add: step option.case_eq_if)
  have "decode_members e ms = Some (x\<lparr>g_extensions := (if g_extensions x = Some [] then None else g_extensions x)\<rparr>)"
    using assms unfolding decode_members_def plain opt h ex pr int64_def by simp
  then show ?thesis by (simp add: encode_site_alt decode_site_def ms_def)
qed

text \<open>A site called ``Extensions'' can be created but never updated, stopped or deleted: its path ends like the
  path of the extensions of a site, and is answered with an error that leaves everything as it is.\<close>

theorem site_called_extensions_is_unreachable:
  "generate_id ''Extensions'' = ''extensions'' \<and>
   handle_site_by_id e m (url_path (rq_path (deleteSite (generate_id ''Extensions'')))) body s =
     (json_err ''site ID required'' 400, s)"
proof -
  have i: "generate_id ''Extensions'' = ''extensions''"
    using char_of_char [of "CHR ''e''"]
    by (simp add: generate_id_def id_char_def in_range_def)
  have p: "url_path (rq_path (deleteSite ''extensions'')) = ''/api/sites/extensions''"
    by (simp add: api_defs url_path_def)
  have "ends_with ''/api/sites/extensions'' extensions_suffix"
    by (simp add: ends_with_def extensions_suffix_def)
  then show ?thesis unfolding i p
    by (simp add: handle_site_by_id_def handle_extensions_site_def sites_prefix_def extensions_suffix_def)
qed

definition demo_env :: env where
  "demo_env =
     \<lparr>env_now = ''2024-01-01T00:00:00Z'', env_home = ''/home/op'', env_mkdir = (\<lambda>_. None), env_dir = (\<lambda>_. None),
      env_listen = (\<lambda>_. None), env_time = (\<lambda>_. True), env_quote = (\<lambda>s. s)\<rparr>"

lemma demo_env_simps [simp]:
  "env_mkdir demo_env w = None" "env_dir demo_env w = None" "env_listen demo_env p = None" "env_time demo_env t"
  by (simp_all add: demo_env_def)

definition empty_server :: server where
  "empty_server = \<lparr>sv_sites = None, sv_running = Map.empty, sv_log = [], sv_doc_root = ''/srv''\<rparr>"

definition demo_body :: "string \<Rightarrow> int \<Rightarrow> string \<Rightarrow> json" where
  "demo_body name port status =
     JObj [(''name'', JStr name), (''port'', JNum port), (''webroot'', JStr ''/srv/w''), (''status'', JStr status)]"

definition demo_site_config :: "string \<Rightarrow> int \<Rightarrow> string \<Rightarrow> site_config" where
  "demo_site_config name port status =
     zero_site\<lparr>g_name := name, g_port := port, g_webroot := ''/srv/w'', g_status := status\<rparr>"

lemma decode_demo_body [simp]:
  "int64 port \<Longrightarrow> decode_site demo_env (Some (demo_body name port status)) = Some (demo_site_config name port status)"
  by (simp add: demo_body_def decode_site_def decode_members_def field_of_Cons demo_site_config_def
      zero_site_def dec_time_def int64_def dec_int_def)

definition demo_server :: server where
  "demo_server =
     snd (handle_sites demo_env POST (Some (demo_body ''b'' 8082 ''active''))
       (snd (handle_sites demo_env POST (Some (demo_body ''a'' 8081 ''active'')) empty_server)))"

lemma demo_server_reachable: "reachable server_start (server_step save) demo_server"
proof -
  have "reachable server_start (server_step save) empty_server"
    by (rule reachable_init) (simp add: server_start_def empty_server_def)
  then show ?thesis unfolding demo_server_def by (blast intro: reachable_step server_step.sites)
qed

lemma demo_ids: "generate_id ''a'' = ''a''" "generate_id ''b'' = ''b''"
  by (simp_all add: generate_id_def id_char_def in_range_def)

lemma demo_server_sites:
  "sites_list_of demo_server = [new_site demo_env (demo_site_config ''a'' 8081 ''active''),
     new_site demo_env (demo_site_config ''b'' 8082 ''active'')]"
  "is_running ''a'' demo_server"
  by (simp_all add: demo_server_def handle_sites_def int64_def post_site_alt start_site_def is_running_def
      empty_server_def sites_list_of_def demo_ids new_site_def demo_site_config_def find_None_iff str_or_def)

text \<open>The port checks of a creation are not made by an update: a run leads to two sites with the same port,
  and another one to a site with a port outside the valid range.\<close>

theorem updates_bypass_port_checks:
  "(\<exists>s. reachable server_start (server_step False) s \<and> map g_port (sites_list_of s) = [8081, 8081]) \<and>
   (\<exists>s. reachable server_start (server_step False) s \<and> map g_port (sites_list_of s) = [8081, 70000])"
proof -
  have "\<exists>s. reachable server_start (server_step False) s \<and> map g_port (sites_list_of s) = [8081, p]"
    if "int64 p" for p
  proof (intro exI conjI)
    let ?t = "snd (handle_site_by_id demo_env PUT ''/api/sites/b'' (Some (demo_body ''b'' p ''stopped'')) demo_server)"
    show "reachable server_start (server_step False) ?t"
      by (rule reachable_step [OF demo_server_reachable], rule server_step.site_by_id) (simp add: sites_prefix_def)
    have some: "sv_sites demo_server \<noteq> None"
      using demo_server_sites(1) by (auto simp: sites_list_of_def split: option.splits)
    have "index_of ''b'' (sites_list_of demo_server) = Some 1"
      by (simp add: demo_server_sites demo_ids demo_site_config_def)
    then have "?t = snd (put_site demo_env ''b'' 1 (demo_site_config ''b'' p ''stopped'') demo_server)"
      using some that
      by (auto simp: handle_site_by_id_def ends_with_def extensions_suffix_def sites_prefix_def Let_def)
    then show "map g_port (sites_list_of ?t) = [8081, p]"
      by (simp add: put_site_def Let_def demo_server_sites demo_site_config_def)
  qed
  then show ?thesis by (simp add: int64_def)
qed

definition stale_site :: site_config where
  "stale_site = zero_site\<lparr>g_id := ''c'', g_name := ''c'', g_port := 9000, g_webroot := ''/srv/w'', g_status := ''active''\<rparr>"

definition stale_config :: json where
  "stale_config = JObj [(''sites'', JArr [encode_site stale_site])]"

definition stale_server :: server where
  "stale_server = snd (handle_config_save demo_env POST (Some stale_config) demo_server)"

lemma decode_stale_config: "decode_config_sites demo_env (Some stale_config) = Some [stale_site]"
proof -
  have "decode_site demo_env (Some (encode_site stale_site)) = Some stale_site"
    using site_json_roundtrip [of stale_site demo_env] by (simp add: stale_site_def zero_site_def int64_def)
  moreover have "field_of ''sites'' [(''sites'', v)] = Some v" for v
    by (simp add: field_of_Cons to_lower_def to_lower_char_def in_range_def)
  moreover have "fits_config (Some stale_config)"
    by (simp add: fits_config_def stale_config_def fits_struct_def field_of_Cons fits_str_def fits_slice_def
        to_lower_def to_lower_char_def in_range_def)
  ultimately show ?thesis by (simp add: decode_config_sites_def stale_config_def dec_sites_def)
qed

lemma stale_server_state:
  "sites_list_of stale_server = [stale_site]" "sv_running stale_server = sv_running demo_server"
  using decode_stale_config by (simp_all add: stale_server_def handle_config_save_def Let_def sites_list_of_def)

lemma stale_not_running: "\<not> is_running ''c'' demo_server"
  by (simp add: demo_server_def handle_sites_def int64_def post_site_alt start_site_def is_running_def
      empty_server_def sites_list_of_def demo_ids new_site_def demo_site_config_def find_None_iff str_or_def)

text \<open>Saving a configuration replaces the list of sites without starting or stopping anything: a run
  leads to a server that still runs a site that is not listed, so that it cannot be stopped, and lists a site as
  active that does not run.\<close>

theorem config_save_desynchronises_sites:
  "\<exists>s. reachable server_start (server_step True) s \<and>
     is_running ''a'' s \<and> (\<forall>x \<in> set (sites_list_of s). g_id x \<noteq> ''a'') \<and>
     (\<exists>x \<in> set (sites_list_of s). g_status x = ''active'' \<and> \<not> is_running (g_id x) s)"
proof (intro exI conjI)
  show "reachable server_start (server_step True) stale_server"
    unfolding stale_server_def
    by (rule reachable_step [OF demo_server_reachable], rule server_step.config_save) simp
  show "is_running ''a'' stale_server"
    using demo_server_sites(2) by (simp add: is_running_def stale_server_state)
  show "\<forall>x \<in> set (sites_list_of stale_server). g_id x \<noteq> ''a''"
    by (simp add: stale_server_state stale_site_def)
  show "\<exists>x \<in> set (sites_list_of stale_server). g_status x = ''active'' \<and> \<not> is_running (g_id x) stale_server"
    using stale_not_running by (simp add: stale_server_state stale_site_def is_running_def)
qed

section \<open>Witnesses\<close>

theorem create_site_outcome_witness:
  "\<exists>r t. handle_sites demo_env POST (Some (demo_body ''a'' 8081 ''active'')) empty_server = (r, t) \<and>
     (rs_code r \<in> {400, 409, 500} \<or> rs_code r = 200) \<and>
     (rs_code r = 200 \<longrightarrow> is_running ''a'' t \<and> map g_port (sites_list_of t) = [8081])"
proof -
  obtain r t where h: "handle_sites demo_env POST (Some (demo_body ''a'' 8081 ''active'')) empty_server = (r, t)"
    by (cases "handle_sites demo_env POST (Some (demo_body ''a'' 8081 ''active'')) empty_server")
  have d: "decode_site demo_env (Some (demo_body ''a'' 8081 ''active'')) = Some (demo_site_config ''a'' 8081 ''active'')"
    by (simp add: int64_def)
  have "sites_list_of empty_server = []" "g_name (demo_site_config ''a'' 8081 ''active'') = ''a''"
    "g_port (demo_site_config ''a'' 8081 ''active'') = 8081"
    by (simp_all add: empty_server_def sites_list_of_def demo_site_config_def)
  with create_site_outcome [OF d h] h demo_ids show ?thesis by auto
qed

theorem running_servers_are_listed_witness:
  "reachable server_start (server_step False) demo_server \<and> is_running ''a'' demo_server \<and>
   (\<exists>x \<in> set (sites_list_of demo_server). g_id x = ''a'')"
  using running_servers_are_listed [OF demo_server_reachable] demo_server_sites(2) demo_server_reachable
  by (auto simp: is_running_def)

theorem start_request_without_change_does_nothing_witness:
  "\<exists>r t. handle_site_by_id demo_env PUT (sites_prefix @ ''c'') (Some (encode_site stale_site)) stale_server = (r, t) \<and>
     rs_code r = 200 \<and> \<not> is_running ''c'' t"
proof -
  obtain r t where h: "handle_site_by_id demo_env PUT (sites_prefix @ ''c'') (Some (encode_site stale_site)) stale_server = (r, t)"
    by (cases "handle_site_by_id demo_env PUT (sites_prefix @ ''c'') (Some (encode_site stale_site)) stale_server")
  have d: "decode_site demo_env (Some (encode_site stale_site)) = Some (stale_site\<lparr>g_status := ''active''\<rparr>)"
    using site_json_roundtrip [of stale_site demo_env] by (simp add: stale_site_def zero_site_def int64_def)
  have "index_of ''c'' (sites_list_of stale_server) = Some 0" "\<not> is_running ''c'' stale_server"
    "g_status (sites_list_of stale_server ! 0) = ''active''" "g_port stale_site = g_port (sites_list_of stale_server ! 0)"
    "g_webroot stale_site = g_webroot (sites_list_of stale_server ! 0)"
    using stale_not_running by (simp_all add: stale_server_state stale_site_def is_running_def)
  moreover have "\<not> ends_with (sites_prefix @ ''c'') extensions_suffix"
    by (simp add: ends_with_def sites_prefix_def extensions_suffix_def)
  ultimately show ?thesis
    using start_request_without_change_does_nothing [of "''c''" stale_server 0 demo_env
        "Some (encode_site stale_site)" stale_site r t] h d by auto
qed

definition demo_log :: "nat \<Rightarrow> log_entry" where
  "demo_log n = \<lparr>l_timestamp = '''', l_level = ''info'', l_message = nat_to_str n, l_extra = None\<rparr>"

theorem log_stream_goes_silent_witness:
  "ws_out (fold ws_tick [map demo_log [0..<200], map demo_log [0..<300]] \<lparr>ws_last = 100, ws_out = []\<rparr>) = []"
  using log_stream_goes_silent [of "\<lparr>ws_last = 100, ws_out = []\<rparr>" "[map demo_log [0..<200], map demo_log [0..<300]]"]
  by simp

theorem log_stream_repeats_entries_witness:
  "ws_out (ws_tick (map demo_log [0..<60]) (ws_open (map demo_log [0..<60])))
     = take_last 50 (map demo_log [0..<60]) @ take_last 10 (map demo_log [0..<60])"
  using log_stream_repeats_entries [of "map demo_log [0..<60]"] by simp

theorem site_json_roundtrip_witness:
  "decode_site demo_env (Some (encode_site (stale_site\<lparr>g_extensions := Some [''gd'']\<rparr>)))
     = Some (stale_site\<lparr>g_extensions := Some [''gd'']\<rparr>)"
  using site_json_roundtrip [of "stale_site\<lparr>g_extensions := Some [''gd'']\<rparr>" demo_env]
  by (simp add: stale_site_def zero_site_def int64_def)


theorem config_save_desynchronises_sites_witness:
  "\<exists>s. reachable server_start (server_step True) s \<and> is_running ''a'' s \<and> sites_list_of s \<noteq> []"
  using config_save_desynchronises_sites by (metis empty_iff list.set(1))

end
