(* ===== verification/RequestPath.thy ===== *)
theory RequestPath
  imports Prelude
begin

text \<open>
  \<open>internal/filesystem/path.go\<close>: from the target of a request to the path that is looked up. A string is
  its bytes, as in Go. \<open>decode_loop\<close> is the index loop of \<open>percentDecode\<close>, and \<open>percent_decode\<close> the
  reference it is proved equal to; \<open>parse_path\<close> is \<open>ParsePath\<close> with its checks in the order of the code.
\<close>

datatype path_error =
    ErrInvalidPercentEncoding | ErrNULInPath | ErrControlCharInPath | ErrBackslashInPath
  | ErrEncodedSlashInPath | ErrDoubleEncoding | DecodeError path_error

record parsed_path =
  pp_raw_target :: string
  pp_raw_path :: string
  pp_escaped_path :: string
  pp_segments :: "string list"
  pp_normalized :: string
  pp_had_encoded_slash :: bool
  pp_had_backslash :: bool

text \<open>The messages of the errors; \<open>DecodeError\<close> is the wrapping by \<open>fmt.Errorf\<close>.\<close>

primrec path_error_text :: "path_error \<Rightarrow> string" where
  "path_error_text ErrInvalidPercentEncoding = ''invalid percent encoding''"
| "path_error_text ErrNULInPath = ''NUL byte in path''"
| "path_error_text ErrControlCharInPath = ''control character in path''"
| "path_error_text ErrBackslashInPath = ''backslash in path''"
| "path_error_text ErrEncodedSlashInPath = ''encoded slash in path''"
| "path_error_text ErrDoubleEncoding = ''double percent encoding detected''"
| "path_error_text (DecodeError e) = ''percent decode: '' @ path_error_text e"

section \<open>Decoding\<close>

text \<open>The byte of an escape, written out again when it is the escape character itself.\<close>

definition decoded_byte :: "nat \<Rightarrow> nat \<Rightarrow> string" where
  "decoded_byte h1 h2 =
     (let d = char_of (16 * h1 + h2) in if d = CHR ''%'' then ''%25'' else [d])"

function decode_loop :: "string \<Rightarrow> nat \<Rightarrow> string \<Rightarrow> path_error + string" where
  "decode_loop s i b =
     (if i < length s then
        (if s ! i = CHR ''%'' then
           (if i + 2 \<ge> length s then Inl ErrInvalidPercentEncoding
            else (case (digit_value (s ! (i + 1)), digit_value (s ! (i + 2))) of
                    (Some h1, Some h2) \<Rightarrow> decode_loop s (i + 3) (b @ decoded_byte h1 h2)
                  | _ \<Rightarrow> Inl ErrInvalidPercentEncoding))
         else decode_loop s (i + 1) (b @ [s ! i]))
      else Inr b)"
  by pat_completeness auto
termination by (relation "measure (\<lambda>(s, i, b). length s - i)") auto

declare decode_loop.simps [simp del]

definition percent_decode_go :: "string \<Rightarrow> path_error + string" where
  "percent_decode_go s = decode_loop s 0 []"

definition prepend :: "string \<Rightarrow> path_error + string \<Rightarrow> path_error + string" where
  "prepend w r = (case r of Inl e \<Rightarrow> Inl e | Inr t \<Rightarrow> Inr (w @ t))"

lemma prepend_simps [simp]:
  "prepend w (Inl e) = Inl e" "prepend w (Inr t) = Inr (w @ t)" "prepend [] r = r"
  "prepend v (prepend w r) = prepend (v @ w) r"
  by (cases r; simp add: prepend_def)+

lemma prepend_Inr: "prepend w r = Inr u \<longleftrightarrow> (\<exists>t. r = Inr t \<and> u = w @ t)"
  by (cases r) auto

fun percent_decode :: "string \<Rightarrow> path_error + string" where
  "percent_decode [] = Inr []"
| "percent_decode (c # s) =
     (if c = CHR ''%'' then
        (case s of
           a # b # t \<Rightarrow>
             (case (digit_value a, digit_value b) of
                (Some h1, Some h2) \<Rightarrow> prepend (decoded_byte h1 h2) (percent_decode t)
              | _ \<Rightarrow> Inl ErrInvalidPercentEncoding)
         | _ \<Rightarrow> Inl ErrInvalidPercentEncoding)
      else prepend [c] (percent_decode s))"

text \<open>\<open>containsPercentEncoding\<close>.\<close>

fun contains_escape :: "string \<Rightarrow> bool" where
  "contains_escape (c # a # b # t) \<longleftrightarrow>
     (c = CHR ''%'' \<and> digit_value a \<noteq> None \<and> digit_value b \<noteq> None) \<or> contains_escape (a # b # t)"
| "contains_escape _ \<longleftrightarrow> False"

section \<open>Segments\<close>

text \<open>One round of the loop of \<open>splitAndCollapse\<close>.\<close>

definition collapse_step :: "string \<Rightarrow> string list \<Rightarrow> string list" where
  "collapse_step seg result =
     (if seg = ''.'' \<or> seg = '''' then result
      else if seg = ''..'' then (if length result > 0 then butlast result else result)
      else result @ [seg])"

definition split_and_collapse :: "string \<Rightarrow> string list" where
  "split_and_collapse p =
     (if p = '''' \<or> p = ''/'' then [] else fold collapse_step (split_on (CHR ''/'') p) [])"

section \<open>ParsePath\<close>

text \<open>
  \<open>unicode.IsControl\<close> over the runes of a string: the C0 range and DEL are single bytes, the C1 range is
  encoded as \<open>C2\<close> followed by \<open>80\<close> to \<open>9F\<close>, and \<open>C2\<close> always starts a rune.
\<close>

definition c0_control :: "char \<Rightarrow> bool" where
  "c0_control c \<longleftrightarrow> of_char c < (32 :: nat) \<or> of_char c = (127 :: nat)"

fun control_error :: "string \<Rightarrow> path_error option" where
  "control_error [] = None"
| "control_error (c # s) =
     (if c = CHR 0x00 then Some ErrNULInPath
      else if c0_control c \<or> (c = CHR 0xC2 \<and> s \<noteq> [] \<and> in_range (CHR 0x80) (CHR 0x9F) (hd s))
      then Some ErrControlCharInPath
      else control_error s)"

definition before_query :: "string \<Rightarrow> string" where
  "before_query s = takeWhile (\<lambda>c. c \<noteq> CHR ''?'') s"

definition normalized_path :: "string list \<Rightarrow> string" where
  "normalized_path segs = ''/'' @ join ''/'' segs"

definition parse_path :: "string \<Rightarrow> path_error + parsed_path" where
  "parse_path raw_target =
     (let raw = before_query raw_target
      in if CHR 0x00 \<in> set raw then Inl ErrNULInPath
         else if control_error raw \<noteq> None then Inl ErrControlCharInPath
         else if CHR 0x5C \<in> set raw then Inl ErrBackslashInPath
         else if includes_str raw ''%2f'' \<or> includes_str raw ''%2F'' then Inl ErrEncodedSlashInPath
         else if includes_str raw ''%3f'' \<or> includes_str raw ''%3F'' then Inl ErrInvalidPercentEncoding
         else if includes_str raw ''%5c'' \<or> includes_str raw ''%5C'' then Inl ErrBackslashInPath
         else
           (case percent_decode_go raw of
              Inl e \<Rightarrow> Inl (DecodeError e)
            | Inr decoded \<Rightarrow>
                if contains_escape decoded then Inl ErrDoubleEncoding
                else
                  (case control_error decoded of
                     Some e \<Rightarrow> Inl e
                   | None \<Rightarrow>
                       (let segs = split_and_collapse decoded
                        in Inr \<lparr>pp_raw_target = raw_target, pp_raw_path = raw, pp_escaped_path = raw,
                                pp_segments = segs, pp_normalized = normalized_path segs,
                                pp_had_encoded_slash = False, pp_had_backslash = False\<rparr>))))"

section \<open>The decoding loop\<close>

lemma decode_loop_drop: "decode_loop s i b = prepend b (percent_decode (drop i s))"
proof (induction s i b rule: decode_loop.induct)
  case (1 s i b)
  note unfold = decode_loop.simps [of s i b]
  show ?case
  proof (cases "i < length s")
    case False
    then show ?thesis by (simp add: unfold)
  next
    case here: True
    have d: "drop i s = s ! i # drop (Suc i) s" using here by (simp add: Cons_nth_drop_Suc)
    show ?thesis
    proof (cases "s ! i = CHR ''%''")
      case False
      then show ?thesis using "1.IH"(2) [OF here False] here
        by (simp add: unfold d)
    next
      case esc: True
      show ?thesis
      proof (cases "i + 2 \<ge> length s")
        case True
        then have "drop (Suc i) s = [] \<or> (\<exists>a. drop (Suc i) s = [a])"
          by (cases "drop (Suc i) s"; cases "tl (drop (Suc i) s)")
            (auto dest: arg_cong [where f = length])
        with True here esc show ?thesis by (auto simp: unfold d)
      next
        case False
        then have d2: "drop (Suc i) s = s ! Suc i # s ! Suc (Suc i) # drop (i + 3) s"
          by (simp add: Cons_nth_drop_Suc numeral_3_eq_3)
        show ?thesis
        proof (cases "digit_value (s ! (i + 1)) = None \<or> digit_value (s ! (i + 2)) = None")
          case True
          with False here esc show ?thesis by (auto simp: unfold d d2 split: option.splits)
        next
          case digits: False
          then obtain h1 h2 where h: "digit_value (s ! (i + 1)) = Some h1" "digit_value (s ! (i + 2)) = Some h2"
            by auto
          have "decode_loop s (i + 3) (b @ decoded_byte h1 h2) =
            prepend (b @ decoded_byte h1 h2) (percent_decode (drop (i + 3) s))"
            by (rule "1.IH"(1) [OF here esc False refl h])
          then show ?thesis using here esc False h by (simp add: unfold d d2)
        qed
      qed
    qed
  qed
qed

lemma percent_decode_go: "percent_decode_go s = percent_decode s"
  by (simp add: percent_decode_go_def decode_loop_drop)

section \<open>Bytes of a decoded path\<close>

lemma digit_value_bound: "digit_value a = Some h \<Longrightarrow> h < 16"
  by (auto simp: digit_value.simps in_range_def split: if_splits)

lemma char_eq_code: "c = (d :: char) \<longleftrightarrow> (of_char c :: nat) = of_char d"
  by simp

lemma digit_value_inv:
  "digit_value a = Some 2 \<longleftrightarrow> a = CHR ''2''"
  "digit_value a = Some 3 \<longleftrightarrow> a = CHR ''3''"
  "digit_value a = Some 5 \<longleftrightarrow> a = CHR ''5''"
  "digit_value a = Some 12 \<longleftrightarrow> a = CHR ''c'' \<or> a = CHR ''C''"
  "digit_value a = Some 15 \<longleftrightarrow> a = CHR ''f'' \<or> a = CHR ''F''"
  unfolding char_eq_code by (auto simp: digit_value.simps in_range_def)

lemma digit_not_slash: "digit_value a = Some h \<Longrightarrow> a \<noteq> CHR ''/''"
  by (auto simp: digit_value.simps in_range_def)

lemma char_of_eq:
  assumes "char_of (16 * h1 + h2 :: nat) = c" and "h1 < 16" and "h2 < 16"
  shows "h1 = of_char c div 16" and "h2 = of_char c mod 16"
proof -
  have "(of_char (char_of (16 * h1 + h2 :: nat) :: char) :: nat) = (16 * h1 + h2) mod 256"
    by (simp only: of_char_of)
  also have "\<dots> = 16 * h1 + h2" using assms(2,3) by simp
  finally have "16 * h1 + h2 = of_char c" using assms(1) by simp
  then show "h1 = of_char c div 16" and "h2 = of_char c mod 16" using assms(3) by (simp_all flip: \<open>16 * h1 + h2 = of_char c\<close>)
qed

lemma includes_Cons: "includes_str s p \<Longrightarrow> includes_str (c # s) p"
  by simp

text \<open>Where a byte of a decoded path comes from.\<close>

lemma decoded_origin:
  "percent_decode s = Inr d \<Longrightarrow> c \<in> set d \<Longrightarrow> c \<notin> set ''%25'' \<Longrightarrow>
     c \<in> set s \<or> (\<exists>a b. includes_str s [CHR ''%'', a, b] \<and>
        digit_value a = Some (of_char c div 16) \<and> digit_value b = Some (of_char c mod 16))"
proof (induction s arbitrary: d rule: percent_decode.induct)
  case (2 x s)
  show ?case
  proof (cases "x = CHR ''%''")
    case False
    with "2.prems"(1) obtain e where e: "percent_decode s = Inr e" "d = x # e" by (auto simp: prepend_Inr)
    show ?thesis
    proof (cases "c = x")
      case neq: False
      with e "2.prems"(2) have "c \<in> set e" by simp
      from "2.IH"(2) [OF False e(1) this "2.prems"(3)] show ?thesis by auto
    qed simp
  next
    case True
    with "2.prems"(1) obtain a b t h1 h2 e where s: "s = a # b # t" and h: "digit_value a = Some h1" "digit_value b = Some h2"
      and e: "percent_decode t = Inr e" "d = decoded_byte h1 h2 @ e"
      by (auto simp: prepend_Inr split: list.splits option.splits)
    show ?thesis
    proof (cases "c \<in> set e")
      case True
      have "c \<in> set t \<or> (\<exists>a b. includes_str t [CHR ''%'', a, b] \<and>
        digit_value a = Some (of_char c div 16) \<and> digit_value b = Some (of_char c mod 16))"
        by (rule "2.IH"(1) [OF \<open>x = CHR ''%''\<close> s refl _ h e(1) True "2.prems"(3)]) simp
      then show ?thesis unfolding s by (metis includes_Cons list.set_intros(2))
    next
      case False
      with e(2) "2.prems"(2,3) have "c = char_of (16 * h1 + h2)"
        by (auto simp: decoded_byte_def Let_def split: if_splits)
      with char_of_eq [of h1 h2 c] digit_value_bound [OF h(1)] digit_value_bound [OF h(2)]
      have "h1 = of_char c div 16" "h2 = of_char c mod 16" by simp_all
      then show ?thesis unfolding s \<open>x = CHR ''%''\<close> using h by (metis starts_with.simps(1,3) includes_str.simps(2))
    qed
  qed
qed simp

lemma decoded_no_query:
  assumes "percent_decode s = Inr d" and "CHR ''?'' \<notin> set s" and "\<not> includes_str s ''%3f''" "\<not> includes_str s ''%3F''"
  shows "CHR ''?'' \<notin> set d"
  using decoded_origin [OF assms(1), of "CHR ''?''"] assms(2-4) by (auto simp: digit_value_inv)

lemma decoded_no_backslash:
  assumes "percent_decode s = Inr d" and "CHR 0x5C \<notin> set s" and "\<not> includes_str s ''%5c''" "\<not> includes_str s ''%5C''"
  shows "CHR 0x5C \<notin> set d"
  using decoded_origin [OF assms(1), of "CHR 0x5C"] assms(2-4) by (auto simp: digit_value_inv)

lemma contains_escape_Cons: "contains_escape s \<Longrightarrow> contains_escape (c # s)"
  by (cases s rule: contains_escape.cases) auto

lemma contains_escape_append: "contains_escape s \<Longrightarrow> contains_escape (w @ s)"
  by (induction w) (simp_all add: contains_escape_Cons)

lemma digit_value_25 [simp]:
  "digit_value (CHR ''2'') = Some 2" "digit_value (CHR ''3'') = Some 3" "digit_value (CHR ''5'') = Some 5"
  by (simp_all add: digit_value_inv)

lemma escape_in_decoded: "percent_decode s = Inr d \<Longrightarrow> CHR ''%'' \<in> set d \<Longrightarrow> contains_escape d"
proof (induction s arbitrary: d rule: percent_decode.induct)
  case (2 x s)
  show ?case
  proof (cases "x = CHR ''%''")
    case False
    with "2.prems"(1) obtain e where e: "percent_decode s = Inr e" "d = x # e" by (auto simp: prepend_Inr)
    with False "2.prems"(2) have "CHR ''%'' \<in> set e" by simp
    from "2.IH"(2) [OF False e(1) this] e(2) show ?thesis by (simp add: contains_escape_Cons)
  next
    case True
    with "2.prems"(1) obtain a b t h1 h2 e where s: "s = a # b # t" and h: "digit_value a = Some h1" "digit_value b = Some h2"
      and e: "percent_decode t = Inr e" "d = decoded_byte h1 h2 @ e"
      by (auto simp: prepend_Inr split: list.splits option.splits)
    show ?thesis
    proof (cases "CHR ''%'' \<in> set e")
      case pct: True
      have "contains_escape e"
        by (rule "2.IH"(1) [OF True s refl _ h e(1) pct]) simp
      then show ?thesis by (simp add: e(2) contains_escape_append)
    next
      case False
      with e(2) "2.prems"(2) have "decoded_byte h1 h2 = ''%25''"
        by (auto simp: decoded_byte_def Let_def split: if_splits)
      then show ?thesis by (simp add: e(2))
    qed
  qed
qed simp

lemma decode_no_escape: "CHR ''%'' \<notin> set s \<Longrightarrow> percent_decode s = Inr s"
  by (induction s) auto

lemma contains_escape_pct: "contains_escape s \<Longrightarrow> CHR ''%'' \<in> set s"
  by (induction s rule: contains_escape.induct) auto

section \<open>Splitting\<close>

lemma split_on_pieces: "w \<in> set (split_on d s) \<Longrightarrow> d \<notin> set w \<and> set w \<subseteq> set s"
proof (induction s arbitrary: w)
  case (Cons c s)
  obtain v vs where v: "split_on d s = v # vs" by (cases "split_on d s") auto
  have "d \<notin> set v \<and> set v \<subseteq> set s" using Cons.IH [of v] v by simp
  moreover have "d \<notin> set x \<and> set x \<subseteq> set s" if "x \<in> set vs" for x using Cons.IH [of x] v that by simp
  ultimately show ?case using Cons.prems v by (auto split: if_splits)
qed simp

lemma split_on_append: "d \<notin> set w \<Longrightarrow> split_on d (w @ s) = (w @ hd (split_on d s)) # tl (split_on d s)"
  by (induction w) (auto simp: hd_Cons_tl split: list.splits)

lemma split_on_plain: "d \<notin> set w \<Longrightarrow> split_on d w = [w]"
  using split_on_append [of d w "[]"] by simp

lemma split_on_sep: "d \<notin> set w \<Longrightarrow> split_on d (w @ d # s) = w # split_on d s"
  by (simp add: split_on_append)

lemma split_on_join: "ws \<noteq> [] \<Longrightarrow> \<forall>w \<in> set ws. d \<notin> set w \<Longrightarrow> split_on d (join [d] ws) = ws"
proof (induction ws rule: induct_list012)
  case (3 x y ys)
  then show ?case by (simp add: split_on_sep)
qed (auto simp: split_on_plain)

text \<open>Encoded slashes being rejected, decoding does not move the boundaries of the segments.\<close>

lemma decode_split:
  "percent_decode s = Inr d \<Longrightarrow> \<not> includes_str s ''%2f'' \<Longrightarrow> \<not> includes_str s ''%2F'' \<Longrightarrow>
     map percent_decode (split_on (CHR ''/'') s) = map Inr (split_on (CHR ''/'') d)"
proof (induction s arbitrary: d rule: percent_decode.induct)
  case (2 x s)
  note no = includes_Cons [of s "''%2f''" x] includes_Cons [of s "''%2F''" x] "2.prems"(2,3)
  show ?case
  proof (cases "x = CHR ''%''")
    case False
    with "2.prems"(1) obtain e where e: "percent_decode s = Inr e" "d = x # e" by (auto simp: prepend_Inr)
    with "2.IH"(2) [OF False e(1)] no
    have IH: "map percent_decode (split_on (CHR ''/'') s) = map Inr (split_on (CHR ''/'') e)" by blast
    then show ?thesis using False e(2) by (auto split: list.splits)
  next
    case True
    with "2.prems"(1) obtain a b t h1 h2 e where s: "s = a # b # t" and h: "digit_value a = Some h1" "digit_value b = Some h2"
      and e: "percent_decode t = Inr e" "d = decoded_byte h1 h2 @ e"
      by (auto simp: prepend_Inr split: list.splits option.splits)
    have not: "\<not> includes_str t ''%2f''" "\<not> includes_str t ''%2F''"
      using no unfolding s by (metis includes_Cons)+
    have IH: "map percent_decode (split_on (CHR ''/'') t) = map Inr (split_on (CHR ''/'') e)"
      by (rule "2.IH"(1) [OF True s refl _ h e(1) not]) simp
    have "CHR ''/'' \<notin> set (decoded_byte h1 h2)"
    proof
      assume "CHR ''/'' \<in> set (decoded_byte h1 h2)"
      then have "char_of (16 * h1 + h2) = CHR ''/''" by (auto simp: decoded_byte_def Let_def split: if_splits)
      with char_of_eq [of h1 h2 "CHR ''/''"] digit_value_bound [OF h(1)] digit_value_bound [OF h(2)]
      have "h1 = 2" "h2 = 15" by simp_all
      with h have "a = CHR ''2''" "b = CHR ''f'' \<or> b = CHR ''F''" by (simp_all add: digit_value_inv)
      with "2.prems"(2,3) True s show False by auto
    qed
    then have de: "split_on (CHR ''/'') d = (decoded_byte h1 h2 @ hd (split_on (CHR ''/'') e)) # tl (split_on (CHR ''/'') e)"
      by (simp add: e(2) split_on_append)
    have "CHR ''/'' \<notin> set [x, a, b]" using True digit_not_slash h by auto
    from split_on_append [OF this, of t]
    have "split_on (CHR ''/'') (x # s) = (x # a # b # hd (split_on (CHR ''/'') t)) # tl (split_on (CHR ''/'') t)"
      by (simp add: s)
    moreover obtain w ws where "split_on (CHR ''/'') t = w # ws" by (cases "split_on (CHR ''/'') t") auto
    ultimately show ?thesis using IH True h de by (auto simp: hd_Cons_tl)
  qed
qed simp

section \<open>Collapsing\<close>

definition plain_segment :: "string \<Rightarrow> bool" where
  "plain_segment w \<longleftrightarrow> w \<noteq> '''' \<and> w \<noteq> ''.'' \<and> w \<noteq> ''..'' \<and> CHR ''/'' \<notin> set w"

lemma collapse_step_set: "x \<in> set (collapse_step w r) \<Longrightarrow> x \<in> set r \<or> x = w \<and> w \<noteq> '''' \<and> w \<noteq> ''.'' \<and> w \<noteq> ''..''"
  by (auto simp: collapse_step_def split: if_splits dest: in_set_butlastD)

lemma collapse_set:
  "x \<in> set (fold collapse_step ws r) \<Longrightarrow> x \<in> set r \<or> x \<in> set ws \<and> x \<noteq> '''' \<and> x \<noteq> ''.'' \<and> x \<noteq> ''..''"
proof (induction ws arbitrary: r)
  case (Cons w ws)
  from Cons.IH [of "collapse_step w r"] Cons.prems collapse_step_set [of x w r] show ?case by auto
qed simp

lemma split_and_collapse_set:
  "w \<in> set (split_and_collapse p) \<Longrightarrow> plain_segment w \<and> w \<in> set (split_on (CHR ''/'') p) \<and> set w \<subseteq> set p"
  using collapse_set [of w "split_on (CHR ''/'') p" "[]"] split_on_pieces [of w "CHR ''/''" p]
  by (auto simp: split_and_collapse_def plain_segment_def split: if_splits)

lemma split_and_collapse_fold: "split_and_collapse p = fold collapse_step (split_on (CHR ''/'') p) []"
  by (auto simp: split_and_collapse_def collapse_step_def)

lemma collapse_plain: "\<forall>w \<in> set ws. plain_segment w \<Longrightarrow> fold collapse_step ws r = r @ ws"
  by (induction ws arbitrary: r) (auto simp: collapse_step_def plain_segment_def)

lemma split_normalized:
  "ws \<noteq> [] \<Longrightarrow> \<forall>w \<in> set ws. plain_segment w \<Longrightarrow> split_on (CHR ''/'') (normalized_path ws) = '''' # ws"
  by (simp add: normalized_path_def split_on_join plain_segment_def)

lemma collapse_normalized: "\<forall>w \<in> set ws. plain_segment w \<Longrightarrow> split_and_collapse (normalized_path ws) = ws"
proof (cases "ws = []")
  case True
  then show ?thesis by (simp add: split_and_collapse_def normalized_path_def)
next
  case False
  assume "\<forall>w \<in> set ws. plain_segment w"
  with False show ?thesis
    by (simp add: split_and_collapse_fold split_normalized collapse_plain collapse_step_def)
qed

section \<open>Control characters\<close>

lemma control_error_append:
  "control_error (xs @ CHR ''/'' # ys) = None \<longleftrightarrow> control_error xs = None \<and> control_error ys = None"
proof (induction xs)
  case Nil
  show ?case by (simp add: c0_control_def)
next
  case (Cons x xs)
  have "\<not> in_range (CHR 0x80) (CHR 0x9F) (CHR ''/'')" by (simp add: in_range_def)
  with Cons show ?case by (cases xs) auto
qed

lemma control_error_join:
  "control_error (join ''/'' ws) = None \<longleftrightarrow> (\<forall>w \<in> set ws. control_error w = None)"
  by (induction ws rule: induct_list012) (simp_all add: control_error_append)

lemma control_error_pieces:
  "control_error s = None \<Longrightarrow> w \<in> set (split_on (CHR ''/'') s) \<Longrightarrow> control_error w = None"
  using control_error_join [of "split_on (CHR ''/'') s"] by (simp add: join_split_on)

lemma control_error_normalized:
  "\<forall>w \<in> set ws. control_error w = None \<Longrightarrow> control_error (normalized_path ws) = None"
  using control_error_append [of "''''" "join ''/'' ws"] by (simp add: normalized_path_def control_error_join)

lemma control_error_chars: "control_error s = None \<Longrightarrow> c \<in> set s \<Longrightarrow> c \<noteq> CHR 0x00 \<and> \<not> c0_control c"
  by (induction s) (auto split: if_splits)

section \<open>Properties\<close>

lemma join_set: "set (join d ws) \<subseteq> set d \<union> (\<Union>w \<in> set ws. set w)"
  by (induction ws rule: induct_list012) auto

lemma normalized_set: "c \<in> set (normalized_path ws) \<Longrightarrow> c = CHR ''/'' \<or> (\<exists>w \<in> set ws. c \<in> set w)"
  using join_set [of "''/''" ws] by (auto simp: normalized_path_def)

text \<open>What a successful parse went through.\<close>

lemma parse_path_Inr:
  assumes "parse_path t = Inr pp"
  obtains d where "percent_decode (before_query t) = Inr d" "CHR ''%'' \<notin> set d" "CHR ''?'' \<notin> set d"
    "CHR 0x5C \<notin> set d" "control_error d = None" "pp_segments pp = split_and_collapse d"
    "pp_normalized pp = normalized_path (pp_segments pp)"
    "\<not> includes_str (before_query t) ''%2f''" "\<not> includes_str (before_query t) ''%2F''"
proof -
  let ?r = "before_query t"
  from assms obtain d where d: "percent_decode ?r = Inr d" "\<not> contains_escape d" "control_error d = None"
    and pp: "pp_segments pp = split_and_collapse d" "pp_normalized pp = normalized_path (split_and_collapse d)"
    and no: "CHR 0x5C \<notin> set ?r" "\<not> includes_str ?r ''%2f''" "\<not> includes_str ?r ''%2F''"
      "\<not> includes_str ?r ''%3f''" "\<not> includes_str ?r ''%3F''" "\<not> includes_str ?r ''%5c''" "\<not> includes_str ?r ''%5C''"
    by (auto simp: parse_path_def percent_decode_go Let_def split: if_splits sum.splits option.splits)
  have "CHR ''?'' \<notin> set ?r" by (auto simp: before_query_def dest: set_takeWhileD)
  show ?thesis
    by (rule that [OF d(1) _ _ _ d(3) pp(1) _ no(2,3)])
      (use d escape_in_decoded decoded_no_query decoded_no_backslash no \<open>CHR ''?'' \<notin> set ?r\<close> pp in auto)
qed

text \<open>C9. A path that passes \<open>ParsePath\<close> is safe to look up below a root: it starts with a slash, no segment is
  empty or a dot segment or holds a separator, and no control character, backslash, percent sign or
  question mark is left in it.\<close>

theorem parsed_path_is_safe:
  assumes "parse_path t = Inr pp"
  shows "pp_normalized pp = ''/'' @ join ''/'' (pp_segments pp) \<and>
    (\<forall>w \<in> set (pp_segments pp). plain_segment w) \<and>
    (\<forall>c \<in> set (pp_normalized pp). \<not> c0_control c \<and> c \<noteq> CHR 0x5C \<and> c \<noteq> CHR ''%'' \<and> c \<noteq> CHR ''?'')"
proof -
  obtain d where d: "CHR ''%'' \<notin> set d" "CHR ''?'' \<notin> set d" "CHR 0x5C \<notin> set d" "control_error d = None"
    and pp: "pp_segments pp = split_and_collapse d" "pp_normalized pp = normalized_path (pp_segments pp)"
    using assms by (rule parse_path_Inr)
  have segs: "plain_segment w \<and> set w \<subseteq> set d" if "w \<in> set (pp_segments pp)" for w
    using that split_and_collapse_set by (auto simp: pp(1))
  have "c \<in> set d \<or> c = CHR ''/''" if "c \<in> set (pp_normalized pp)" for c
    using that segs normalized_set [of c "pp_segments pp"] by (auto simp: pp(2))
  moreover have "\<not> c0_control (CHR ''/'')" by (simp add: c0_control_def)
  ultimately show ?thesis
    using d segs pp(2) control_error_chars [OF d(4)] by (fastforce simp: normalized_path_def)
qed

text \<open>Parsing is idempotent: a normalised path is accepted as it is, with the same segments.\<close>

theorem parse_path_idempotent:
  assumes "parse_path t = Inr pp"
  shows "\<exists>qq. parse_path (pp_normalized pp) = Inr qq \<and> pp_segments qq = pp_segments pp \<and>
    pp_normalized qq = pp_normalized pp \<and> pp_raw_path qq = pp_normalized pp"
proof -
  let ?n = "pp_normalized pp"
  obtain d where d: "CHR ''%'' \<notin> set d" "CHR ''?'' \<notin> set d" "CHR 0x5C \<notin> set d" "control_error d = None"
    and pp: "pp_segments pp = split_and_collapse d" "?n = normalized_path (pp_segments pp)"
    using assms by (rule parse_path_Inr)
  have segs: "plain_segment w \<and> w \<in> set (split_on (CHR ''/'') d) \<and> set w \<subseteq> set d" if "w \<in> set (pp_segments pp)" for w
    using that split_and_collapse_set by (auto simp: pp(1))
  have chars: "c \<in> set d \<or> c = CHR ''/''" if "c \<in> set ?n" for c
    using that segs normalized_set [of c "pp_segments pp"] by (auto simp: pp(2))
  have plain: "CHR ''%'' \<notin> set ?n" "CHR ''?'' \<notin> set ?n" "CHR 0x5C \<notin> set ?n"
    using chars d by fastforce+
  have ctl: "control_error ?n = None"
    using segs control_error_pieces [OF d(4)] by (auto simp: pp(2) intro!: control_error_normalized)
  have "before_query ?n = ?n"
    using plain(2) by (auto simp: before_query_def takeWhile_eq_all_conv)
  moreover have "\<not> includes_str ?n (CHR ''%'' # w)" for w
    using plain(1) by (auto simp: includes_str_iff)
  moreover have "CHR 0x00 \<notin> set ?n" using control_error_chars [OF ctl] by blast
  moreover have "percent_decode_go ?n = Inr ?n" "\<not> contains_escape ?n"
    using plain(1) by (auto simp: percent_decode_go decode_no_escape dest: contains_escape_pct)
  moreover have "split_and_collapse ?n = pp_segments pp"
    using segs unfolding pp(2) by (intro collapse_normalized) blast
  ultimately show ?thesis
    using plain ctl by (simp add: parse_path_def Let_def pp(2) flip: pp(2))
qed

text \<open>Every segment is decoded once and on its own: the segments of the parsed path are the decoded pieces
  between the slashes of the request, with the dot segments collapsed.\<close>

theorem segments_decode_separately:
  assumes "parse_path t = Inr pp"
  shows "\<exists>ws. map percent_decode (split_on (CHR ''/'') (before_query t)) = map Inr ws \<and>
    pp_segments pp = fold collapse_step ws []"
proof -
  obtain d where "percent_decode (before_query t) = Inr d" "pp_segments pp = split_and_collapse d"
    "\<not> includes_str (before_query t) ''%2f''" "\<not> includes_str (before_query t) ''%2F''"
    using assms by (rule parse_path_Inr)
  then show ?thesis
    using decode_split [of "before_query t" d] by (auto simp: split_and_collapse_fold)
qed

section \<open>The callers\<close>

text \<open>
  \<open>net/http\<close> parses the target of a request before any handler sees it: \<open>r.URL.Path\<close> is the part before the
  query with its escapes replaced, and a control character or a bad escape is refused. The handlers pass
  this decoded path to \<open>ParsePath\<close>.
\<close>

fun path_unescape :: "string \<Rightarrow> string option" where
  "path_unescape [] = Some []"
| "path_unescape (c # s) =
     (if c = CHR ''%'' then
        (case s of
           a # b # t \<Rightarrow>
             (case (digit_value a, digit_value b) of
                (Some x, Some y) \<Rightarrow> map_option ((#) (char_of (16 * x + y))) (path_unescape t)
              | _ \<Rightarrow> None)
         | _ \<Rightarrow> None)
      else map_option ((#) c) (path_unescape s))"

definition url_path_of :: "string \<Rightarrow> string option" where
  "url_path_of target =
     (if list_ex c0_control target then None else path_unescape (before_query target))"

definition request_path :: "string \<Rightarrow> (path_error + parsed_path) option" where
  "request_path target = map_option parse_path (url_path_of target)"

lemma path_unescape_decode:
  "percent_decode s = Inr d \<Longrightarrow> CHR ''%'' \<notin> set d \<Longrightarrow> path_unescape s = Some d"
proof (induction s arbitrary: d rule: percent_decode.induct)
  case (2 x s)
  show ?case
  proof (cases "x = CHR ''%''")
    case False
    with "2.prems"(1) obtain e where "percent_decode s = Inr e" "d = x # e" by (auto simp: prepend_Inr)
    with "2.IH"(2) [OF False] "2.prems"(2) False show ?thesis by simp
  next
    case True
    with "2.prems"(1) obtain a b t h1 h2 e where s: "s = a # b # t" and h: "digit_value a = Some h1" "digit_value b = Some h2"
      and e: "percent_decode t = Inr e" "d = decoded_byte h1 h2 @ e"
      by (auto simp: prepend_Inr split: list.splits option.splits)
    have "path_unescape t = Some e"
      by (rule "2.IH"(1) [OF True s refl _ h e(1)]) (use e(2) "2.prems"(2) in auto)
    with True h e(2) "2.prems"(2) show ?thesis
      by (auto simp: s decoded_byte_def Let_def split: if_splits)
  qed
qed simp

lemma path_unescape_plain: "CHR ''%'' \<notin> set w \<Longrightarrow> path_unescape (w @ s) = map_option ((@) w) (path_unescape s)"
proof (induction w)
  case Nil
  then show ?case by (simp add: option.map_ident)
next
  case (Cons c w)
  then show ?case by (auto simp: option.map_comp comp_def)
qed

lemma parse_path_decoded:
  assumes "CHR ''%'' \<notin> set d" "CHR ''?'' \<notin> set d" "CHR 0x5C \<notin> set d" "control_error d = None"
  shows "parse_path d = Inr \<lparr>pp_raw_target = d, pp_raw_path = d, pp_escaped_path = d,
    pp_segments = split_and_collapse d, pp_normalized = normalized_path (split_and_collapse d),
    pp_had_encoded_slash = False, pp_had_backslash = False\<rparr>"
proof -
  have "before_query d = d" using assms(2) by (auto simp: before_query_def takeWhile_eq_all_conv)
  moreover have "\<not> includes_str d (CHR ''%'' # w)" for w using assms(1) by (auto simp: includes_str_iff)
  moreover have "CHR 0x00 \<notin> set d" using control_error_chars [OF assms(4)] by blast
  moreover have "percent_decode_go d = Inr d" "\<not> contains_escape d"
    using assms(1) by (auto simp: percent_decode_go decode_no_escape dest: contains_escape_pct)
  ultimately show ?thesis using assms(3,4) by (simp add: parse_path_def Let_def)
qed

text \<open>On the targets \<open>ParsePath\<close> itself accepts, passing it the path that \<open>net/http\<close> has already decoded
  changes nothing: the second decoding finds no escape and the segments are the same.\<close>

theorem accepted_targets_agree:
  assumes "parse_path t = Inr pp" and "\<not> list_ex c0_control t"
  shows "\<exists>qq. request_path t = Some (Inr qq) \<and> pp_segments qq = pp_segments pp \<and>
    pp_normalized qq = pp_normalized pp"
proof -
  obtain d where d: "percent_decode (before_query t) = Inr d" "CHR ''%'' \<notin> set d" "CHR ''?'' \<notin> set d"
    "CHR 0x5C \<notin> set d" "control_error d = None"
    and pp: "pp_segments pp = split_and_collapse d" "pp_normalized pp = normalized_path (pp_segments pp)"
    using assms(1) by (rule parse_path_Inr)
  then show ?thesis
    using assms(2) parse_path_decoded [OF d(2-5)] path_unescape_decode [OF d(1,2)]
    by (simp add: request_path_def url_path_of_def)
qed

definition word :: "string \<Rightarrow> bool" where
  "word w \<longleftrightarrow> w \<noteq> '''' \<and> list_all (in_range (CHR ''a'') (CHR ''z'')) w"

lemma word_chars:
  assumes "word w" and "c \<in> set w"
  shows "\<not> c0_control c" "c \<noteq> CHR ''%''" "c \<noteq> CHR ''?''" "c \<noteq> CHR 0x5C" "c \<noteq> CHR ''/''" "c \<noteq> CHR ''.''" "c \<noteq> CHR 0x00" "c \<noteq> CHR 0xC2"
proof -
  have "in_range (CHR ''a'') (CHR ''z'') c" using assms by (auto simp: word_def list_all_iff)
  then show "\<not> c0_control c" "c \<noteq> CHR ''%''" "c \<noteq> CHR ''?''" "c \<noteq> CHR 0x5C" "c \<noteq> CHR ''/''" "c \<noteq> CHR ''.''"
    "c \<noteq> CHR 0x00" "c \<noteq> CHR 0xC2"
    by (auto simp: in_range_def c0_control_def)
qed

lemma word_control: "word w \<Longrightarrow> control_error w = None"
proof -
  have "list_all (in_range (CHR ''a'') (CHR ''z'')) v \<Longrightarrow> control_error v = None" for v
    by (induction v) (auto simp: in_range_def c0_control_def)
  then show "word w \<Longrightarrow> ?thesis" by (simp add: word_def)
qed

lemma word_segment: "word w \<Longrightarrow> plain_segment w"
  using word_chars(5,6) [of w] by (auto simp: plain_segment_def word_def)

lemma word_path:
  assumes "\<forall>w \<in> set ws. word w"
  shows "\<exists>qq. parse_path (normalized_path ws) = Inr qq \<and> pp_segments qq = ws"
proof -
  have "c = CHR ''/'' \<or> (\<exists>w \<in> set ws. c \<in> set w)" if "c \<in> set (normalized_path ws)" for c
    using that by (rule normalized_set)
  then have "CHR ''%'' \<notin> set (normalized_path ws)" "CHR ''?'' \<notin> set (normalized_path ws)" "CHR 0x5C \<notin> set (normalized_path ws)"
    using assms word_chars by fastforce+
  moreover have "control_error (normalized_path ws) = None"
    using assms by (intro control_error_normalized) (simp add: word_control)
  moreover have "split_and_collapse (normalized_path ws) = ws"
    using assms by (intro collapse_normalized) (simp add: word_segment)
  ultimately show ?thesis by (simp add: parse_path_decoded)
qed

lemma includes_str_middle: "includes_str (a @ p @ b) p"
  by (auto simp: includes_str_iff)

text \<open>Targets without control characters, of two words with an escape between them.\<close>

definition quiet :: "char \<Rightarrow> bool" where
  "quiet c \<longleftrightarrow> \<not> c0_control c \<and> c \<noteq> CHR 0x00 \<and> c \<noteq> CHR 0xC2 \<and> c \<noteq> CHR 0x5C \<and> c \<noteq> CHR ''?''"

lemma quiet_word: "word w \<Longrightarrow> list_all quiet w"
  using word_chars [of w] by (auto simp: quiet_def list_all_iff)

lemma quiet_control: "list_all quiet s \<Longrightarrow> control_error s = None"
  by (induction s) (auto simp: quiet_def)

lemma quiet_target:
  assumes "list_all quiet s"
  shows "before_query s = s" "CHR 0x00 \<notin> set s" "CHR 0x5C \<notin> set s" "control_error s = None"
    "\<not> list_ex c0_control s"
  using assms quiet_control by (auto simp: before_query_def takeWhile_eq_all_conv quiet_def list_all_iff list_ex_iff)

lemma quiet_escape [simp]:
  "quiet (CHR ''/'')" "quiet (CHR ''%'')" "quiet (CHR ''2'')" "quiet (CHR ''3'')" "quiet (CHR ''f'')"
  by (simp_all add: quiet_def c0_control_def)

lemma escaped_bytes [simp]: "char_of (47 :: nat) = CHR ''/''" "char_of (63 :: nat) = CHR ''?''"
  using char_of_char [of "CHR ''/''"] char_of_char [of "CHR ''?''"] by simp_all

lemma escaped_word_path:
  assumes "word a" and "word b" and "digit_value x = Some h"
  shows "path_unescape (''/'' @ a @ CHR ''%'' # x # CHR ''f'' # b) = Some (''/'' @ a @ char_of (16 * h + 15) # b)"
proof -
  have pct: "CHR ''%'' \<notin> set (''/'' @ a)" "CHR ''%'' \<notin> set b"
    using word_chars(2) [OF assms(1)] word_chars(2) [OF assms(2)] by auto
  have "digit_value (CHR ''f'') = Some 15" by (simp add: digit_value_inv)
  moreover have "path_unescape b = Some b" using path_unescape_plain [OF pct(2), of "[]"] by simp
  ultimately show ?thesis
    using path_unescape_plain [OF pct(1), of "CHR ''%'' # x # CHR ''f'' # b"] assms(3) by simp
qed

lemma escape_positions:
  assumes "CHR ''%'' \<notin> set u" and "CHR ''%'' \<notin> set v"
  shows "includes_str (u @ CHR ''%'' # v) (CHR ''%'' # p) \<longleftrightarrow> starts_with v p"
proof -
  have "\<not> includes_str v (CHR ''%'' # p)" using assms(2) by (auto simp: includes_str_iff)
  moreover have "includes_str (u @ s) (CHR ''%'' # p) \<longleftrightarrow> includes_str s (CHR ''%'' # p)" for s
    using assms(1) by (induction u) auto
  ultimately show ?thesis by simp
qed

text \<open>Only the part before the query matters.\<close>

lemma parse_path_query:
  "before_query s = before_query t \<Longrightarrow> parse_path t = Inr pp \<Longrightarrow>
     \<exists>qq. parse_path s = Inr qq \<and> pp_segments qq = pp_segments pp"
  by (auto simp: parse_path_def Let_def split: if_splits sum.splits option.splits)

text \<open>The checks of \<open>ParsePath\<close> against encoded separators do not see them at its call sites: a target with
  an encoded slash, which \<open>ParsePath\<close> refuses, reaches it decoded and is looked up as a path with one
  more segment, and behind an encoded question mark the rest of the path is dropped.\<close>

theorem callers_decode_twice:
  assumes "word a" and "word b"
  shows "parse_path (''/'' @ a @ ''%2f'' @ b) = Inl ErrEncodedSlashInPath \<and>
    (\<exists>qq. request_path (''/'' @ a @ ''%2f'' @ b) = Some (Inr qq) \<and> pp_segments qq = [a, b]) \<and>
    parse_path (''/'' @ a @ ''%3f'' @ b) = Inl ErrInvalidPercentEncoding \<and>
    (\<exists>qq. request_path (''/'' @ a @ ''%3f'' @ b) = Some (Inr qq) \<and> pp_segments qq = [a])"
proof (intro conjI)
  note q = quiet_word [OF assms(1)] quiet_word [OF assms(2)]
  note slash = quiet_target [of "''/'' @ a @ ''%2f'' @ b"] and query = quiet_target [of "''/'' @ a @ ''%3f'' @ b"]
  show "parse_path (''/'' @ a @ ''%2f'' @ b) = Inl ErrEncodedSlashInPath"
    using slash q includes_str_middle [of "''/'' @ a" "''%2f''" b] by (simp add: parse_path_def Let_def)
  have "\<not> includes_str (''/'' @ a @ ''%3f'' @ b) (''%2'' @ [c])" for c
    using word_chars(2) [OF assms(1)] word_chars(2) [OF assms(2)]
      escape_positions [of "''/'' @ a" "''3f'' @ b" "''2'' @ [c]"] by auto
  then show "parse_path (''/'' @ a @ ''%3f'' @ b) = Inl ErrInvalidPercentEncoding"
    using query q includes_str_middle [of "''/'' @ a" "''%3f''" b] by (simp add: parse_path_def Let_def)
  have "request_path (''/'' @ a @ ''%2f'' @ b) = Some (parse_path (normalized_path [a, b]))"
    using slash q escaped_word_path [OF assms, of "CHR ''2''" 2]
    by (simp add: request_path_def url_path_of_def normalized_path_def)
  then show "\<exists>qq. request_path (''/'' @ a @ ''%2f'' @ b) = Some (Inr qq) \<and> pp_segments qq = [a, b]"
    using word_path [of "[a, b]"] assms by auto
  have "request_path (''/'' @ a @ ''%3f'' @ b) = Some (parse_path (''/'' @ a @ ''?'' @ b))"
    using query q escaped_word_path [OF assms, of "CHR ''3''" 3]
    by (simp add: request_path_def url_path_of_def)
  moreover have "before_query (''/'' @ a @ ''?'' @ b) = before_query (normalized_path [a])"
  proof -
    have "\<forall>c \<in> set a. c \<noteq> CHR ''?''" using word_chars(3) [OF assms(1)] by blast
    then have "takeWhile (\<lambda>c. c \<noteq> CHR ''?'') (a @ w) = a @ takeWhile (\<lambda>c. c \<noteq> CHR ''?'') w" for w
      by (induction a) auto
    from this [of "''?'' @ b"] this [of "[]"] show ?thesis
      by (simp add: before_query_def normalized_path_def del: takeWhile_eq_all_conv)
  qed
  ultimately show "\<exists>qq. request_path (''/'' @ a @ ''%3f'' @ b) = Some (Inr qq) \<and> pp_segments qq = [a]"
    using word_path [of "[a]"] assms parse_path_query [of "''/'' @ a @ ''?'' @ b" "normalized_path [a]"] by auto
qed

section \<open>Witnesses\<close>

lemma demo_path: "\<exists>pp. parse_path ''/a/../b'' = Inr pp \<and> pp_segments pp = [''b'']"
  using parse_path_decoded [of "''/a/../b''"]
  by (simp add: c0_control_def in_range_def split_and_collapse_def collapse_step_def)

theorem parsed_path_is_safe_witness:
  "\<exists>pp. parse_path ''/a/../b'' = Inr pp \<and> pp_segments pp = [''b''] \<and> (\<forall>c \<in> set (pp_normalized pp). c \<noteq> CHR ''%'')"
proof -
  obtain pp where pp: "parse_path ''/a/../b'' = Inr pp" "pp_segments pp = [''b'']"
    using demo_path by blast
  with parsed_path_is_safe [OF pp(1)] show ?thesis by blast
qed

theorem parse_path_idempotent_witness:
  "\<exists>pp qq. parse_path ''/a/../b'' = Inr pp \<and> parse_path (pp_normalized pp) = Inr qq \<and> pp_segments qq = [''b'']"
proof -
  obtain pp where pp: "parse_path ''/a/../b'' = Inr pp" "pp_segments pp = [''b'']"
    using demo_path by blast
  with parse_path_idempotent [OF pp(1)] show ?thesis by auto
qed

theorem segments_decode_separately_witness:
  "\<exists>pp ws. parse_path ''/a/../b'' = Inr pp \<and> map percent_decode (split_on (CHR ''/'') (before_query ''/a/../b'')) = map Inr ws \<and>
     fold collapse_step ws [] = [''b'']"
proof -
  obtain pp where pp: "parse_path ''/a/../b'' = Inr pp" "pp_segments pp = [''b'']"
    using demo_path by blast
  with segments_decode_separately [OF pp(1)] show ?thesis by metis
qed

theorem accepted_targets_agree_witness:
  "\<exists>pp qq. parse_path ''/a/../b'' = Inr pp \<and> request_path ''/a/../b'' = Some (Inr qq) \<and> pp_segments qq = [''b'']"
proof -
  obtain pp where pp: "parse_path ''/a/../b'' = Inr pp" "pp_segments pp = [''b'']"
    using demo_path by blast
  have "\<not> list_ex c0_control ''/a/../b''" by (simp add: c0_control_def)
  with accepted_targets_agree [OF pp(1)] pp show ?thesis by auto
qed

theorem callers_decode_twice_witness:
  "parse_path ''/admin%2fkeys'' = Inl ErrEncodedSlashInPath \<and>
   (\<exists>qq. request_path ''/admin%2fkeys'' = Some (Inr qq) \<and> pp_segments qq = [''admin'', ''keys''])"
proof -
  have "word ''admin''" "word ''keys''" by (simp_all add: word_def in_range_def)
  from callers_decode_twice [OF this] show ?thesis by simp
qed

end
