(* ===== verification/Files.thy ===== *)
theory Files
  imports Prelude "HOL-Library.List_Lexorder" "HOL-Library.Char_ord"
begin

text \<open>
  The file tree as Go's \<open>os\<close> and \<open>path/filepath\<close> packages show it: what \<open>deploy/release.go\<close> and
  \<open>filesystem/resolver.go\<close> use of the standard library on a POSIX system.

  A tree is a list of paths with their nodes, the root directory \<open>[]\<close> not among them. A path is the list
  of its components from the root; a symbolic link holds its target and whether that is absolute. Errors of
  the disk and missing permissions are not part of the model: an operation fails when the tree makes it
  fail.
\<close>

type_synonym path = "string list"

datatype 'c node = Dir | File 'c | Link bool path

type_synonym 'c files = "(path \<times> 'c node) list"

definition fget :: "'c files \<Rightarrow> path \<Rightarrow> 'c node option" where
  "fget fs p = (if p = [] then Some Dir else map_of fs p)"

definition fdel :: "path \<Rightarrow> 'c files \<Rightarrow> 'c files" where
  "fdel p fs = filter (\<lambda>(q, _). q \<noteq> p) fs"

definition fput :: "path \<Rightarrow> 'c node \<Rightarrow> 'c files \<Rightarrow> 'c files" where
  "fput p n fs = (p, n) # fdel p fs"

lemma map_of_fdel: "map_of (fdel p fs) q = (if q = p then None else map_of fs q)"
  by (induction fs) (auto simp: fdel_def)

lemma fget_root [simp]: "fget fs [] = Some Dir"
  by (simp add: fget_def)

lemma fget_fdel [simp]: "fget (fdel p fs) q = (if q = p \<and> p \<noteq> [] then None else fget fs q)"
  by (simp add: fget_def map_of_fdel)

lemma fget_fput [simp]: "fget (fput p n fs) q = (if q = p \<and> p \<noteq> [] then Some n else fget fs q)"
  by (simp add: fget_def fput_def map_of_fdel)

section \<open>Resolution of a path\<close>

text \<open>
  The kernel walks a path component by component and replaces links on its way by their targets, at most
  \<open>n\<close> of them; the last component is only replaced when it is to be followed. \<open>Missing\<close> is a path whose
  directory exists and which is free, \<open>NoEntry\<close> one whose directory does not exist; \<open>Broken\<close> runs through a
  file or through too many links.
\<close>

datatype found = Found path | Missing path | NoEntry | Broken

fun namei :: "nat \<Rightarrow> bool \<Rightarrow> 'c files \<Rightarrow> path \<Rightarrow> path \<Rightarrow> found" where
  "namei n follow fs cur [] = Found cur"
| "namei n follow fs cur (c # cs) =
     (if c = ''.'' \<or> c = '''' then namei n follow fs cur cs
      else if c = ''..'' then namei n follow fs (butlast cur) cs
      else
        (case fget fs (cur @ [c]) of
           None \<Rightarrow> if cs = [] then Missing (cur @ [c]) else NoEntry
         | Some Dir \<Rightarrow> namei n follow fs (cur @ [c]) cs
         | Some (File d) \<Rightarrow> if cs = [] then Found (cur @ [c]) else Broken
         | Some (Link absolute t) \<Rightarrow>
             if cs = [] \<and> \<not> follow then Found (cur @ [c])
             else (case n of
                     0 \<Rightarrow> Broken
                   | Suc m \<Rightarrow> namei m follow fs (if absolute then [] else cur) (t @ cs))))"

definition kernel_links :: nat where "kernel_links = 40"

definition locate :: "bool \<Rightarrow> 'c files \<Rightarrow> path \<Rightarrow> found" where
  "locate follow fs p = namei kernel_links follow fs [] p"

definition stat :: "'c files \<Rightarrow> path \<Rightarrow> 'c node option" where
  "stat fs p = (case locate True fs p of Found q \<Rightarrow> fget fs q | _ \<Rightarrow> None)"

definition lstat :: "'c files \<Rightarrow> path \<Rightarrow> 'c node option" where
  "lstat fs p = (case locate False fs p of Found q \<Rightarrow> fget fs q | _ \<Rightarrow> None)"

text \<open>\<open>filepath.EvalSymlinks\<close>: the path of what a path leads to.\<close>

definition eval_symlinks :: "'c files \<Rightarrow> path \<Rightarrow> path option" where
  "eval_symlinks fs p = (case namei 255 True fs [] p of Found q \<Rightarrow> Some q | _ \<Rightarrow> None)"

section \<open>Operations\<close>

definition mkdir :: "path \<Rightarrow> 'c files \<Rightarrow> 'c files option" where
  "mkdir p fs = (case locate False fs p of Missing q \<Rightarrow> Some (fput q Dir fs) | _ \<Rightarrow> None)"

text \<open>\<open>os.MkdirAll\<close>: nothing for a directory, else the parent first; losing a race to another creator is no error.\<close>

function mkdir_all :: "path \<Rightarrow> 'c files \<Rightarrow> 'c files option" where
  "mkdir_all p fs =
     (case stat fs p of
        Some Dir \<Rightarrow> Some fs
      | Some _ \<Rightarrow> None
      | None \<Rightarrow>
          if p = [] then Some fs
          else (case mkdir_all (butlast p) fs of
                  None \<Rightarrow> None
                | Some fs' \<Rightarrow>
                    (case mkdir p fs' of
                       Some fs'' \<Rightarrow> Some fs''
                     | None \<Rightarrow> if lstat fs' p = Some Dir then Some fs' else None)))"
  by pat_completeness auto
termination by (relation "measure (\<lambda>(p, fs). length p)") auto

declare mkdir_all.simps [simp del]

definition write_file :: "path \<Rightarrow> 'c \<Rightarrow> 'c files \<Rightarrow> 'c files option" where
  "write_file p d fs =
     (case locate True fs p of
        Missing q \<Rightarrow> Some (fput q (File d) fs)
      | Found q \<Rightarrow> (case fget fs q of Some (File _) \<Rightarrow> Some (fput q (File d) fs) | _ \<Rightarrow> None)
      | _ \<Rightarrow> None)"

definition read_file :: "'c files \<Rightarrow> path \<Rightarrow> 'c option" where
  "read_file fs p = (case stat fs p of Some (File d) \<Rightarrow> Some d | _ \<Rightarrow> None)"

definition symlink :: "bool \<Rightarrow> path \<Rightarrow> path \<Rightarrow> 'c files \<Rightarrow> 'c files option" where
  "symlink absolute target p fs =
     (case locate False fs p of Missing q \<Rightarrow> Some (fput q (Link absolute target) fs) | _ \<Rightarrow> None)"

definition children :: "'c files \<Rightarrow> path \<Rightarrow> string list" where
  "children fs q = [last p. (p, _) \<leftarrow> fs, p \<noteq> [] \<and> butlast p = q]"

text \<open>The names of a directory, sorted.\<close>

definition read_dir_names :: "'c files \<Rightarrow> path \<Rightarrow> string list option" where
  "read_dir_names fs p =
     (case locate True fs p of
        Found q \<Rightarrow> if fget fs q = Some Dir then Some (sort (remdups (children fs q))) else None
      | _ \<Rightarrow> None)"

text \<open>\<open>os.Remove\<close>: a file, a link, or an empty directory; failing leaves the tree as it is.\<close>

definition os_remove :: "path \<Rightarrow> 'c files \<Rightarrow> 'c files" where
  "os_remove p fs =
     (case locate False fs p of
        Found q \<Rightarrow> if fget fs q = Some Dir \<and> (q = [] \<or> children fs q \<noteq> []) then fs else fdel q fs
      | _ \<Rightarrow> fs)"

definition under :: "path \<Rightarrow> path \<Rightarrow> bool" where
  "under q p \<longleftrightarrow> take (length q) p = q"

definition remove_all :: "path \<Rightarrow> 'c files \<Rightarrow> 'c files" where
  "remove_all p fs =
     (case locate False fs p of Found q \<Rightarrow> filter (\<lambda>(r, _). \<not> under q r) fs | _ \<Rightarrow> fs)"

text \<open>\<open>os.Rename\<close> of a link or a file onto a free name, a file or a link.\<close>

definition rename_file :: "path \<Rightarrow> path \<Rightarrow> 'c files \<Rightarrow> 'c files option" where
  "rename_file old new fs =
     (case (locate False fs old, locate False fs new) of
        (Found p, Missing q) \<Rightarrow>
          (case fget fs p of Some Dir \<Rightarrow> None | Some n \<Rightarrow> Some (fput q n (fdel p fs)) | None \<Rightarrow> None)
      | (Found p, Found q) \<Rightarrow>
          (case (fget fs p, fget fs q) of
             (Some Dir, _) \<Rightarrow> None
           | (_, Some Dir) \<Rightarrow> None
           | (Some n, Some _) \<Rightarrow> Some (if p = q then fs else fput q n (fdel p fs))
           | _ \<Rightarrow> None)
      | _ \<Rightarrow> None)"

section \<open>Laws\<close>

text \<open>Components that name an entry, and paths all of whose proper prefixes are directories.\<close>

definition plain_name :: "string \<Rightarrow> bool" where
  "plain_name c \<longleftrightarrow> c \<noteq> '''' \<and> c \<noteq> ''.'' \<and> c \<noteq> ''..''"

definition real_dir :: "'c files \<Rightarrow> path \<Rightarrow> bool" where
  "real_dir fs p \<longleftrightarrow> (\<forall>k \<le> length p. fget fs (take k p) = Some Dir) \<and> (\<forall>c \<in> set p. plain_name c)"

lemma real_dir_root [simp]: "real_dir fs []"
  by (simp add: real_dir_def)

lemma real_dir_snoc:
  "real_dir fs (p @ [c]) \<longleftrightarrow> real_dir fs p \<and> plain_name c \<and> fget fs (p @ [c]) = Some Dir"
proof -
  have "(\<forall>k \<le> length (p @ [c]). fget fs (take k (p @ [c])) = Some Dir) \<longleftrightarrow>
    (\<forall>k \<le> length p. fget fs (take k p) = Some Dir) \<and> fget fs (p @ [c]) = Some Dir"
    by (auto simp: le_Suc_eq)
  then show ?thesis by (auto simp: real_dir_def)
qed

lemma real_dir_get: "real_dir fs p \<Longrightarrow> fget fs p = Some Dir"
  by (auto simp: real_dir_def dest: spec [where x = "length p"])

lemma real_dir_append: "real_dir fs (p @ q) \<Longrightarrow> real_dir fs p"
proof (induction q rule: rev_induct)
  case (snoc c q)
  then show ?case by (metis append_assoc real_dir_snoc)
qed simp

fun real_from :: "'c files \<Rightarrow> path \<Rightarrow> path \<Rightarrow> bool" where
  "real_from fs cur [] \<longleftrightarrow> True"
| "real_from fs cur (c # cs) \<longleftrightarrow> plain_name c \<and> fget fs (cur @ [c]) = Some Dir \<and> real_from fs (cur @ [c]) cs"

lemma real_dir_from_append: "real_dir fs (cur @ p) \<longleftrightarrow> real_dir fs cur \<and> real_from fs cur p"
proof (induction p arbitrary: cur)
  case (Cons c p)
  from Cons.IH [of "cur @ [c]"] show ?case by (auto simp: real_dir_snoc)
qed simp

lemma real_dir_from: "real_dir fs p \<longleftrightarrow> real_from fs [] p"
  using real_dir_from_append [of fs "[]" p] by simp

lemma real_dir_fput_Dir: "real_dir fs p \<Longrightarrow> real_dir (fput q Dir fs) p"
  by (auto simp: real_dir_def)

lemma namei_real_dir:
  "real_dir fs (cur @ p) \<Longrightarrow> namei n follow fs cur (p @ cs) = namei n follow fs (cur @ p) cs"
proof (induction p arbitrary: cur)
  case (Cons c p)
  have "real_dir fs ((cur @ [c]) @ p)" using Cons.prems by simp
  then have "real_dir fs (cur @ [c])" by (rule real_dir_append)
  then have "plain_name c" "fget fs (cur @ [c]) = Some Dir" by (simp_all add: real_dir_snoc)
  with Cons.IH [of "cur @ [c]"] Cons.prems show ?case by (simp add: plain_name_def)
qed simp

lemma locate_in_dir: "real_dir fs p \<Longrightarrow> locate follow fs (p @ cs) = namei kernel_links follow fs p cs"
  using namei_real_dir [of fs "[]" p] by (simp add: locate_def)

lemma locate_dir: "real_dir fs p \<Longrightarrow> locate follow fs p = Found p"
  using locate_in_dir [of fs p follow "[]"] by simp

lemma stat_dir: "real_dir fs p \<Longrightarrow> stat fs p = Some Dir"
  by (simp add: stat_def locate_dir real_dir_get)

lemma lstat_dir: "real_dir fs p \<Longrightarrow> lstat fs p = Some Dir"
  by (simp add: lstat_def locate_dir real_dir_get)

text \<open>The entry of a directory, without following it.\<close>

lemma locate_entry:
  assumes "real_dir fs p" and "plain_name c"
  shows "locate False fs (p @ [c]) =
    (if fget fs (p @ [c]) = None then Missing (p @ [c]) else Found (p @ [c]))"
  using assms
  by (auto simp: locate_in_dir plain_name_def split: option.splits node.splits)

text \<open>A link in a directory, to a file in a directory.\<close>

lemma namei_linked_file:
  assumes "real_dir fs R" and "plain_name l" and "plain_name f" and "fget fs (R @ [l]) = Some (Link True (t @ [f]))"
    and "real_dir fs t" and "fget fs (t @ [f]) = Some (File d)"
  shows "namei (Suc m) True fs [] (R @ [l]) = Found (t @ [f])"
proof -
  have "namei (Suc m) True fs [] (R @ [l]) = namei (Suc m) True fs R [l]"
    using namei_real_dir [of fs "[]" R "Suc m" True "[l]"] assms(1) by simp
  also have "\<dots> = namei m True fs [] (t @ [f])" using assms(2,4) by (simp add: plain_name_def)
  also have "\<dots> = namei m True fs t [f]" using namei_real_dir [of fs "[]" t m True "[f]"] assms(5) by simp
  also have "\<dots> = Found (t @ [f])" using assms(3,6) by (simp add: plain_name_def)
  finally show ?thesis .
qed

lemma locate_linked_file:
  assumes "real_dir fs R" and "plain_name l" and "plain_name f" and "fget fs (R @ [l]) = Some (Link True (t @ [f]))"
    and "real_dir fs t" and "fget fs (t @ [f]) = Some (File d)"
  shows "locate True fs (R @ [l]) = Found (t @ [f])"
proof -
  from namei_linked_file [OF assms, of 39] show ?thesis by (simp add: locate_def kernel_links_def)
qed

lemma lstat_entry: "real_dir fs p \<Longrightarrow> plain_name c \<Longrightarrow> lstat fs (p @ [c]) = fget fs (p @ [c])"
  by (simp add: lstat_def locate_entry)

lemma stat_entry_file:
  assumes "real_dir fs p" and "plain_name c" and "fget fs (p @ [c]) = Some (File d)"
  shows "stat fs (p @ [c]) = Some (File d)"
  using assms by (simp add: stat_def locate_in_dir plain_name_def)

lemma read_file_entry:
  "real_dir fs p \<Longrightarrow> plain_name c \<Longrightarrow> fget fs (p @ [c]) = Some (File d) \<Longrightarrow> read_file fs (p @ [c]) = Some d"
  by (simp add: read_file_def stat_entry_file)

lemma write_file_entry:
  assumes "real_dir fs p" and "plain_name c"
    and "fget fs (p @ [c]) = None \<or> (\<exists>d'. fget fs (p @ [c]) = Some (File d'))"
  shows "write_file (p @ [c]) d fs = Some (fput (p @ [c]) (File d) fs)"
  using assms by (auto simp: write_file_def locate_in_dir plain_name_def)

lemma mkdir_entry:
  "real_dir fs p \<Longrightarrow> plain_name c \<Longrightarrow>
     mkdir (p @ [c]) fs = (if fget fs (p @ [c]) = None then Some (fput (p @ [c]) Dir fs) else None)"
  by (simp add: mkdir_def locate_entry)

lemma mkdir_all_dir: "real_dir fs p \<Longrightarrow> mkdir_all p fs = Some fs"
  by (simp add: mkdir_all.simps [of p fs] stat_dir)

lemma stat_entry_none:
  "real_dir fs p \<Longrightarrow> plain_name c \<Longrightarrow> fget fs (p @ [c]) = None \<Longrightarrow> stat fs (p @ [c]) = None"
  by (simp add: stat_def locate_in_dir plain_name_def)

lemma mkdir_all_entry:
  assumes "real_dir fs p" and "plain_name c" and "fget fs (p @ [c]) = None"
  shows "mkdir_all (p @ [c]) fs = Some (fput (p @ [c]) Dir fs)"
  using assms
  by (simp add: mkdir_all.simps [of "p @ [c]" fs] stat_entry_none mkdir_all_dir mkdir_entry)

lemma children_iff: "c \<in> set (children fs q) \<longleftrightarrow> q @ [c] \<in> fst ` set fs"
  by (force simp: children_def)

lemma fget_children: "fget fs (q @ [c]) \<noteq> None \<longleftrightarrow> c \<in> set (children fs q)"
  by (auto simp: children_iff fget_def map_of_eq_None_iff)

lemma read_dir_names_dir: "real_dir fs q \<Longrightarrow> read_dir_names fs q = Some (sorted_list_of_set (set (children fs q)))"
  by (simp add: read_dir_names_def locate_dir real_dir_get sorted_list_of_set_sort_remdups)

end
