(* ===== verification/Resolver.thy ===== *)
theory Resolver
  imports RequestPath Files
begin

text \<open>
  \<open>internal/filesystem/resolver.go\<close>: from a normalised path to a file below a document root, and the lookup
  of \<open>siteHandler.ServeHTTP\<close> in \<open>internal/ui/siteManager.go\<close>, which serves the sites the dashboard creates.

  Paths are strings, as in the code; \<open>path_of\<close> turns a clean absolute path into the components that
  \<open>Files\<close> looks up. The working directory of the process is the argument \<open>cwd\<close>. Devices, sockets and
  pipes are not part of the file tree, so the check for them is not modelled.
\<close>

section \<open>path/filepath\<close>

text \<open>\<open>filepath.Clean\<close>: a relative path keeps its leading \<open>..\<close> and is \<open>.\<close> when nothing is left.\<close>

definition rel_step :: "string \<Rightarrow> string list \<Rightarrow> string list" where
  "rel_step seg out =
     (if seg = ''.'' \<or> seg = '''' then out
      else if seg = ''..'' \<and> out \<noteq> [] \<and> last out \<noteq> ''..'' then butlast out
      else out @ [seg])"

definition clean_path :: "string \<Rightarrow> string" where
  "clean_path p =
     (if starts_with p ''/'' then normalized_path (split_and_collapse p)
      else (case fold rel_step (split_on (CHR ''/'') p) [] of
              [] \<Rightarrow> ''.''
            | ws \<Rightarrow> join ''/'' ws))"

text \<open>\<open>filepath.Join\<close> of two non-empty elements, \<open>filepath.Abs\<close> and \<open>filepath.Base\<close>.\<close>

definition join_path :: "string \<Rightarrow> string \<Rightarrow> string" where
  "join_path a b = clean_path (a @ ''/'' @ b)"

definition abs_path :: "string \<Rightarrow> string \<Rightarrow> string" where
  "abs_path cwd p = (if starts_with p ''/'' then clean_path p else join_path cwd p)"

definition base_name :: "string \<Rightarrow> string" where
  "base_name p =
     (if p = '''' then ''.''
      else case rev (dropWhile (\<lambda>c. c = CHR ''/'') (rev p)) of
             [] \<Rightarrow> ''/''
           | q \<Rightarrow> last (split_on (CHR ''/'') q))"

text \<open>
  \<open>filepath.Match\<close> on patterns of literals, \<open>*\<close> and \<open>?\<close>, the only ones of \<open>DefaultProtectedPatterns\<close>: neither
  matches a separator.
\<close>

fun glob :: "string \<Rightarrow> string \<Rightarrow> bool" where
  "glob [] s \<longleftrightarrow> s = []"
| "glob (p # ps) s \<longleftrightarrow>
     (if p = CHR ''*'' then glob ps s \<or> (case s of [] \<Rightarrow> False | c # t \<Rightarrow> c \<noteq> CHR ''/'' \<and> glob (p # ps) t)
      else (case s of [] \<Rightarrow> False
            | c # t \<Rightarrow> (if p = CHR ''?'' then c \<noteq> CHR ''/'' else c = p) \<and> glob ps t))"

definition path_of :: "string \<Rightarrow> path" where
  "path_of p = split_and_collapse p"

section \<open>resolver.go\<close>

datatype symlink_mode = SymlinkDeny | SymlinkWithinRoot | SymlinkAllowListed

record resolver =
  rs_root :: string
  rs_symlinks :: symlink_mode
  rs_protected :: "string list"

definition new_resolver :: "string \<Rightarrow> symlink_mode \<Rightarrow> string list \<Rightarrow> resolver" where
  "new_resolver doc_root mode pats =
     \<lparr>rs_root = clean_path doc_root, rs_symlinks = mode, rs_protected = pats\<rparr>"

definition default_protected_patterns :: "string list" where
  "default_protected_patterns =
     [''.env'', ''.env.*'', ''.git'', ''.git/**'', ''.svn'', ''.hg'', ''composer.json'', ''composer.lock'',
      ''auth.json'', ''php.ini'', ''.user.ini'', ''.htaccess'', ''.htpasswd'', ''*.sql'', ''*.sqlite'',
      ''*.sqlite3'', ''*.log'', ''*.bak'', ''*.backup'', ''*.swp'', ''*.dist'', ''Dockerfile'',
      ''compose.yaml'', ''docker-compose.yml'', ''gateway.yaml'', ''gateway.lock'']"

datatype resolve_error =
    NotAbsolute | ErrTraversal | ErrProtectedFile | ErrNotRegularFile | ErrSymlinkDenied | ErrSymlinkEscape
  | ErrFileNotFound | OsError

definition is_under_root :: "string \<Rightarrow> string \<Rightarrow> bool" where
  "is_under_root child root \<longleftrightarrow>
     starts_with child root \<and> \<not> (length child > length root \<and> child ! length root \<noteq> CHR ''/'')"

definition is_protected :: "resolver \<Rightarrow> string \<Rightarrow> bool" where
  "is_protected r np \<longleftrightarrow>
     list_ex (\<lambda>pat. list_ex (glob pat) (split_on (CHR ''/'') np) \<or> glob pat (base_name np) \<or> glob pat np)
       (rs_protected r)"

text \<open>\<open>os.Open\<close> with the checks on the open file.\<close>

definition open_regular :: "'c files \<Rightarrow> string \<Rightarrow> resolve_error + string" where
  "open_regular fs target =
     (case locate True fs (path_of target) of
        Found q \<Rightarrow> (case fget fs q of Some (File d) \<Rightarrow> Inr target | _ \<Rightarrow> Inl ErrNotRegularFile)
      | Missing _ \<Rightarrow> Inl ErrFileNotFound
      | NoEntry \<Rightarrow> Inl ErrFileNotFound
      | Broken \<Rightarrow> Inl OsError)"

text \<open>\<open>Resolve\<close>: the path of the opened file.\<close>

definition resolve :: "'c files \<Rightarrow> string \<Rightarrow> resolver \<Rightarrow> string \<Rightarrow> resolve_error + string" where
  "resolve fs cwd r np =
     (if \<not> starts_with np ''/'' then Inl NotAbsolute
      else if is_protected r np then Inl ErrProtectedFile
      else
        (let absolute = abs_path cwd (join_path (rs_root r) np)
         in if \<not> is_under_root absolute (rs_root r) then Inl ErrTraversal
            else
              (case locate False fs (path_of absolute) of
                 Missing _ \<Rightarrow> Inl ErrFileNotFound
               | NoEntry \<Rightarrow> Inl ErrFileNotFound
               | Broken \<Rightarrow> Inl OsError
               | Found q \<Rightarrow>
                   (case fget fs q of
                      Some (Link _ _) \<Rightarrow>
                        (case rs_symlinks r of
                           SymlinkWithinRoot \<Rightarrow>
                             (case eval_symlinks fs (path_of absolute) of
                                None \<Rightarrow> Inl OsError
                              | Some real \<Rightarrow>
                                  if \<not> is_under_root (normalized_path real) (rs_root r) then Inl ErrSymlinkEscape
                                  else open_regular fs (normalized_path real))
                         | _ \<Rightarrow> Inl ErrSymlinkDenied)
                    | _ \<Rightarrow> open_regular fs absolute))))"

text \<open>\<open>ResolveInfo\<close>: what \<open>os.Stat\<close> finds, links followed.\<close>

definition resolve_info :: "'c files \<Rightarrow> string \<Rightarrow> resolver \<Rightarrow> string \<Rightarrow> resolve_error + 'c node" where
  "resolve_info fs cwd r np =
     (if \<not> starts_with np ''/'' then Inl NotAbsolute
      else if is_protected r np then Inl ErrProtectedFile
      else
        (let absolute = abs_path cwd (join_path (rs_root r) np)
         in if \<not> is_under_root absolute (rs_root r) then Inl ErrTraversal
            else
              (case locate True fs (path_of absolute) of
                 Found q \<Rightarrow> (case fget fs q of Some n \<Rightarrow> Inr n | None \<Rightarrow> Inl OsError)
               | Broken \<Rightarrow> Inl OsError
               | _ \<Rightarrow> Inl ErrFileNotFound)))"

section \<open>The handler of a site\<close>

datatype site_outcome = BadRequest | Forbidden | ServePHP string | ServeFile string | NotFound

record site_handler =
  sh_doc_root :: string
  sh_sock_path :: string

definition site_resolver :: "site_handler \<Rightarrow> resolver" where
  "site_resolver h = new_resolver (sh_doc_root h) SymlinkWithinRoot default_protected_patterns"

definition site_candidates :: "string \<Rightarrow> string list" where
  "site_candidates np =
     (if ends_with np ''/'' then [np @ ''index.php'', np @ ''index.html'']
      else [np, np @ ''/index.php'', np @ ''/index.html''])"

definition trim_slash :: "string \<Rightarrow> string" where
  "trim_slash s = (case s of c # t \<Rightarrow> if c = CHR ''/'' then t else s | [] \<Rightarrow> [])"

text \<open>The loop over the candidates. A file is opened at its path below the root, links followed.\<close>

fun try_candidates :: "'c files \<Rightarrow> string \<Rightarrow> site_handler \<Rightarrow> string list \<Rightarrow> site_outcome" where
  "try_candidates fs cwd h [] = NotFound"
| "try_candidates fs cwd h (cand # rest) =
     (case resolve_info fs cwd (site_resolver h) cand of
        Inr (File d) \<Rightarrow>
          if is_protected (site_resolver h) cand then Forbidden
          else
            (let file = join_path (sh_doc_root h) (trim_slash cand)
             in if ends_with cand ''.php'' \<and> sh_sock_path h \<noteq> '''' then ServePHP file
                else (case stat fs (path_of (abs_path cwd file)) of
                        Some (File d') \<Rightarrow> ServeFile file
                      | _ \<Rightarrow> try_candidates fs cwd h rest))
      | _ \<Rightarrow> try_candidates fs cwd h rest)"

text \<open>\<open>ServeHTTP\<close> up to sending the file or calling PHP; \<open>url_path\<close> is \<open>r.URL.Path\<close>.\<close>

definition site_serve :: "'c files \<Rightarrow> string \<Rightarrow> site_handler \<Rightarrow> string \<Rightarrow> site_outcome" where
  "site_serve fs cwd h url_path =
     (case parse_path url_path of
        Inl e \<Rightarrow> BadRequest
      | Inr pp \<Rightarrow>
          if is_protected (site_resolver h) (pp_normalized pp) then Forbidden
          else try_candidates fs cwd h (site_candidates (pp_normalized pp)))"

declare glob.simps [simp del]

section \<open>Clean paths\<close>

abbreviation plain_path :: "string list \<Rightarrow> bool" where
  "plain_path ws \<equiv> \<forall>w \<in> set ws. plain_segment w"

lemma split_on_join_sep: "split_on d (s @ d # t) = split_on d s @ split_on d t"
proof (induction s)
  case (Cons c s)
  then show ?case by (cases "split_on d s") auto
qed simp

lemma fold_collapse_append: "fold collapse_step (us @ vs) r = fold collapse_step vs (fold collapse_step us r)"
  by simp

lemma fold_collapse_normalized:
  assumes "plain_path ws"
  shows "fold collapse_step (split_on (CHR ''/'') (normalized_path ws)) r = r @ ws"
proof (cases "ws = []")
  case True
  then show ?thesis by (simp add: normalized_path_def collapse_step_def)
next
  case False
  with assms show ?thesis by (simp add: split_normalized collapse_plain collapse_step_def)
qed

lemma split_and_collapse_join:
  "plain_path us \<Longrightarrow> plain_path vs \<Longrightarrow>
     split_and_collapse (normalized_path us @ ''/'' @ normalized_path vs) = us @ vs"
  by (simp add: split_and_collapse_fold split_on_join_sep fold_collapse_normalized)

lemma starts_with_slash [simp]:
  "starts_with (CHR ''/'' # s) ''/''" "starts_with (normalized_path ws) ''/''"
  "starts_with (normalized_path ws @ s) ''/''"
  by (simp_all add: normalized_path_def)

lemma clean_normalized: "plain_path ws \<Longrightarrow> clean_path (normalized_path ws) = normalized_path ws"
  by (simp add: clean_path_def collapse_normalized)

lemma join_normalized:
  "plain_path us \<Longrightarrow> plain_path vs \<Longrightarrow> join_path (normalized_path us) (normalized_path vs) = normalized_path (us @ vs)"
  using split_and_collapse_join [of us vs] by (simp add: join_path_def clean_path_def)

lemma abs_join_normalized:
  "plain_path us \<Longrightarrow> plain_path vs \<Longrightarrow>
     abs_path cwd (join_path (normalized_path us) (normalized_path vs)) = normalized_path (us @ vs)"
  by (simp add: join_normalized abs_path_def clean_normalized ball_Un)

lemma path_of_normalized: "plain_path ws \<Longrightarrow> path_of (normalized_path ws) = ws"
  by (simp add: path_of_def collapse_normalized)

lemma join_append: "us \<noteq> [] \<Longrightarrow> vs \<noteq> [] \<Longrightarrow> join d (us @ vs) = join d us @ d @ join d vs"
proof (induction us rule: induct_list012)
  case (2 x)
  then show ?case by (cases vs) auto
qed auto

lemma under_normalized:
  assumes "us \<noteq> []"
  shows "is_under_root (normalized_path (us @ vs)) (normalized_path us)"
proof (cases "vs = []")
  case False
  then have "normalized_path (us @ vs) = normalized_path us @ CHR ''/'' # join ''/'' vs"
    using assms by (simp add: normalized_path_def join_append)
  then show ?thesis by (simp add: is_under_root_def)
qed (simp add: is_under_root_def)

lemma normalized_inj: "plain_path us \<Longrightarrow> plain_path vs \<Longrightarrow> normalized_path us = normalized_path vs \<longleftrightarrow> us = vs"
  by (metis path_of_normalized)

lemma under_normalized_iff:
  assumes "plain_path us" and "plain_path ws" and "us \<noteq> []"
  shows "is_under_root (normalized_path ws) (normalized_path us) \<longleftrightarrow> (\<exists>vs. ws = us @ vs)"
proof
  assume u: "is_under_root (normalized_path ws) (normalized_path us)"
  then obtain t where t: "normalized_path ws = normalized_path us @ t"
    by (auto simp: is_under_root_def starts_with_iff)
  show "\<exists>vs. ws = us @ vs"
  proof (cases t)
    case Nil
    with t assms show ?thesis by (metis append_Nil2 normalized_inj)
  next
    case (Cons c t')
    with u t have c: "c = CHR ''/''" by (auto simp: is_under_root_def nth_append)
    then have t': "normalized_path ws = normalized_path us @ CHR ''/'' # t'" using t Cons by simp
    have "ws \<noteq> []"
    proof
      assume "ws = []"
      with t' have "length (normalized_path us @ CHR ''/'' # t') = 1" by (simp add: normalized_path_def)
      then show False by (simp add: normalized_path_def)
    qed
    then have "split_on (CHR ''/'') (normalized_path ws) = '''' # ws" using assms(2) by (rule split_normalized)
    moreover have "split_on (CHR ''/'') (normalized_path us @ CHR ''/'' # t') = ('''' # us) @ split_on (CHR ''/'') t'"
      using assms by (simp add: split_on_join_sep split_normalized)
    ultimately show ?thesis using t' by auto
  qed
qed (use under_normalized assms in auto)

section \<open>Resolution below a root\<close>

text \<open>The root of a resolver as components.\<close>

definition rooted :: "resolver \<Rightarrow> string list \<Rightarrow> bool" where
  "rooted r R \<longleftrightarrow> R \<noteq> [] \<and> plain_path R \<and> rs_root r = normalized_path R"

lemma rooted_new: "plain_path R \<Longrightarrow> R \<noteq> [] \<Longrightarrow> rooted (new_resolver (normalized_path R) m pats) R"
  by (simp add: rooted_def new_resolver_def clean_normalized)

lemma resolve_below:
  assumes "rooted r R" and "plain_path ws" and "\<not> is_protected r (normalized_path ws)"
  shows "resolve fs cwd r (normalized_path ws) =
    (case locate False fs (R @ ws) of
       Missing _ \<Rightarrow> Inl ErrFileNotFound
     | NoEntry \<Rightarrow> Inl ErrFileNotFound
     | Broken \<Rightarrow> Inl OsError
     | Found q \<Rightarrow>
         (case fget fs q of
            Some (Link _ _) \<Rightarrow>
              (case rs_symlinks r of
                 SymlinkWithinRoot \<Rightarrow>
                   (case eval_symlinks fs (R @ ws) of
                      None \<Rightarrow> Inl OsError
                    | Some real \<Rightarrow>
                        if \<not> is_under_root (normalized_path real) (normalized_path R) then Inl ErrSymlinkEscape
                        else open_regular fs (normalized_path real))
               | _ \<Rightarrow> Inl ErrSymlinkDenied)
          | _ \<Rightarrow> open_regular fs (normalized_path (R @ ws))))"
proof -
  have r: "rs_root r = normalized_path R" "plain_path R" "R \<noteq> []" using assms(1) by (simp_all add: rooted_def)
  then have eqs: "abs_path cwd (join_path (normalized_path R) (normalized_path ws)) = normalized_path (R @ ws)"
    "is_under_root (normalized_path (R @ ws)) (normalized_path R)" "path_of (normalized_path (R @ ws)) = R @ ws"
    using assms(2) by (simp_all add: abs_join_normalized under_normalized path_of_normalized ball_Un)
  then show ?thesis using assms(3) unfolding resolve_def Let_def r(1) eqs by simp
qed

lemma resolve_info_below:
  assumes "rooted r R" and "plain_path ws"
  shows "resolve_info fs cwd r (normalized_path ws) =
    (if is_protected r (normalized_path ws) then Inl ErrProtectedFile
     else (case locate True fs (R @ ws) of
             Found q \<Rightarrow> (case fget fs q of Some n \<Rightarrow> Inr n | None \<Rightarrow> Inl OsError)
           | Broken \<Rightarrow> Inl OsError
           | _ \<Rightarrow> Inl ErrFileNotFound))"
proof -
  have r: "rs_root r = normalized_path R" "plain_path R" "R \<noteq> []" using assms(1) by (simp_all add: rooted_def)
  then have eqs: "abs_path cwd (join_path (normalized_path R) (normalized_path ws)) = normalized_path (R @ ws)"
    "is_under_root (normalized_path (R @ ws)) (normalized_path R)" "path_of (normalized_path (R @ ws)) = R @ ws"
    using assms(2) by (simp_all add: abs_join_normalized under_normalized path_of_normalized ball_Un)
  then show ?thesis unfolding resolve_info_def Let_def r(1) eqs by simp
qed

lemma open_regular_Inr:
  "open_regular fs p = Inr real \<longleftrightarrow> real = p \<and> (\<exists>d. stat fs (path_of p) = Some (File d))"
  by (auto simp: open_regular_def stat_def split: found.splits option.splits node.splits)

lemma parsed_segments:
  assumes "parse_path t = Inr pp"
  shows "plain_path (pp_segments pp)" "pp_normalized pp = normalized_path (pp_segments pp)"
proof -
  obtain d where "pp_segments pp = split_and_collapse d" "pp_normalized pp = normalized_path (pp_segments pp)"
    using assms by (rule parse_path_Inr)
  then show "plain_path (pp_segments pp)" "pp_normalized pp = normalized_path (pp_segments pp)"
    using split_and_collapse_set by auto
qed

text \<open>C8. For a parsed path and a root other than the file system's own, the resolver never meets its
  traversal check, and what it opens is a regular file whose path is below the root and is not
  protected.\<close>

theorem resolved_file_below_root:
  assumes "parse_path t = Inr pp" and "rooted r R"
  shows "resolve fs cwd r (pp_normalized pp) \<notin> {Inl ErrTraversal, Inl NotAbsolute} \<and>
    (\<forall>real. resolve fs cwd r (pp_normalized pp) = Inr real \<longrightarrow>
       is_under_root real (rs_root r) \<and> \<not> is_protected r (pp_normalized pp) \<and>
       (\<exists>d. stat fs (path_of real) = Some (File d)))"
proof (cases "is_protected r (pp_normalized pp)")
  case True
  then show ?thesis using parsed_segments [OF assms(1)] by (simp add: resolve_def)
next
  case False
  let ?ws = "pp_segments pp"
  note ws = parsed_segments [OF assms(1)]
  have eq: "resolve fs cwd r (pp_normalized pp) = resolve fs cwd r (normalized_path ?ws)"
    and np: "\<not> is_protected r (normalized_path ?ws)" using ws(2) False by simp_all
  note res = resolve_below [OF assms(2) ws(1) np, of fs cwd]
  have open_not: "open_regular fs p \<notin> {Inl ErrTraversal, Inl NotAbsolute}" for p
    by (simp add: open_regular_def split: found.splits option.splits node.splits)
  have "resolve fs cwd r (pp_normalized pp) \<notin> {Inl ErrTraversal, Inl NotAbsolute}"
    unfolding eq res using open_not
    by (auto split: found.splits option.splits node.splits symlink_mode.splits)
  moreover have "is_under_root real (rs_root r) \<and> (\<exists>d. stat fs (path_of real) = Some (File d))"
    if "resolve fs cwd r (pp_normalized pp) = Inr real" for real
    using that under_normalized [of R ?ws] assms(2) unfolding eq res rooted_def
    by (auto simp: open_regular_Inr split: found.splits option.splits node.splits symlink_mode.splits if_splits)
  ultimately show ?thesis using False by blast
qed
section \<open>Links\<close>

text \<open>The names of a tree hold no separator; every path the kernel ends at is free of links.\<close>

definition names_ok :: "'c files \<Rightarrow> bool" where
  "names_ok fs \<longleftrightarrow> (\<forall>(p, n) \<in> set fs. plain_path p)"

lemma names_okD: "names_ok fs \<Longrightarrow> fget fs p \<noteq> None \<Longrightarrow> plain_path p"
  by (cases "p = []") (auto simp: fget_def names_ok_def dest!: map_of_SomeD)

lemma plain_segment_name: "plain_segment c \<Longrightarrow> plain_name c"
  by (simp add: plain_segment_def plain_name_def)

lemma real_dir_butlast: "real_dir fs p \<Longrightarrow> real_dir fs (butlast p)"
  using real_dir_append [of fs "butlast p" "[last p]"] by (cases "p = []") auto

definition link_free :: "'c files \<Rightarrow> path \<Rightarrow> bool" where
  "link_free fs q \<longleftrightarrow> real_dir fs q \<or>
     (\<exists>p c d. q = p @ [c] \<and> real_dir fs p \<and> plain_name c \<and> fget fs q = Some (File d))"

lemma namei_link_free:
  "namei n True fs cur p = Found q \<Longrightarrow> real_dir fs cur \<Longrightarrow> link_free fs q"
proof (induction n True fs cur p rule: namei.induct)
  case (1 n fs cur)
  then show ?case by (simp add: link_free_def)
next
  case (2 n fs cur c cs)
  show ?case
  proof (cases "c = ''.'' \<or> c = ''''")
    case True
    with 2 show ?thesis by simp
  next
    case nodot: False
    show ?thesis
    proof (cases "c = ''..''")
      case True
      with 2 nodot real_dir_butlast [of fs cur] show ?thesis by simp
    next
      case False
      with nodot have name: "plain_name c" by (simp add: plain_name_def)
      show ?thesis
      proof (cases "fget fs (cur @ [c])")
        case None
        with "2.prems"(1) nodot False show ?thesis by (simp split: if_splits)
      next
        case (Some nd)
        show ?thesis
        proof (cases nd)
          case Dir
          with Some name "2.prems"(2) have "real_dir fs (cur @ [c])" by (simp add: real_dir_snoc)
          with "2.hyps"(3) [OF nodot False Some Dir] "2.prems"(1) nodot False Some Dir show ?thesis by simp
        next
          case (File d)
          with "2.prems"(1) nodot False Some have "q = cur @ [c]" by (simp split: if_splits)
          with Some File "2.prems"(2) name show ?thesis by (auto simp: link_free_def)
        next
          case (Link a t)
          with "2.prems"(1) nodot False Some obtain m where m: "n = Suc m"
            "namei m True fs (if a then [] else cur) (t @ cs) = Found q"
            by (auto split: nat.splits)
          have "real_dir fs (if a then [] else cur)" using "2.prems"(2) by simp
          with "2.hyps"(4) [OF nodot False Some Link _ m(1)] m(2) show ?thesis by simp
        qed
      qed
    qed
  qed
qed

lemma locate_link_free: "link_free fs q \<Longrightarrow> namei n follow fs [] q = Found q"
  unfolding link_free_def
proof (elim disjE exE conjE)
  assume "real_dir fs q"
  then show ?thesis using namei_real_dir [of fs "[]" q n follow "[]"] by simp
next
  fix p c d assume "q = p @ [c]" "real_dir fs p" "plain_name c" "fget fs q = Some (File d)"
  then show ?thesis using namei_real_dir [of fs "[]" p n follow "[c]"] by (auto simp: plain_name_def)
qed

lemma eval_link_free: "eval_symlinks fs p = Some q \<Longrightarrow> link_free fs q"
  unfolding eval_symlinks_def using namei_link_free [of 255 fs "[]" p q] by (simp split: found.splits)

text \<open>A resolver that allows links within its root keeps its promise where the directories between the root
  and the file are no links themselves: then the opened path leads, all links replaced, to a regular file
  below the root.\<close>

theorem resolve_contains_links:
  assumes "rooted r R" and "plain_path ws" and "names_ok fs"
    and "real_dir fs (R @ butlast ws)"
    and "resolve fs cwd r (normalized_path ws) = Inr real"
  shows "\<exists>q d. eval_symlinks fs (path_of real) = Some q \<and> take (length R) q = R \<and> fget fs q = Some (File d)"
proof -
  have np: "\<not> is_protected r (normalized_path ws)"
    using assms(5) by (auto simp: resolve_def split: if_splits)
  note res = resolve_below [OF assms(1,2) np, of fs cwd]
  have R: "R \<noteq> []" "plain_path R" using assms(1) by (simp_all add: rooted_def)
  have "ws \<noteq> []"
  proof
    assume "ws = []"
    with assms(4) have "real_dir fs R" by simp
    with assms(5) \<open>ws = []\<close> show False unfolding res
      by (simp add: locate_dir real_dir_get open_regular_def path_of_normalized R(2))
  qed
  then obtain v c where w: "ws = v @ [c]" by (metis rev_exhaust)
  note res = res [unfolded w] and opened = assms(5) [unfolded w]
  from w assms(2,4) have dir: "real_dir fs (R @ v)" and c: "plain_name c" by (simp_all add: plain_segment_name)
  let ?p = "(R @ v) @ [c]"
  have loc: "locate False fs ?p = (if fget fs ?p = None then Missing ?p else Found ?p)"
    by (rule locate_entry [OF dir c])
  with opened obtain nd where nd: "fget fs ?p = Some nd" unfolding res by (auto split: if_splits)
  show ?thesis
  proof (cases nd)
    case (Link a t)
    with opened loc nd obtain q where q: "eval_symlinks fs ?p = Some q" "is_under_root (normalized_path q) (normalized_path R)"
      "open_regular fs (normalized_path q) = Inr real"
      unfolding res by (auto split: symlink_mode.splits option.splits if_splits)
    then obtain d where d: "real = normalized_path q" "stat fs (path_of real) = Some (File d)"
      by (auto simp: open_regular_Inr)
    have free: "link_free fs q" using q(1) by (rule eval_link_free)
    then have "fget fs q \<noteq> None" by (auto simp: link_free_def real_dir_get)
    then have "plain_path q" using assms(3) by (rule names_okD [rotated])
    then have pq: "path_of real = q" using d(1) by (simp add: path_of_normalized)
    have "eval_symlinks fs q = Some q" "fget fs q = Some (File d)"
      using locate_link_free [OF free] d(2) pq by (simp_all add: eval_symlinks_def stat_def locate_def)
    moreover have "take (length R) q = R"
      using q(2) under_normalized_iff [OF R(2) \<open>plain_path q\<close> R(1)] by auto
    ultimately show ?thesis using pq by auto
  next
    case Dir
    with dir c nd have "real_dir fs ?p" by (simp only: real_dir_snoc)
    with opened loc nd Dir assms(2) R(2) show ?thesis unfolding res
      by (simp add: open_regular_def path_of_normalized ball_Un w locate_dir)
  next
    case (File d)
    with dir c nd have free: "link_free fs ?p" by (auto simp: link_free_def)
    have "real = normalized_path ?p"
      using opened loc nd File unfolding res by (simp add: open_regular_Inr)
    then have "path_of real = ?p" using R(2) assms(2) by (simp add: path_of_normalized ball_Un w)
    then show ?thesis using locate_link_free [OF free] nd File by (simp add: eval_symlinks_def)
  qed
qed

text \<open>The promise is broken by a link that is not the last component: with any setting for links, a file that
  a directory link takes out of the root is opened, although following the links leads to a path
  outside.\<close>

theorem resolve_follows_directory_links:
  assumes "rooted r R" and "real_dir fs R" and "plain_segment l" and "fget fs (R @ [l]) = Some (Link True t)"
    and "real_dir fs t" and "plain_segment f" and "fget fs (t @ [f]) = Some (File d)"
    and "\<not> is_protected r (normalized_path [l, f])"
  shows "resolve fs cwd r (normalized_path [l, f]) = Inr (normalized_path (R @ [l, f])) \<and>
    eval_symlinks fs (R @ [l, f]) = Some (t @ [f])"
proof -
  have R: "plain_path R" "R \<noteq> []" using assms(1) by (simp_all add: rooted_def)
  have names: "plain_name l" "plain_name f" using assms(3,6) by (simp_all add: plain_segment_name)
  have step: "namei (Suc m) follow fs [] (R @ [l, f]) = Found (t @ [f])" for m follow
  proof -
    have "namei (Suc m) follow fs [] (R @ [l, f]) = namei (Suc m) follow fs R [l, f]"
      using namei_real_dir [of fs "[]" R "Suc m" follow "[l, f]"] assms(2) by simp
    also have "\<dots> = namei m follow fs [] (t @ [f])" using assms(4) names by (simp add: plain_name_def)
    also have "\<dots> = namei m follow fs t [f]"
      using namei_real_dir [of fs "[]" t m follow "[f]"] assms(5) by simp
    also have "\<dots> = Found (t @ [f])" using assms(7) names by (simp add: plain_name_def)
    finally show ?thesis .
  qed
  have loc: "locate follow fs (R @ [l, f]) = Found (t @ [f])" for follow
    using step [of 39 follow] by (simp add: locate_def kernel_links_def)
  have "path_of (normalized_path (R @ [l, f])) = R @ [l, f]"
    using R assms(3,6) by (simp add: path_of_normalized ball_Un)
  then have "open_regular fs (normalized_path (R @ [l, f])) = Inr (normalized_path (R @ [l, f]))"
    using loc [of True] assms(7) by (simp add: open_regular_def)
  moreover have "plain_path [l, f]" using assms(3,6) by simp
  ultimately have "resolve fs cwd r (normalized_path [l, f]) = Inr (normalized_path (R @ [l, f]))"
    using loc [of False] assms(7) by (simp add: resolve_below [OF assms(1) _ assms(8)])
  moreover have "eval_symlinks fs (R @ [l, f]) = Some (t @ [f])"
    using step [of 254 True] by (simp add: eval_symlinks_def)
  ultimately show ?thesis by simp
qed
section \<open>The handler of a site\<close>

lemma ends_with_last: "ends_with s [c] \<longleftrightarrow> s \<noteq> [] \<and> last s = c"
  by (cases s rule: rev_cases) (auto simp: ends_with_iff)

lemma normalized_last: "ws \<noteq> [] \<Longrightarrow> plain_path ws \<Longrightarrow> last (normalized_path ws) \<noteq> CHR ''/''"
proof (induction ws rule: rev_induct)
  case (snoc w ws)
  have "w \<noteq> ''''" "CHR ''/'' \<notin> set w" using snoc.prems by (simp_all add: plain_segment_def)
  then have "last w \<noteq> CHR ''/''" by (metis last_in_set)
  moreover have "last (normalized_path (ws @ [w])) = last w"
    using \<open>w \<noteq> ''''\<close> by (cases "ws = []") (simp_all add: normalized_path_def join_append)
  ultimately show ?case by simp
qed simp

lemma normalized_snoc: "ws \<noteq> [] \<Longrightarrow> normalized_path ws @ ''/'' @ w = normalized_path (ws @ [w])"
  by (simp add: normalized_path_def join_append)

lemma index_names: "plain_segment ''index.php''" "plain_segment ''index.html''"
  by (simp_all add: plain_segment_def)

text \<open>The candidates of a parsed path are normalised paths themselves.\<close>

lemma site_candidates_normalized:
  assumes "plain_path ws"
  shows "site_candidates (normalized_path ws) =
    (if ws = [] then [normalized_path [''index.php''], normalized_path [''index.html'']]
     else [normalized_path ws, normalized_path (ws @ [''index.php'']), normalized_path (ws @ [''index.html''])])"
proof (cases "ws = []")
  case True
  then show ?thesis by (simp add: site_candidates_def normalized_path_def ends_with_last)
next
  case False
  then have "\<not> ends_with (normalized_path ws) ''/''"
    using normalized_last [OF False assms] by (simp add: ends_with_last)
  with False normalized_snoc [OF False, of "''index.php''"] normalized_snoc [OF False, of "''index.html''"]
  show ?thesis by (simp add: site_candidates_def)
qed

text \<open>What a site serves, as a file or to PHP, is one of the three candidates of the path, regular, not
  protected, and not of a protected directory; everything else is an error.\<close>

theorem site_serves_regular_candidates:
  assumes "site_serve fs cwd h u = ServeFile p \<or> site_serve fs cwd h u = ServePHP p"
  shows "\<exists>pp cand d. parse_path u = Inr pp \<and> cand \<in> set (site_candidates (pp_normalized pp)) \<and>
    p = join_path (sh_doc_root h) (trim_slash cand) \<and>
    \<not> is_protected (site_resolver h) (pp_normalized pp) \<and> \<not> is_protected (site_resolver h) cand \<and>
    resolve_info fs cwd (site_resolver h) cand = Inr (File d)"
proof -
  have tried: "\<exists>cand \<in> set cs. \<exists>d. p = join_path (sh_doc_root h) (trim_slash cand) \<and>
      \<not> is_protected (site_resolver h) cand \<and> resolve_info fs cwd (site_resolver h) cand = Inr (File d)"
    if "try_candidates fs cwd h cs = ServeFile p \<or> try_candidates fs cwd h cs = ServePHP p" for cs
    using that
    by (induction cs) (auto simp: Let_def split: sum.splits node.splits if_splits option.splits)
  from assms obtain pp where pp: "parse_path u = Inr pp" "\<not> is_protected (site_resolver h) (pp_normalized pp)"
    and t: "try_candidates fs cwd h (site_candidates (pp_normalized pp)) = ServeFile p \<or>
      try_candidates fs cwd h (site_candidates (pp_normalized pp)) = ServePHP p"
    by (auto simp: site_serve_def split: sum.splits if_splits)
  from tried [OF t] pp show ?thesis by blast
qed

text \<open>A protected name anywhere in the path.\<close>

lemma protected_segment:
  assumes "plain_path ws" and "w \<in> set ws" and "pat \<in> set (rs_protected r)" and "glob pat w"
  shows "is_protected r (normalized_path ws)"
proof -
  have "ws \<noteq> []" using assms(2) by auto
  then have "list_ex (glob pat) (split_on (CHR ''/'') (normalized_path ws))"
    using assms by (auto simp: split_normalized list_ex_iff)
  with assms(3) show ?thesis by (auto simp: is_protected_def list_ex_iff)
qed

text \<open>Protected names are out of reach: a path with a segment that matches a protected pattern, however it is
  encoded in the request, is neither resolved nor served, whatever the file tree holds.\<close>

theorem protected_names_never_served:
  assumes "parse_path u = Inr pp" and "w \<in> set (pp_segments pp)" and "pat \<in> set default_protected_patterns"
    and "glob pat w"
  shows "site_serve fs cwd h u = Forbidden \<and>
    resolve fs cwd (new_resolver root mode default_protected_patterns) (pp_normalized pp) = Inl ErrProtectedFile"
proof -
  note ws = parsed_segments [OF assms(1)]
  have "is_protected r (pp_normalized pp)" if "rs_protected r = default_protected_patterns" for r
    unfolding ws(2) by (rule protected_segment [OF ws(1) assms(2) _ assms(4)]) (simp add: that assms(3))
  from this [of "site_resolver h"] this [of "new_resolver root mode default_protected_patterns"]
  have "is_protected (site_resolver h) (pp_normalized pp)"
    "is_protected (new_resolver root mode default_protected_patterns) (pp_normalized pp)"
    by (simp_all add: site_resolver_def new_resolver_def)
  moreover have "starts_with (pp_normalized pp) ''/''" unfolding ws(2) by (rule starts_with_slash)
  ultimately show ?thesis unfolding site_serve_def resolve_def assms(1) by simp
qed

section \<open>Where the handler of a site falls short\<close>

lemma rel_step_no_slash: "\<forall>w \<in> set ws. CHR ''/'' \<notin> set w \<Longrightarrow> \<forall>w \<in> set out. CHR ''/'' \<notin> set w \<and> w \<noteq> '''' \<Longrightarrow>
    \<forall>w \<in> set (fold rel_step ws out). CHR ''/'' \<notin> set w \<and> w \<noteq> ''''"
proof (induction ws arbitrary: out)
  case (Cons w ws)
  have "x \<in> set out \<or> x = w \<and> w \<noteq> ''''" if "x \<in> set (rel_step w out)" for x
  proof (cases "w = ''.'' \<or> w = ''''")
    case False
    then show ?thesis
    proof (cases "w = ''..'' \<and> out \<noteq> [] \<and> last out \<noteq> ''..''")
      case True
      with that have "x \<in> set (butlast out)" by (simp add: rel_step_def)
      then show ?thesis by (blast dest: in_set_butlastD)
    next
      case stay: False
      with that False have "x \<in> set (out @ [w])" unfolding rel_step_def by (simp only: if_False)
      then have "x \<in> set out \<or> x = w" by (simp add: disj_commute)
      with False show ?thesis by blast
    qed
  qed (use that in \<open>simp add: rel_step_def\<close>)
  moreover have "CHR ''/'' \<notin> set w" "\<forall>x \<in> set ws. CHR ''/'' \<notin> set x" using Cons.prems(1) by simp_all
  ultimately have "\<forall>x \<in> set (fold rel_step ws (rel_step w out)). CHR ''/'' \<notin> set x \<and> x \<noteq> ''''"
    using Cons.prems(2) by (intro Cons.IH) blast+
  then show ?case by simp
qed simp

lemma clean_relative:
  assumes "\<not> starts_with p ''/''"
  shows "clean_path p \<noteq> '''' \<and> hd (clean_path p) \<noteq> CHR ''/''"
proof -
  let ?ws = "fold rel_step (split_on (CHR ''/'') p) []"
  have ws: "\<forall>w \<in> set ?ws. CHR ''/'' \<notin> set w \<and> w \<noteq> ''''"
    using split_on_pieces by (intro rel_step_no_slash) auto
  show ?thesis
  proof (cases ?ws)
    case Nil
    then show ?thesis using assms by (simp add: clean_path_def)
  next
    case (Cons v vs)
    with ws have v: "v \<noteq> ''''" "hd v \<noteq> CHR ''/''" by (auto simp: neq_Nil_conv)
    have "\<exists>t. join ''/'' (v # vs) = v @ t" by (cases vs) auto
    with v assms Cons show ?thesis by (auto simp: clean_path_def)
  qed
qed

lemma relative_root_outside:
  assumes "\<not> starts_with root ''/''" and "starts_with p ''/''"
  shows "\<not> is_under_root p (clean_path root)"
proof -
  obtain t where "p = CHR ''/'' # t" using assms(2) by (auto simp: starts_with_iff)
  moreover obtain c s where "clean_path root = c # s" "c \<noteq> CHR ''/''"
    using clean_relative [OF assms(1)] by (cases "clean_path root") auto
  ultimately show ?thesis by (simp add: is_under_root_def)
qed

lemma abs_path_absolute: "starts_with cwd ''/'' \<Longrightarrow> starts_with (abs_path cwd p) ''/''"
proof -
  assume "starts_with cwd ''/''"
  then obtain t where "cwd = CHR ''/'' # t" by (auto simp: starts_with_iff)
  then show ?thesis by (simp add: abs_path_def join_path_def clean_path_def)
qed

text \<open>A site whose web root is a relative path serves nothing: the path of a file is made absolute before it
  is compared with the root, which is not, so every request ends in an error.\<close>

theorem relative_webroot_serves_nothing:
  assumes "\<not> starts_with (sh_doc_root h) ''/''" and "starts_with cwd ''/''"
  shows "site_serve fs cwd h u \<in> {BadRequest, Forbidden, NotFound}"
proof -
  have none: "resolve_info fs cwd (site_resolver h) cand \<noteq> Inr n" for cand n
    using relative_root_outside [OF assms(1) abs_path_absolute [OF assms(2)]]
    by (simp add: resolve_info_def site_resolver_def new_resolver_def Let_def)
  have "try_candidates fs cwd h cs = NotFound" for cs
    using none by (induction cs) (auto split: sum.splits node.splits)
  then show ?thesis by (auto simp: site_serve_def split: sum.splits)
qed

lemma site_target:
  assumes "sh_doc_root h = normalized_path R" and "plain_path R" and "plain_segment l"
  shows "join_path (sh_doc_root h) (trim_slash (normalized_path [l])) = normalized_path (R @ [l])"
proof -
  have "trim_slash (normalized_path [l]) = l" by (simp add: trim_slash_def normalized_path_def)
  moreover have "split_and_collapse (normalized_path R @ ''/'' @ l) = R @ [l]"
    using fold_collapse_normalized [OF assms(2), of "[]"] assms(3)
    by (simp add: split_and_collapse_fold split_on_join_sep split_on_plain plain_segment_def collapse_step_def)
  ultimately show ?thesis using assms(1) by (simp add: join_path_def clean_path_def)
qed

text \<open>A site on the file its root holds under a name.\<close>

lemma site_serves_entry:
  assumes h: "sh_doc_root h = normalized_path R" "plain_path R" "R \<noteq> []"
    and pp: "parse_path u = Inr pp" "pp_segments pp = [l]" and l: "plain_segment l"
    and np: "\<not> is_protected (site_resolver h) (normalized_path [l])"
    and loc: "locate True fs (R @ [l]) = Found q" "fget fs q = Some (File d)"
  shows "site_serve fs cwd h u =
    (if ends_with (normalized_path [l]) ''.php'' \<and> sh_sock_path h \<noteq> '''' then ServePHP (normalized_path (R @ [l]))
     else ServeFile (normalized_path (R @ [l])))"
proof -
  have rooted: "rooted (site_resolver h) R" using h by (simp add: site_resolver_def rooted_new)
  have n: "pp_normalized pp = normalized_path [l]" using parsed_segments [OF pp(1)] pp(2) by simp
  have info: "resolve_info fs cwd (site_resolver h) (normalized_path [l]) = Inr (File d)"
    using resolve_info_below [OF rooted, of "[l]" fs cwd] l np loc by simp
  have "stat fs (path_of (abs_path cwd (normalized_path (R @ [l])))) = Some (File d)"
    using loc h(2) l by (simp add: stat_def abs_path_def clean_normalized path_of_normalized ball_Un)
  then have "try_candidates fs cwd h (normalized_path [l] # cs) =
    (if ends_with (normalized_path [l]) ''.php'' \<and> sh_sock_path h \<noteq> '''' then ServePHP (normalized_path (R @ [l]))
     else ServeFile (normalized_path (R @ [l])))" for cs
    using info np site_target [OF h(1,2) l] by (simp add: Let_def)
  then show ?thesis using pp n np l by (simp add: site_serve_def site_candidates_normalized)
qed

text \<open>A site follows links out of its root: for a link to a file outside, which the resolver of the gateway
  refuses, the handler of the site sends the file.\<close>

theorem site_serves_escaping_links:
  assumes "sh_doc_root h = normalized_path R" and "plain_path R" and "R \<noteq> []" and "starts_with cwd ''/''"
    and "real_dir fs R" and "word l" and "fget fs (R @ [l]) = Some (Link True (t @ [f]))"
    and "real_dir fs t" and "plain_segment f" and "plain_path t" and "fget fs (t @ [f]) = Some (File d)" and "take (length R) (t @ [f]) \<noteq> R"
    and "\<not> is_protected (site_resolver h) (normalized_path [l])"
  shows "resolve fs cwd (site_resolver h) (normalized_path [l]) = Inl ErrSymlinkEscape \<and>
    site_serve fs cwd h (normalized_path [l]) = ServeFile (normalized_path (R @ [l]))"
proof -
  let ?r = "site_resolver h"
  have rooted: "rooted ?r R" using assms(1-3) by (simp add: site_resolver_def rooted_new)
  have mode: "rs_symlinks ?r = SymlinkWithinRoot" by (simp add: site_resolver_def new_resolver_def)
  have seg: "plain_segment l" using assms(6) by (rule word_segment)
  have names: "plain_name l" "plain_name f" using seg assms(9) by (simp_all add: plain_segment_name)
  note follow = namei_linked_file [OF assms(5) names assms(7,8,11)]
  have loc: "locate True fs (R @ [l]) = Found (t @ [f])" "eval_symlinks fs (R @ [l]) = Some (t @ [f])"
    using follow [of 39] follow [of 254] by (simp_all add: locate_def kernel_links_def eval_symlinks_def)
  have nofollow: "locate False fs (R @ [l]) = Found (R @ [l])"
    using locate_entry [OF assms(5) names(1)] assms(7) by simp
  have "\<not> is_under_root (normalized_path (t @ [f])) (normalized_path R)"
    using under_normalized_iff [OF assms(2) _ assms(3), of "t @ [f]"] assms(9,10,12)
    by (simp add: ball_Un) (metis append_eq_conv_conj take_append)
  then have esc: "resolve fs cwd ?r (normalized_path [l]) = Inl ErrSymlinkEscape"
    using resolve_below [OF rooted _ assms(13), of fs cwd] seg nofollow loc(2) assms(7) mode by simp
  obtain pp where pp: "parse_path (normalized_path [l]) = Inr pp" "pp_segments pp = [l]"
    using word_path [of "[l]"] assms(6) by auto
  have "\<not> ends_with (normalized_path [l]) ''.php''"
  proof
    assume "ends_with (normalized_path [l]) ''.php''"
    then have "CHR ''.'' \<in> set (normalized_path [l])" by (auto simp: ends_with_iff)
    then show False using word_chars(6) [OF assms(6)] by (auto simp: normalized_path_def)
  qed
  then show ?thesis
    using esc site_serves_entry [OF assms(1-3) pp seg assms(13) loc(1) assms(11)] by simp
qed

text \<open>Whether a PHP file is run or sent depends on the socket found at start: without one, the handler of a
  site sends the source of the script.\<close>

theorem php_source_without_socket:
  assumes "sh_doc_root h = normalized_path R" and "plain_path R" and "R \<noteq> []" and "real_dir fs R" and "word b"
    and "fget fs (R @ [b @ ''.php'']) = Some (File d)"
    and "\<not> is_protected (site_resolver h) (normalized_path [b @ ''.php''])"
  shows "site_serve fs cwd h (''/'' @ b @ ''.php'') =
    (if sh_sock_path h = '''' then ServeFile (normalized_path (R @ [b @ ''.php'']))
     else ServePHP (normalized_path (R @ [b @ ''.php''])))"
proof -
  let ?l = "b @ ''.php''"
  have c: "c \<noteq> CHR ''/'' \<and> c \<noteq> CHR ''%'' \<and> c \<noteq> CHR ''?'' \<and> c \<noteq> CHR 0x5C" if "c \<in> set ?l" for c
  proof (cases "c \<in> set b")
    case True
    then show ?thesis using word_chars(2-5) [OF assms(5) True] by simp
  next
    case False
    with that show ?thesis by auto
  qed
  have "b \<noteq> ''''" using assms(5) by (simp add: word_def)
  moreover have "CHR ''/'' \<notin> set ?l" using c by blast
  ultimately have seg: "plain_segment ?l" by (auto simp: plain_segment_def append_eq_Cons_conv)
  have "list_all quiet ?l" using quiet_word [OF assms(5)] by (simp add: quiet_def c0_control_def)
  then have "control_error (normalized_path [?l]) = None"
    by (intro control_error_normalized) (simp add: quiet_control)
  moreover have "CHR ''%'' \<notin> set (normalized_path [?l])" "CHR ''?'' \<notin> set (normalized_path [?l])"
    "CHR 0x5C \<notin> set (normalized_path [?l])"
  proof -
    have "CHR ''%'' \<notin> set ?l" "CHR ''?'' \<notin> set ?l" "CHR 0x5C \<notin> set ?l" using c by blast+
    then show "CHR ''%'' \<notin> set (normalized_path [?l])" "CHR ''?'' \<notin> set (normalized_path [?l])"
      "CHR 0x5C \<notin> set (normalized_path [?l])"
      by (simp_all add: normalized_path_def)
  qed
  ultimately obtain pp where pp: "parse_path (normalized_path [?l]) = Inr pp" "pp_segments pp = [?l]"
    using parse_path_decoded [of "normalized_path [?l]"] collapse_normalized [of "[?l]"] seg by simp
  have loc: "locate True fs (R @ [?l]) = Found (R @ [?l])"
    using locate_in_dir [OF assms(4), of True "[?l]"] assms(6) plain_segment_name [OF seg] by (simp add: plain_name_def)
  have "ends_with (normalized_path [?l]) ''.php''" by (auto simp: ends_with_iff normalized_path_def)
  then show ?thesis
    using site_serves_entry [OF assms(1-3) pp seg assms(7) loc assms(6), of cwd] by (simp add: normalized_path_def)
qed
section \<open>Witnesses\<close>

definition demo_tree :: "nat files" where
  "demo_tree =
     [([''srv''], Dir), ([''srv'', ''app''], Dir), ([''srv'', ''app'', ''about''], File 1),
      ([''srv'', ''app'', ''run.php''], File 2), ([''etc''], Dir), ([''etc'', ''passwd''], File 3),
      ([''srv'', ''app'', ''up''], Link True [''etc'']), ([''srv'', ''app'', ''leak''], Link True [''etc'', ''passwd''])]"

definition demo_root :: "string list" where "demo_root = [''srv'', ''app'']"

definition demo_site_handler :: site_handler where
  "demo_site_handler = \<lparr>sh_doc_root = normalized_path demo_root, sh_sock_path = ''''\<rparr>"

lemma demo_root_plain: "plain_path demo_root" "demo_root \<noteq> []" "real_dir demo_tree demo_root"
  by (simp_all add: demo_root_def plain_segment_def real_dir_def demo_tree_def fget_def plain_name_def
      le_Suc_eq numeral_2_eq_2)

lemma demo_rooted: "rooted (site_resolver demo_site_handler) demo_root"
  using demo_root_plain by (simp add: site_resolver_def demo_site_handler_def rooted_new)

lemma demo_not_protected:
  "\<not> is_protected (site_resolver demo_site_handler) (normalized_path [''about''])"
  "\<not> is_protected (site_resolver demo_site_handler) (normalized_path [''up'', ''passwd''])"
  "\<not> is_protected (site_resolver demo_site_handler) (normalized_path [''leak''])"
  "\<not> is_protected (site_resolver demo_site_handler) (normalized_path [''run.php''])"
  by (simp_all add: is_protected_def site_resolver_def new_resolver_def default_protected_patterns_def
      normalized_path_def base_name_def glob.simps)

lemma demo_files:
  "fget demo_tree [''srv'', ''app'', ''about''] = Some (File 1)"
  "fget demo_tree [''srv'', ''app'', ''run.php''] = Some (File 2)"
  "fget demo_tree [''srv'', ''app'', ''up''] = Some (Link True [''etc''])"
  "fget demo_tree [''srv'', ''app'', ''leak''] = Some (Link True [''etc'', ''passwd''])"
  "fget demo_tree [''etc'', ''passwd''] = Some (File 3)" "real_dir demo_tree [''etc'']"
  by (simp_all add: fget_def demo_tree_def real_dir_def plain_name_def le_Suc_eq)

lemma demo_about: "\<exists>pp. parse_path ''/about'' = Inr pp \<and> pp_segments pp = [''about''] \<and> pp_normalized pp = normalized_path [''about'']"
proof -
  obtain pp where pp: "parse_path (normalized_path [''about'']) = Inr pp" "pp_segments pp = [''about'']"
    using word_path [of "[''about'']"] by (auto simp: word_def in_range_def)
  with parsed_segments [OF pp(1)] show ?thesis by (simp add: normalized_path_def)
qed

lemma demo_resolve: "resolve demo_tree cwd (site_resolver demo_site_handler) (normalized_path [''about'']) = Inr ''/srv/app/about''"
  using resolve_below [OF demo_rooted _ demo_not_protected(1), of demo_tree cwd]
    locate_entry [OF demo_root_plain(3), of "''about''"] demo_files(1) demo_root_plain(1)
  by (simp add: demo_root_def plain_name_def plain_segment_def open_regular_def path_of_def locate_def kernel_links_def
      normalized_path_def split_and_collapse_def collapse_step_def demo_tree_def fget_def)

lemma demo_run_php: "site_serve demo_tree cwd demo_site_handler ''/run.php'' = ServeFile ''/srv/app/run.php''"
proof -
  obtain pp where pp: "parse_path ''/run.php'' = Inr pp" "pp_segments pp = [''run.php'']"
    using parse_path_decoded [of "''/run.php''"]
    by (simp add: c0_control_def in_range_def split_and_collapse_def collapse_step_def)
  have seg: "plain_segment ''run.php''" by (simp add: plain_segment_def)
  have "locate True demo_tree (demo_root @ [''run.php'']) = Found (demo_root @ [''run.php''])"
    using locate_in_dir [OF demo_root_plain(3), of True "[''run.php'']"] demo_files(2)
    by (simp add: demo_root_def)
  then show ?thesis
    using site_serves_entry [OF _ demo_root_plain(1,2) pp seg demo_not_protected(4)] demo_files(2)
    by (simp add: demo_site_handler_def demo_root_def normalized_path_def)
qed

theorem resolved_file_below_root_witness:
  "is_under_root ''/srv/app/about'' (rs_root (site_resolver demo_site_handler)) \<and>
   (\<exists>d. stat demo_tree (path_of ''/srv/app/about'') = Some (File d))"
proof -
  obtain pp where pp: "parse_path ''/about'' = Inr pp" "pp_normalized pp = normalized_path [''about'']"
    using demo_about by blast
  from resolved_file_below_root [OF pp(1) demo_rooted, of demo_tree "''''"] demo_resolve [of "''''"] show ?thesis
    unfolding pp(2) by blast
qed

theorem resolve_contains_links_witness:
  "\<exists>q d. eval_symlinks demo_tree (path_of ''/srv/app/about'') = Some q \<and> take (length demo_root) q = demo_root \<and>
     fget demo_tree q = Some (File d)"
proof -
  have "plain_path [''about'']" by (simp add: plain_segment_def)
  moreover have "names_ok demo_tree" by (simp add: names_ok_def demo_tree_def plain_segment_def)
  moreover have "real_dir demo_tree (demo_root @ butlast [''about''])" using demo_root_plain(3) by simp
  ultimately show ?thesis using resolve_contains_links [OF demo_rooted _ _ _ demo_resolve] by blast
qed

theorem resolve_follows_directory_links_witness:
  "resolve demo_tree cwd (site_resolver demo_site_handler) ''/up/passwd'' = Inr ''/srv/app/up/passwd'' \<and>
   eval_symlinks demo_tree [''srv'', ''app'', ''up'', ''passwd''] = Some [''etc'', ''passwd'']"
  using resolve_follows_directory_links [OF demo_rooted demo_root_plain(3), of "''up''" "[''etc'']" "''passwd''" 3 cwd]
    demo_files demo_not_protected(2)
  by (simp add: demo_root_def plain_segment_def normalized_path_def)

theorem site_serves_escaping_links_witness:
  "resolve demo_tree ''/'' (site_resolver demo_site_handler) ''/leak'' = Inl ErrSymlinkEscape \<and>
   site_serve demo_tree ''/'' demo_site_handler ''/leak'' = ServeFile ''/srv/app/leak''"
  using site_serves_escaping_links [of demo_site_handler demo_root "''/''" demo_tree "''leak''" "[''etc'']" "''passwd''" 3]
    demo_root_plain demo_files demo_not_protected(3)
  by (simp add: demo_site_handler_def demo_root_def plain_segment_def normalized_path_def word_def in_range_def)

theorem php_source_without_socket_witness:
  "site_serve demo_tree cwd demo_site_handler ''/run.php'' = ServeFile ''/srv/app/run.php''"
  using php_source_without_socket [of demo_site_handler demo_root demo_tree "''run''" 2 cwd]
    demo_root_plain demo_files demo_not_protected(4)
  by (simp add: demo_site_handler_def demo_root_def normalized_path_def word_def in_range_def)

theorem site_serves_regular_candidates_witness:
  "\<exists>cand d. resolve_info demo_tree cwd (site_resolver demo_site_handler) cand = Inr (File d) \<and>
     ''/srv/app/run.php'' = join_path (sh_doc_root demo_site_handler) (trim_slash cand)"
proof -
  have "site_serve demo_tree cwd demo_site_handler ''/run.php'' = ServeFile ''/srv/app/run.php''"
    by (rule demo_run_php)
  from site_serves_regular_candidates [OF disjI1 [OF this]] show ?thesis by blast
qed

theorem protected_names_never_served_witness:
  "site_serve demo_tree cwd demo_site_handler ''/.git/config'' = Forbidden"
proof -
  have "CHR ''%'' \<notin> set ''/.git/config'' \<and> CHR ''?'' \<notin> set ''/.git/config''" by simp
  then obtain pp where "parse_path ''/.git/config'' = Inr pp" "pp_segments pp = [''.git'', ''config'']"
    using parse_path_decoded [of "''/.git/config''"]
    by (simp add: c0_control_def in_range_def split_and_collapse_def collapse_step_def)
  moreover have "''.git'' \<in> set default_protected_patterns" "glob ''.git'' ''.git''"
    by (simp_all add: default_protected_patterns_def glob.simps)
  ultimately show ?thesis using protected_names_never_served by (metis list.set_intros(1))
qed

theorem relative_webroot_serves_nothing_witness:
  "site_serve demo_tree ''/srv'' \<lparr>sh_doc_root = ''app'', sh_sock_path = ''''\<rparr> ''/about'' \<in> {BadRequest, Forbidden, NotFound}"
  by (rule relative_webroot_serves_nothing) simp_all

end
