(* ===== verification/Policy.thy ===== *)
theory Policy
  imports RequestPath Resolver Client "HOL-Library.Multiset"
begin

text \<open>
  \<open>internal/policy/engine.go\<close> and \<open>internal/policy/mode.go\<close>: the rules of the gateway and the modes that
  enforce them. What an address or expression condition makes of one of its values is the argument \<open>other\<close>: the
  engines of \<open>regexp\<close> and \<open>net\<close> are not modelled, and only they look at the remote address. Method, host
  and header names are compared without regard to the case of ASCII letters, and trimming removes ASCII space.
\<close>

datatype phase = PhaseRequest | PhaseResponse | PhasePreconnect

datatype decision = DecisionAllow | DecisionDeny | DecisionObserve

primrec decision_str :: "decision \<Rightarrow> string" where
  "decision_str DecisionAllow = ''allow''"
| "decision_str DecisionDeny = ''deny''"
| "decision_str DecisionObserve = ''observe''"

datatype cond_type =
    CondMethod | CondPath | CondPathPrefix | CondPathRegex | CondHost | CondHeader | CondQueryParam
  | CondBodySize | CondIP | CondIPRange | CondScheme

record policy_ctx =
  cx_phase :: phase
  cx_method :: string
  cx_path :: string
  cx_host :: string
  cx_headers :: "(string \<times> string) list"
  cx_query :: string
  cx_body_size :: int
  cx_tls :: bool

record condition =
  cd_type :: cond_type
  cd_values :: "string list"
  cd_negate :: bool

record exclusion =
  ex_type :: cond_type
  ex_values :: "string list"

record rule =
  ru_name :: string
  ru_phase :: phase
  ru_mode :: decision
  ru_priority :: int
  ru_conditions :: "condition list"
  ru_exclusions :: "exclusion list"

type_synonym other_match = "cond_type \<Rightarrow> string \<Rightarrow> policy_ctx \<Rightarrow> bool"

section \<open>engine.go\<close>

text \<open>
  \<open>AddRule\<close>: the rule is appended, and one pass from the end swaps neighbours that are out of order.
  \<open>bubble\<close> is the pass over the reversed list.
\<close>

fun bubble :: "rule list \<Rightarrow> rule list" where
  "bubble (x # y # zs) =
     (if ru_priority x < ru_priority y then y # bubble (x # zs) else x # bubble (y # zs))"
| "bubble xs = xs"

definition add_rule :: "rule \<Rightarrow> rule list \<Rightarrow> rule list" where
  "add_rule r rules = rev (bubble (rev (rules @ [r])))"

text \<open>\<open>strings.SplitN(s, d, 2)\<close>: what precedes the separator, and what follows it if there is one.\<close>

definition split_once :: "char \<Rightarrow> string \<Rightarrow> string \<times> string option" where
  "split_once d s =
     (takeWhile (\<lambda>c. c \<noteq> d) s, if d \<in> set s then Some (drop 1 (dropWhile (\<lambda>c. c \<noteq> d) s)) else None)"

definition trim_space :: "string \<Rightarrow> string" where
  "trim_space s = rev (dropWhile is_space (rev (dropWhile is_space s)))"

text \<open>\<open>Headers.Get\<close>: the first value, the empty string when there is none.\<close>

definition header_get :: "(string \<times> string) list \<Rightarrow> string \<Rightarrow> string" where
  "header_get hs name =
     (case List.find (\<lambda>(k, v). to_lower k = to_lower name) hs of None \<Rightarrow> '''' | Some (k, v) \<Rightarrow> v)"

text \<open>\<open>strconv.ParseInt(s, 10, 64)\<close>, \<open>None\<close> for an error.\<close>

definition parse_int64 :: "string \<Rightarrow> int option" where
  "parse_int64 s =
     (let (neg, ds) = (case s of [] \<Rightarrow> (False, []) | c # t \<Rightarrow>
            if c = CHR ''-'' then (True, t) else if c = CHR ''+'' then (False, t) else (False, s));
          n = int (read_digits 10 0 ds);
          i = (if neg then - n else n)
      in if ds \<noteq> [] \<and> list_all (\<lambda>c. radix_digit 10 c \<noteq> None) ds \<and> - (2 ^ 63) \<le> i \<and> i < 2 ^ 63 then Some i
         else None)"

definition header_matches :: "policy_ctx \<Rightarrow> string \<Rightarrow> bool" where
  "header_matches ctx hv =
     (case split_once (CHR '':'') hv of
        (name, Some v) \<Rightarrow> header_get (cx_headers ctx) (trim_space name) = trim_space v
      | (name, None) \<Rightarrow> False)"

definition query_matches :: "policy_ctx \<Rightarrow> string \<Rightarrow> bool" where
  "query_matches ctx qp =
     (let (name, wanted) = split_once (CHR ''='') qp;
          vals = map snd (filter (\<lambda>(k, v). k = name) (query_pairs (cx_query ctx)))
      in if vals \<noteq> [] then (case wanted of None \<Rightarrow> True | Some w \<Rightarrow> w \<in> set vals)
         else includes_str (cx_query ctx) qp)"

definition match_value :: "other_match \<Rightarrow> cond_type \<Rightarrow> policy_ctx \<Rightarrow> string \<Rightarrow> bool" where
  "match_value other t ctx v =
     (case t of
        CondMethod \<Rightarrow> to_lower v = to_lower (cx_method ctx)
      | CondPath \<Rightarrow> v = cx_path ctx
      | CondPathPrefix \<Rightarrow> starts_with (cx_path ctx) v
      | CondHost \<Rightarrow> to_lower v = to_lower (cx_host ctx)
      | CondHeader \<Rightarrow> header_matches ctx v
      | CondQueryParam \<Rightarrow> query_matches ctx v
      | CondBodySize \<Rightarrow> (case parse_int64 v of None \<Rightarrow> False | Some m \<Rightarrow> cx_body_size ctx > m)
      | CondScheme \<Rightarrow> (v = ''https'' \<and> cx_tls ctx) \<or> (v = ''http'' \<and> \<not> cx_tls ctx)
      | _ \<Rightarrow> other t v ctx)"

definition matches_condition :: "other_match \<Rightarrow> condition \<Rightarrow> policy_ctx \<Rightarrow> bool" where
  "matches_condition other c ctx =
     (let result = list_ex (match_value other (cd_type c) ctx) (cd_values c)
      in if cd_negate c then \<not> result else result)"

definition matches_conditions :: "other_match \<Rightarrow> rule \<Rightarrow> policy_ctx \<Rightarrow> bool" where
  "matches_conditions other r ctx = list_all (\<lambda>c. matches_condition other c ctx) (ru_conditions r)"

definition matches_exclusions :: "other_match \<Rightarrow> rule \<Rightarrow> policy_ctx \<Rightarrow> bool" where
  "matches_exclusions other r ctx =
     list_ex (\<lambda>x. matches_condition other \<lparr>cd_type = ex_type x, cd_values = ex_values x, cd_negate = False\<rparr> ctx)
       (ru_exclusions r)"

text \<open>The loop of \<open>EvaluateRule\<close> from a result and the rule that produced it.\<close>

fun evaluate_from :: "other_match \<Rightarrow> policy_ctx \<Rightarrow> decision \<Rightarrow> rule option \<Rightarrow> rule list \<Rightarrow> decision \<times> rule option" where
  "evaluate_from other ctx result matched [] = (result, matched)"
| "evaluate_from other ctx result matched (r # rs) =
     (if ru_phase r \<noteq> cx_phase ctx then evaluate_from other ctx result matched rs
      else if \<not> matches_conditions other r ctx then evaluate_from other ctx result matched rs
      else if matches_exclusions other r ctx then evaluate_from other ctx result matched rs
      else
        (case ru_mode r of
           DecisionDeny \<Rightarrow> (DecisionDeny, Some r)
         | DecisionObserve \<Rightarrow> evaluate_from other ctx DecisionObserve (Some r) rs
         | DecisionAllow \<Rightarrow>
             if result = DecisionObserve then evaluate_from other ctx DecisionAllow (Some r) rs
             else evaluate_from other ctx result matched rs))"

definition evaluate_rule :: "other_match \<Rightarrow> rule list \<Rightarrow> policy_ctx \<Rightarrow> decision \<times> rule option" where
  "evaluate_rule other rules ctx = evaluate_from other ctx DecisionAllow None rules"

definition evaluate :: "other_match \<Rightarrow> rule list \<Rightarrow> policy_ctx \<Rightarrow> decision" where
  "evaluate other rules ctx = fst (evaluate_rule other rules ctx)"

section \<open>mode.go\<close>

datatype mode = ModeOff | ModeObserve | ModeBalanced | ModeStrict

definition prefix_rule :: "string \<Rightarrow> decision \<Rightarrow> string list \<Rightarrow> rule" where
  "prefix_rule name d ps =
     \<lparr>ru_name = name, ru_phase = PhaseRequest, ru_mode = d, ru_priority = 10,
      ru_conditions = [\<lparr>cd_type = CondPathPrefix, cd_values = ps, cd_negate = False\<rparr>], ru_exclusions = []\<rparr>"

definition method_rule :: "string \<Rightarrow> decision \<Rightarrow> string list \<Rightarrow> rule" where
  "method_rule name d ms =
     \<lparr>ru_name = name, ru_phase = PhaseRequest, ru_mode = d, ru_priority = 20,
      ru_conditions = [\<lparr>cd_type = CondMethod, cd_values = ms, cd_negate = False\<rparr>], ru_exclusions = []\<rparr>"

definition default_rules :: "mode \<Rightarrow> rule list" where
  "default_rules m =
     (if m = ModeOff then []
      else
        (let d = (if m = ModeObserve then DecisionObserve else DecisionDeny)
         in [prefix_rule ''deny-vcs-metadata'' d [''/.git/'', ''/.svn/'', ''/.hg/'', ''/.bzr/''],
             prefix_rule ''deny-dotenv'' d [''/.env''],
             method_rule ''deny-trace-methods'' d [''TRACE'', ''TRACK'']]
            @ (if m = ModeStrict then
                 [method_rule ''deny-connect-method'' DecisionDeny [''CONNECT''],
                  \<lparr>ru_name = ''deny-editor-artifacts'', ru_phase = PhaseRequest, ru_mode = DecisionDeny,
                   ru_priority = 30,
                   ru_conditions =
                     [\<lparr>cd_type = CondPathRegex,
                       cd_values = [CHR 0x5C # ''.(bak|swp|orig|rej|save|old)$''], cd_negate = False\<rparr>],
                   ru_exclusions = []\<rparr>]
               else [])))"

definition engine_for_mode :: "mode \<Rightarrow> rule list" where
  "engine_for_mode m = fold add_rule (default_rules m) []"

datatype policy_outcome = Pass "string option" | Denied string

text \<open>\<open>ModeMiddleware\<close>: whether the request goes on, with the observed rule, or is answered with 403.\<close>

definition mode_middleware :: "other_match \<Rightarrow> mode \<Rightarrow> rule list \<Rightarrow> policy_ctx \<Rightarrow> policy_outcome" where
  "mode_middleware other m rules ctx =
     (if m = ModeOff then Pass None
      else
        (let (d, r) = evaluate_rule other rules ctx;
             name = (case r of None \<Rightarrow> ''unknown'' | Some x \<Rightarrow> ru_name x);
             d' = (if m = ModeObserve \<and> d = DecisionDeny then DecisionObserve else d)
         in case d' of
              DecisionObserve \<Rightarrow> Pass (Some name)
            | DecisionDeny \<Rightarrow> Denied name
            | DecisionAllow \<Rightarrow> Pass None))"

section \<open>Sorted rules\<close>

abbreviation by_priority :: "rule list \<Rightarrow> bool" where
  "by_priority rs \<equiv> sorted (map ru_priority rs)"

text \<open>The pass on a list whose tail is sorted: the new rule sinks behind the rules of its own priority.\<close>

fun sink :: "rule \<Rightarrow> rule list \<Rightarrow> rule list" where
  "sink r [] = [r]"
| "sink r (y # ys) = (if ru_priority r < ru_priority y then y # sink r ys else r # y # ys)"

lemma bubble_sorted: "sorted_wrt (\<ge>) (map ru_priority ys) \<Longrightarrow> bubble ys = ys"
  by (induction ys rule: bubble.induct) auto

lemma bubble_sink: "sorted_wrt (\<ge>) (map ru_priority ys) \<Longrightarrow> bubble (r # ys) = sink r ys"
proof (induction ys arbitrary: r)
  case (Cons y ys)
  then show ?case using bubble_sorted [of "y # ys"] by simp
qed simp

lemma rev_sorted: "by_priority rs \<longleftrightarrow> sorted_wrt (\<ge>) (map ru_priority (rev rs))"
  by (simp add: sorted_wrt_rev flip: rev_map)

lemma sink_mset: "mset (sink r ys) = add_mset r (mset ys)"
  by (induction ys) auto

lemma sink_sorted: "sorted_wrt (\<ge>) (map ru_priority ys) \<Longrightarrow> sorted_wrt (\<ge>) (map ru_priority (sink r ys))"
proof (induction ys)
  case (Cons y ys)
  have "set (sink r ys) = insert r (set ys)" using arg_cong [OF sink_mset [of r ys], of set_mset] by simp
  with Cons show ?case by auto
qed simp

lemma sink_filter: "sorted_wrt (\<ge>) (map ru_priority ys) \<Longrightarrow>
    sink r ys = filter (\<lambda>y. ru_priority r < ru_priority y) ys @ r # filter (\<lambda>y. ru_priority y \<le> ru_priority r) ys"
proof (induction ys)
  case (Cons y ys)
  show ?case
  proof (cases "ru_priority r < ru_priority y")
    case True
    then show ?thesis using Cons by simp
  next
    case False
    with Cons.prems have "\<forall>z \<in> set ys. ru_priority z \<le> ru_priority r" by auto
    with False show ?thesis by (auto simp: filter_empty_conv not_less cong: filter_cong)
  qed
qed simp

lemma add_rule_sorted_list:
  assumes "by_priority rs"
  shows "add_rule r rs = filter (\<lambda>y. ru_priority y \<le> ru_priority r) rs @ r # filter (\<lambda>y. ru_priority r < ru_priority y) rs"
  using assms bubble_sink [of "rev rs" r] sink_filter [of "rev rs" r]
  by (simp add: add_rule_def rev_sorted rev_filter flip: rev_map)

lemma add_rule_sorted: "by_priority rs \<Longrightarrow> by_priority (add_rule r rs)"
  using bubble_sink [of "rev rs" r] sink_sorted [of "rev rs" r]
  by (simp add: add_rule_def rev_sorted)

lemma add_rule_mset: "by_priority rs \<Longrightarrow> mset (add_rule r rs) = add_mset r (mset rs)"
  using bubble_sink [of "rev rs" r] by (simp add: add_rule_def rev_sorted sink_mset)

lemma add_rules:
  "by_priority acc \<Longrightarrow> by_priority (fold add_rule rs acc) \<and> mset (fold add_rule rs acc) = mset rs + mset acc"
  by (induction rs arbitrary: acc) (simp_all add: add_rule_sorted add_rule_mset)

section \<open>Decisions\<close>

text \<open>The rules that take part in a decision.\<close>

definition applies :: "other_match \<Rightarrow> policy_ctx \<Rightarrow> rule \<Rightarrow> bool" where
  "applies other ctx r \<longleftrightarrow>
     ru_phase r = cx_phase ctx \<and> matches_conditions other r ctx \<and> \<not> matches_exclusions other r ctx"

lemma evaluate_from_applies:
  "evaluate_from other ctx d m rs = evaluate_from other ctx d m (filter (applies other ctx) rs)"
  by (induction rs arbitrary: d m) (auto simp: applies_def split: decision.splits)

lemma evaluate_from_Cons [simp]:
  "applies other ctx r \<Longrightarrow> evaluate_from other ctx result matched (r # rs) =
     (case ru_mode r of
        DecisionDeny \<Rightarrow> (DecisionDeny, Some r)
      | DecisionObserve \<Rightarrow> evaluate_from other ctx DecisionObserve (Some r) rs
      | DecisionAllow \<Rightarrow>
          if result = DecisionObserve then evaluate_from other ctx DecisionAllow (Some r) rs
          else evaluate_from other ctx result matched rs)"
  by (simp add: applies_def)

lemma evaluate_from_deny:
  "d \<noteq> DecisionDeny \<Longrightarrow> \<forall>r \<in> set rs. applies other ctx r \<Longrightarrow>
     fst (evaluate_from other ctx d m rs) = DecisionDeny \<longleftrightarrow> (\<exists>r \<in> set rs. ru_mode r = DecisionDeny)"
proof (induction rs arbitrary: d m)
  case (Cons r rs)
  then show ?case by (cases "ru_mode r") (simp_all del: evaluate_from.simps)
qed simp

text \<open>Without a denying rule: the last rule that observes decides, unless an allowing rule comes after it.\<close>

lemma evaluate_from_observe:
  "d \<noteq> DecisionDeny \<Longrightarrow> \<forall>r \<in> set rs. applies other ctx r \<and> ru_mode r \<noteq> DecisionDeny \<Longrightarrow>
     fst (evaluate_from other ctx d m rs) = (if rs = [] then d else ru_mode (last rs))"
proof (induction rs arbitrary: d m)
  case (Cons r rs)
  then show ?case by (cases "ru_mode r"; cases d) (simp_all del: evaluate_from.simps(2))
qed simp

section \<open>Properties\<close>

text \<open>Adding rules keeps them in the order of their priority, and a rule added to a sorted engine goes behind
  all rules of its own priority: the one pass of swaps is a stable insertion.\<close>

theorem add_rule_is_stable_insertion:
  "by_priority (fold add_rule rs []) \<and> mset (fold add_rule rs []) = mset rs \<and>
   add_rule r (fold add_rule rs []) =
     filter (\<lambda>y. ru_priority y \<le> ru_priority r) (fold add_rule rs []) @
     r # filter (\<lambda>y. ru_priority r < ru_priority y) (fold add_rule rs [])"
  using add_rules [of "[]" rs] add_rule_sorted_list by simp

text \<open>C35. A request is denied exactly when some rule that denies applies to it, whatever the order and the
  priorities of the rules; otherwise the decision is the mode of the last rule that applies, and it is
  allowed when none does.\<close>

theorem evaluate_spec:
  "evaluate other rules ctx =
     (let rs = filter (applies other ctx) rules
      in if \<exists>r \<in> set rs. ru_mode r = DecisionDeny then DecisionDeny
         else if rs = [] then DecisionAllow else ru_mode (last rs))"
proof -
  let ?rs = "filter (applies other ctx) rules"
  have app: "\<forall>r \<in> set ?rs. applies other ctx r" by simp
  have ev: "evaluate other rules ctx = fst (evaluate_from other ctx DecisionAllow None ?rs)"
    using evaluate_from_applies [of other ctx DecisionAllow None rules] by (simp add: evaluate_def evaluate_rule_def)
  show ?thesis
  proof (cases "\<exists>r \<in> set ?rs. ru_mode r = DecisionDeny")
    case True
    with app have "fst (evaluate_from other ctx DecisionAllow None ?rs) = DecisionDeny"
      by (subst evaluate_from_deny) simp_all
    with True ev show ?thesis unfolding Let_def by (simp only: if_True)
  next
    case False
    with app have "fst (evaluate_from other ctx DecisionAllow None ?rs) = (if ?rs = [] then DecisionAllow else ru_mode (last ?rs))"
      by (intro evaluate_from_observe) simp_all
    with False ev show ?thesis unfolding Let_def by (simp only: if_False)
  qed
qed


text \<open>In observe mode nothing is denied and in no mode are rules of other phases looked at; every denial names
  a rule of the engine that applies to the request and denies.\<close>

theorem middleware_denies_with_reason:
  assumes "mode_middleware other m rules ctx = Denied name"
  shows "m \<noteq> ModeOff \<and> m \<noteq> ModeObserve \<and>
    (\<exists>r \<in> set rules. applies other ctx r \<and> ru_mode r = DecisionDeny \<and> name = ru_name r)"
proof -
  have hit: "\<exists>r \<in> set rs. applies other ctx r \<and> ru_mode r = DecisionDeny \<and> x = Some r"
    if "evaluate_from other ctx d w rs = (DecisionDeny, x)" and "d \<noteq> DecisionDeny" for d w rs x
    using that
  proof (induction rs arbitrary: d w)
    case (Cons r rs)
    show ?case
    proof (cases "applies other ctx r")
      case True
      with Cons show ?thesis
        by (cases "ru_mode r") (auto simp del: evaluate_from.simps split: if_splits)
    next
      case False
      then have "evaluate_from other ctx d w (r # rs) = evaluate_from other ctx d w rs"
        by (auto simp: applies_def)
      with Cons show ?thesis by (auto simp del: evaluate_from.simps)
    qed
  qed simp
  obtain d x where e: "evaluate_rule other rules ctx = (d, x)" by (cases "evaluate_rule other rules ctx")
  with assms have "m \<noteq> ModeOff" "m \<noteq> ModeObserve" "d = DecisionDeny"
    "name = (case x of None \<Rightarrow> ''unknown'' | Some y \<Rightarrow> ru_name y)"
    by (auto simp: mode_middleware_def Let_def split: if_splits decision.splits)
  with hit [of DecisionAllow None rules x] e show ?thesis by (auto simp: evaluate_rule_def)
qed

section \<open>The built-in rules and the path they look at\<close>

lemma balanced_rules:
  "engine_for_mode ModeBalanced = default_rules ModeBalanced"
  by (simp add: engine_for_mode_def default_rules_def prefix_rule_def method_rule_def add_rule_def Let_def)

lemma applies_prefix_rule:
  "applies other ctx (prefix_rule n d ps) \<longleftrightarrow> cx_phase ctx = PhaseRequest \<and> list_ex (starts_with (cx_path ctx)) ps"
  by (auto simp: applies_def prefix_rule_def matches_conditions_def matches_exclusions_def matches_condition_def
      match_value_def list_ex_iff)

lemma applies_method_rule:
  "applies other ctx (method_rule n d ms) \<longleftrightarrow>
     cx_phase ctx = PhaseRequest \<and> list_ex (\<lambda>v. to_lower v = to_lower (cx_method ctx)) ms"
  by (auto simp: applies_def method_rule_def matches_conditions_def matches_exclusions_def matches_condition_def
      match_value_def list_ex_iff)

lemma evaluate_from_step:
  "evaluate_from other ctx result matched (r # rs) =
     (if applies other ctx r then
        (case ru_mode r of
           DecisionDeny \<Rightarrow> (DecisionDeny, Some r)
         | DecisionObserve \<Rightarrow> evaluate_from other ctx DecisionObserve (Some r) rs
         | DecisionAllow \<Rightarrow>
             if result = DecisionObserve then evaluate_from other ctx DecisionAllow (Some r) rs
             else evaluate_from other ctx result matched rs)
      else evaluate_from other ctx result matched rs)"
  by (simp add: applies_def)

text \<open>The context of a request as the middleware builds it: the path is the one of the URL, not the normalised one.\<close>

definition request_context :: "string \<Rightarrow> string \<Rightarrow> policy_ctx" where
  "request_context meth url_path =
     \<lparr>cx_phase = PhaseRequest, cx_method = meth, cx_path = url_path, cx_host = ''localhost'', cx_headers = [],
      cx_query = '''', cx_body_size = 0, cx_tls = False\<rparr>"

lemma balanced_verdict:
  "mode_middleware other ModeBalanced (engine_for_mode ModeBalanced) (request_context ''GET'' p) =
    (if list_ex (starts_with p) [''/.git/'', ''/.svn/'', ''/.hg/'', ''/.bzr/''] then Denied ''deny-vcs-metadata''
     else if starts_with p ''/.env'' then Denied ''deny-dotenv'' else Pass None)"
proof -
  let ?ctx = "request_context ''GET'' p"
  have "\<not> list_ex (\<lambda>v. to_lower v = to_lower (cx_method ?ctx)) [''TRACE'', ''TRACK'']"
    by (simp add: request_context_def to_lower_def to_lower_char_def in_range_def)
  then have "\<not> applies other ?ctx (method_rule ''deny-trace-methods'' d [''TRACE'', ''TRACK''])" for d
    by (simp add: applies_method_rule)
  moreover have "cx_phase ?ctx = PhaseRequest" "cx_path ?ctx = p" by (simp_all add: request_context_def)
  moreover have "ru_mode (prefix_rule n d ps) = d" "ru_name (prefix_rule n d ps) = n" for n d ps
    by (simp_all add: prefix_rule_def)
  ultimately have "evaluate_rule other (default_rules ModeBalanced) ?ctx =
    (if list_ex (starts_with p) [''/.git/'', ''/.svn/'', ''/.hg/'', ''/.bzr/'']
     then (DecisionDeny, Some (prefix_rule ''deny-vcs-metadata'' DecisionDeny [''/.git/'', ''/.svn/'', ''/.hg/'', ''/.bzr/'']))
     else if starts_with p ''/.env'' then (DecisionDeny, Some (prefix_rule ''deny-dotenv'' DecisionDeny [''/.env'']))
     else (DecisionAllow, None))"
    unfolding evaluate_rule_def default_rules_def
    by (simp add: evaluate_from_step applies_prefix_rule Let_def del: evaluate_from.simps(2))
  then show ?thesis
    by (simp add: mode_middleware_def balanced_rules prefix_rule_def)
qed

text \<open>The built-in rules are matched against the path as the client wrote it: an extra slash takes a request
  for version control metadata past them, while the same file under its normalised path is denied. What
  still protects the file is the list of the resolver, which looks at the normalised path.\<close>

theorem policy_prefix_is_bypassed:
  "mode_middleware other ModeBalanced (engine_for_mode ModeBalanced) (request_context ''GET'' ''/.git/config'') =
     Denied ''deny-vcs-metadata'' \<and>
   mode_middleware other ModeBalanced (engine_for_mode ModeBalanced) (request_context ''GET'' ''//.git/config'') = Pass None \<and>
   (\<exists>pp. parse_path ''//.git/config'' = Inr pp \<and> pp_normalized pp = ''/.git/config'' \<and>
      resolve fs cwd (new_resolver root mode default_protected_patterns) (pp_normalized pp) = Inl ErrProtectedFile)"
proof (intro conjI)
  obtain pp where pp: "parse_path ''//.git/config'' = Inr pp" "pp_segments pp = [''.git'', ''config'']"
    using parse_path_decoded [of "''//.git/config''"]
    by (simp add: c0_control_def in_range_def split_and_collapse_def collapse_step_def)
  then have "pp_normalized pp = ''/.git/config''" using parsed_segments [OF pp(1)] by (simp add: normalized_path_def)
  moreover have "is_protected (new_resolver root mode default_protected_patterns) (normalized_path [''.git'', ''config''])"
    by (rule protected_segment [of _ "''.git''" "''.git''"])
      (simp_all add: plain_segment_def new_resolver_def default_protected_patterns_def glob.simps)
  ultimately show "\<exists>pp. parse_path ''//.git/config'' = Inr pp \<and> pp_normalized pp = ''/.git/config'' \<and>
      resolve fs cwd (new_resolver root mode default_protected_patterns) (pp_normalized pp) = Inl ErrProtectedFile"
    using pp by (auto simp: resolve_def normalized_path_def)
qed (simp_all add: balanced_verdict)

section \<open>Witnesses\<close>

theorem middleware_denies_with_reason_witness:
  "\<exists>r \<in> set (engine_for_mode ModeBalanced). ru_mode r = DecisionDeny \<and> ru_name r = ''deny-dotenv''"
proof -
  have "mode_middleware (\<lambda>_ _ _. False) ModeBalanced (engine_for_mode ModeBalanced) (request_context ''GET'' ''/.env'') =
    Denied ''deny-dotenv''"
    by (simp add: balanced_verdict)
  from middleware_denies_with_reason [OF this] show ?thesis by metis
qed

end
