(* ===== verification/Router.thy ===== *)
theory Router
  imports Policy
begin

text \<open>
  \<open>internal/router\<close>: the routes of the gateway, the first that matches a request, the path it rewrites to
  (\<open>match.go\<close>), and the loop of \<open>rewrite.go\<close> that rewrites until no route applies.

  The engine of \<open>regexp\<close> is the argument \<open>rx\<close>: for a pattern that compiles it yields what \<open>FindStringSubmatch\<close>
  finds in a path, the whole match and its groups. Methods and header names are compared without regard to
  the case of ASCII letters.
\<close>

section \<open>Routes and requests\<close>

type_synonym regex_engine = "string \<Rightarrow> (string \<Rightarrow> (string \<times> string list) option) option"

record route =
  ro_host :: string
  ro_path :: string
  ro_prefix :: string
  ro_regex :: string
  ro_target :: string
  ro_status :: int
  ro_methods :: "string list"
  ro_headers :: "(string \<times> string) list"

record web_request =
  wq_method :: string
  wq_host :: string
  wq_path :: string
  wq_query :: string
  wq_headers :: "(string \<times> string) list"

section \<open>match.go\<close>

definition route_label :: "route \<Rightarrow> string" where
  "route_label r =
     (if ro_path r \<noteq> '''' then ro_path r
      else if ro_prefix r \<noteq> '''' then ro_prefix r @ ''*''
      else if ro_regex r \<noteq> '''' then ''re:'' @ ro_regex r
      else if ro_host r \<noteq> '''' then ''host:'' @ ro_host r
      else ''route'')"

text \<open>\<open>NewEngine\<close>: the routes, or the first pattern that does not compile.\<close>

fun new_engine :: "regex_engine \<Rightarrow> route list \<Rightarrow> string + route list" where
  "new_engine rx [] = Inr []"
| "new_engine rx (r # rs) =
     (if ro_regex r \<noteq> '''' \<and> rx (ro_regex r) = None then Inl (ro_regex r)
      else (case new_engine rx rs of Inl e \<Rightarrow> Inl e | Inr rs' \<Rightarrow> Inr (r # rs')))"

definition regex_matches :: "regex_engine \<Rightarrow> string \<Rightarrow> string \<Rightarrow> bool" where
  "regex_matches rx pat path = (case rx pat of None \<Rightarrow> False | Some f \<Rightarrow> f path \<noteq> None)"

definition match_route :: "regex_engine \<Rightarrow> web_request \<Rightarrow> route \<Rightarrow> bool" where
  "match_route rx q r =
     (if ro_host r \<noteq> '''' \<and> ro_host r \<noteq> wq_host q then False
      else if ro_methods r \<noteq> [] \<and> \<not> list_ex (\<lambda>m. to_lower m = to_lower (wq_method q)) (ro_methods r) then False
      else if list_ex (\<lambda>(k, v). header_get (wq_headers q) k \<noteq> v) (ro_headers r) then False
      else if ro_regex r \<noteq> '''' then regex_matches rx (ro_regex r) (wq_path q)
      else if ro_prefix r \<noteq> '''' then starts_with (wq_path q) (ro_prefix r)
      else if ro_path r \<noteq> '''' then ro_path r = wq_path q
      else True)"

definition match_first :: "regex_engine \<Rightarrow> route list \<Rightarrow> web_request \<Rightarrow> route option" where
  "match_first rx routes q = List.find (match_route rx q) routes"

text \<open>\<open>strings.ReplaceAll\<close> for a string that is not empty.\<close>

function replace_all :: "string \<Rightarrow> string \<Rightarrow> string \<Rightarrow> string" where
  "replace_all old new s =
     (if s = [] then []
      else if old \<noteq> [] \<and> starts_with s old then new @ replace_all old new (drop (length old) s)
      else hd s # replace_all old new (tl s))"
  by pat_completeness auto
termination
  by (relation "measure (\<lambda>(old, new, s). length s)") auto

declare replace_all.simps [simp del]

definition group_mark :: "nat \<Rightarrow> string" where
  "group_mark i = CHR ''$'' # nat_to_str i"

text \<open>The loop that puts the groups of a match into the target, in their order.\<close>

definition put_groups :: "string list \<Rightarrow> string \<Rightarrow> string" where
  "put_groups ms target = fold (\<lambda>(i, m) t. replace_all (group_mark i) m t) (enumerate 0 ms) target"

definition rewrite_path :: "regex_engine \<Rightarrow> route \<Rightarrow> string \<Rightarrow> string" where
  "rewrite_path rx r path =
     (if ro_target r = '''' then path
      else
        (let target = replace_all ''$0'' path (ro_target r)
         in if ro_regex r \<noteq> '''' then
              (case rx (ro_regex r) of
                 None \<Rightarrow> target
               | Some f \<Rightarrow> (case f path of None \<Rightarrow> target | Some (m, gs) \<Rightarrow> put_groups (m # gs) target))
            else target))"

definition is_redirect :: "route \<Rightarrow> bool" where
  "is_redirect r \<longleftrightarrow> ro_status r \<ge> 300 \<and> ro_status r < 400"

section \<open>rewrite.go\<close>

record rewrite_result =
  rw_path :: string
  rw_query :: string
  rw_code :: int
  rw_terminal :: bool
  rw_iterations :: nat

text \<open>What one route makes of the path in the loop, \<open>None\<close> where the code continues with the next route.\<close>

definition loop_target :: "regex_engine \<Rightarrow> string \<Rightarrow> route \<Rightarrow> string option" where
  "loop_target rx path r =
     (if ro_target r = '''' then None
      else if ro_regex r \<noteq> '''' then
        (case rx (ro_regex r) of
           None \<Rightarrow> None
         | Some f \<Rightarrow>
             (case f path of
                None \<Rightarrow> None
              | Some (m, gs) \<Rightarrow> Some (replace_all ''$0'' path (put_groups (m # gs) (ro_target r)))))
      else if ro_prefix r \<noteq> '''' \<and> \<not> starts_with path (ro_prefix r) then None
      else if ro_prefix r = '''' \<and> ro_path r \<noteq> '''' \<and> path \<noteq> ro_path r then None
      else Some (replace_all ''$0'' path (ro_target r)))"

fun first_target :: "regex_engine \<Rightarrow> string \<Rightarrow> route list \<Rightarrow> (route \<times> string) option" where
  "first_target rx path [] = None"
| "first_target rx path (r # rs) =
     (case loop_target rx path r of Some t \<Rightarrow> Some (r, t) | None \<Rightarrow> first_target rx path rs)"

definition target_query :: "string \<Rightarrow> string" where
  "target_query t = drop 1 (dropWhile (\<lambda>c. c \<noteq> CHR ''?'') t)"

definition join_query :: "string \<Rightarrow> string \<Rightarrow> string" where
  "join_query new old = (if new = '''' then old else if old \<noteq> '''' then new @ ''&'' @ old else new)"

text \<open>One round over the routes: the route that applies, with the path and the query it leaves.\<close>

definition rewrite_round :: "regex_engine \<Rightarrow> route list \<Rightarrow> string \<times> string \<Rightarrow> (route \<times> string \<times> string) option" where
  "rewrite_round rx routes st =
     (case first_target rx (fst st) routes of
        None \<Rightarrow> None
      | Some (r, t) \<Rightarrow> Some (r, before_query t, join_query (target_query t) (snd st)))"

text \<open>The loop with the number of rounds that are left; the second component is \<open>ErrMaxIterationsExceeded\<close>.\<close>

primrec rewrite_rounds :: "nat \<Rightarrow> regex_engine \<Rightarrow> route list \<Rightarrow> rewrite_result \<Rightarrow> rewrite_result \<times> bool" where
  "rewrite_rounds 0 rx routes res = (res, True)"
| "rewrite_rounds (Suc n) rx routes res =
     (let res1 = res\<lparr>rw_iterations := rw_iterations res + 1\<rparr>
      in case rewrite_round rx routes (rw_path res, rw_query res) of
           None \<Rightarrow> (res1, False)
         | Some (r, p, q) \<Rightarrow>
             (let res2 = res1\<lparr>rw_path := p, rw_query := q\<rparr>
              in if is_redirect r then (res2\<lparr>rw_code := ro_status r, rw_terminal := True\<rparr>, False)
                 else rewrite_rounds n rx routes res2))"

definition rewrite_loop :: "regex_engine \<Rightarrow> route list \<Rightarrow> string \<Rightarrow> string \<Rightarrow> int \<Rightarrow> rewrite_result \<times> bool" where
  "rewrite_loop rx routes path query max_iterations =
     rewrite_rounds (if max_iterations \<le> 0 then 10 else nat max_iterations) rx routes
       \<lparr>rw_path = path, rw_query = query, rw_code = 0, rw_terminal = False, rw_iterations = 0\<rparr>"

section \<open>The loop as a rewriting relation\<close>

text \<open>One round that goes on: a route applies and is no redirect.\<close>

definition rewrites_to :: "regex_engine \<Rightarrow> route list \<Rightarrow> string \<times> string \<Rightarrow> string \<times> string \<Rightarrow> bool" where
  "rewrites_to rx routes st st' \<longleftrightarrow> (\<exists>r. rewrite_round rx routes st = Some (r, st') \<and> \<not> is_redirect r)"

definition settled ::
  "regex_engine \<Rightarrow> route list \<Rightarrow> string \<times> string \<Rightarrow> rewrite_result \<Rightarrow> bool" where
  "settled rx routes st res \<longleftrightarrow>
     (case rewrite_round rx routes st of
        None \<Rightarrow> (rw_path res, rw_query res) = st \<and> \<not> rw_terminal res
      | Some (r, st') \<Rightarrow>
          is_redirect r \<and> rw_terminal res \<and> rw_code res = ro_status r \<and> (rw_path res, rw_query res) = st')"

lemma rewrite_rounds_spec:
  assumes "rewrite_rounds n rx routes res = (res', exceeded)" and "\<not> rw_terminal res"
  shows "if exceeded
    then (rewrites_to rx routes ^^ n) (rw_path res, rw_query res) (rw_path res', rw_query res') \<and>
         \<not> rw_terminal res' \<and> rw_iterations res' = rw_iterations res + n
    else \<exists>k<n. \<exists>st. (rewrites_to rx routes ^^ k) (rw_path res, rw_query res) st \<and>
         rw_iterations res' = rw_iterations res + k + 1 \<and> settled rx routes st res'"
  using assms
proof (induction n arbitrary: res)
  case (Suc n)
  let ?st = "(rw_path res, rw_query res)"
  show ?case
  proof (cases "rewrite_round rx routes ?st")
    case None
    with Suc.prems have r: "\<not> exceeded" "res' = res\<lparr>rw_iterations := rw_iterations res + 1\<rparr>" by simp_all
    with None Suc.prems(2) have "settled rx routes ?st res'" by (simp add: settled_def)
    moreover have "(rewrites_to rx routes ^^ 0) ?st ?st" by simp
    ultimately show ?thesis using r by (auto intro!: exI [of _ "0 :: nat"])
  next
    case (Some x)
    obtain r p q where x: "x = (r, p, q)" by (cases x)
    show ?thesis
    proof (cases "is_redirect r")
      case True
      with Some x Suc.prems have r: "\<not> exceeded"
        "res' = res\<lparr>rw_iterations := rw_iterations res + 1, rw_path := p, rw_query := q, rw_code := ro_status r, rw_terminal := True\<rparr>"
        by simp_all
      with True Some x have "settled rx routes ?st res'" by (simp add: settled_def)
      moreover have "(rewrites_to rx routes ^^ 0) ?st ?st" by simp
      ultimately show ?thesis using r by (auto intro!: exI [of _ "0 :: nat"])
    next
      case False
      let ?res = "res\<lparr>rw_iterations := rw_iterations res + 1, rw_path := p, rw_query := q\<rparr>"
      have step: "rewrites_to rx routes ?st (p, q)" using False Some x by (auto simp: rewrites_to_def)
      have "rewrite_rounds n rx routes ?res = (res', exceeded)" using Suc.prems(1) False Some x by simp
      from Suc.IH [OF this] Suc.prems(2) have IH: "if exceeded
        then (rewrites_to rx routes ^^ n) (p, q) (rw_path res', rw_query res') \<and>
             \<not> rw_terminal res' \<and> rw_iterations res' = rw_iterations res + 1 + n
        else \<exists>k<n. \<exists>st. (rewrites_to rx routes ^^ k) (p, q) st \<and>
             rw_iterations res' = rw_iterations res + 1 + k + 1 \<and> settled rx routes st res'"
        by (simp cong: if_cong)
      show ?thesis
      proof (cases exceeded)
        case True
        with IH relpowp_Suc_I2 [where P = "rewrites_to rx routes", OF step] show ?thesis by (simp del: relpowp.simps)
      next
        case False
        with IH obtain k st where k: "k < n" "(rewrites_to rx routes ^^ k) (p, q) st"
          "rw_iterations res' = rw_iterations res + 1 + k + 1" "settled rx routes st res'" by auto
        have "(rewrites_to rx routes ^^ Suc k) ?st st" by (rule relpowp_Suc_I2 [where P = "rewrites_to rx routes", OF step k(2)])
        with k False have "Suc k < Suc n \<and> (rewrites_to rx routes ^^ Suc k) ?st st \<and>
            rw_iterations res' = rw_iterations res + Suc k + 1 \<and> settled rx routes st res'"
          by (simp del: relpowp.simps)
        then show ?thesis using False unfolding if_not_P [OF False] by blast
      qed
    qed
  qed
qed simp

lemma rewrites_deterministic: "rewrites_to rx routes st s1 \<Longrightarrow> rewrites_to rx routes st s2 \<Longrightarrow> s1 = s2"
  by (auto simp: rewrites_to_def)

lemma relpowp_measure:
  fixes \<mu> :: "'a \<Rightarrow> nat"
  assumes "\<And>x y. R x y \<Longrightarrow> \<mu> y < \<mu> x"
  shows "(R ^^ n) x y \<Longrightarrow> \<mu> y + n \<le> \<mu> x"
proof (induction n arbitrary: y)
  case (Suc n)
  then obtain z where z: "(R ^^ n) x z" "R z y" by (auto elim: relpowp_Suc_E)
  from Suc.IH [OF z(1)] assms [OF z(2)] show ?case by simp
qed simp

definition loop_rounds :: "int \<Rightarrow> nat" where
  "loop_rounds m = (if m \<le> 0 then 10 else nat m)"

text \<open>The loop computes a normal form of one-round rewriting: without an error, its path and query are reached by
  fewer rounds than the bound, and there either no route applies, or a redirect does, whose target and status are
  the result; the error means that as many rounds as the bound have been made, none of them a redirect, and the result is where
  they have led.\<close>

theorem rewrite_loop_spec:
  assumes "rewrite_loop rx routes path query m = (res, exceeded)"
  shows "if exceeded
    then (rewrites_to rx routes ^^ loop_rounds m) (path, query) (rw_path res, rw_query res) \<and>
         \<not> rw_terminal res \<and> rw_iterations res = loop_rounds m
    else \<exists>k<loop_rounds m. \<exists>st. (rewrites_to rx routes ^^ k) (path, query) st \<and>
         rw_iterations res = k + 1 \<and> settled rx routes st res"
  using rewrite_rounds_spec [OF assms [unfolded rewrite_loop_def], folded loop_rounds_def] by (simp cong: if_cong)

text \<open>If every round shortens the path by some measure that starts below the bound, the loop ends without an error.\<close>

theorem rewrite_loop_settles:
  fixes \<mu> :: "string \<Rightarrow> nat"
  assumes "\<And>st st'. rewrites_to rx routes st st' \<Longrightarrow> \<mu> (fst st') < \<mu> (fst st)" and "\<mu> path < loop_rounds m"
  shows "\<not> snd (rewrite_loop rx routes path query m)"
proof
  assume e: "snd (rewrite_loop rx routes path query m)"
  obtain res where res: "rewrite_loop rx routes path query m = (res, True)"
    using e by (cases "rewrite_loop rx routes path query m") simp
  have "(rewrites_to rx routes ^^ loop_rounds m) (path, query) (rw_path res, rw_query res)"
    using rewrite_rounds_spec [OF res [unfolded rewrite_loop_def], folded loop_rounds_def] by simp
  from relpowp_measure [where \<mu> = "\<lambda>st. \<mu> (fst st)", OF _ this] assms show False by fastforce
qed

lemma split_once_none:
  "d \<notin> set s \<Longrightarrow> takeWhile (\<lambda>c. c \<noteq> d) s = s" "d \<notin> set s \<Longrightarrow> dropWhile (\<lambda>c. c \<noteq> d) s = []"
  by (induction s) auto

text \<open>A target that is its own rewriting keeps the loop going.\<close>

lemma fixed_target_exceeds:
  assumes "\<And>p. starts_with p (ro_prefix r) \<Longrightarrow> first_target rx p routes = Some (r, t)"
    and "starts_with t (ro_prefix r)" and "CHR ''?'' \<notin> set t" and "\<not> is_redirect r"
  shows "starts_with (rw_path res) (ro_prefix r) \<Longrightarrow>
    \<exists>res'. rewrite_rounds n rx routes res = (res', True) \<and> (n > 0 \<longrightarrow> rw_path res' = t)"
proof (induction n arbitrary: res)
  case (Suc n)
  have t: "before_query t = t" "target_query t = ''''"
    unfolding before_query_def target_query_def split_once_none [OF assms(3)] by simp_all
  let ?res = "res\<lparr>rw_iterations := rw_iterations res + 1, rw_path := t, rw_query := join_query '''' (rw_query res)\<rparr>"
  have "rewrite_round rx routes (rw_path res, rw_query res) = Some (r, t, join_query '''' (rw_query res))"
    using assms(1) [OF Suc.prems] t by (simp add: rewrite_round_def)
  then have "rewrite_rounds (Suc n) rx routes res = rewrite_rounds n rx routes ?res"
    using assms(4) by simp
  moreover obtain res' where "rewrite_rounds n rx routes ?res = (res', True)" "n > 0 \<longrightarrow> rw_path res' = t"
    using Suc.IH [of ?res] assms(2) by auto
  moreover have "n = 0 \<Longrightarrow> res' = ?res" using calculation by simp
  ultimately show ?case by (cases n) auto
qed simp

lemma replace_all_absent: "CHR ''$'' \<notin> set s \<Longrightarrow> replace_all (CHR ''$'' # old) new s = s"
proof (induction s)
  case (Cons c s)
  then show ?case by (subst replace_all.simps) auto
qed (simp add: replace_all.simps)

text \<open>The usual front controller cannot be written for the loop: a prefix route whose target lies below its own prefix
  applies to its own result, so every path it applies to ends in the error, whatever the bound.\<close>

theorem front_controller_exceeds:
  assumes "ro_regex r = ''''" and "ro_prefix r \<noteq> ''''" and "starts_with (ro_target r) (ro_prefix r)"
    and "CHR ''$'' \<notin> set (ro_target r)" and "CHR ''?'' \<notin> set (ro_target r)" and "\<not> is_redirect r"
    and "starts_with path (ro_prefix r)"
  shows "snd (rewrite_loop rx (r # rs) path query m) \<and>
    rw_path (fst (rewrite_loop rx (r # rs) path query m)) = ro_target r"
proof -
  have "ro_target r \<noteq> ''''" using assms(2,3) by (auto simp: starts_with_iff)
  then have "first_target rx p (r # rs) = Some (r, ro_target r)" if "starts_with p (ro_prefix r)" for p
    using assms(1,2) that replace_all_absent [OF assms(4)] by (simp add: loop_target_def)
  from fixed_target_exceeds [OF this assms(3,5,6), where n = "loop_rounds m" and
      res = "\<lparr>rw_path = path, rw_query = query, rw_code = 0, rw_terminal = False, rw_iterations = 0\<rparr>"] assms(7)
  show ?thesis by (auto simp: rewrite_loop_def loop_rounds_def)
qed

section \<open>Matching\<close>

text \<open>The matched route is the first of the table whose host, methods, headers and path pattern fit, and
  the loop over the routes never looks at a later one.\<close>

theorem match_first_spec:
  assumes "match_first rx routes q = Some r"
  shows "\<exists>rs rs'. routes = rs @ r # rs' \<and> match_route rx q r \<and> (\<forall>x \<in> set rs. \<not> match_route rx q x)"
  using assms unfolding match_first_def find_Some_iff
  by (metis id_take_nth_drop in_set_conv_nth length_take min_less_iff_conj nth_take)

text \<open>The two ways to rewrite disagree: for a pattern that matches a part of the path, \<open>$0\<close> in a target is the
  whole path for \<open>Rewrite\<close> and the matched part for the loop.\<close>

theorem rewrites_disagree:
  assumes "ro_target r = ''$0''" and "ro_regex r \<noteq> ''''" and "rx (ro_regex r) = Some f" and "f path = Some (m, [])"
    and "CHR ''$'' \<notin> set path" and "CHR ''$'' \<notin> set m"
  shows "rewrite_path rx r path = path \<and> loop_target rx path r = Some m"
proof -
  have "of_char (char_of (48 :: nat)) = (of_char (CHR ''0'') :: nat)" by simp
  then have "char_of (48 :: nat) = CHR ''0''" by (simp only: of_char_eq_iff)
  then have zero: "group_mark 0 = ''$0''" by (simp add: group_mark_def nat_to_str.simps)
  have "replace_all ''$0'' v ''$0'' = v" for v
    by (subst replace_all.simps) (simp add: replace_all.simps)
  then show ?thesis
    using assms(2-4) replace_all_absent [OF assms(5)] replace_all_absent [OF assms(6)]
    by (simp add: rewrite_path_def loop_target_def put_groups_def zero assms(1))
qed

section \<open>Witnesses\<close>

definition no_regex :: regex_engine where
  "no_regex pat = None"

definition demo_route :: "string \<Rightarrow> string \<Rightarrow> int \<Rightarrow> route" where
  "demo_route prefix target status =
     \<lparr>ro_host = '''', ro_path = '''', ro_prefix = prefix, ro_regex = '''', ro_target = target, ro_status = status,
      ro_methods = [], ro_headers = []\<rparr>"

definition demo_routes :: "route list" where
  "demo_routes = [demo_route ''/old'' ''/new?a=1'' 0, demo_route ''/legacy'' ''/moved'' 301]"

lemmas router_eval =
  rewrite_loop_def rewrite_round_def demo_routes_def demo_route_def loop_target_def is_redirect_def
  before_query_def target_query_def join_query_def replace_all.simps

theorem rewrite_loop_spec_witness:
  "\<exists>res. rewrite_loop no_regex demo_routes ''/old'' ''b=2'' 5 = (res, False) \<and> rw_path res = ''/new'' \<and>
     (\<exists>k<5. \<exists>st. (rewrites_to no_regex demo_routes ^^ k) (''/old'', ''b=2'') st \<and> rw_iterations res = k + 1 \<and>
        settled no_regex demo_routes st res)"
proof -
  define res where "res = \<lparr>rw_path = ''/new'', rw_query = ''a=1&b=2'', rw_code = 0, rw_terminal = False, rw_iterations = 2\<rparr>"
  have "rewrite_loop no_regex demo_routes ''/old'' ''b=2'' 5 = (res, False)"
    by (simp add: router_eval res_def eval_nat_numeral)
  with rewrite_loop_spec [OF this] show ?thesis by (auto simp: loop_rounds_def res_def)
qed

theorem rewrite_loop_settles_witness:
  "\<not> snd (rewrite_loop no_regex [demo_route ''/old'' ''/new'' 0] ''/old/x'' '''' 5)"
proof (rule rewrite_loop_settles [where \<mu> = "\<lambda>p. if starts_with p ''/old'' then 1 else 0"])
  show "(if starts_with (fst st') ''/old'' then 1 else 0) < (if starts_with (fst st) ''/old'' then 1 else (0 :: nat))"
    if "rewrites_to no_regex [demo_route ''/old'' ''/new'' 0] st st'" for st st'
    using that by (auto simp: rewrites_to_def router_eval split: if_splits option.splits)
qed (simp add: loop_rounds_def)

theorem front_controller_exceeds_witness:
  "snd (rewrite_loop no_regex [demo_route ''/'' ''/index.php'' 0] ''/about'' '''' 10)"
  using front_controller_exceeds [of "demo_route ''/'' ''/index.php'' 0" "''/about''" no_regex "[]" "''''" 10]
  by (simp add: demo_route_def is_redirect_def)

theorem match_first_spec_witness:
  "\<exists>rs rs'. demo_routes = rs @ demo_route ''/legacy'' ''/moved'' 301 # rs' \<and> length rs = 1"
proof -
  have "match_first no_regex demo_routes \<lparr>wq_method = ''GET'', wq_host = ''h'', wq_path = ''/legacy/a'', wq_query = '''', wq_headers = []\<rparr>
    = Some (demo_route ''/legacy'' ''/moved'' 301)"
    by (simp add: match_first_def match_route_def demo_routes_def demo_route_def)
  from match_first_spec [OF this] obtain rs rs' where
    rs: "demo_routes = rs @ demo_route ''/legacy'' ''/moved'' 301 # rs'"
    and "\<forall>x \<in> set rs. \<not> match_route no_regex \<lparr>wq_method = ''GET'', wq_host = ''h'', wq_path = ''/legacy/a'', wq_query = '''', wq_headers = []\<rparr> x"
    by blast
  from rs have "length rs = 1" by (cases rs) (auto simp: demo_routes_def demo_route_def Cons_eq_append_conv)
  with rs show ?thesis by blast
qed

theorem rewrites_disagree_witness:
  "\<exists>rx. rewrite_path rx ((demo_route '''' ''$0'' 0)\<lparr>ro_regex := ''b''\<rparr>) ''/b'' = ''/b'' \<and>
     loop_target rx ''/b'' ((demo_route '''' ''$0'' 0)\<lparr>ro_regex := ''b''\<rparr>) = Some ''b''"
proof -
  define rx :: regex_engine where "rx = (\<lambda>pat. Some (\<lambda>path. Some (''b'', [])))"
  have "rewrite_path rx ((demo_route '''' ''$0'' 0)\<lparr>ro_regex := ''b''\<rparr>) ''/b'' = ''/b'' \<and>
     loop_target rx ''/b'' ((demo_route '''' ''$0'' 0)\<lparr>ro_regex := ''b''\<rparr>) = Some ''b''"
    by (rule rewrites_disagree) (simp_all add: demo_route_def rx_def)
  then show ?thesis by blast
qed

end
