(* ===== verification/Explain.thy ===== *)
theory Explain
  imports Policy Router SiteServer
begin

text \<open>
  \<open>internal/diagnostics/explain.go\<close> and the handler of \<open>/api/explain\<close> in \<open>internal/ui/handlers.go\<close>: the
  answer behind the request explorer and the route tester. \<open>new_request\<close> stands for \<open>http.NewRequest\<close>, the
  parsing of a URL by \<open>net/url\<close>. The router, which the handler leaves out, is optional: \<open>explain_route\<close> is what the explainer asks of
  one. \<open>file_error_text\<close> prints the errors of the resolver.
\<close>

section \<open>The explanation\<close>

record url_request =
  ur_host :: string
  ur_path :: string
  ur_query :: string

record route_result =
  rr_name :: string
  rr_target :: string
  rr_rewritten :: string

record go_explanation =
  gx_request :: url_request
  gx_raw :: string
  gx_decoded :: string
  gx_normalized :: string
  gx_valid :: bool
  gx_error :: string
  gx_decision :: string
  gx_route :: "route_result option"
  gx_found :: bool
  gx_real_path :: string
  gx_is_php :: bool
  gx_protected :: bool
  gx_file_error :: string
  gx_script :: bool
  gx_script_name :: string
  gx_script_path :: string
  gx_script_error :: string
  gx_summary :: string

record explainer =
  xr_resolver :: resolver
  xr_router :: "(url_request \<Rightarrow> string \<Rightarrow> route_result option) option"
  xr_rules :: "rule list option"
  xr_doc_root :: string

text \<open>\<open>resolveScriptForExplain\<close>: the first round of the loop over the entry points returns.\<close>

definition resolve_script_for_explain :: "string \<Rightarrow> string \<times> string" where
  "resolve_script_for_explain normalized =
     (if ends_with normalized ''.php'' then (normalized, normalized)
      else (''/public/index.php'', ''public/index.php''))"

text \<open>\<open>resolveScript\<close> of \<open>cmd/gateway/main.go\<close>, whose logic the comment there claims to follow.\<close>

definition exists_file :: "'c files \<Rightarrow> string \<Rightarrow> string \<Rightarrow> bool" where
  "exists_file fs cwd p \<longleftrightarrow> stat fs (path_of (abs_path cwd p)) \<noteq> None"

definition resolve_script :: "'c files \<Rightarrow> string \<Rightarrow> string \<Rightarrow> string \<Rightarrow> string \<times> string" where
  "resolve_script fs cwd doc_root normalized =
     (if ends_with normalized ''.php'' \<and> exists_file fs cwd (join_path doc_root (tl normalized))
      then (normalized, join_path doc_root (tl normalized))
      else if exists_file fs cwd (join_path doc_root ''public/index.php'')
      then (''/public/index.php'', join_path doc_root ''public/index.php'')
      else if exists_file fs cwd (join_path doc_root ''index.php'')
      then (''/index.php'', join_path doc_root ''index.php'')
      else ('''', ''''))"

definition rejected :: "url_request \<Rightarrow> path_error \<Rightarrow> go_explanation" where
  "rejected req e =
     \<lparr>gx_request = req, gx_raw = ur_path req, gx_decoded = '''', gx_normalized = '''', gx_valid = False,
      gx_error = path_error_text e, gx_decision = '''', gx_route = None, gx_found = False, gx_real_path = '''',
      gx_is_php = False, gx_protected = False, gx_file_error = '''', gx_script = False, gx_script_name = '''',
      gx_script_path = '''', gx_script_error = '''',
      gx_summary = ''REJECTED: path normalization failed: '' @ path_error_text e\<rparr>"

definition build_summary :: "go_explanation \<Rightarrow> string" where
  "build_summary x =
     (let parts =
        (if gx_decision x = ''observe'' then [''POLICY:observed''] else []) @
        (case gx_route x of None \<Rightarrow> [] | Some r \<Rightarrow> [''ROUTE:'' @ rr_name r @ ''->'' @ rr_target r]) @
        [if gx_found x then ''FILE:'' @ gx_real_path x
         else if gx_script x then ''SCRIPT:'' @ gx_script_name x
         else ''NOT_FOUND'']
      in if parts = [] then ''OK'' else join '' '' parts)"

text \<open>The steps after the policy check, for the path the route leaves.\<close>

definition with_file :: "(resolve_error \<Rightarrow> string) \<Rightarrow> 'c files \<Rightarrow> string \<Rightarrow> explainer \<Rightarrow> string \<Rightarrow> go_explanation \<Rightarrow> go_explanation" where
  "with_file file_error_text fs cwd ex path x =
     (let x1 =
        (case resolve fs cwd (xr_resolver ex) path of
           Inr real \<Rightarrow> x\<lparr>gx_found := True, gx_real_path := real, gx_is_php := ends_with real ''.php''\<rparr>
         | Inl e \<Rightarrow> x\<lparr>gx_found := False, gx_file_error := file_error_text e\<rparr>);
        x2 = x1\<lparr>gx_protected := is_protected (xr_resolver ex) path\<rparr>
      in if \<not> gx_found x2 \<or> gx_is_php x2 then
           (let (name, script) = resolve_script_for_explain path
            in if script \<noteq> '''' then x2\<lparr>gx_script := True, gx_script_name := name, gx_script_path := script\<rparr>
               else x2\<lparr>gx_script := False, gx_script_error := ''no PHP entry point found''\<rparr>)
         else x2)"

text \<open>The route of a request: it is matched by the path of the URL, and rewrites the normalised one.\<close>

definition explain_request :: "url_request \<Rightarrow> web_request" where
  "explain_request req =
     \<lparr>wq_method = ''GET'', wq_host = ur_host req, wq_path = ur_path req, wq_query = ur_query req, wq_headers = []\<rparr>"

definition explain_route :: "regex_engine \<Rightarrow> route list \<Rightarrow> url_request \<Rightarrow> string \<Rightarrow> route_result option" where
  "explain_route rx routes req np =
     (case match_first rx routes (explain_request req) of
        None \<Rightarrow> None
      | Some r \<Rightarrow>
          Some \<lparr>rr_name = ro_path r @ ro_prefix r @ ro_regex r, rr_target = ro_target r,
                rr_rewritten = rewrite_path rx r np\<rparr>)"

definition explain ::
  "other_match \<Rightarrow> (resolve_error \<Rightarrow> string) \<Rightarrow> 'c files \<Rightarrow> string \<Rightarrow> explainer \<Rightarrow> url_request \<Rightarrow> go_explanation" where
  "explain other file_error_text fs cwd ex req =
     (case parse_path (ur_path req) of
        Inl e \<Rightarrow> rejected req e
      | Inr pp \<Rightarrow>
          (let np = pp_normalized pp;
               rules = (case xr_rules ex of None \<Rightarrow> [] | Some rs \<Rightarrow> rs);
               ctx = \<lparr>cx_phase = PhaseRequest, cx_method = ''GET'', cx_path = np, cx_host = ur_host req,
                      cx_headers = [], cx_query = ur_query req, cx_body_size = 0, cx_tls = False\<rparr>;
               d = evaluate other rules ctx;
               x = \<lparr>gx_request = req, gx_raw = ur_path req, gx_decoded = np, gx_normalized = np, gx_valid = True,
                    gx_error = '''', gx_decision = decision_str d, gx_route = None, gx_found = False,
                    gx_real_path = '''', gx_is_php = False, gx_protected = False, gx_file_error = '''',
                    gx_script = False, gx_script_name = '''', gx_script_path = '''', gx_script_error = '''',
                    gx_summary = ''''\<rparr>
           in if d = DecisionDeny then
                x\<lparr>gx_summary := ''DENIED by policy: method=GET path='' @ np\<rparr>
              else
                (let route = Option.bind (xr_router ex) (\<lambda>f. f req np);
                     path = (case route of None \<Rightarrow> np | Some r \<Rightarrow> rr_rewritten r);
                     y = with_file file_error_text fs cwd ex path (x\<lparr>gx_route := route\<rparr>)
                 in y\<lparr>gx_summary := build_summary y\<rparr>)))"

section \<open>The handler\<close>

text \<open>The target of the query, and the request made of it.\<close>

definition explain_target :: "string \<Rightarrow> string" where
  "explain_target q =
     (let target = (if q = '''' then ''/index.php'' else q)
      in if starts_with target ''http://'' \<or> starts_with target ''https://'' then target
         else ''http://localhost'' @ target)"

definition handler_explainer :: "string \<Rightarrow> string \<Rightarrow> explainer" where
  "handler_explainer cwd doc_root =
     (let root = abs_path cwd doc_root
      in \<lparr>xr_resolver = new_resolver root SymlinkWithinRoot default_protected_patterns, xr_router = None,
          xr_rules = None, xr_doc_root = root\<rparr>)"

definition omit_empty :: "string \<Rightarrow> string \<Rightarrow> (string \<times> json) list" where
  "omit_empty k v = (if v = '''' then [] else [(k, JStr v)])"

text \<open>The JSON of an explanation; \<open>matched_rules\<close> is a nil slice, hence \<open>null\<close>.\<close>

definition encode_explanation :: "string \<Rightarrow> go_explanation \<Rightarrow> json" where
  "encode_explanation duration x =
     JObj
       [(''request'', JObj
          [(''method'', JStr ''GET''), (''host'', JStr (ur_host (gx_request x))), (''path'', JStr (ur_path (gx_request x))),
           (''query'', JStr (ur_query (gx_request x))), (''headers'', JObj []), (''tls'', JBool False),
           (''remote'', JStr '''')]),
        (''path_normalization'', JObj
          ([(''raw'', JStr (gx_raw x)), (''decoded'', JStr (gx_decoded x)), (''normalized'', JStr (gx_normalized x)),
            (''valid'', JBool (gx_valid x))] @ omit_empty ''error'' (gx_error x))),
        (''policy_check'', JObj [(''decision'', JStr (gx_decision x)), (''matched_rules'', JNull)]),
        (''route_match'', JObj
          ((''matched'', JBool (gx_route x \<noteq> None)) #
           (case gx_route x of None \<Rightarrow> []
            | Some r \<Rightarrow> omit_empty ''route_name'' (rr_name r) @ omit_empty ''target'' (rr_target r) @
                         omit_empty ''rewritten'' (rr_rewritten r)))),
        (''file_check'', JObj
          ((''found'', JBool (gx_found x)) # omit_empty ''real_path'' (gx_real_path x) @
           [(''is_php'', JBool (gx_is_php x)), (''protected'', JBool (gx_protected x))] @
           omit_empty ''error'' (gx_file_error x))),
        (''script_check'', JObj
          ((''found'', JBool (gx_script x)) # omit_empty ''script_name'' (gx_script_name x) @
           omit_empty ''script_path'' (gx_script_path x) @ omit_empty ''error'' (gx_script_error x))),
        (''summary'', JStr (gx_summary x)), (''duration'', JStr duration)]"

definition handle_explain ::
  "other_match \<Rightarrow> (resolve_error \<Rightarrow> string) \<Rightarrow> (string \<Rightarrow> string + url_request) \<Rightarrow> string \<Rightarrow> 'c files \<Rightarrow> string \<Rightarrow>
   string \<Rightarrow> string \<Rightarrow> response" where
  "handle_explain other file_error_text new_request duration fs cwd doc_root q =
     (case new_request (explain_target q) of
        Inl e \<Rightarrow> json_err e 400
      | Inr req \<Rightarrow>
          json_resp (encode_explanation duration
            (explain other file_error_text fs cwd (handler_explainer cwd doc_root) req)))"

section \<open>What the dashboard reads\<close>

text \<open>
  The members the pages read, as the record of the TypeScript interface: \<open>undefined\<close> where a string is
  declared counts as the empty string, which renders the same.
\<close>

definition str_member :: "string \<Rightarrow> (string \<times> json) list \<Rightarrow> string" where
  "str_member k ms = (case member_of k ms of Some (JStr s) \<Rightarrow> s | _ \<Rightarrow> '''')"

definition opt_str_member :: "string \<Rightarrow> (string \<times> json) list \<Rightarrow> string option" where
  "opt_str_member k ms = (case member_of k ms of Some (JStr s) \<Rightarrow> Some s | _ \<Rightarrow> None)"

definition bool_member :: "string \<Rightarrow> (string \<times> json) list \<Rightarrow> bool" where
  "bool_member k ms = (case member_of k ms of Some j \<Rightarrow> truthy j | None \<Rightarrow> False)"

definition obj_member :: "string \<Rightarrow> (string \<times> json) list \<Rightarrow> (string \<times> json) list option" where
  "obj_member k ms = Option.bind (member_of k ms) members_of"

definition read_explanation :: "json \<Rightarrow> explanation option" where
  "read_explanation j =
     (case members_of j of
        None \<Rightarrow> None
      | Some ms \<Rightarrow>
          (case (obj_member ''request'' ms, obj_member ''path_normalization'' ms, obj_member ''policy_check'' ms) of
             (Some q, Some p, Some c) \<Rightarrow>
               (case (obj_member ''route_match'' ms, obj_member ''file_check'' ms, obj_member ''script_check'' ms) of
                  (Some r, Some f, Some s) \<Rightarrow>
                    Some \<lparr>e_request =
                            \<lparr>q_method = str_member ''method'' q, q_host = str_member ''host'' q,
                             q_path = str_member ''path'' q, q_query = str_member ''query'' q, q_headers = [],
                             q_tls = bool_member ''tls'' q, q_remote = str_member ''remote'' q\<rparr>,
                          e_path_normalization =
                            \<lparr>pn_raw = str_member ''raw'' p, pn_decoded = str_member ''decoded'' p,
                             pn_normalized = str_member ''normalized'' p, pn_valid = bool_member ''valid'' p\<rparr>,
                          e_policy_check =
                            \<lparr>pc_decision = str_member ''decision'' c,
                             pc_matched_rules = (case member_of ''matched_rules'' c of
                                Some (JArr js) \<Rightarrow> Some (map js_string js) | _ \<Rightarrow> None)\<rparr>,
                          e_route_match =
                            \<lparr>rm_matched = bool_member ''matched'' r, rm_target = opt_str_member ''target'' r\<rparr>,
                          e_file_check =
                            \<lparr>fc_found = bool_member ''found'' f, fc_is_php = bool_member ''is_php'' f,
                             fc_protected = bool_member ''protected'' f, fc_error = opt_str_member ''error'' f\<rparr>,
                          e_script_check =
                            \<lparr>sc_found = bool_member ''found'' s, sc_script_name = str_member ''script_name'' s,
                             sc_script_path = str_member ''script_path'' s\<rparr>,
                          e_summary = str_member ''summary'' ms, e_duration = str_member ''duration'' ms\<rparr>
                | _ \<Rightarrow> None)
           | _ \<Rightarrow> None))"

section \<open>Reading back what was written\<close>

lemma omit_empty_member [simp]:
  "member_of k (omit_empty k v @ ms) = (if v \<noteq> '''' \<and> member_of k ms = None then Some (JStr v) else member_of k ms)"
  "k \<noteq> k' \<Longrightarrow> member_of k (omit_empty k' v @ ms) = member_of k ms"
  by (auto simp: member_of_def omit_empty_def map_add_def split: option.splits)

lemma member_of_Cons [simp]:
  "member_of k ((k', v) # ms) = (case member_of k ms of None \<Rightarrow> if k = k' then Some v else None | Some w \<Rightarrow> Some w)"
  by (auto simp: member_of_def map_add_def split: option.splits)

lemma member_of_Nil [simp]: "member_of k [] = None"
  by (simp add: member_of_def)

lemma omit_empty_only [simp]:
  "member_of k (omit_empty k v) = (if v = '''' then None else Some (JStr v))"
  "k \<noteq> k' \<Longrightarrow> member_of k (omit_empty k' v) = None"
  using omit_empty_member(1) [of k v "[]"] omit_empty_member(2) [of k k' v "[]"] by simp_all

text \<open>The interface's view of an explanation.\<close>

definition explanation_view :: "string \<Rightarrow> go_explanation \<Rightarrow> explanation" where
  "explanation_view duration x =
     \<lparr>e_request =
        \<lparr>q_method = ''GET'', q_host = ur_host (gx_request x), q_path = ur_path (gx_request x),
         q_query = ur_query (gx_request x), q_headers = [], q_tls = False, q_remote = ''''\<rparr>,
      e_path_normalization =
        \<lparr>pn_raw = gx_raw x, pn_decoded = gx_decoded x, pn_normalized = gx_normalized x, pn_valid = gx_valid x\<rparr>,
      e_policy_check = \<lparr>pc_decision = gx_decision x, pc_matched_rules = None\<rparr>,
      e_route_match =
        \<lparr>rm_matched = gx_route x \<noteq> None,
         rm_target = (case gx_route x of None \<Rightarrow> None | Some r \<Rightarrow> if rr_target r = '''' then None else Some (rr_target r))\<rparr>,
      e_file_check =
        \<lparr>fc_found = gx_found x, fc_is_php = gx_is_php x, fc_protected = gx_protected x,
         fc_error = (if gx_file_error x = '''' then None else Some (gx_file_error x))\<rparr>,
      e_script_check =
        \<lparr>sc_found = gx_script x, sc_script_name = gx_script_name x, sc_script_path = gx_script_path x\<rparr>,
      e_summary = gx_summary x, e_duration = duration\<rparr>"

lemmas read_defs =
  str_member_def opt_str_member_def bool_member_def obj_member_def

lemma read_encoded: "read_explanation (encode_explanation duration x) = Some (explanation_view duration x)"
  unfolding read_explanation_def encode_explanation_def explanation_view_def
  by (simp add: read_defs split: option.splits)

text \<open>The JSON the server sends for an explanation gives the dashboard every field its pages show, with the
  matched rules missing whatever the policy decided.\<close>

theorem explanation_roundtrip:
  "read_explanation (encode_explanation duration x) = Some (explanation_view duration x)"
  by (rule read_encoded)

section \<open>What the handler explains\<close>

text \<open>For a path that passes the checks, the explanation behind the explorer allows the request and matches no
  route, whatever rules and routes the gateway has; it finds a file exactly when the resolver opens one
  below the document root, and says so in the summary; in every other case the summary is a script.\<close>

theorem handler_explanation:
  assumes "parse_path (ur_path req) = Inr pp"
    and "x = explain other msg fs cwd (handler_explainer cwd doc_root) req"
    and "r = new_resolver (abs_path cwd doc_root) SymlinkWithinRoot default_protected_patterns"
  shows "gx_valid x \<and> gx_normalized x = pp_normalized pp \<and> gx_decision x = ''allow'' \<and> gx_route x = None \<and>
    gx_protected x = is_protected r (pp_normalized pp) \<and>
    (case resolve fs cwd r (pp_normalized pp) of
       Inr real \<Rightarrow> gx_found x \<and> gx_real_path x = real \<and> gx_summary x = ''FILE:'' @ real
     | Inl e \<Rightarrow> \<not> gx_found x \<and> gx_file_error x = msg e \<and> gx_script x \<and>
         gx_summary x = ''SCRIPT:'' @ fst (resolve_script_for_explain (pp_normalized pp)))"
proof -
  have script: "snd (resolve_script_for_explain n) \<noteq> ''''" for n
    by (auto simp: resolve_script_for_explain_def ends_with_iff)
  have allow: "evaluate other [] c = DecisionAllow" for c
    by (simp add: evaluate_def evaluate_rule_def)
  show ?thesis
    unfolding assms(2,3) explain_def handler_explainer_def Let_def assms(1)
    using script [of "pp_normalized pp"]
    by (cases "resolve fs cwd (new_resolver (abs_path cwd doc_root) SymlinkWithinRoot default_protected_patterns) (pp_normalized pp)")
      (auto simp: allow with_file_def build_summary_def Let_def split: prod.splits)
qed

text \<open>The explanation names an entry point that does not exist: with neither entry script nor the requested
  file in the document root, the gateway finds no script, and the explorer is told \<open>public/index.php\<close>.\<close>

theorem explainer_invents_entry_point:
  assumes "parse_path (ur_path req) = Inr pp" and "\<not> ends_with (pp_normalized pp) ''.php''"
    and "\<not> exists_file fs cwd (join_path (abs_path cwd doc_root) ''public/index.php'')"
    and "\<not> exists_file fs cwd (join_path (abs_path cwd doc_root) ''index.php'')"
    and "resolve fs cwd (new_resolver (abs_path cwd doc_root) SymlinkWithinRoot default_protected_patterns)
      (pp_normalized pp) = Inl e"
  shows "resolve_script fs cwd (abs_path cwd doc_root) (pp_normalized pp) = ('''', '''') \<and>
    gx_summary (explain other msg fs cwd (handler_explainer cwd doc_root) req) = ''SCRIPT:/public/index.php'' \<and>
    gx_script (explain other msg fs cwd (handler_explainer cwd doc_root) req)"
proof -
  have "evaluate other [] c = DecisionAllow" for c
    by (simp add: evaluate_def evaluate_rule_def)
  then show ?thesis
    using assms
    by (simp add: explain_def handler_explainer_def Let_def with_file_def build_summary_def
        resolve_script_for_explain_def resolve_script_def)
qed

section \<open>Witnesses\<close>

definition demo_other :: other_match where
  "demo_other t v ctx = False"

definition demo_error_text :: "resolve_error \<Rightarrow> string" where
  "demo_error_text e = ''file not found''"

definition demo_request :: url_request where
  "demo_request = \<lparr>ur_host = ''localhost'', ur_path = ''/about'', ur_query = ''''\<rparr>"

lemma demo_handler_root: "abs_path ''/'' ''/srv/app'' = ''/srv/app''"
  using clean_normalized [OF demo_root_plain(1)] by (simp add: abs_path_def demo_root_def normalized_path_def)

lemma demo_handler_resolver:
  "new_resolver ''/srv/app'' SymlinkWithinRoot default_protected_patterns = site_resolver demo_site_handler"
  by (simp add: site_resolver_def demo_site_handler_def demo_root_def normalized_path_def)

theorem handler_explanation_witness:
  "gx_found (explain demo_other demo_error_text demo_tree ''/'' (handler_explainer ''/'' ''/srv/app'') demo_request) \<and>
   gx_summary (explain demo_other demo_error_text demo_tree ''/'' (handler_explainer ''/'' ''/srv/app'') demo_request) = ''FILE:/srv/app/about''"
proof -
  obtain pp where pp: "parse_path ''/about'' = Inr pp" "pp_normalized pp = normalized_path [''about'']"
    using demo_about by blast
  then have "parse_path (ur_path demo_request) = Inr pp" by (simp add: demo_request_def)
  from handler_explanation [OF this refl refl, of demo_other demo_error_text demo_tree "''/''" "''/srv/app''"] pp(2) show ?thesis
    by (simp add: demo_handler_root demo_handler_resolver demo_resolve)
qed

theorem explainer_invents_entry_point_witness:
  "gx_summary (explain demo_other demo_error_text ([] :: nat files) ''/'' (handler_explainer ''/'' ''/srv/app'') demo_request) =
     ''SCRIPT:/public/index.php''"
proof -
  obtain pp where pp: "parse_path ''/about'' = Inr pp" "pp_normalized pp = normalized_path [''about'']"
    using demo_about by blast
  then have p: "parse_path (ur_path demo_request) = Inr pp" by (simp add: demo_request_def)
  have none: "\<not> exists_file ([] :: nat files) ''/'' (join_path ''/srv/app'' w)"
    if "w = ''public/index.php'' \<or> w = ''index.php''" for w
    using that
    by (auto simp: exists_file_def stat_def locate_def kernel_links_def path_of_def abs_path_def join_path_def
        clean_path_def normalized_path_def split_and_collapse_def collapse_step_def fget_def)
  have "resolve ([] :: nat files) ''/'' (site_resolver demo_site_handler) (normalized_path [''about'']) = Inl ErrFileNotFound"
    using resolve_below [OF demo_rooted _ demo_not_protected(1), of "[]" "''/''"]
    by (simp add: plain_segment_def demo_root_def locate_def kernel_links_def fget_def)
  with explainer_invents_entry_point [OF p, of "[] :: nat files" "''/''" "''/srv/app''" ErrFileNotFound demo_other demo_error_text]
  show ?thesis
    using none pp(2)
    by (simp add: demo_handler_root demo_handler_resolver normalized_path_def ends_with_def)
qed

end
