(* ===== verification/Guard.thy ===== *)
theory Guard
  imports SiteServer Complex_Main
begin

text \<open>
  The guard in front of the management server: \<open>internal/admin/guard.go\<close> with the rate limiter and the
  audit log of \<open>internal/admin/api.go\<close>, around any handler. The server it wraps is in \<open>Management\<close>.

  A request holds what the guard reads of it. \<open>Header.Get\<close> yields the empty string for a header that
  is not there. Points of time are seconds, as rational numbers where the code has floats; a request reads the clock twice, when the
  limiter measures the elapsed time and when it stores the time of the check.
\<close>

section \<open>Requests\<close>

record http_req =
  hq_method :: string
  hq_path :: string
  hq_query :: string
  hq_authorization :: string
  hq_origin :: string
  hq_upgrade :: string
  hq_cookies :: "(string \<times> string) list"
  hq_host :: string
  hq_remote :: string
  hq_body :: "json option"

definition client_host :: "http_req \<Rightarrow> string" where
  "client_host r = (case split_host_port (hq_remote r) of None \<Rightarrow> hq_remote r | Some (h, p) \<Rightarrow> h)"

section \<open>api.go: the rate limiter\<close>

record bucket =
  bk_tokens :: rat
  bk_last :: rat

type_synonym buckets = "string \<Rightarrow> bucket option"
type_synonym clock = "rat \<times> rat"

definition bucket_of :: "int \<Rightarrow> rat \<Rightarrow> string \<Rightarrow> buckets \<Rightarrow> bucket" where
  "bucket_of rate t key bs =
     (case bs key of Some b \<Rightarrow> b | None \<Rightarrow> \<lparr>bk_tokens = of_int rate, bk_last = t\<rparr>)"

definition refill :: "int \<Rightarrow> rat \<Rightarrow> bucket \<Rightarrow> rat" where
  "refill rate t b =
     (let tokens = bk_tokens b + (t - bk_last b) * of_int rate / 60
      in if tokens > of_int rate then of_int rate else tokens)"

definition allow :: "int \<Rightarrow> clock \<Rightarrow> string \<Rightarrow> buckets \<Rightarrow> bool \<times> buckets" where
  "allow rate clk key bs =
     (let tokens = refill rate (fst clk) (bucket_of rate (fst clk) key bs)
      in if tokens < 1 then (False, bs(key \<mapsto> \<lparr>bk_tokens = tokens, bk_last = snd clk\<rparr>))
         else (True, bs(key \<mapsto> \<lparr>bk_tokens = tokens - 1, bk_last = snd clk\<rparr>)))"

section \<open>api.go: the audit log\<close>

record audit_entry =
  au_time :: rat
  au_action :: string
  au_remote :: string
  au_path :: string

definition audit_log :: "audit_entry \<Rightarrow> audit_entry list \<Rightarrow> audit_entry list" where
  "audit_log x xs =
     (let xs' = xs @ [x] in if length xs' > 1000 then drop (length xs' - 1000) xs' else xs')"

lemma audit_log_take_last: "audit_log x xs = take_last 1000 (xs @ [x])"
  by (simp add: audit_log_def take_last_def Let_def)

section \<open>guard.go\<close>

record guard_config =
  gc_token :: string
  gc_origins :: "string list"
  gc_rate :: int
  gc_public :: "string list"

record guard =
  gd_buckets :: buckets
  gd_audit :: "audit_entry list"
  gd_denials :: nat

definition default_guard_config :: guard_config where
  "default_guard_config =
     \<lparr>gc_token = '''', gc_origins = [], gc_rate = 600, gc_public = [''/api/health'']\<rparr>"

text \<open>\<open>NewGuard\<close>: the configuration it works with, and its state.\<close>

definition checked_config :: "guard_config \<Rightarrow> guard_config" where
  "checked_config cfg = (if gc_rate cfg \<le> 0 then cfg\<lparr>gc_rate := gc_rate default_guard_config\<rparr> else cfg)"

definition new_guard :: guard where
  "new_guard = \<lparr>gd_buckets = Map.empty, gd_audit = [], gd_denials = 0\<rparr>"

definition audited :: "rat \<Rightarrow> string \<Rightarrow> http_req \<Rightarrow> guard \<Rightarrow> guard" where
  "audited t action r g =
     g\<lparr>gd_audit := audit_log \<lparr>au_time = t, au_action = action, au_remote = hq_remote r, au_path = hq_path r\<rparr> (gd_audit g)\<rparr>"

definition deny :: "rat \<Rightarrow> http_req \<Rightarrow> string \<Rightarrow> guard \<Rightarrow> guard" where
  "deny t r action g = audited t action r (g\<lparr>gd_denials := gd_denials g + 1\<rparr>)"

definition session_cookie :: string where
  "session_cookie = ''gateway_session''"

definition token_matches :: "guard_config \<Rightarrow> string \<Rightarrow> bool" where
  "token_matches cfg candidate =
     (if gc_token cfg = '''' \<or> candidate = '''' then False else candidate = gc_token cfg)"

definition is_page_load :: "http_req \<Rightarrow> bool" where
  "is_page_load r \<longleftrightarrow> hq_method r = ''GET'' \<and> \<not> starts_with (hq_path r) ''/api/''"

definition is_websocket_upgrade :: "http_req \<Rightarrow> bool" where
  "is_websocket_upgrade r \<longleftrightarrow> to_lower (hq_upgrade r) = ''websocket''"

definition bearer :: string where
  "bearer = ''Bearer ''"

definition authenticate :: "guard_config \<Rightarrow> http_req \<Rightarrow> bool" where
  "authenticate cfg r =
     (if gc_token cfg = '''' then False
      else if starts_with (hq_authorization r) bearer
        then token_matches cfg (drop (length bearer) (hq_authorization r))
      else if (case map_of (hq_cookies r) session_cookie of None \<Rightarrow> False | Some v \<Rightarrow> token_matches cfg v) then True
      else if is_websocket_upgrade r \<or> is_page_load r then token_matches cfg (query_get ''token'' (hq_query r))
      else False)"

definition same_origin :: "string \<Rightarrow> string \<Rightarrow> bool" where
  "same_origin origin host =
     ((if starts_with origin ''http://'' then drop 7 origin
       else if starts_with origin ''https://'' then drop 8 origin else origin) = host)"

definition check_origin :: "guard_config \<Rightarrow> http_req \<Rightarrow> bool" where
  "check_origin cfg r =
     (if hq_origin r = '''' then True
      else if same_origin (hq_origin r) (hq_host r) then True
      else hq_origin r \<in> set (gc_origins cfg))"

text \<open>
  The value of the cookie that \<open>issueSession\<close> sets, as a browser sends it back and \<open>r.Cookie\<close> reads it:
  \<open>net/http\<close> drops the bytes a cookie value cannot hold.
\<close>

definition cookie_char :: "char \<Rightarrow> bool" where
  "cookie_char c \<longleftrightarrow>
     in_range (CHR '' '') (CHR ''~'') c \<and> c \<noteq> CHR 0x22 \<and> c \<noteq> CHR '';'' \<and> c \<noteq> CHR 0x5C"

definition issue_session :: "guard_config \<Rightarrow> string" where
  "issue_session cfg = filter cookie_char (gc_token cfg)"

text \<open>What comes back: a denial with its headers, or the answer of the handler behind the guard with the cookie issued.\<close>

datatype 'r guarded =
    Denied nat "(string \<times> string) list" string
  | Served "string option" 'r

definition guard_wrap ::
  "guard_config \<Rightarrow> (http_req \<Rightarrow> 's \<Rightarrow> 'r \<times> 's) \<Rightarrow> clock \<Rightarrow> http_req \<Rightarrow> guard \<times> 's \<Rightarrow> 'r guarded \<times> guard \<times> 's" where
  "guard_wrap cfg inner clk r gs =
     (let s = snd gs;
          now = snd clk;
          allowed = allow (gc_rate cfg) clk (client_host r) (gd_buckets (fst gs));
          g = (fst gs)\<lparr>gd_buckets := snd allowed\<rparr>
      in if \<not> fst allowed then
           (Denied 429 [(''Retry-After'', ''60'')] ''rate limited'', deny now r ''rate_limited'' g, s)
         else if \<not> check_origin cfg r then
           (Denied 403 [] ''forbidden origin'', deny now r ''origin_rejected'' g, s)
         else if hq_path r \<in> set (gc_public cfg) then
           (Served None (fst (inner r s)), g, snd (inner r s))
         else if \<not> authenticate cfg r then
           (Denied 401 [(''WWW-Authenticate'', ''Bearer realm=\"gateway management API\"'')] ''unauthorized'',
            deny now r ''auth_failed'' g, s)
         else
           (let cookie = (if is_page_load r \<and> query_get ''token'' (hq_query r) \<noteq> '''' then Some (issue_session cfg) else None);
                g1 = (if hq_method r \<noteq> ''GET'' \<and> hq_method r \<noteq> ''HEAD''
                      then audited now (hq_method r @ '' '' @ hq_path r) r g else g)
            in (Served cookie (fst (inner r s)), g1, snd (inner r s))))"

section \<open>The limiter\<close>

text \<open>Clock readings that do not run backwards, from one time to another.\<close>

fun in_time :: "rat \<Rightarrow> clock list \<Rightarrow> rat \<Rightarrow> bool" where
  "in_time t0 [] t1 = (t0 \<le> t1)"
| "in_time t0 (clk # cs) t1 = (t0 \<le> fst clk \<and> fst clk \<le> snd clk \<and> in_time (snd clk) cs t1)"

lemma in_time_le: "in_time t0 cs t1 \<Longrightarrow> t0 \<le> t1"
  by (induction cs arbitrary: t0) fastforce+

text \<open>
  What a bucket can still pay for up to a time: its tokens and what flows in. It is never negative, and
  no check of any client raises it.
\<close>

definition credit :: "int \<Rightarrow> rat \<Rightarrow> bucket \<Rightarrow> rat" where
  "credit rate t b = bk_tokens b + (t - bk_last b) * of_int rate / 60"

definition bucket_ok :: "int \<Rightarrow> rat \<Rightarrow> bucket \<Rightarrow> bool" where
  "bucket_ok rate t b \<longleftrightarrow> 0 \<le> bk_tokens b \<and> bk_tokens b \<le> of_int rate \<and> bk_last b \<le> t"

definition buckets_ok :: "int \<Rightarrow> rat \<Rightarrow> buckets \<Rightarrow> bool" where
  "buckets_ok rate t bs \<longleftrightarrow> (\<forall>b \<in> ran bs. bucket_ok rate t b)"

lemma credit_nonneg: "0 < rate \<Longrightarrow> bucket_ok rate t b \<Longrightarrow> 0 \<le> credit rate t b"
  by (simp add: credit_def bucket_ok_def)

lemma refill_le: "refill rate t b \<le> credit rate t b" "refill rate t b \<le> of_int rate"
  by (simp_all add: refill_def credit_def Let_def)

lemma refill_nonneg: "0 < rate \<Longrightarrow> bucket_ok rate t b \<Longrightarrow> 0 \<le> refill rate t b"
  using credit_nonneg [of rate t b] by (simp add: refill_def credit_def Let_def)

lemma bucket_of_ok: "0 < rate \<Longrightarrow> buckets_ok rate t bs \<Longrightarrow> bucket_ok rate t (bucket_of rate t key bs)"
  by (cases "bs key") (auto simp: bucket_of_def buckets_ok_def bucket_ok_def ran_def)

lemma bucket_ok_later: "bucket_ok rate t b \<Longrightarrow> t \<le> t' \<Longrightarrow> bucket_ok rate t' b"
  by (simp add: bucket_ok_def)

lemma buckets_ok_later: "buckets_ok rate t bs \<Longrightarrow> t \<le> t' \<Longrightarrow> buckets_ok rate t' bs"
  by (auto simp: buckets_ok_def intro: bucket_ok_later)

text \<open>What one check does: the bucket of the client, and the answer.\<close>

lemma allow_cases:
  obtains (refused) "refill rate (fst clk) (bucket_of rate (fst clk) key bs) < 1" "\<not> fst (allow rate clk key bs)"
      "snd (allow rate clk key bs) =
         bs(key \<mapsto> \<lparr>bk_tokens = refill rate (fst clk) (bucket_of rate (fst clk) key bs), bk_last = snd clk\<rparr>)"
    | (granted) "1 \<le> refill rate (fst clk) (bucket_of rate (fst clk) key bs)" "fst (allow rate clk key bs)"
      "snd (allow rate clk key bs) =
         bs(key \<mapsto> \<lparr>bk_tokens = refill rate (fst clk) (bucket_of rate (fst clk) key bs) - 1, bk_last = snd clk\<rparr>)"
proof (cases "refill rate (fst clk) (bucket_of rate (fst clk) key bs) < 1")
  case True
  then show thesis using refused by (simp add: allow_def Let_def)
next
  case False
  then show thesis using granted by (simp add: allow_def Let_def)
qed

lemma allow_ok:
  assumes "0 < rate" "buckets_ok rate (fst clk) bs" "fst clk \<le> snd clk"
  shows "buckets_ok rate (snd clk) (snd (allow rate clk key bs))"
proof -
  let ?v = "refill rate (fst clk) (bucket_of rate (fst clk) key bs)"
  have v: "0 \<le> ?v" "?v \<le> of_int rate"
    using refill_nonneg [OF assms(1) bucket_of_ok [OF assms(1,2)]] refill_le(2) by auto
  have ran: "buckets_ok rate (snd clk) (bs(key \<mapsto> b))" if "bucket_ok rate (snd clk) b" for b
    using buckets_ok_later [OF assms(2,3)] that unfolding buckets_ok_def ran_def by auto
  show ?thesis
    by (cases rule: allow_cases [of rate clk key bs])
      (use v in \<open>auto intro!: ran simp: bucket_ok_def\<close>)
qed

lemma allow_other: "k \<noteq> key \<Longrightarrow> snd (allow rate clk key bs) k = bs k"
  by (simp add: allow_def Let_def)

lemma credit_refilled:
  assumes "0 < rate" "t \<le> t'" "tk = refill rate t b - x"
  shows "credit rate u \<lparr>bk_tokens = tk, bk_last = t'\<rparr> \<le> credit rate u b - x"
proof -
  have "(u - t') * of_int rate \<le> (u - t) * of_int rate"
    using assms(1,2) by (intro mult_right_mono) auto
  then show ?thesis using refill_le(1) [of rate t b] assms(3) by (simp add: credit_def field_simps)
qed

text \<open>Refilled for a minute's worth of one token, a bucket pays for a request.\<close>

lemma refill_enough:
  assumes "0 < rate" "bucket_ok rate t0 b" "t0 + 60 / of_int rate \<le> t"
  shows "1 \<le> refill rate t b"
proof -
  have "60 / of_int rate \<le> t - bk_last b" using assms(2,3) by (simp add: bucket_ok_def)
  then have "60 / of_int rate * of_int rate \<le> (t - bk_last b) * of_int rate"
    using assms(1) by (intro mult_right_mono) auto
  then have "1 \<le> bk_tokens b + (t - bk_last b) * of_int rate / 60"
    using assms(1,2) by (simp add: bucket_ok_def)
  moreover have "(1 :: rat) \<le> of_int rate" using assms(1) by simp
  ultimately show ?thesis by (simp add: refill_def Let_def)
qed

section \<open>Runs\<close>

text \<open>
  Requests one after the other, each with the clock and the environment of the handler behind the guard.
\<close>

type_synonym 'e call = "'e \<times> clock \<times> http_req"

fun guarded_run ::
  "guard_config \<Rightarrow> ('e \<Rightarrow> http_req \<Rightarrow> 's \<Rightarrow> 'r \<times> 's) \<Rightarrow> 'e call list \<Rightarrow> guard \<times> 's \<Rightarrow> 'r guarded list \<times> guard \<times> 's"
where
  "guarded_run cfg inner [] gs = ([], gs)"
| "guarded_run cfg inner ((e, clk, r) # xs) gs =
     (let step = guard_wrap cfg (inner e) clk r gs;
          rest = guarded_run cfg inner xs (snd step)
      in (fst step # fst rest, snd rest))"

definition call_clock :: "'e call \<Rightarrow> clock" where "call_clock x = fst (snd x)"
definition call_http :: "'e call \<Rightarrow> http_req" where "call_http x = snd (snd x)"

lemma call_simps [simp]: "call_clock (e, clk, r) = clk" "call_http (e, clk, r) = r"
  by (simp_all add: call_clock_def call_http_def)

definition rate_limited :: "'r guarded \<Rightarrow> bool" where
  "rate_limited x = (case x of Denied code _ _ \<Rightarrow> code = 429 | Served _ _ \<Rightarrow> False)"

definition served :: "'r guarded \<Rightarrow> bool" where
  "served x = (case x of Denied _ _ _ \<Rightarrow> False | Served _ _ \<Rightarrow> True)"

lemma guarded_simps [simp]:
  "rate_limited (Denied code h m) \<longleftrightarrow> code = 429" "\<not> rate_limited (Served c r)"
  "\<not> served (Denied code h m)" "served (Served c r)"
  by (simp_all add: rate_limited_def served_def)

lemma guard_frame [simp]:
  "gd_buckets (audited t a r g) = gd_buckets g" "gd_buckets (deny t r a g) = gd_buckets g"
  "gd_denials (audited t a r g) = gd_denials g"
  by (simp_all add: audited_def deny_def)

text \<open>The guard's five ways out.\<close>

lemma guard_wrap_cases:
  assumes "g = (fst gs)\<lparr>gd_buckets := snd (allow (gc_rate cfg) clk (client_host r) (gd_buckets (fst gs)))\<rparr>"
  obtains (limited) "\<not> fst (allow (gc_rate cfg) clk (client_host r) (gd_buckets (fst gs)))"
      "guard_wrap cfg inner clk r gs =
         (Denied 429 [(''Retry-After'', ''60'')] ''rate limited'', deny (snd clk) r ''rate_limited'' g, snd gs)"
    | (origin) "fst (allow (gc_rate cfg) clk (client_host r) (gd_buckets (fst gs)))" "\<not> check_origin cfg r"
      "guard_wrap cfg inner clk r gs =
         (Denied 403 [] ''forbidden origin'', deny (snd clk) r ''origin_rejected'' g, snd gs)"
    | (public) "fst (allow (gc_rate cfg) clk (client_host r) (gd_buckets (fst gs)))" "check_origin cfg r"
      "hq_path r \<in> set (gc_public cfg)"
      "guard_wrap cfg inner clk r gs = (Served None (fst (inner r (snd gs))), g, snd (inner r (snd gs)))"
    | (auth) "fst (allow (gc_rate cfg) clk (client_host r) (gd_buckets (fst gs)))" "check_origin cfg r"
      "hq_path r \<notin> set (gc_public cfg)" "\<not> authenticate cfg r"
      "guard_wrap cfg inner clk r gs =
         (Denied 401 [(''WWW-Authenticate'', ''Bearer realm=\"gateway management API\"'')] ''unauthorized'',
          deny (snd clk) r ''auth_failed'' g, snd gs)"
    | (passed) cookie where "fst (allow (gc_rate cfg) clk (client_host r) (gd_buckets (fst gs)))" "check_origin cfg r"
      "hq_path r \<notin> set (gc_public cfg)" "authenticate cfg r"
      "cookie = (if is_page_load r \<and> query_get ''token'' (hq_query r) \<noteq> '''' then Some (issue_session cfg) else None)"
      "guard_wrap cfg inner clk r gs =
         (Served cookie (fst (inner r (snd gs))),
          (if hq_method r \<noteq> ''GET'' \<and> hq_method r \<noteq> ''HEAD''
           then audited (snd clk) (hq_method r @ '' '' @ hq_path r) r g else g),
          snd (inner r (snd gs)))"
proof -
  let ?a = "fst (allow (gc_rate cfg) clk (client_host r) (gd_buckets (fst gs)))"
  consider "\<not> ?a" | "?a" "\<not> check_origin cfg r" | "?a" "check_origin cfg r" "hq_path r \<in> set (gc_public cfg)"
    | "?a" "check_origin cfg r" "hq_path r \<notin> set (gc_public cfg)" "\<not> authenticate cfg r"
    | "?a" "check_origin cfg r" "hq_path r \<notin> set (gc_public cfg)" "authenticate cfg r" by blast
  then show thesis
  proof cases
    case 1
    then show ?thesis by (intro limited) (simp_all add: guard_wrap_def Let_def assms)
  next
    case 2
    then show ?thesis by (intro origin) (simp_all add: guard_wrap_def Let_def assms)
  next
    case 3
    then show ?thesis by (intro public) (simp_all add: guard_wrap_def Let_def assms)
  next
    case 4
    then show ?thesis by (intro auth) (simp_all add: guard_wrap_def Let_def assms)
  next
    case 5
    then show ?thesis by (intro passed [OF _ _ _ _ refl]) (simp_all add: guard_wrap_def Let_def assms)
  qed
qed

lemma guard_wrap_buckets:
  "gd_buckets (fst (snd (guard_wrap cfg inner clk r gs))) =
     snd (allow (gc_rate cfg) clk (client_host r) (gd_buckets (fst gs)))"
  by (cases rule: guard_wrap_cases [OF refl, where cfg = cfg and inner = inner and clk = clk and r = r and gs = gs]) simp_all

lemma guard_wrap_limited:
  "rate_limited (fst (guard_wrap cfg inner clk r gs)) \<longleftrightarrow>
     \<not> fst (allow (gc_rate cfg) clk (client_host r) (gd_buckets (fst gs)))"
  by (cases rule: guard_wrap_cases [OF refl, where cfg = cfg and inner = inner and clk = clk and r = r and gs = gs]) simp_all

text \<open>The requests of a client that a run does not refuse for their rate.\<close>

definition granted :: "guard_config \<Rightarrow> ('e \<Rightarrow> http_req \<Rightarrow> 's \<Rightarrow> 'r \<times> 's) \<Rightarrow> string \<Rightarrow> 'e call list \<Rightarrow> guard \<times> 's \<Rightarrow> nat" where
  "granted cfg inner k xs gs =
     length (filter (\<lambda>(x, a). client_host (call_http x) = k \<and> \<not> rate_limited a)
       (zip xs (fst (guarded_run cfg inner xs gs))))"

lemma granted_simps [simp]:
  "granted cfg inner k [] gs = 0"
  "granted cfg inner k ((e, clk, r) # xs) gs =
     (if client_host r = k \<and> fst (allow (gc_rate cfg) clk k (gd_buckets (fst gs))) then 1 else 0) +
     granted cfg inner k xs (snd (guard_wrap cfg (inner e) clk r gs))"
  by (auto simp: granted_def Let_def guard_wrap_limited)

lemma run_buckets_ok:
  assumes "0 < gc_rate cfg" "in_time t0 (map call_clock xs) t1" "buckets_ok (gc_rate cfg) t0 (gd_buckets (fst gs))"
  shows "buckets_ok (gc_rate cfg) t1 (gd_buckets (fst (snd (guarded_run cfg inner xs gs))))"
  using assms(2,3)
proof (induction xs arbitrary: t0 gs)
  case Nil
  then show ?case by (auto intro: buckets_ok_later)
next
  case (Cons x xs)
  obtain e clk r where x: "x = (e, clk, r)" by (cases x)
  have "buckets_ok (gc_rate cfg) (snd clk) (gd_buckets (fst (snd (guard_wrap cfg (inner e) clk r gs))))"
    unfolding guard_wrap_buckets
    by (rule allow_ok) (use Cons.prems assms(1) x in \<open>auto intro: buckets_ok_later\<close>)
  then show ?case using Cons.IH [of "snd clk"] Cons.prems(1) x by (simp add: Let_def)
qed

lemma credit_of_later:
  "0 < rate \<Longrightarrow> t0 \<le> t \<Longrightarrow> credit rate u (bucket_of rate t k bs) \<le> credit rate u (bucket_of rate t0 k bs)"
  by (cases "bs k") (auto simp: bucket_of_def credit_def intro: mult_right_mono)

lemma granted_le_credit:
  assumes "0 < gc_rate cfg" "in_time t0 (map call_clock xs) t1" "buckets_ok (gc_rate cfg) t0 (gd_buckets (fst gs))"
  shows "of_nat (granted cfg inner k xs gs) \<le> credit (gc_rate cfg) t1 (bucket_of (gc_rate cfg) t0 k (gd_buckets (fst gs)))"
  using assms(2,3)
proof (induction xs arbitrary: t0 gs)
  case Nil
  then have "bucket_ok (gc_rate cfg) t1 (bucket_of (gc_rate cfg) t0 k (gd_buckets (fst gs)))"
    using bucket_ok_later [OF bucket_of_ok [OF assms(1) Nil(2)], of t1] by simp
  then show ?case using credit_nonneg [OF assms(1)] by simp
next
  case (Cons x xs)
  obtain e clk r where x: "x = (e, clk, r)" by (cases x)
  let ?n = "gc_rate cfg" and ?bs = "gd_buckets (fst gs)"
  let ?gs = "snd (guard_wrap cfg (inner e) clk r gs)" and ?b = "bucket_of (gc_rate cfg) (fst clk) k (gd_buckets (fst gs))"
  have times: "t0 \<le> fst clk" "fst clk \<le> snd clk" "in_time (snd clk) (map call_clock xs) t1"
    using Cons.prems(1) x by simp_all
  have ok: "buckets_ok ?n (snd clk) (gd_buckets (fst ?gs))"
    unfolding guard_wrap_buckets using Cons.prems(2) times assms(1) by (intro allow_ok) (auto intro: buckets_ok_later)
  have rest: "of_nat (granted cfg inner k xs ?gs) \<le>
      credit ?n t1 (bucket_of ?n (snd clk) k (snd (allow ?n clk (client_host r) ?bs)))"
    using Cons.IH [OF times(3) ok] by (simp only: guard_wrap_buckets)
  have now: "credit ?n t1 ?b \<le> credit ?n t1 (bucket_of ?n t0 k ?bs)"
    by (rule credit_of_later [OF assms(1) times(1)])
  show ?case
  proof (cases "client_host r = k")
    case False
    then have "bucket_of ?n (snd clk) k (snd (allow ?n clk (client_host r) ?bs)) = bucket_of ?n (snd clk) k ?bs"
      using allow_other [of k] by (simp add: bucket_of_def)
    then show ?thesis
      using rest False x credit_of_later [OF assms(1), of t0 "snd clk" t1 k ?bs] times by auto
  next
    case True
    have paid: "credit ?n t1 (bucket_of ?n (snd clk) k (snd (allow ?n clk k ?bs))) \<le>
        credit ?n t1 ?b - (if fst (allow ?n clk k ?bs) then 1 else 0)"
    proof (cases rule: allow_cases [of ?n clk k ?bs])
      case refused
      then show ?thesis
        using credit_refilled [OF assms(1) times(2), of _ ?b 0 t1] by (simp add: bucket_of_def)
    next
      case granted
      then show ?thesis
        using credit_refilled [OF assms(1) times(2), of _ ?b 1 t1] by (simp add: bucket_of_def)
    qed
    show ?thesis using rest paid now True x by (auto split: if_splits)
  qed
qed

section \<open>The handler behind the guard\<close>

text \<open>The three ways to be refused.\<close>

definition refusal :: "'r guarded \<Rightarrow> bool" where
  "refusal a \<longleftrightarrow>
     a = Denied 429 [(''Retry-After'', ''60'')] ''rate limited'' \<or> a = Denied 403 [] ''forbidden origin'' \<or>
     a = Denied 401 [(''WWW-Authenticate'', ''Bearer realm=\"gateway management API\"'')] ''unauthorized''"

text \<open>
  What the guard relies on: on a public path, where it does not ask for the token, the handler changes nothing.
\<close>

locale guarded_handler =
  fixes cfg :: guard_config
    and inner :: "'e \<Rightarrow> http_req \<Rightarrow> 's \<Rightarrow> 'r \<times> 's"
  assumes public_pure: "hq_path r \<in> set (gc_public cfg) \<Longrightarrow> snd (inner e r s) = s"
begin

lemma refused_request:
  assumes "\<not> authenticate cfg r \<or> \<not> check_origin cfg r"
  shows "snd (snd (guard_wrap cfg (inner e) clk r gs)) = snd gs"
    and "refusal (fst (guard_wrap cfg (inner e) clk r gs)) \<or>
      hq_path r \<in> set (gc_public cfg) \<and> fst (guard_wrap cfg (inner e) clk r gs) = Served None (fst (inner e r (snd gs)))"
  by (cases rule: guard_wrap_cases [OF refl, where cfg = cfg and inner = "inner e" and clk = clk and r = r and gs = gs];
      use assms public_pure in \<open>simp add: refusal_def\<close>)+

text \<open>A run of such requests: the state stays, and every answer is a refusal or a public one.\<close>

lemma refused_run:
  "\<forall>x \<in> set xs. \<not> authenticate cfg (call_http x) \<or> \<not> check_origin cfg (call_http x) \<Longrightarrow>
     snd (snd (guarded_run cfg inner xs gs)) = snd gs \<and>
     list_all2 (\<lambda>x a. refusal a \<or> hq_path (call_http x) \<in> set (gc_public cfg) \<and>
         a = Served None (fst (inner (fst x) (call_http x) (snd gs))))
       xs (fst (guarded_run cfg inner xs gs))"
proof (induction xs arbitrary: gs)
  case (Cons x xs)
  obtain e clk r where x: "x = (e, clk, r)" by (cases x)
  have head: "\<not> authenticate cfg r \<or> \<not> check_origin cfg r" using Cons.prems x by simp
  show ?case
    using Cons.IH [of "snd (guard_wrap cfg (inner e) clk r gs)"] Cons.prems refused_request [OF head, of e clk gs]
    by (simp add: x Let_def)
qed simp

lemma admitted_request:
  assumes "authenticate cfg r" "check_origin cfg r" "\<not> rate_limited (fst (guard_wrap cfg (inner e) clk r gs))"
  shows "\<exists>cookie. fst (guard_wrap cfg (inner e) clk r gs) = Served cookie (fst (inner e r (snd gs))) \<and>
    snd (snd (guard_wrap cfg (inner e) clk r gs)) = snd (inner e r (snd gs)) \<and>
    (cookie \<noteq> None \<longrightarrow> is_page_load r)"
  by (cases rule: guard_wrap_cases [OF refl, where cfg = cfg and inner = "inner e" and clk = clk and r = r and gs = gs])
    (use assms in auto)

end

text \<open>\<open>ui.NewServer\<close>: the guard of the management server.\<close>

definition ui_guard :: "string \<Rightarrow> string list \<Rightarrow> guard_config" where
  "ui_guard tok origins = checked_config (default_guard_config\<lparr>gc_token := tok, gc_origins := origins\<rparr>)"

lemma ui_guard_simps [simp]:
  "gc_token (ui_guard tok origins) = tok" "gc_origins (ui_guard tok origins) = origins"
  "gc_rate (ui_guard tok origins) = 600" "gc_public (ui_guard tok origins) = [''/api/health'']"
  by (simp_all add: ui_guard_def checked_config_def default_guard_config_def)

section \<open>Properties\<close>

text \<open>A request presents a token if it carries it in one of the three places the guard reads.\<close>

definition presents_token :: "string \<Rightarrow> http_req \<Rightarrow> bool" where
  "presents_token tok r \<longleftrightarrow>
     tok \<noteq> '''' \<and> (hq_authorization r = bearer @ tok \<or> (session_cookie, tok) \<in> set (hq_cookies r) \<or>
       query_get ''token'' (hq_query r) = tok)"

lemma authenticate_presents: "authenticate cfg r \<Longrightarrow> presents_token (gc_token cfg) r"
  by (auto simp: authenticate_def presents_token_def token_matches_def starts_with_iff
      dest: map_of_SomeD split: if_splits option.splits)

text \<open>C30. In any stretch of time a client gets no more requests past the rate limit than the limit of one minute,
  600, and ten for every second of the stretch, whatever the other clients do.\<close>

theorem requests_within_rate:
  assumes "in_time t0 (map call_clock xs) t1"
  shows "of_nat (granted (ui_guard tok origins) inner k xs (new_guard, s)) \<le> 600 + (t1 - t0) * 10"
  using granted_le_credit [of "ui_guard tok origins" t0 xs t1 "(new_guard, s)" inner k] assms
  by (simp add: new_guard_def buckets_ok_def bucket_of_def credit_def diff_divide_distrib algebra_simps)

text \<open>The bucket of a client after a run: as it was, or as the last call of this client left it.\<close>

lemma run_bucket_own:
  assumes "gd_buckets (fst (snd (guarded_run cfg inner xs gs))) k = Some b"
  shows "gd_buckets (fst gs) k = Some b \<or>
    (\<exists>x \<in> set xs. client_host (call_http x) = k \<and> bk_last b = snd (call_clock x))"
  using assms
proof (induction xs arbitrary: gs)
  case (Cons x xs)
  obtain e clk r where x: "x = (e, clk, r)" by (cases x)
  let ?bs = "gd_buckets (fst gs)"
  have "gd_buckets (fst (snd (guard_wrap cfg (inner e) clk r gs))) k = Some b \<or>
      (\<exists>y \<in> set xs. client_host (call_http y) = k \<and> bk_last b = snd (call_clock y))"
    using Cons.IH [of "snd (guard_wrap cfg (inner e) clk r gs)"] Cons.prems by (simp add: x Let_def)
  moreover have "?bs k = Some b \<or> client_host r = k \<and> bk_last b = snd clk"
    if "snd (allow (gc_rate cfg) clk (client_host r) ?bs) k = Some b"
    by (cases rule: allow_cases [of "gc_rate cfg" clk "client_host r" ?bs]; cases "client_host r = k") (use that in auto)
  ultimately show ?case by (auto simp: x guard_wrap_buckets)
qed simp

text \<open>C31. No client is locked out, as long as the clock does not run backwards: whatever was sent to a new guard before, however often the client was refused, and whatever the other
  clients send up to this moment, a request of a client whose own last request was checked at least a tenth of a second ago passes
  the rate limit.\<close>

theorem waiting_client_is_not_limited:
  assumes "in_time t0 (map call_clock xs) t1" and "t1 \<le> fst clk"
    and "\<forall>x \<in> set xs. client_host (call_http x) = client_host r \<longrightarrow> snd (call_clock x) + 1/10 \<le> fst clk"
    and "gs = snd (guarded_run (ui_guard tok origins) inner xs (new_guard, s))"
  shows "\<not> rate_limited (fst (guard_wrap (ui_guard tok origins) (inner e) clk r gs))"
proof -
  have ok: "buckets_ok 600 t1 (gd_buckets (fst gs))"
    unfolding assms(4)
    using run_buckets_ok [of "ui_guard tok origins" t0 xs t1 "(new_guard, s)" inner] assms(1)
    by (simp add: new_guard_def buckets_ok_def)
  have "1 \<le> refill 600 (fst clk) (bucket_of 600 (fst clk) (client_host r) (gd_buckets (fst gs)))"
  proof (cases "gd_buckets (fst gs) (client_host r)")
    case None
    then show ?thesis by (simp add: bucket_of_def refill_def)
  next
    case (Some b)
    with run_bucket_own [of "ui_guard tok origins" inner xs "(new_guard, s)" "client_host r" b] assms(3,4)
    have "bk_last b + 1/10 \<le> fst clk" by (auto simp: new_guard_def)
    moreover have "bucket_ok 600 (bk_last b) b" using ok Some by (auto simp: buckets_ok_def bucket_ok_def ran_def)
    ultimately show ?thesis using refill_enough [of 600 "bk_last b" b "fst clk"] Some by (simp add: bucket_of_def)
  qed
  then show ?thesis
    unfolding guard_wrap_limited by (simp add: allow_def Let_def not_less)
qed

text \<open>
  What a browser sends for a call of the client: the headers of the call, the cookies it holds for the
  host, and the origin of the page with every call that is not a GET.
\<close>

definition method_str :: "http_method \<Rightarrow> string" where
  "method_str m = (case m of GET \<Rightarrow> ''GET'' | POST \<Rightarrow> ''POST'' | PUT \<Rightarrow> ''PUT'' | DELETE \<Rightarrow> ''DELETE'')"

definition browser_sends :: "string \<Rightarrow> string \<Rightarrow> string \<Rightarrow> (string \<times> string) list \<Rightarrow> request \<Rightarrow> http_req" where
  "browser_sends origin host remote cookies rq =
     \<lparr>hq_method = method_str (rq_method rq), hq_path = url_path (rq_path rq), hq_query = url_query (rq_path rq),
      hq_authorization = (case map_of (rq_headers rq) ''Authorization'' of None \<Rightarrow> '''' | Some v \<Rightarrow> v),
      hq_origin = (if rq_method rq = GET then '''' else origin), hq_upgrade = '''', hq_cookies = cookies,
      hq_host = host, hq_remote = remote, hq_body = rq_body rq\<rparr>"

definition client_call :: "request \<Rightarrow> bool" where
  "client_call rq \<longleftrightarrow> (\<exists>p m body. rq = api_request (CHR ''/'' # p) m body)"

lemma client_calls:
  "client_call getStatus" "client_call getSystem" "client_call getSites" "client_call (createSite d)"
  "client_call (updateSite i x)" "client_call (deleteSite i)" "client_call getRuntimes" "client_call getLogs"
  "client_call getConfig" "client_call (saveConfig c)" "client_call healthCheck" "client_call getDeployments"
  "client_call (createDeployment v sd)" "client_call (activateDeployment i)" "client_call rollbackDeployment"
  "client_call getDoctor" "client_call (getDoctorCompat p)" "client_call (explainRequest u)"
  "client_call getMetricsHistory" "client_call getExtensions" "client_call getProfiles"
  "client_call (getSiteExtensions i)" "client_call (updateSiteExtensions i es profile)"
  unfolding client_call_def api_defs by auto

lemma client_call_request:
  assumes "client_call rq" "x = browser_sends origin host remote cookies rq"
  shows "hq_authorization x = ''''" "hq_upgrade x = ''''" "starts_with (hq_path x) ''/api/''" "\<not> is_page_load x"
    "hq_cookies x = cookies" "hq_host x = host" "hq_origin x \<in> {'''', origin}"
  using assms
  by (auto simp: client_call_def browser_sends_def api_request_def base_path_def url_path_def is_page_load_def)

text \<open>Only the cookie authenticates a call of the client.\<close>

lemma authenticate_client_call:
  assumes "client_call rq" "x = browser_sends origin host remote cookies rq"
  shows "authenticate cfg x \<longleftrightarrow>
    gc_token cfg \<noteq> '''' \<and> map_of cookies session_cookie = Some (gc_token cfg)"
  using client_call_request [OF assms]
  by (auto simp: authenticate_def is_websocket_upgrade_def bearer_def token_matches_def to_lower_def split: option.splits)

lemma same_origin_http: "same_origin (''http://'' @ host) host"
  by (simp add: same_origin_def)

lemma same_origin_calls:
  assumes "client_call rq" "x = browser_sends (''http://'' @ host) host remote cookies rq"
  shows "check_origin cfg x"
  using client_call_request [OF assms] same_origin_http [of host] by (auto simp: check_origin_def)

text \<open>The token as the address bar carries it.\<close>

lemma query_unescape_plain: "\<forall>c \<in> set s. uri_unreserved c \<Longrightarrow> query_unescape s = Some s"
  by (induction s) (auto dest: unreserved_not_special)

lemma query_get_token:
  assumes "\<forall>c \<in> set tok. uri_unreserved c"
  shows "query_get ''token'' (''token='' @ tok) = tok"
proof -
  have none: "CHR ''&'' \<notin> set tok" "CHR '';'' \<notin> set tok"
    using assms by (auto simp: uri_unreserved_def in_range_def)
  then have "split_on (CHR ''&'') (''token='' @ tok) = [''token='' @ tok]"
    by (intro split_on_none) simp
  moreover have "query_unescape ''token'' = Some ''token''"
    by (rule query_unescape_plain) (simp add: uri_unreserved_def in_range_def)
  ultimately show ?thesis
    using none query_unescape_plain [OF assms] by (simp add: query_get_def query_pairs_def)
qed

lemma unreserved_cookie_char: "uri_unreserved c \<Longrightarrow> cookie_char c"
  by (auto simp: uri_unreserved_def cookie_char_def in_range_def)

text \<open>What the audit log should record of a request, from the guard's answer.\<close>

definition audit_action :: "http_req \<Rightarrow> 'r guarded \<Rightarrow> guard_config \<Rightarrow> string option" where
  "audit_action r a cfg =
     (case a of
        Denied code _ _ \<Rightarrow>
          Some (if code = 429 then ''rate_limited'' else if code = 403 then ''origin_rejected'' else ''auth_failed'')
      | Served _ _ \<Rightarrow>
          if hq_path r \<in> set (gc_public cfg) \<or> hq_method r \<in> {''GET'', ''HEAD''} then None
          else Some (hq_method r @ '' '' @ hq_path r))"

definition audit_entries :: "guard_config \<Rightarrow> 'e call \<times> 'r guarded \<Rightarrow> audit_entry list" where
  "audit_entries cfg xa =
     (let r = call_http (fst xa)
      in case audit_action r (snd xa) cfg of
           None \<Rightarrow> []
         | Some action \<Rightarrow> [\<lparr>au_time = snd (call_clock (fst xa)), au_action = action, au_remote = hq_remote r, au_path = hq_path r\<rparr>])"

lemma guard_wrap_audit:
  assumes "length (gd_audit (fst gs)) \<le> 1000"
  shows "gd_audit (fst (snd (guard_wrap cfg inner clk r gs))) =
    take_last 1000 (gd_audit (fst gs) @ audit_entries cfg ((e, clk, r), fst (guard_wrap cfg inner clk r gs)))"
  by (cases rule: guard_wrap_cases [OF refl, where cfg = cfg and inner = inner and clk = clk and r = r and gs = gs])
    (use assms in \<open>auto simp: audit_entries_def audit_action_def audited_def deny_def audit_log_take_last\<close>)

lemma guard_wrap_denials:
  "gd_denials (fst (snd (guard_wrap cfg inner clk r gs))) =
    gd_denials (fst gs) + (if served (fst (guard_wrap cfg inner clk r gs)) then 0 else 1)"
  by (cases rule: guard_wrap_cases [OF refl, where cfg = cfg and inner = inner and clk = clk and r = r and gs = gs])
    (simp_all add: deny_def audited_def)

lemma run_audit:
  "length (gd_audit (fst gs)) \<le> 1000 \<Longrightarrow>
    gd_audit (fst (snd (guarded_run cfg inner xs gs))) =
      take_last 1000 (gd_audit (fst gs) @ concat (map (audit_entries cfg) (zip xs (fst (guarded_run cfg inner xs gs)))))"
proof (induction xs arbitrary: gs)
  case (Cons x xs)
  obtain e clk r where x: "x = (e, clk, r)" by (cases x)
  let ?a = "guard_wrap cfg (inner e) clk r gs"
  have a: "gd_audit (fst (snd ?a)) = take_last 1000 (gd_audit (fst gs) @ audit_entries cfg ((e, clk, r), fst ?a))"
    by (rule guard_wrap_audit [OF Cons.prems])
  then have "length (gd_audit (fst (snd ?a))) \<le> 1000" by simp
  from Cons.IH [OF this] show ?case
    by (simp add: x Let_def a take_last_append_take_last)
qed simp

lemma run_denials:
  "gd_denials (fst (snd (guarded_run cfg inner xs gs))) =
    gd_denials (fst gs) + length (filter (\<lambda>a. \<not> served a) (fst (guarded_run cfg inner xs gs)))"
proof (induction xs arbitrary: gs)
  case (Cons x xs)
  obtain e clk r where x: "x = (e, clk, r)" by (cases x)
  show ?case
    using Cons.IH [of "snd (guard_wrap cfg (inner e) clk r gs)"]
    by (simp add: x Let_def guard_wrap_denials)
qed simp

text \<open>After any run the audit log holds the last 1,000 of the entries that the answers call for: one for every
  request the guard denies, with its reason, and one for every request it passes to the handler that is neither a GET or HEAD
  nor for a public path. The counter counts the denials, and a client's bad guesses are never forgotten by it.\<close>

theorem audit_log_is_complete:
  "gd_audit (fst (snd (guarded_run cfg inner xs (new_guard, s)))) =
     take_last 1000 (concat (map (audit_entries cfg) (zip xs (fst (guarded_run cfg inner xs (new_guard, s)))))) \<and>
   gd_denials (fst (snd (guarded_run cfg inner xs (new_guard, s)))) =
     length (filter (\<lambda>a. \<not> served a) (fst (guarded_run cfg inner xs (new_guard, s))))"
  using run_audit [of "(new_guard, s)" cfg inner xs] run_denials [of cfg inner xs "(new_guard, s)"]
  by (simp add: new_guard_def)

section \<open>Witnesses\<close>

definition demo_http :: "string \<Rightarrow> string \<Rightarrow> string \<Rightarrow> http_req" where
  "demo_http m path auth =
     \<lparr>hq_method = m, hq_path = path, hq_query = '''', hq_authorization = auth, hq_origin = '''', hq_upgrade = '''',
      hq_cookies = [], hq_host = ''127.0.0.1:30200'', hq_remote = ''127.0.0.1:5000'', hq_body = None\<rparr>"

definition demo_handler :: "env \<Rightarrow> http_req \<Rightarrow> server \<Rightarrow> response \<times> server" where
  "demo_handler e r s = handle_sites e GET (hq_body r) s"

definition demo_calls :: "env call list" where
  "demo_calls =
     [(demo_env, (0, 0), demo_http ''DELETE'' ''/api/sites/a'' ''''),
      (demo_env, (1, 2), demo_http ''POST'' ''/api/config/save'' ''Bearer wrong'')]"

lemma demo_calls_in_time: "in_time 0 (map call_clock demo_calls) 3"
  by (simp add: demo_calls_def)

theorem requests_within_rate_witness:
  "rat_of_nat (granted (ui_guard ''secret'' []) demo_handler ''127.0.0.1'' demo_calls (new_guard, demo_server)) \<le>
     600 + (3 - 0) * 10"
  by (rule requests_within_rate [OF demo_calls_in_time])

text \<open>The client 127.0.0.1 has waited since 2; another one has just called.\<close>

definition demo_crowd :: "env call list" where
  "demo_crowd = demo_calls @
     [(demo_env, (3, 3), (demo_http ''GET'' ''/api/sites'' '''')\<lparr>hq_remote := ''10.0.0.9:4000''\<rparr>)]"

lemma demo_crowd_in_time: "in_time 0 (map call_clock demo_crowd) 3"
  by (simp add: demo_crowd_def demo_calls_def)

lemma demo_hosts:
  "client_host (demo_http m p a) = ''127.0.0.1''"
  "client_host ((demo_http m p a)\<lparr>hq_remote := ''10.0.0.9:4000''\<rparr>) = ''10.0.0.9''"
  by (simp_all add: client_host_def demo_http_def split_host_port_def last_colon_def Let_def)

theorem waiting_client_is_not_limited_witness:
  "\<not> rate_limited (fst (guard_wrap (ui_guard ''secret'' []) (demo_handler demo_env) (3, 3)
     (demo_http ''GET'' ''/api/sites'' '''')
     (snd (guarded_run (ui_guard ''secret'' []) demo_handler demo_crowd (new_guard, demo_server)))))"
  by (rule waiting_client_is_not_limited [OF demo_crowd_in_time _ _ refl])
    (simp_all add: demo_crowd_def demo_calls_def demo_hosts)

end
