(* ===== verification/Releases.thy ===== *)
theory Releases
  imports Resolver SiteServer DeploymentsPage
begin

text \<open>
  The release manager \<open>internal/deploy/release.go\<close> and the handlers \<open>handleDeploy...\<close> of \<open>internal/ui/handlers.go\<close>
  behind the deployments page. Every handler builds a manager for \<open>./releases\<close>, which loads the
  releases from the file tree, so the tree is the whole state between two requests.

  A metadata file holds what \<open>json.Marshal\<close> makes of a release, kept here as the release itself; a file that
  was not written by \<open>saveRelease\<close> is taken as text that does not unmarshal. Points of time are nanoseconds, \<open>cwd\<close> is the
  working directory. \<open>releases\<close> lists the Go map in the order of its insertions; the code's results depend on that order
  only where two releases carry the same time stamp. The members \<open>error\<close> and \<open>extensions\<close> of a release, which no
  operation of the manager sets, are left out.
\<close>

section \<open>State\<close>

record go_release =
  gr_id :: string
  gr_version :: string
  gr_runtime :: string
  gr_state :: release_state
  gr_created :: int
  gr_activated :: "int option"
  gr_deactivated :: "int option"
  gr_dir :: "bool \<times> path"
  gr_metadata :: "(string \<times> string) list"

datatype content = Data string | Meta go_release

record release_manager =
  rm_abs :: bool
  rm_dir :: path
  rm_active :: string
  rm_releases :: "go_release list"

datatype release_error =
    RelNotFound string | AlreadyActive string | NoActive | NoPrevious | InRollback release_error
  | SymlinkError | RenameError | CopyFailed | SaveFailed

text \<open>\<open>filepath.Join\<close> and \<open>Clean\<close> on components, absolute or relative, and the path from the root of the tree.\<close>

definition lexical :: "bool \<Rightarrow> string list \<Rightarrow> path" where
  "lexical absolute ws = (if absolute then fold collapse_step ws [] else fold rel_step ws [])"

definition full_path :: "path \<Rightarrow> bool \<times> path \<Rightarrow> path" where
  "full_path cwd p = (if fst p then [] else cwd) @ snd p"

definition given_path :: "string \<Rightarrow> bool \<times> path" where
  "given_path s = (starts_with s ''/'', lexical (starts_with s ''/'') (split_on (CHR ''/'') s))"

definition new_release_manager :: "string \<Rightarrow> release_manager" where
  "new_release_manager dir =
     \<lparr>rm_abs = fst (given_path dir), rm_dir = snd (given_path dir), rm_active = '''', rm_releases = []\<rparr>"

definition in_releases :: "release_manager \<Rightarrow> string list \<Rightarrow> bool \<times> path" where
  "in_releases m ws = (rm_abs m, lexical (rm_abs m) (rm_dir m @ ws))"

definition in_archive :: "release_manager \<Rightarrow> string \<Rightarrow> bool \<times> path" where
  "in_archive m name = in_releases m (''archive'' # split_on (CHR ''/'') name)"

section \<open>The map of releases\<close>

definition rel_get :: "string \<Rightarrow> go_release list \<Rightarrow> go_release option" where
  "rel_get i rs = List.find (\<lambda>r. gr_id r = i) rs"

definition rel_set :: "go_release \<Rightarrow> go_release list \<Rightarrow> go_release list" where
  "rel_set r rs = map (\<lambda>x. if gr_id x = gr_id r then r else x) rs"

definition rel_put :: "go_release \<Rightarrow> go_release list \<Rightarrow> go_release list" where
  "rel_put r rs = (if gr_id r \<in> gr_id ` set rs then rel_set r rs else rs @ [r])"

section \<open>Operations\<close>

definition save_release :: "path \<Rightarrow> release_manager \<Rightarrow> go_release \<Rightarrow> content files \<Rightarrow> content files option" where
  "save_release cwd m r fs = write_file (full_path cwd (in_archive m (gr_id r @ ''.json''))) (Meta r) fs"

text \<open>A save whose error is ignored.\<close>

definition try_save :: "path \<Rightarrow> release_manager \<Rightarrow> go_release \<Rightarrow> content files \<Rightarrow> content files" where
  "try_save cwd m r fs = (case save_release cwd m r fs of None \<Rightarrow> fs | Some fs' \<Rightarrow> fs')"

definition load_entry :: "path \<Rightarrow> content files \<Rightarrow> string \<Rightarrow> release_manager \<Rightarrow> release_manager" where
  "load_entry cwd fs name m =
     (let p = full_path cwd (in_releases m [''archive'', name])
      in if lstat fs p = Some Dir \<or> \<not> ends_with name ''.json'' then m
         else (case read_file fs p of
                 Some (Meta r) \<Rightarrow>
                   m\<lparr>rm_releases := rel_put r (rm_releases m),
                     rm_active := (if gr_state r = RActive then gr_id r else rm_active m)\<rparr>
               | _ \<Rightarrow> m))"

definition load_releases :: "path \<Rightarrow> release_manager \<Rightarrow> content files \<Rightarrow> release_manager" where
  "load_releases cwd m fs =
     (case read_dir_names fs (full_path cwd (in_releases m [''archive''])) of
        None \<Rightarrow> m
      | Some names \<Rightarrow> fold (load_entry cwd fs) names m)"

text \<open>\<open>Init\<close>: whether it succeeded, the manager and the tree.\<close>

definition init_manager :: "path \<Rightarrow> release_manager \<Rightarrow> content files \<Rightarrow> bool \<times> release_manager \<times> content files" where
  "init_manager cwd m fs =
     (case mkdir_all (full_path cwd (in_releases m [])) fs of
        None \<Rightarrow> (False, m, fs)
      | Some fs1 \<Rightarrow>
          (case mkdir_all (full_path cwd (in_releases m [''active''])) fs1 of
             None \<Rightarrow> (False, m, fs1)
           | Some fs2 \<Rightarrow>
               (case mkdir_all (full_path cwd (in_releases m [''archive''])) fs2 of
                  None \<Rightarrow> (False, m, fs2)
                | Some fs3 \<Rightarrow> (True, load_releases cwd m fs3, fs3))))"

text \<open>
  \<open>copyReleaseDir\<close>: \<open>filepath.Walk\<close> with its callback, on the relative path \<open>rel\<close>. \<open>Walk\<close> reads the names
  of a directory before it calls back. \<open>Deeper\<close> is a walk that is not over after \<open>n\<close> levels.
\<close>

datatype copied = Copied | CopyError | Deeper

fun each_name :: "(string \<Rightarrow> 'f \<Rightarrow> copied \<times> 'f) \<Rightarrow> string list \<Rightarrow> 'f \<Rightarrow> copied \<times> 'f" where
  "each_name f [] fs = (Copied, fs)"
| "each_name f (x # xs) fs =
     (let r = f x fs in if fst r = Copied then each_name f xs (snd r) else r)"

primrec copy_release_dir :: "nat \<Rightarrow> path \<Rightarrow> path \<Rightarrow> path \<Rightarrow> content files \<Rightarrow> copied \<times> content files" where
  "copy_release_dir 0 src dst rel fs = (Deeper, fs)"
| "copy_release_dir (Suc n) src dst rel fs =
     (case lstat fs (src @ rel) of
        None \<Rightarrow> (CopyError, fs)
      | Some Dir \<Rightarrow>
          (case read_dir_names fs (src @ rel) of
             None \<Rightarrow> (CopyError, fs)
           | Some names \<Rightarrow>
               (case mkdir_all (dst @ rel) fs of
                  None \<Rightarrow> (CopyError, fs)
                | Some fs' \<Rightarrow> each_name (\<lambda>name. copy_release_dir n src dst (rel @ [name])) names fs'))
      | Some _ \<Rightarrow>
          (case read_file fs (src @ rel) of
             None \<Rightarrow> (CopyError, fs)
           | Some d \<Rightarrow>
               (case write_file (dst @ rel) d fs of
                  None \<Rightarrow> (CopyError, fs)
                | Some fs' \<Rightarrow> (Copied, fs'))))"

definition release_id :: "string \<Rightarrow> int \<Rightarrow> string" where
  "release_id version t = ''rel_'' @ version @ ''_'' @ int_to_str t"

text \<open>\<open>Create\<close> with its two clock readings; \<open>None\<close> when the copy goes deeper than \<open>n\<close> levels.\<close>

definition create_release ::
  "nat \<Rightarrow> path \<Rightarrow> int \<times> int \<Rightarrow> string \<Rightarrow> string \<Rightarrow> string \<Rightarrow> (string \<times> string) list \<Rightarrow> release_manager \<Rightarrow> content files \<Rightarrow>
     ((release_error + go_release) \<times> release_manager \<times> content files) option" where
  "create_release n cwd t version runtime src metadata m fs =
     (let i = release_id version (fst t);
          dir = in_archive m i;
          copy = copy_release_dir n (full_path cwd (given_path src)) (full_path cwd dir) [] fs
      in case fst copy of
           Deeper \<Rightarrow> None
         | CopyError \<Rightarrow> Some (Inl CopyFailed, m, snd copy)
         | Copied \<Rightarrow>
             (let r = \<lparr>gr_id = i, gr_version = version, gr_runtime = runtime, gr_state = RCreated, gr_created = snd t,
                       gr_activated = None, gr_deactivated = None, gr_dir = dir, gr_metadata = metadata\<rparr>
              in case save_release cwd m r (snd copy) of
                   None \<Rightarrow> Some (Inl SaveFailed, m, remove_all (full_path cwd dir) (snd copy))
                 | Some fs' \<Rightarrow> Some (Inr r, m\<lparr>rm_releases := rel_put r (rm_releases m)\<rparr>, fs')))"

definition stopped :: "int \<Rightarrow> go_release \<Rightarrow> go_release" where
  "stopped t r = r\<lparr>gr_state := RStopped, gr_deactivated := Some t\<rparr>"

definition activated :: "int \<Rightarrow> go_release \<Rightarrow> go_release" where
  "activated t r = r\<lparr>gr_state := RActive, gr_activated := Some t, gr_deactivated := None\<rparr>"

definition active_release :: "release_manager \<Rightarrow> go_release option" where
  "active_release m = (if rm_active m = '''' then None else rel_get (rm_active m) (rm_releases m))"

text \<open>\<open>Activate\<close> with its two clock readings: the error, the manager and the tree.\<close>

definition activate ::
  "path \<Rightarrow> int \<times> int \<Rightarrow> string \<Rightarrow> release_manager \<Rightarrow> content files \<Rightarrow>
     release_error option \<times> release_manager \<times> content files" where
  "activate cwd t i m fs =
     (case rel_get i (rm_releases m) of
        None \<Rightarrow> (Some (RelNotFound i), m, fs)
      | Some r \<Rightarrow>
          if gr_state r = RActive then (Some (AlreadyActive i), m, fs)
          else
            (let (m1, fs1) =
                   (case active_release m of
                      None \<Rightarrow> (m, fs)
                    | Some old \<Rightarrow>
                        (m\<lparr>rm_releases := rel_set (stopped (fst t) old) (rm_releases m)\<rparr>,
                         try_save cwd m (stopped (fst t) old) fs));
                 r1 = activated (snd t) r;
                 link = full_path cwd (in_releases m [''active'']);
                 tmp = full_path cwd (in_releases m [''active.tmp'']);
                 fs2 = os_remove link (os_remove tmp fs1)
             in case symlink (fst (gr_dir r)) (snd (gr_dir r)) tmp fs2 of
                  None \<Rightarrow> (Some SymlinkError, m1\<lparr>rm_releases := rel_set (r1\<lparr>gr_state := RFailed\<rparr>) (rm_releases m1)\<rparr>, fs2)
                | Some fs3 \<Rightarrow>
                    (case rename_file tmp link fs3 of
                       None \<Rightarrow> (Some RenameError, m1\<lparr>rm_releases := rel_set (r1\<lparr>gr_state := RFailed\<rparr>) (rm_releases m1)\<rparr>,
                               os_remove tmp fs3)
                     | Some fs4 \<Rightarrow>
                         (let m2 = m1\<lparr>rm_active := i, rm_releases := rel_set r1 (rm_releases m1)\<rparr>
                          in (None, m2, try_save cwd m2 r1 fs4)))))"

definition deactivate :: "path \<Rightarrow> int \<Rightarrow> release_manager \<Rightarrow> content files \<Rightarrow> release_manager \<times> content files" where
  "deactivate cwd t m fs =
     (case active_release m of
        None \<Rightarrow> (m, fs)
      | Some r \<Rightarrow>
          (m\<lparr>rm_active := '''', rm_releases := rel_set (stopped t r) (rm_releases m)\<rparr>,
           try_save cwd m (stopped t r) (os_remove (full_path cwd (in_releases m [''active''])) fs)))"

definition later_previous :: "string \<Rightarrow> go_release \<Rightarrow> go_release option \<Rightarrow> go_release option" where
  "later_previous active r prev =
     (if gr_id r = active then prev
      else (case gr_deactivated r of
              None \<Rightarrow> prev
            | Some t \<Rightarrow>
                (case prev of
                   None \<Rightarrow> Some r
                 | Some p \<Rightarrow> (case gr_deactivated p of
                                Some u \<Rightarrow> if t > u then Some r else prev
                              | None \<Rightarrow> Some r))))"

definition find_previous_release_id :: "release_manager \<Rightarrow> release_error + string" where
  "find_previous_release_id m =
     (if rm_active m = '''' then Inl NoActive
      else (case fold (later_previous (rm_active m)) (rm_releases m) None of
              None \<Rightarrow> Inl NoPrevious
            | Some r \<Rightarrow> Inr (gr_id r)))"

definition rollback ::
  "path \<Rightarrow> int \<times> int \<Rightarrow> release_manager \<Rightarrow> content files \<Rightarrow>
     (release_error + go_release) \<times> release_manager \<times> content files" where
  "rollback cwd t m fs =
     (case find_previous_release_id m of
        Inl e \<Rightarrow> (Inl e, m, fs)
      | Inr i \<Rightarrow>
          (case activate cwd t i m fs of
             (Some e, m', fs') \<Rightarrow> (Inl (InRollback e), m', fs')
           | (None, m', fs') \<Rightarrow>
               ((case rel_get i (rm_releases m') of None \<Rightarrow> Inl (RelNotFound i) | Some r \<Rightarrow> Inr r), m', fs')))"

text \<open>\<open>List\<close>: the newest release first.\<close>

definition list_releases :: "release_manager \<Rightarrow> go_release list" where
  "list_releases m = sort_key (\<lambda>r. - gr_created r) (rm_releases m)"

text \<open>\<open>Archive\<close> for a \<open>keep\<close> that is not negative: how many releases it removes, the manager and the tree.\<close>

definition archive_releases :: "path \<Rightarrow> nat \<Rightarrow> release_manager \<Rightarrow> content files \<Rightarrow> nat \<times> release_manager \<times> content files" where
  "archive_releases cwd keep m fs =
     (let old = sort_key gr_created (filter (\<lambda>r. gr_state r = RStopped \<or> gr_state r = RFailed) (rm_releases m));
          out = take (length old - keep) old;
          meta = (\<lambda>r. let d = full_path cwd (gr_dir r) in butlast d @ [last d @ ''.json''])
      in (length out,
          m\<lparr>rm_releases := filter (\<lambda>r. gr_id r \<notin> gr_id ` set out) (rm_releases m)\<rparr>,
          fold (\<lambda>r fs. os_remove (meta r) (remove_all (full_path cwd (gr_dir r)) fs)) out fs))"

section \<open>handlers.go\<close>

text \<open>
  The working directory, the text of an error of the system and of a point of time, and the outcome of
  decoding a body: a body that is no object leaves the fields empty, and so does a member of another type.
\<close>

record deploy_env =
  de_cwd :: path
  de_os :: string
  de_time :: "int \<Rightarrow> string"

definition body_str :: "string \<Rightarrow> json option \<Rightarrow> string" where
  "body_str k body =
     (case body of
        Some (JObj ms) \<Rightarrow>
          (case field_of k (filter (\<lambda>(n, v). case v of JStr s \<Rightarrow> True | _ \<Rightarrow> False) ms) of Some (JStr s) \<Rightarrow> s | _ \<Rightarrow> '''')
      | _ \<Rightarrow> '''')"

primrec release_error_text :: "string \<Rightarrow> release_error \<Rightarrow> string" where
  "release_error_text os (RelNotFound i) = ''release '' @ i @ '' not found''"
| "release_error_text os (AlreadyActive i) = ''release '' @ i @ '' is already active''"
| "release_error_text os NoActive = ''no active release to rollback from''"
| "release_error_text os NoPrevious = ''no previous release found''"
| "release_error_text os (InRollback e) = ''rollback: '' @ release_error_text os e"
| "release_error_text os SymlinkError = ''create symlink: '' @ os"
| "release_error_text os RenameError = ''activate symlink: '' @ os"
| "release_error_text os CopyFailed = ''create release: '' @ os"
| "release_error_text os SaveFailed = os"

definition path_text :: "bool \<times> path \<Rightarrow> string" where
  "path_text p = (if fst p then normalized_path (snd p) else if snd p = [] then ''.'' else join ''/'' (snd p))"

definition encode_release :: "(int \<Rightarrow> string) \<Rightarrow> go_release \<Rightarrow> json" where
  "encode_release time r = JObj
     ([(''id'', JStr (gr_id r)), (''version'', JStr (gr_version r)), (''runtime_id'', JStr (gr_runtime r)),
       (''state'', JStr (release_state_str (gr_state r))), (''created_at'', JStr (time (gr_created r)))]
      @ opt_member ''activated_at'' (map_option (\<lambda>t. JStr (time t)) (gr_activated r))
      @ opt_member ''deactivated_at'' (map_option (\<lambda>t. JStr (time t)) (gr_deactivated r))
      @ [(''dir'', JStr (path_text (gr_dir r)))]
      @ (if gr_metadata r = [] then [] else [(''metadata'', JObj (map (\<lambda>(k, v). (k, JStr v)) (gr_metadata r)))]))"

definition deploy_manager :: "deploy_env \<Rightarrow> content files \<Rightarrow> release_manager \<times> content files" where
  "deploy_manager e fs = snd (init_manager (de_cwd e) (new_release_manager ''./releases'') fs)"

definition handle_deploy_list :: "deploy_env \<Rightarrow> content files \<Rightarrow> response \<times> content files" where
  "handle_deploy_list e fs =
     (let (m, fs1) = deploy_manager e fs
      in (json_resp (JObj [(''releases'', JArr (map (encode_release (de_time e)) (list_releases m)))]), fs1))"

text \<open>\<open>handleDeployCreate\<close> with its three clock readings; \<open>None\<close> when the copy goes deeper than \<open>n\<close> levels.\<close>

definition handle_deploy_create ::
  "nat \<Rightarrow> deploy_env \<Rightarrow> int \<Rightarrow> int \<times> int \<Rightarrow> http_method \<Rightarrow> json option \<Rightarrow> content files \<Rightarrow> (response \<times> content files) option"
where
  "handle_deploy_create n e now t meth body fs =
     (if meth \<noteq> POST then Some (not_allowed, fs)
      else
        (let version = (if body_str ''version'' body = ''''
                        then ''1.0.'' @ int_to_str (now div 10 ^ 9 mod 1000) else body_str ''version'' body);
             src = (if body_str ''src_dir'' body = '''' then ''.'' else body_str ''src_dir'' body);
             (m, fs1) = deploy_manager e fs
         in case create_release n (de_cwd e) t version ''php8.3'' src [] m fs1 of
              None \<Rightarrow> None
            | Some (Inl err, m', fs2) \<Rightarrow> Some (json_err (release_error_text (de_os e) err) 500, fs2)
            | Some (Inr r, m', fs2) \<Rightarrow> Some (json_resp (JObj [(''release'', encode_release (de_time e) r)]), fs2)))"

definition handle_deploy_activate ::
  "deploy_env \<Rightarrow> int \<times> int \<Rightarrow> http_method \<Rightarrow> json option \<Rightarrow> content files \<Rightarrow> response \<times> content files" where
  "handle_deploy_activate e t meth body fs =
     (if meth \<noteq> POST then (not_allowed, fs)
      else if body_str ''id'' body = '''' then (json_err ''missing release id'' 400, fs)
      else
        (let (m, fs1) = deploy_manager e fs
         in case activate (de_cwd e) t (body_str ''id'' body) m fs1 of
              (Some err, m', fs2) \<Rightarrow> (json_err (release_error_text (de_os e) err) 500, fs2)
            | (None, m', fs2) \<Rightarrow>
                (json_resp (JObj [(''id'', JStr (body_str ''id'' body)), (''status'', JStr ''activated'')]), fs2)))"

definition handle_deploy_rollback ::
  "deploy_env \<Rightarrow> int \<times> int \<Rightarrow> http_method \<Rightarrow> content files \<Rightarrow> response \<times> content files" where
  "handle_deploy_rollback e t meth fs =
     (if meth \<noteq> POST then (not_allowed, fs)
      else
        (let (m, fs1) = deploy_manager e fs
         in case rollback (de_cwd e) t m fs1 of
              (Inl err, m', fs2) \<Rightarrow> (json_err (release_error_text (de_os e) err) 500, fs2)
            | (Inr r, m', fs2) \<Rightarrow>
                (json_resp (JObj [(''release'', encode_release (de_time e) r), (''status'', JStr ''rolled_back'')]), fs2)))"

end
