(* ===== verification/ReleaseCopy.thy ===== *)
theory ReleaseCopy
  imports Releases
begin

text \<open>
  What \<open>copyReleaseDir\<close> makes of a source tree: an exact copy, when the release does not lie in its source; the
  source the handlers take, the working directory, contains the releases, and its copy descends into
  itself without end.
\<close>

section \<open>Paths\<close>

lemma rel_step_plain: "\<forall>w \<in> set ws. plain_segment w \<Longrightarrow> fold rel_step ws r = r @ ws"
  by (induction ws arbitrary: r) (auto simp: rel_step_def plain_segment_def)

lemma lexical_plain: "\<forall>w \<in> set ws. plain_segment w \<Longrightarrow> lexical absolute ws = ws"
  by (simp add: lexical_def rel_step_plain collapse_plain)

lemma plain_name_segment: "plain_segment w \<Longrightarrow> plain_name w"
  by (simp add: plain_segment_def plain_name_def)

lemma in_releases_plain:
  "\<forall>w \<in> set (rm_dir m @ ws). plain_segment w \<Longrightarrow> in_releases m ws = (rm_abs m, rm_dir m @ ws)"
  by (simp add: in_releases_def lexical_plain)

lemma plain_archive [simp]: "plain_segment ''archive''" "plain_segment ''active''" "plain_segment ''active.tmp''"
    "plain_segment ''releases''"
  by (simp_all add: plain_segment_def)

lemma in_archive_plain:
  "\<forall>w \<in> set (rm_dir m). plain_segment w \<Longrightarrow> plain_segment i \<Longrightarrow> in_archive m i = (rm_abs m, rm_dir m @ [''archive'', i])"
  by (simp add: in_archive_def in_releases_plain split_on_none plain_segment_def)

lemma default_manager: "new_release_manager ''./releases'' = \<lparr>rm_abs = False, rm_dir = [''releases''], rm_active = '''', rm_releases = []\<rparr>"
  by (simp add: new_release_manager_def given_path_def lexical_def rel_step_def)

lemma given_dot: "given_path ''.'' = (False, [])"
  by (simp add: given_path_def lexical_def rel_step_def)

lemma nat_to_str_no_slash: "CHR ''/'' \<notin> set (nat_to_str n)"
proof
  assume "CHR ''/'' \<in> set (nat_to_str n)"
  with nat_to_str_digits obtain d where "d < 10" "CHR ''/'' = char_of (48 + d :: nat)" by blast
  then have "of_char (CHR ''/'') = (48 + d :: nat)" by simp
  then show False by simp
qed

lemma json_plain: "plain_segment i \<Longrightarrow> plain_segment (i @ ''.json'')"
  by (auto simp: plain_segment_def append_eq_Cons_conv)

lemma int_to_str_no_slash: "CHR ''/'' \<notin> set (int_to_str t)"
  using nat_to_str_no_slash by (simp add: int_to_str_def)

lemma release_id_plain: "CHR ''/'' \<notin> set v \<Longrightarrow> plain_segment (release_id v t)"
  using int_to_str_no_slash by (simp add: release_id_def plain_segment_def)

section \<open>Writing only adds\<close>

text \<open>Creating directories and writing files keeps every directory and adds no link.\<close>

definition grows :: "'c files \<Rightarrow> 'c files \<Rightarrow> bool" where
  "grows fs fs' \<longleftrightarrow>
     (\<forall>p. fget fs p = Some Dir \<longrightarrow> fget fs' p = Some Dir) \<and>
     (\<forall>p absolute t. fget fs' p = Some (Link absolute t) \<longrightarrow> fget fs p = Some (Link absolute t))"

lemma grows_refl [simp]: "grows fs fs"
  by (simp add: grows_def)

lemma grows_trans: "grows fs fs' \<Longrightarrow> grows fs' fs'' \<Longrightarrow> grows fs fs''"
  unfolding grows_def by blast

lemma grows_real_dir: "grows fs fs' \<Longrightarrow> real_dir fs p \<Longrightarrow> real_dir fs' p"
  by (simp add: grows_def real_dir_def)

lemma namei_Missing: "namei n follow fs cur p = Missing q \<Longrightarrow> fget fs q = None"
proof (induction n follow fs cur p rule: namei.induct)
  case (2 n follow fs cur c cs)
  show ?case
  proof (cases "c = ''.'' \<or> c = '''' \<or> c = ''..''")
    case True
    then show ?thesis using "2.IH"(1,2) "2.prems" by (cases "c = ''.'' \<or> c = ''''") auto
  next
    case False
    show ?thesis
    proof (cases "fget fs (cur @ [c])")
      case None
      then show ?thesis using "2.prems" False by (simp split: if_splits)
    next
      case (Some node)
      then show ?thesis
        using "2.IH"(3,4) [of node] "2.prems" False by (cases node) (auto split: if_splits nat.splits)
    qed
  qed
qed simp

lemma fput_Dir_grows: "fget fs q = None \<Longrightarrow> grows fs (fput q Dir fs)"
  by (auto simp: grows_def split: if_splits)

lemma fput_File_grows: "fget fs q \<noteq> Some Dir \<Longrightarrow> grows fs (fput q (File d) fs)"
  by (auto simp: grows_def split: if_splits)

lemma mkdir_grows: "mkdir p fs = Some fs' \<Longrightarrow> grows fs fs'"
  by (auto simp: mkdir_def locate_def dest: namei_Missing intro: fput_Dir_grows split: found.splits)

lemma mkdir_all_grows: "mkdir_all p fs = Some fs' \<Longrightarrow> grows fs fs'"
proof (induction p fs arbitrary: fs' rule: mkdir_all.induct)
  case (1 p fs)
  from "1.prems" show ?case
    unfolding mkdir_all.simps [of p fs]
    by (auto split: option.splits node.splits if_splits dest!: "1.IH" mkdir_grows intro: grows_trans)
qed

lemma write_file_grows: "write_file p d fs = Some fs' \<Longrightarrow> grows fs fs'"
  by (auto simp: write_file_def locate_def dest: namei_Missing intro!: fput_File_grows split: found.splits option.splits node.splits)

lemma each_name_grows:
  "(\<And>x fs. x \<in> set xs \<Longrightarrow> grows fs (snd (f x fs))) \<Longrightarrow> grows fs (snd (each_name f xs fs))"
proof (induction xs arbitrary: fs)
  case (Cons x xs)
  have "grows (snd (f x fs)) (snd (each_name f xs (snd (f x fs))))"
    by (rule Cons.IH) (simp add: Cons.prems)
  with grows_trans [OF Cons.prems [of x fs]] show ?case by (simp add: Let_def Cons.prems)
qed simp

lemma copy_grows: "grows fs (snd (copy_release_dir n src dst rel fs))"
proof (induction n arbitrary: rel fs)
  case (Suc n)
  show ?case
    by (auto split: option.splits node.splits intro: write_file_grows mkdir_all_grows
        intro!: grows_trans [OF mkdir_all_grows each_name_grows] Suc)
qed simp

text \<open>One name that cannot be copied, whatever the tree has grown to by then, spoils the directory.\<close>

lemma each_name_stuck:
  assumes "x \<in> set xs" and "\<And>y fs. grows fs (snd (f y fs))"
    and "\<And>fs'. grows fs fs' \<Longrightarrow> fst (f x fs') \<noteq> Copied"
  shows "fst (each_name f xs fs) \<noteq> Copied"
  using assms(1,3)
proof (induction xs arbitrary: fs)
  case (Cons y xs)
  show ?case
  proof (cases "fst (f y fs) = Copied")
    case True
    then have "x \<in> set xs" using Cons.prems by auto
    moreover have "fst (f x fs') \<noteq> Copied" if "grows (snd (f y fs)) fs'" for fs'
      using Cons.prems(2) [of fs'] grows_trans [OF assms(2) that] by simp
    ultimately show ?thesis using Cons.IH True by (simp add: Let_def)
  qed (simp add: Let_def)
qed simp

section \<open>A release of the working directory\<close>

text \<open>
  The path into which the copy descends: releases, archive, the release, and again.
\<close>

definition descent :: "string \<Rightarrow> nat \<Rightarrow> string" where
  "descent i k = [''releases'', ''archive'', i] ! (k mod 3)"

definition descent_path :: "string \<Rightarrow> nat \<Rightarrow> path" where
  "descent_path i k = map (descent i) [0..<k]"

lemma descent_path_Suc: "descent_path i (Suc k) = descent_path i k @ [descent i k]"
  by (simp add: descent_path_def)

lemma descent_path_3: "[''releases'', ''archive'', i] @ descent_path i k = descent_path i (k + 3)"
proof -
  have "descent_path i 3 = [''releases'', ''archive'', i]"
    by (simp add: descent_path_def descent_def upt_rec)
  moreover have "map (descent i) [3..<k + 3] = map (descent i) [0..<k]"
    by (rule nth_equalityI) (simp_all add: descent_def)
  moreover have "[0..<k + 3] = [0..<3] @ [3..<k + 3]"
    using upt_add_eq_append [of 0 3 k] by (simp add: add.commute)
  ultimately show ?thesis by (simp add: descent_path_def)
qed

lemma descent_plain: "plain_segment i \<Longrightarrow> plain_segment (descent i k)"
proof -
  have "k mod 3 < 3" by simp
  then have "k mod 3 = 0 \<or> k mod 3 = 1 \<or> k mod 3 = 2" by linarith
  then show "plain_segment i \<Longrightarrow> plain_segment (descent i k)" by (auto simp: descent_def)
qed

lemma copy_never_ends:
  assumes "plain_segment i" and "dst = cwd @ [''releases'', ''archive'', i]"
  shows "real_dir fs (cwd @ descent_path i (k + 2)) \<Longrightarrow>
    \<forall>j \<ge> 3. \<forall>absolute t. fget fs (cwd @ descent_path i j) \<noteq> Some (Link absolute t) \<Longrightarrow>
    fst (copy_release_dir n cwd dst (descent_path i k) fs) \<noteq> Copied"
proof (induction n arbitrary: k fs)
  case (Suc n)
  let ?p = "cwd @ descent_path i k" and ?t = "dst @ descent_path i k"
  have chain: "cwd @ descent_path i (k + 2) = ?p @ [descent i k] @ [descent i (Suc k)]"
    by (simp add: descent_path_Suc numeral_2_eq_2)
  have p: "real_dir fs ?p" and c: "real_dir fs (?p @ [descent i k])"
    using Suc.prems(1) real_dir_append [of fs "?p @ [descent i k]" "[descent i (Suc k)]"]
      real_dir_append [of fs ?p "[descent i k]"] unfolding chain by auto
  have t: "?t = (cwd @ descent_path i (k + 2)) @ [descent i (k + 2)]"
    using descent_path_3 [of i k] by (simp add: assms(2) descent_path_Suc numeral_3_eq_3 numeral_2_eq_2)
  have t': "?t = cwd @ descent_path i (Suc k + 2)"
    using t by (simp add: descent_path_Suc)
  have name: "descent i k \<in> set (sorted_list_of_set (set (children fs ?p)))"
    using real_dir_get [OF c] fget_children [of fs ?p "descent i k"] by simp
  show ?case
  proof (cases "mkdir_all ?t fs")
    case None
    then show ?thesis by (simp add: lstat_dir [OF p] read_dir_names_dir [OF p])
  next
    case (Some fs1)
    have real: "real_dir fs1 ?t"
    proof (cases "fget fs ?t")
      case None
      have plain: "plain_name (descent i (k + 2))" by (rule plain_name_segment [OF descent_plain [OF assms(1)]])
      have "fs1 = fput ?t Dir fs"
        using mkdir_all_entry [OF Suc.prems(1) plain] None \<open>mkdir_all ?t fs = Some fs1\<close> unfolding t by simp
      then show ?thesis
        using real_dir_fput_Dir [OF Suc.prems(1), of ?t] plain unfolding t by (simp only: real_dir_snoc fget_fput) simp
    next
      case (Some node)
      have "node = Dir"
      proof (cases node)
        case (File d)
        have plain: "plain_name (descent i (k + 2))" by (rule plain_name_segment [OF descent_plain [OF assms(1)]])
        have "stat fs ?t = Some (File d)"
          using stat_entry_file [OF Suc.prems(1) plain, of d] Some File unfolding t by simp
        then have "mkdir_all ?t fs = None" by (subst mkdir_all.simps) simp
        then show ?thesis using \<open>mkdir_all ?t fs = Some fs1\<close> by simp
      next
        case (Link absolute target)
        then show ?thesis using Suc.prems(2) Some unfolding t' by simp
      qed simp
      then have "real_dir fs ?t"
        using Suc.prems(1) Some plain_name_segment [OF descent_plain [OF assms(1), of "k + 2"]]
        unfolding t by (simp only: real_dir_snoc)
      then show ?thesis by (rule grows_real_dir [OF mkdir_all_grows [OF \<open>mkdir_all ?t fs = Some fs1\<close>]])
    qed
    have links: "\<forall>j \<ge> 3. \<forall>absolute t. fget fs1 (cwd @ descent_path i j) \<noteq> Some (Link absolute t)"
      using Suc.prems(2) mkdir_all_grows [OF Some] unfolding grows_def by blast
    have stuck: "fst (copy_release_dir n cwd dst (descent_path i k @ [descent i k]) fs2) \<noteq> Copied" if "grows fs1 fs2" for fs2
    proof -
      have "real_dir fs2 (cwd @ descent_path i (Suc k + 2))" using grows_real_dir [OF that real] t' by simp
      moreover have "\<forall>j \<ge> 3. \<forall>absolute t. fget fs2 (cwd @ descent_path i j) \<noteq> Some (Link absolute t)"
        using links that unfolding grows_def by blast
      ultimately show ?thesis using Suc.IH [of fs2 "Suc k"] by (simp add: descent_path_Suc)
    qed
    have "fst (each_name (\<lambda>name. copy_release_dir n cwd dst (descent_path i k @ [name]))
        (sorted_list_of_set (set (children fs ?p))) fs1) \<noteq> Copied"
    proof (rule each_name_stuck [OF name])
      show "grows fs2 (snd (copy_release_dir n cwd dst (descent_path i k @ [y]) fs2))" for y fs2
        by (rule copy_grows)
    qed (rule stuck)
    then show ?thesis by (simp add: lstat_dir [OF p] read_dir_names_dir [OF p] Some)
  qed
qed simp

text \<open>The handlers' manager keeps the tree it finds, up to the directories it makes.\<close>

lemma init_grows: "grows fs (snd (snd (init_manager cwd m fs)))"
  by (auto simp: init_manager_def split: option.split dest!: mkdir_all_grows intro: grows_trans)

lemma load_entry_dir: "rm_abs (load_entry cwd fs name m) = rm_abs m \<and> rm_dir (load_entry cwd fs name m) = rm_dir m"
  by (simp add: load_entry_def Let_def split: option.split content.split)

lemma load_entries_dir:
  "rm_abs (fold (load_entry cwd fs) names m) = rm_abs m \<and> rm_dir (fold (load_entry cwd fs) names m) = rm_dir m"
  by (induction names arbitrary: m) (simp_all add: load_entry_dir)

lemma init_dir:
  "rm_abs (fst (snd (init_manager cwd m fs))) = rm_abs m \<and> rm_dir (fst (snd (init_manager cwd m fs))) = rm_dir m"
  by (simp add: init_manager_def load_releases_def load_entries_dir split: option.split)

lemma body_str_create:
  "body_str ''version'' (rq_body (createDeployment v None)) = v"
  "body_str ''src_dir'' (rq_body (createDeployment v None)) = ''''"
  by (simp_all add: body_str_def createDeployment_def api_request_def opt_member_def field_of_def to_lower_def to_lower_char_def in_range_def)

lemma create_release_fails:
  assumes "fst (copy_release_dir n (full_path cwd (given_path src)) (full_path cwd (in_archive m (release_id v (fst t)))) [] fs) \<noteq> Copied"
  shows "create_release n cwd t v runtime src metadata m fs = None \<or>
    (\<exists>m' fs'. create_release n cwd t v runtime src metadata m fs = Some (Inl CopyFailed, m', fs'))"
  using assms by (simp add: create_release_def Let_def split: copied.split)


section \<open>A release is an exact copy\<close>

lemma under_iff: "under q p \<longleftrightarrow> (\<exists>r. p = q @ r)"
  by (auto simp: under_def dest: sym) (metis append_take_drop_id)

text \<open>
  A source tree without links: every entry below it has a proper name and lies in a directory.
\<close>

definition plain_tree :: "'c files \<Rightarrow> path \<Rightarrow> bool" where
  "plain_tree fs src \<longleftrightarrow>
     real_dir fs src \<and>
     (\<forall>rel c. fget fs (src @ rel @ [c]) \<noteq> None \<longrightarrow> plain_name c \<and> fget fs (src @ rel) = Some Dir) \<and>
     (\<forall>rel absolute t. fget fs (src @ rel) \<noteq> Some (Link absolute t))"

lemma plain_tree_real:
  "plain_tree fs src \<Longrightarrow> fget fs (src @ rel) = Some Dir \<Longrightarrow> real_dir fs (src @ rel)"
proof (induction rel rule: rev_induct)
  case (snoc c rel)
  then have "plain_name c" "fget fs (src @ rel) = Some Dir" unfolding plain_tree_def by blast+
  with snoc have "real_dir fs ((src @ rel) @ [c])" by (simp only: real_dir_snoc) simp
  then show ?case by simp
qed (simp add: plain_tree_def)

lemma plain_tree_below:
  assumes "plain_tree fs src" "fget fs (src @ rel) \<noteq> Some Dir" "x \<noteq> []"
  shows "fget fs (src @ rel @ x) = None"
  using assms(3)
proof (induction x rule: rev_induct)
  case (snoc c x)
  have "fget fs (src @ rel @ x) \<noteq> Some Dir" using snoc assms(2) by (cases "x = []") auto
  then have "fget fs (src @ (rel @ x) @ [c]) = None" using assms(1) unfolding plain_tree_def by (metis append_assoc)
  then show ?case by simp
qed simp

text \<open>The tree after a copy of the part \<open>rel\<close> of the source.\<close>

definition copied_to :: "'c files \<Rightarrow> path \<Rightarrow> path \<Rightarrow> path \<Rightarrow> 'c files \<Rightarrow> 'c files \<Rightarrow> bool" where
  "copied_to fs0 src dst rel fs fs' \<longleftrightarrow>
     (\<forall>p. fget fs' p = (if under (dst @ rel) p then fget fs0 (src @ drop (length dst) p) else fget fs p))"

definition copy_ready :: "'c files \<Rightarrow> path \<Rightarrow> path \<Rightarrow> path \<Rightarrow> 'c files \<Rightarrow> bool" where
  "copy_ready fs0 src dst rel fs \<longleftrightarrow>
     (\<forall>p. \<not> under dst p \<longrightarrow> fget fs p = fget fs0 p) \<and>
     (\<forall>p. under (dst @ rel) p \<longrightarrow> fget fs p = None) \<and>
     real_dir fs (butlast (dst @ rel)) \<and> plain_name (last (dst @ rel)) \<and>
     (\<exists>node. fget fs0 (src @ rel) = Some node)"

definition deep :: "nat \<Rightarrow> 'c files \<Rightarrow> path \<Rightarrow> bool" where
  "deep n fs p \<longleftrightarrow> (\<forall>r. fget fs (p @ r) \<noteq> None \<longrightarrow> length r < n)"

definition copyable :: "'c files \<Rightarrow> path \<Rightarrow> path \<Rightarrow> bool" where
  "copyable fs src dst \<longleftrightarrow>
     plain_tree fs src \<and> (\<forall>p. under dst p \<longrightarrow> fget fs p = None) \<and> \<not> under src dst \<and> dst \<noteq> [] \<and>
     real_dir fs (butlast dst) \<and> plain_name (last dst)"

lemma source_apart:
  assumes "copyable fs0 src dst" shows "\<not> under dst (src @ rel)"
proof
  assume "under dst (src @ rel)"
  then obtain r where r: "src @ rel = dst @ r" by (auto simp: under_iff)
  then consider x where "src = dst @ x" | x where "dst = src @ x" by (auto simp: append_eq_append_conv2)
  then show False
  proof cases
    case 1
    then have "fget fs0 src = None" using assms by (simp add: copyable_def under_iff)
    then show ?thesis using assms real_dir_get [of fs0 src] by (simp add: copyable_def plain_tree_def)
  next
    case 2
    then show ?thesis using assms by (simp add: copyable_def under_iff)
  qed
qed

lemma ready_source:
  assumes "copyable fs0 src dst" "copy_ready fs0 src dst rel fs"
  shows "fget fs (src @ r) = fget fs0 (src @ r)" "real_dir fs0 p \<Longrightarrow> real_dir fs p"
proof -
  show "fget fs (src @ r) = fget fs0 (src @ r)"
    using source_apart [OF assms(1)] assms(2) by (simp add: copy_ready_def)
  have "\<not> under dst q" if "fget fs0 q = Some Dir" for q
    using that assms(1) by (auto simp: copyable_def)
  then show "real_dir fs p" if "real_dir fs0 p"
    using that assms(2) unfolding real_dir_def copy_ready_def by auto
qed

lemma last_append: "dst \<noteq> [] \<Longrightarrow> dst @ rel = butlast (dst @ rel) @ [last (dst @ rel)]"
  by simp

lemma copy_file:
  assumes "copyable fs0 src dst" "copy_ready fs0 src dst rel fs" "fget fs0 (src @ rel) = Some (File d)"
  shows "\<exists>fs'. copy_release_dir (Suc n) src dst rel fs = (Copied, fs') \<and> copied_to fs0 src dst rel fs fs'"
proof -
  have tree: "plain_tree fs0 src" using assms(1) by (simp add: copyable_def)
  have "rel \<noteq> []" using assms(3) tree real_dir_get [of fs0 src] by (auto simp: plain_tree_def)
  then obtain r c where rel: "rel = r @ [c]" by (cases rel rule: rev_cases) auto
  have c: "plain_name c" "fget fs0 (src @ r) = Some Dir"
    using tree assms(3) unfolding rel plain_tree_def by (metis option.distinct(1))+
  have real: "real_dir fs (src @ r)" by (rule ready_source(2) [OF assms(1,2) plain_tree_real [OF tree c(2)]])
  have get: "fget fs ((src @ r) @ [c]) = Some (File d)" using ready_source(1) [OF assms(1,2), of rel] assms(3) rel by simp
  have source: "lstat fs (src @ rel) = Some (File d)" "read_file fs (src @ rel) = Some d"
    using lstat_entry [OF real c(1)] read_file_entry [OF real c(1) get] get rel by simp_all
  have dne: "dst \<noteq> []" using assms(1) by (simp add: copyable_def)
  have ready: "real_dir fs (butlast (dst @ rel))" "plain_name (last (dst @ rel))" "\<forall>p. under (dst @ rel) p \<longrightarrow> fget fs p = None"
    using assms(2) by (simp_all add: copy_ready_def)
  have "fget fs (butlast (dst @ rel) @ [last (dst @ rel)]) = None"
    using ready(3) last_append [OF dne, of rel] by (simp add: under_iff)
  then have "write_file (butlast (dst @ rel) @ [last (dst @ rel)]) d fs =
      Some (fput (butlast (dst @ rel) @ [last (dst @ rel)]) (File d) fs)"
    by (intro write_file_entry ready(1,2)) simp
  then have written: "write_file (dst @ rel) d fs = Some (fput (dst @ rel) (File d) fs)"
    using last_append [OF dne, of rel] by simp
  have "copied_to fs0 src dst rel fs (fput (dst @ rel) (File d) fs)"
    unfolding copied_to_def
  proof (intro allI)
    fix p
    show "fget (fput (dst @ rel) (File d) fs) p =
        (if under (dst @ rel) p then fget fs0 (src @ drop (length dst) p) else fget fs p)"
    proof (cases "under (dst @ rel) p")
      case True
      then obtain x where p: "p = dst @ rel @ x" by (auto simp: under_iff)
      have "x = [] \<or> fget fs0 (src @ rel @ x) = None"
        using plain_tree_below [OF tree, of rel x] assms(3) by (cases "x = []") simp_all
      then show ?thesis using True p dne ready(3) assms(3) by auto
    qed (auto simp: under_iff)
  qed
  with source written show ?thesis by simp
qed

text \<open>The entries of a directory one after the other: \<open>X\<close> are those that have been copied.\<close>

definition partly_copied :: "'c files \<Rightarrow> path \<Rightarrow> path \<Rightarrow> path \<Rightarrow> string set \<Rightarrow> 'c files \<Rightarrow> 'c files \<Rightarrow> bool" where
  "partly_copied fs0 src dst rel X fs fs' \<longleftrightarrow>
     (\<forall>p. fget fs' p =
        (if p = dst @ rel then Some Dir
         else if \<exists>x \<in> X. under (dst @ rel @ [x]) p then fget fs0 (src @ drop (length dst) p)
         else fget fs p))"

lemma partly_ready:
  assumes "copyable fs0 src dst" "copy_ready fs0 src dst rel fs" "partly_copied fs0 src dst rel X fs fs'"
    "x \<notin> X" "plain_name x" "fget fs0 (src @ rel @ [x]) = Some node"
  shows "copy_ready fs0 src dst (rel @ [x]) fs'"
proof -
  have dne: "dst \<noteq> []" using assms(1) by (simp add: copyable_def)
  have get: "fget fs' p = (if p = dst @ rel then Some Dir
         else if \<exists>x \<in> X. under (dst @ rel @ [x]) p then fget fs0 (src @ drop (length dst) p) else fget fs p)" for p
    using assms(3) unfolding partly_copied_def by blast
  have ready: "\<forall>p. \<not> under dst p \<longrightarrow> fget fs p = fget fs0 p" "real_dir fs (butlast (dst @ rel))" "plain_name (last (dst @ rel))"
      "\<forall>p. under (dst @ rel) p \<longrightarrow> fget fs p = None"
    using assms(2) by (simp_all add: copy_ready_def)
  have "fget fs' p = fget fs0 p" if "\<not> under dst p" for p
  proof -
    have "p \<noteq> dst @ rel" "\<not> (\<exists>x \<in> X. under (dst @ rel @ [x]) p)" using that by (auto simp: under_iff)
    then show ?thesis using that ready(1) by (simp add: get)
  qed
  moreover have "fget fs' p = None" if "under (dst @ rel @ [x]) p" for p
  proof -
    have "p \<noteq> dst @ rel" "\<not> (\<exists>x \<in> X. under (dst @ rel @ [x]) p)" using that assms(4) by (auto simp: under_iff)
    moreover have "under (dst @ rel) p" using that by (auto simp: under_iff)
    ultimately show ?thesis using ready(4) by (simp add: get)
  qed
  moreover have "real_dir fs' (dst @ rel)"
  proof -
    have "fget fs' q = Some Dir" if "fget fs q = Some Dir" for q
    proof -
      have "\<not> under (dst @ rel) q" using that ready(4) by auto
      then have "\<not> (\<exists>x \<in> X. under (dst @ rel @ [x]) q)" by (auto simp: under_iff)
      with that show ?thesis by (simp add: get)
    qed
    then have "real_dir fs' (butlast (dst @ rel))" using ready(2) by (simp add: real_dir_def)
    then show ?thesis
      using real_dir_snoc [of fs' "butlast (dst @ rel)" "last (dst @ rel)"] ready(3) get [of "dst @ rel"] dne by simp
  qed
  ultimately show ?thesis using assms(5,6) by (simp add: copy_ready_def butlast_append)
qed

lemma partly_step:
  assumes "partly_copied fs0 src dst rel X fs fs'" "copied_to fs0 src dst (rel @ [x]) fs' fs''"
  shows "partly_copied fs0 src dst rel (insert x X) fs fs''"
  using assms by (auto simp: partly_copied_def copied_to_def under_iff)

lemma copy_names:
  assumes "copyable fs0 src dst" "copy_ready fs0 src dst rel fs"
    and copy: "\<And>x fs. x \<in> set names \<Longrightarrow> copy_ready fs0 src dst (rel @ [x]) fs \<Longrightarrow>
      \<exists>fs'. f x fs = (Copied, fs') \<and> copied_to fs0 src dst (rel @ [x]) fs fs'"
    and names: "\<And>x. x \<in> set names \<Longrightarrow> plain_name x \<and> (\<exists>node. fget fs0 (src @ rel @ [x]) = Some node)"
  shows "set xs \<subseteq> set names \<Longrightarrow> distinct xs \<Longrightarrow> X \<inter> set xs = {} \<Longrightarrow> partly_copied fs0 src dst rel X fs fs1 \<Longrightarrow>
    \<exists>fs'. each_name f xs fs1 = (Copied, fs') \<and> partly_copied fs0 src dst rel (X \<union> set xs) fs fs'"
proof (induction xs arbitrary: X fs1)
  case (Cons x xs)
  have x: "x \<in> set names" "x \<notin> X" using Cons.prems by auto
  obtain node where node: "plain_name x" "fget fs0 (src @ rel @ [x]) = Some node" using names [OF x(1)] by blast
  have "copy_ready fs0 src dst (rel @ [x]) fs1" by (rule partly_ready [OF assms(1,2) Cons.prems(4) x(2) node])
  from copy [OF x(1) this] obtain fs2 where step: "f x fs1 = (Copied, fs2)" "copied_to fs0 src dst (rel @ [x]) fs1 fs2" by blast
  from Cons.IH [OF _ _ _ partly_step [OF Cons.prems(4) step(2)]] Cons.prems(1-3) step(1) show ?case by auto
qed simp

lemma copy_dir:
  assumes "copyable fs0 src dst" "copy_ready fs0 src dst rel fs" "fget fs0 (src @ rel) = Some Dir"
    and rest: "\<And>x fs. copy_ready fs0 src dst (rel @ [x]) fs \<Longrightarrow>
      \<exists>fs'. copy_release_dir n src dst (rel @ [x]) fs = (Copied, fs') \<and> copied_to fs0 src dst (rel @ [x]) fs fs'"
  shows "\<exists>fs'. copy_release_dir (Suc n) src dst rel fs = (Copied, fs') \<and> copied_to fs0 src dst rel fs fs'"
proof -
  have tree: "plain_tree fs0 src" and dne: "dst \<noteq> []" using assms(1) by (simp_all add: copyable_def)
  have real: "real_dir fs (src @ rel)" by (rule ready_source(2) [OF assms(1,2) plain_tree_real [OF tree assms(3)]])
  have ready: "real_dir fs (butlast (dst @ rel))" "plain_name (last (dst @ rel))" "\<forall>p. under (dst @ rel) p \<longrightarrow> fget fs p = None"
    using assms(2) by (simp_all add: copy_ready_def)
  have "fget fs (butlast (dst @ rel) @ [last (dst @ rel)]) = None"
    using ready(3) last_append [OF dne, of rel] by (simp add: under_iff)
  from mkdir_all_entry [OF ready(1,2) this]
  have mk: "mkdir_all (dst @ rel) fs = Some (fput (dst @ rel) Dir fs)" using last_append [OF dne, of rel] by simp
  let ?names = "sorted_list_of_set (set (children fs (src @ rel)))"
  have child: "c \<in> set ?names \<longleftrightarrow> fget fs0 (src @ rel @ [c]) \<noteq> None" for c
    using fget_children [of fs "src @ rel" c] ready_source(1) [OF assms(1,2), of "rel @ [c]"] by simp
  have part: "partly_copied fs0 src dst rel {} fs (fput (dst @ rel) Dir fs)"
    using dne by (simp add: partly_copied_def)
  have "plain_name c" if "fget fs0 (src @ rel @ [c]) \<noteq> None" for c
    using tree that unfolding plain_tree_def by blast
  then have names: "plain_name x \<and> (\<exists>node. fget fs0 (src @ rel @ [x]) = Some node)" if "x \<in> set ?names" for x
    using that child by auto
  obtain fs' where each: "each_name (\<lambda>name. copy_release_dir n src dst (rel @ [name])) ?names (fput (dst @ rel) Dir fs) = (Copied, fs')"
      and full: "partly_copied fs0 src dst rel (set ?names) fs fs'"
    using copy_names [OF assms(1,2) rest names subset_refl _ _ part, where names = ?names] by auto
  have "copied_to fs0 src dst rel fs fs'"
    unfolding copied_to_def
  proof (intro allI)
    fix p
    show "fget fs' p = (if under (dst @ rel) p then fget fs0 (src @ drop (length dst) p) else fget fs p)"
    proof (cases "under (dst @ rel) p")
      case False
      then have "p \<noteq> dst @ rel" "\<not> (\<exists>x \<in> set ?names. under (dst @ rel @ [x]) p)" by (auto simp: under_iff)
      with False full show ?thesis by (simp add: partly_copied_def)
    next
      case True
      then obtain r where p: "p = dst @ rel @ r" by (auto simp: under_iff)
      show ?thesis
      proof (cases r)
        case Nil
        then show ?thesis using p full assms(3) by (simp add: partly_copied_def under_iff)
      next
        case (Cons c y)
        have "\<exists>x \<in> set ?names. under (dst @ rel @ [x]) p" if "fget fs0 (src @ rel @ [c]) \<noteq> None"
          using that child p Cons by (auto simp: under_iff)
        moreover have "fget fs0 (src @ rel @ c # y) = None" if "fget fs0 (src @ rel @ [c]) = None"
          using plain_tree_below [OF tree, of "rel @ [c]" y] that by (cases "y = []") auto
        moreover have "fget fs p = None" using True ready(3) by simp
        ultimately show ?thesis
          using full True p Cons by (cases "fget fs0 (src @ rel @ [c]) = None") (auto simp: partly_copied_def)
      qed
    qed
  qed
  then show ?thesis using each by (simp add: lstat_dir [OF real] read_dir_names_dir [OF real] mk)
qed

lemma copy_part:
  "copyable fs0 src dst \<Longrightarrow> copy_ready fs0 src dst rel fs \<Longrightarrow> deep n fs0 (src @ rel) \<Longrightarrow>
     \<exists>fs'. copy_release_dir n src dst rel fs = (Copied, fs') \<and> copied_to fs0 src dst rel fs fs'"
proof (induction n arbitrary: rel fs)
  case 0
  then obtain node where "fget fs0 (src @ rel) = Some node" by (auto simp: copy_ready_def)
  moreover have "fget fs0 (src @ rel) = None" using spec [OF "0.prems"(3) [unfolded deep_def], of "[]"] by simp
  ultimately show ?case by simp
next
  case (Suc n)
  obtain node where node: "fget fs0 (src @ rel) = Some node" using Suc.prems(2) by (auto simp: copy_ready_def)
  show ?case
  proof (cases node)
    case Dir
    have "deep n fs0 (src @ rel @ [x])" for x
      using Suc.prems(3) unfolding deep_def by (metis Suc_less_eq append_assoc append_Cons append_Nil length_Cons)
    then show ?thesis using copy_dir [OF Suc.prems(1,2)] node Dir Suc.IH [OF Suc.prems(1)] by blast
  next
    case (File d)
    with copy_file [OF Suc.prems(1,2)] node show ?thesis by blast
  next
    case (Link absolute t)
    then show ?thesis using node Suc.prems(1) unfolding copyable_def plain_tree_def by blast
  qed
qed

lemma copy_exact:
  assumes "copyable fs src dst" and "deep n fs src"
  shows "\<exists>fs'. copy_release_dir n src dst [] fs = (Copied, fs') \<and>
    (\<forall>rel. fget fs' (dst @ rel) = fget fs (src @ rel)) \<and> (\<forall>p. \<not> under dst p \<longrightarrow> fget fs' p = fget fs p)"
proof -
  have "copy_ready fs src dst [] fs"
    using assms(1) real_dir_get [of fs src] by (simp add: copyable_def copy_ready_def plain_tree_def)
  from copy_part [OF assms(1) this] assms(2)
  obtain fs' where "copy_release_dir n src dst [] fs = (Copied, fs')" "copied_to fs src dst [] fs fs'" by auto
  then show ?thesis by (auto simp: copied_to_def under_iff)
qed

text \<open>After the copy: where the metadata goes, and what is left when the copy is removed again.\<close>

lemma map_of_not_under: "map_of (filter (\<lambda>(r, _). \<not> under p r) fs) q = (if under p q then None else map_of fs q)"
  by (induction fs) auto

lemma remove_all_dir: "real_dir fs p \<Longrightarrow> fget (remove_all p fs) q = (if q \<noteq> [] \<and> under p q then None else fget fs q)"
proof -
  assume "real_dir fs p"
  moreover have "fget (filter (\<lambda>(r, _). \<not> under p r) fs) q = (if q \<noteq> [] \<and> under p q then None else fget fs q)"
    by (simp add: fget_def map_of_not_under)
  ultimately show ?thesis by (simp add: remove_all_def locate_dir)
qed

lemma write_file_dir: "real_dir fs p \<Longrightarrow> plain_name c \<Longrightarrow> fget fs (p @ [c]) = Some Dir \<Longrightarrow> write_file (p @ [c]) d fs = None"
  by (simp add: write_file_def locate_in_dir plain_name_def)

text \<open>C10. \<open>Create\<close> makes an exact copy of its source: if the source holds files and directories, the version makes a proper file name, the directory of the release
  is new, lies in an existing archive and not in the source, and its metadata file is no link, the creation terminates and does not need more levels than the source is
  deep. Then the directory of the new release, below \<open>archive\<close>, has the source's entries with their contents, its metadata are saved beside it, the
  release is listed as created, and nothing else in the tree has changed; but where the metadata cannot be saved, because
  there is a directory of that name, the copy is removed again and the tree is as it was.\<close>

theorem release_is_exact_copy:
  assumes "i = release_id version (fst t)" and "plain_segment i" and "\<forall>w \<in> set (rm_dir m). plain_segment w"
    and "source = full_path cwd (given_path src)" and "archive = full_path cwd (rm_abs m, rm_dir m) @ [''archive'']"
    and "copyable fs source (archive @ [i])" and "deep n fs source"
    and "\<forall>absolute u. fget fs (archive @ [i @ ''.json'']) \<noteq> Some (Link absolute u)"
    and "r = \<lparr>gr_id = i, gr_version = version, gr_runtime = runtime, gr_state = RCreated, gr_created = snd t, gr_activated = None,
           gr_deactivated = None, gr_dir = (rm_abs m, rm_dir m @ [''archive'', i]), gr_metadata = metadata\<rparr>"
  shows "\<exists>fs'.
    if fget fs (archive @ [i @ ''.json'']) = Some Dir
    then create_release n cwd t version runtime src metadata m fs = Some (Inl SaveFailed, m, fs') \<and> (\<forall>p. fget fs' p = fget fs p)
    else create_release n cwd t version runtime src metadata m fs = Some (Inr r, m\<lparr>rm_releases := rel_put r (rm_releases m)\<rparr>, fs') \<and>
      (\<forall>rel. fget fs' (archive @ i # rel) = fget fs (source @ rel)) \<and>
      fget fs' (archive @ [i @ ''.json'']) = Some (File (Meta r)) \<and>
      (\<forall>p. \<not> under (archive @ [i]) p \<and> p \<noteq> archive @ [i @ ''.json''] \<longrightarrow> fget fs' p = fget fs p)"
proof -
  let ?dst = "archive @ [i]" and ?json = "archive @ [i @ ''.json'']"
  have dst: "in_archive m i = (rm_abs m, rm_dir m @ [''archive'', i])" "full_path cwd (rm_abs m, rm_dir m @ [''archive'', i]) = ?dst"
    using in_archive_plain [OF assms(3,2)] by (simp_all add: assms(5) full_path_def)
  have json: "full_path cwd (in_archive m (i @ ''.json'')) = ?json"
    using in_archive_plain [OF assms(3) json_plain [OF assms(2)]] by (simp add: assms(5) full_path_def)
  obtain fs1 where copy: "copy_release_dir n source ?dst [] fs = (Copied, fs1)"
      and inside: "\<And>rel. fget fs1 (?dst @ rel) = fget fs (source @ rel)" and outside: "\<And>p. \<not> under ?dst p \<Longrightarrow> fget fs1 p = fget fs p"
    using copy_exact [OF assms(6,7)] by blast
  have new: "fget fs (?dst @ rel) = None" for rel using assms(6) by (simp add: copyable_def under_iff)
  have archive: "real_dir fs archive" and top: "fget fs source = Some Dir"
    using assms(6) real_dir_get [of fs source] by (simp_all add: copyable_def plain_tree_def)
  have "real_dir fs1 archive"
    by (rule grows_real_dir [OF _ archive]) (use copy_grows [of fs n source ?dst "[]"] copy in simp)
  then have real: "real_dir fs1 archive" "real_dir fs1 ?dst"
    using inside [of "[]"] top plain_name_segment [OF assms(2)] by (simp_all add: real_dir_snoc)
  have apart: "\<not> under ?dst ?json" by (auto simp: under_iff)
  have name: "plain_name (i @ ''.json'')" by (rule plain_name_segment [OF json_plain [OF assms(2)]])
  have save: "save_release cwd m r fs1 = write_file ?json (Meta r) fs1" by (simp add: save_release_def assms(9) json)
  have created: "create_release n cwd t version runtime src metadata m fs =
      (case save_release cwd m r fs1 of
         None \<Rightarrow> Some (Inl SaveFailed, m, remove_all ?dst fs1)
       | Some fs' \<Rightarrow> Some (Inr r, m\<lparr>rm_releases := rel_put r (rm_releases m)\<rparr>, fs'))"
    unfolding create_release_def Let_def assms(1) [symmetric] dst assms(4) [symmetric] copy fst_conv snd_conv
      copied.case assms(9) [symmetric]
    by (rule refl)
  show ?thesis
  proof (cases "fget fs ?json = Some Dir")
    case True
    then have "save_release cwd m r fs1 = None"
      using write_file_dir [OF real(1) name] outside [OF apart] save by simp
    moreover have "fget (remove_all ?dst fs1) p = fget fs p" for p
      using remove_all_dir [OF real(2), of p] outside [of p] new by (auto simp: under_iff)
    ultimately show ?thesis using True created by simp
  next
    case False
    then have "fget fs1 ?json = None \<or> (\<exists>d. fget fs1 ?json = Some (File d))"
      using outside [OF apart] assms(8) by (cases "fget fs ?json"; cases "the (fget fs ?json)") auto
    then have "save_release cwd m r fs1 = Some (fput ?json (File (Meta r)) fs1)"
      using write_file_entry [OF real(1) name] save by simp
    moreover have "fget (fput ?json (File (Meta r)) fs1) (?dst @ rel) = fget fs (source @ rel)" for rel
      using inside [of rel] apart by (auto simp: under_iff)
    ultimately show ?thesis using False created outside by simp
  qed
qed

section \<open>Witnesses\<close>

text \<open>The working directory of a project with one file, after the releases have been listed once.\<close>

definition demo_project :: "content files" where
  "demo_project =
     [([''srv''], Dir), ([''srv'', ''index.php''], File (Data ''<?php'')), ([''srv'', ''releases''], Dir),
      ([''srv'', ''releases'', ''active''], Dir), ([''srv'', ''releases'', ''archive''], Dir)]"

definition demo_deploy :: deploy_env where
  "demo_deploy = \<lparr>de_cwd = [''srv''], de_os = ''input/output error'', de_time = (\<lambda>_. ''2024-01-01T00:00:00Z'')\<rparr>"

lemma demo_project_dirs:
  "real_dir demo_project [''srv'', ''releases'', ''archive'']"
  by (simp add: real_dir_from demo_project_def fget_def plain_name_def)

lemma demo_manager: "deploy_manager demo_deploy demo_project = (new_release_manager ''./releases'', demo_project)"
proof -
  have dirs: "real_dir demo_project [''srv'', ''releases'']" "real_dir demo_project [''srv'', ''releases'', ''active'']"
    by (simp_all add: real_dir_from demo_project_def fget_def plain_name_def)
  have "children demo_project [''srv'', ''releases'', ''archive''] = []"
    by (simp add: children_def demo_project_def)
  then show ?thesis
    using demo_project_dirs dirs
    by (simp add: deploy_manager_def init_manager_def demo_deploy_def in_releases_plain default_manager full_path_def
        mkdir_all_dir load_releases_def read_dir_names_dir)
qed


text \<open>A project outside the releases, and a manager for the releases of the working directory.\<close>

definition demo_source :: "content files" where
  "demo_source =
     [([''app''], Dir), ([''app'', ''index.php''], File (Data ''<?php'')), ([''app'', ''lib''], Dir),
      ([''app'', ''lib'', ''a.php''], File (Data ''a'')), ([''srv''], Dir), ([''srv'', ''releases''], Dir),
      ([''srv'', ''releases'', ''archive''], Dir)]"

lemma demo_source_copyable: "copyable demo_source [''app''] [''srv'', ''releases'', ''archive'', i]" if "plain_name i"
  unfolding copyable_def plain_tree_def real_dir_from
  using that by (auto simp: demo_source_def fget_def under_def plain_name_def split: if_splits)

lemma demo_source_deep: "deep 3 demo_source [''app'']"
  by (auto simp: deep_def demo_source_def fget_def split: if_splits)

lemma demo_release_id: "release_id ''1'' 6 = ''rel_1_6''"
  using char_of_char [of "CHR ''6''"] by (simp add: release_id_def int_to_str_def nat_to_str.simps)

theorem release_is_exact_copy_witness:
  "\<exists>r fs'. create_release 3 [''srv''] (6, 7) ''1'' ''php8.3'' ''/app'' [] (new_release_manager ''./releases'') demo_source =
      Some (Inr r, (new_release_manager ''./releases'')\<lparr>rm_releases := [r]\<rparr>, fs') \<and>
    (\<forall>rel. fget fs' ([''srv'', ''releases'', ''archive''] @ ''rel_1_6'' # rel) = fget demo_source ([''app''] @ rel)) \<and>
    fget fs' [''srv'', ''releases'', ''archive'', ''rel_1_6.json''] = Some (File (Meta r))"
proof -
  let ?m = "new_release_manager ''./releases''"
  have source: "[''app''] = full_path [''srv''] (given_path ''/app'')"
    by (simp add: full_path_def given_path_def lexical_def collapse_step_def)
  have archive: "[''srv'', ''releases'', ''archive''] = full_path [''srv''] (rm_abs ?m, rm_dir ?m) @ [''archive'']"
    by (simp add: default_manager full_path_def)
  have id: "plain_segment ''rel_1_6''" "plain_name ''rel_1_6''" by (simp_all add: plain_segment_def plain_name_def)
  have free: "fget demo_source ([''srv'', ''releases'', ''archive''] @ [''rel_1_6'' @ ''.json'']) = None"
    by (simp add: demo_source_def fget_def)
  have none: "rm_releases ?m = []" by (simp add: default_manager)
  have dir: "\<forall>w \<in> set (rm_dir ?m). plain_segment w" by (simp add: default_manager)
  have copy: "copyable demo_source [''app''] ([''srv'', ''releases'', ''archive''] @ [''rel_1_6''])"
    using demo_source_copyable [OF id(2)] by simp
  have id6: "''rel_1_6'' = release_id ''1'' (fst (6 :: int, 7 :: int))" by (simp add: demo_release_id)
  from release_is_exact_copy [OF id6 id(1) dir source archive copy demo_source_deep _ refl, of "''php8.3''" "[]"] free none
  show ?thesis by (fastforce simp: rel_put_def)
qed

end
