(* ===== verification/ReleaseStore.thy ===== *)
theory ReleaseStore
  imports ReleaseCopy
begin

text \<open>
  The releases as the file tree stores them, and an abstract store of releases. For releases in an absolute directory the manager
  implements it from one request to the next. The handlers use a directory relative to the working
  directory: there the first activation implements the store too, but its link leads nowhere, and the requests after it
  find no releases.
\<close>

section \<open>What the tree stores\<close>

text \<open>
  The store read off the tree: the releases in the order of their metadata files. It depends on the entries of the
  archive alone.
\<close>

definition store_path :: "path \<Rightarrow> release_manager \<Rightarrow> path" where
  "store_path cwd m = full_path cwd (rm_abs m, rm_dir m)"

definition meta_at :: "content files \<Rightarrow> path \<Rightarrow> string \<Rightarrow> go_release option" where
  "meta_at fs archive name =
     (if ends_with name ''.json'' then
        (case fget fs (archive @ [name]) of Some (File (Meta r)) \<Rightarrow> Some r | _ \<Rightarrow> None)
      else None)"

definition stored :: "content files \<Rightarrow> path \<Rightarrow> go_release list" where
  "stored fs archive = List.map_filter (meta_at fs archive) (sorted_list_of_set (set (children fs archive)))"

definition active_id :: "go_release list \<Rightarrow> string" where
  "active_id rs = fold (\<lambda>r a. if gr_state r = RActive then gr_id r else a) rs ''''"

definition one_active :: "go_release list \<Rightarrow> bool" where
  "one_active rs \<longleftrightarrow> (\<forall>r \<in> set rs. \<forall>r' \<in> set rs. gr_state r = RActive \<and> gr_state r' = RActive \<longrightarrow> r = r')"

text \<open>The archive holds the metadata of releases under their own names, and their directories.\<close>

definition store_ok :: "path \<Rightarrow> release_manager \<Rightarrow> content files \<Rightarrow> bool" where
  "store_ok cwd m fs \<longleftrightarrow>
     (\<forall>w \<in> set (rm_dir m). plain_segment w) \<and>
     real_dir fs (store_path cwd m @ [''archive'']) \<and>
     (\<forall>name. fget fs (store_path cwd m @ [''archive'', name]) \<noteq> None \<longrightarrow> plain_segment name) \<and>
     (\<forall>name node. fget fs (store_path cwd m @ [''archive'', name]) = Some node \<and> ends_with name ''.json'' \<longrightarrow>
        node = Dir \<or>
        (\<exists>r. node = File (Meta r) \<and> name = gr_id r @ ''.json'' \<and> plain_segment (gr_id r) \<and>
           gr_dir r = (rm_abs m, rm_dir m @ [''archive'', gr_id r]) \<and>
           real_dir fs (store_path cwd m @ [''archive'', gr_id r]))) \<and>
     one_active (stored fs (store_path cwd m @ [''archive''])) \<and>
     fget fs (store_path cwd m @ [''active.tmp'']) = None \<and>
     (fget fs (store_path cwd m @ [''active'']) = Some Dir \<longrightarrow> children fs (store_path cwd m @ [''active'']) = [])"

lemma ends_with_json [simp]: "ends_with (i @ ''.json'') ''.json''"
  by (auto simp: ends_with_iff)

lemma store_ok_paths:
  assumes "store_ok cwd m fs" and "plain_segment w"
  shows "full_path cwd (in_releases m [w]) = store_path cwd m @ [w]"
    "full_path cwd (in_releases m [w, v]) = store_path cwd m @ [w, v] \<or> \<not> plain_segment v"
    "full_path cwd (in_releases m []) = store_path cwd m"
    "full_path cwd (in_archive m w) = store_path cwd m @ [''archive'', w]"
proof -
  have plain: "\<forall>w \<in> set (rm_dir m). plain_segment w" using assms(1) by (simp add: store_ok_def)
  then show "full_path cwd (in_releases m [w]) = store_path cwd m @ [w]"
    "full_path cwd (in_releases m [w, v]) = store_path cwd m @ [w, v] \<or> \<not> plain_segment v"
    "full_path cwd (in_releases m []) = store_path cwd m"
    "full_path cwd (in_archive m w) = store_path cwd m @ [''archive'', w]"
    using assms(2) in_archive_plain [of m w] by (auto simp: in_releases_plain store_path_def full_path_def)
qed

lemma store_ok_real:
  assumes "store_ok cwd m fs"
  shows "real_dir fs (store_path cwd m)" "real_dir fs (store_path cwd m @ [''archive''])"
  using assms real_dir_append [of fs "store_path cwd m" "[''archive'']"] by (simp_all add: store_ok_def)

lemma set_map_filter: "y \<in> set (List.map_filter f xs) \<longleftrightarrow> (\<exists>x \<in> set xs. f x = Some y)"
  by (induction xs) (auto simp: List.map_filter_simps split: option.split)

lemma stored_iff:
  "r \<in> set (stored fs archive) \<longleftrightarrow> (\<exists>name. meta_at fs archive name = Some r)"
proof -
  have "name \<in> set (children fs archive)" if "meta_at fs archive name = Some r" for name
    using that fget_children [of fs archive name] by (auto simp: meta_at_def split: if_splits option.splits)
  then show ?thesis by (auto simp: stored_def set_map_filter)
qed

lemma meta_at_get: "meta_at fs archive name \<noteq> None \<Longrightarrow> fget fs (archive @ [name]) \<noteq> None"
  by (cases "fget fs (archive @ [name])") (auto simp: meta_at_def split: if_split_asm)

lemma meta_at_cases:
  assumes "store_ok cwd m fs" and "meta_at fs (store_path cwd m @ [''archive'']) name = Some r"
  shows "name = gr_id r @ ''.json''" "plain_segment (gr_id r)" "gr_dir r = (rm_abs m, rm_dir m @ [''archive'', gr_id r])"
    "real_dir fs (store_path cwd m @ [''archive'', gr_id r])"
    "fget fs (store_path cwd m @ [''archive'', name]) = Some (File (Meta r))"
proof -
  have get: "ends_with name ''.json''" "fget fs (store_path cwd m @ [''archive'', name]) = Some (File (Meta r))"
    using assms(2) by (auto simp: meta_at_def split: if_splits option.splits node.splits content.splits)
  with assms(1) show "name = gr_id r @ ''.json''" "plain_segment (gr_id r)"
      "gr_dir r = (rm_abs m, rm_dir m @ [''archive'', gr_id r])"
      "real_dir fs (store_path cwd m @ [''archive'', gr_id r])"
    by (fastforce simp: store_ok_def)+
  show "fget fs (store_path cwd m @ [''archive'', name]) = Some (File (Meta r))" by (rule get)
qed

lemma map_filter_inj:
  assumes "distinct xs" and "\<And>x r. f x = Some r \<Longrightarrow> x = g r"
  shows "distinct (List.map_filter f xs)"
  using assms(1)
proof (induction xs)
  case (Cons x xs)
  then show ?case by (auto simp: List.map_filter_simps set_map_filter split: option.split dest: assms(2))
qed (simp add: List.map_filter_simps)

lemma stored_distinct:
  assumes "store_ok cwd m fs"
  shows "distinct (map gr_id (stored fs (store_path cwd m @ [''archive''])))"
proof -
  let ?a = "store_path cwd m @ [''archive'']"
  have "distinct (stored fs ?a)"
    unfolding stored_def by (rule map_filter_inj [where g = "\<lambda>r. gr_id r @ ''.json''"]) (auto dest: meta_at_cases(1) [OF assms])
  moreover have "inj_on gr_id (set (stored fs ?a))"
  proof (rule inj_onI)
    fix r r' assume "r \<in> set (stored fs ?a)" "r' \<in> set (stored fs ?a)" "gr_id r = gr_id r'"
    then obtain n n' where "meta_at fs ?a n = Some r" "meta_at fs ?a n' = Some r'" by (auto simp: stored_iff)
    with meta_at_cases(1) [OF assms this(1)] meta_at_cases(1) [OF assms this(2)] \<open>gr_id r = gr_id r'\<close>
    show "r = r'" by simp
  qed
  ultimately show ?thesis by (simp add: distinct_map)
qed

text \<open>Loading reads exactly the store.\<close>

lemma load_entry_stored:
  assumes "store_ok cwd m0 fs" "rm_abs m = rm_abs m0" "rm_dir m = rm_dir m0"
    "name \<in> set (children fs (store_path cwd m0 @ [''archive'']))"
  shows "load_entry cwd fs name m =
    (case meta_at fs (store_path cwd m0 @ [''archive'']) name of
       None \<Rightarrow> m
     | Some r \<Rightarrow> m\<lparr>rm_releases := rel_put r (rm_releases m), rm_active := (if gr_state r = RActive then gr_id r else rm_active m)\<rparr>)"
proof -
  obtain node where node: "fget fs (store_path cwd m0 @ [''archive'', name]) = Some node"
    using assms(4) fget_children [of fs "store_path cwd m0 @ [''archive'']" name] by auto
  have plain: "plain_segment name" using assms(1) node unfolding store_ok_def by blast
  have path: "full_path cwd (in_releases m [''archive'', name]) = (store_path cwd m0 @ [''archive'']) @ [name]"
    using store_ok_paths(2) [OF assms(1), of "''archive''" name] plain assms(2,3) by (simp add: in_releases_def)
  have real: "real_dir fs (store_path cwd m0 @ [''archive''])" by (rule store_ok_real(2) [OF assms(1)])
  have get: "fget fs ((store_path cwd m0 @ [''archive'']) @ [name]) = Some node" using node by simp
  have lst: "lstat fs ((store_path cwd m0 @ [''archive'']) @ [name]) = Some node"
    using lstat_entry [OF real plain_name_segment [OF plain]] get by simp
  show ?thesis
  proof (cases "ends_with name ''.json''")
    case True
    then consider "node = Dir" | r where "node = File (Meta r)"
      using assms(1) node unfolding store_ok_def by blast
    then show ?thesis
    proof cases
      case 1
      then show ?thesis using lst node by (simp add: load_entry_def Let_def path meta_at_def)
    next
      case 2
      have "read_file fs ((store_path cwd m0 @ [''archive'']) @ [name]) = Some (Meta r)"
        by (rule read_file_entry [OF real plain_name_segment [OF plain]]) (use get 2 in simp)
      then show ?thesis using lst node 2 True by (simp add: load_entry_def Let_def path meta_at_def)
    qed
  qed (simp add: load_entry_def meta_at_def Let_def)
qed

lemma rel_put_new: "gr_id r \<notin> gr_id ` set rs \<Longrightarrow> rel_put r rs = rs @ [r]"
  by (simp add: rel_put_def)

lemma load_entries_stored:
  assumes "store_ok cwd m0 fs"
  shows "rm_abs m = rm_abs m0 \<Longrightarrow> rm_dir m = rm_dir m0 \<Longrightarrow>
    set xs \<subseteq> set (children fs (store_path cwd m0 @ [''archive''])) \<Longrightarrow>
    distinct (map gr_id (rm_releases m @ List.map_filter (meta_at fs (store_path cwd m0 @ [''archive''])) xs)) \<Longrightarrow>
    fold (load_entry cwd fs) xs m =
      m\<lparr>rm_releases := rm_releases m @ List.map_filter (meta_at fs (store_path cwd m0 @ [''archive''])) xs,
        rm_active := fold (\<lambda>r a. if gr_state r = RActive then gr_id r else a)
          (List.map_filter (meta_at fs (store_path cwd m0 @ [''archive''])) xs) (rm_active m)\<rparr>"
proof (induction xs arbitrary: m)
  case Nil
  then show ?case by (simp add: List.map_filter_simps)
next
  case (Cons x xs)
  let ?A = "store_path cwd m0 @ [''archive'']"
  have step: "load_entry cwd fs x m = (case meta_at fs ?A x of None \<Rightarrow> m
     | Some r \<Rightarrow> m\<lparr>rm_releases := rel_put r (rm_releases m), rm_active := (if gr_state r = RActive then gr_id r else rm_active m)\<rparr>)"
    by (rule load_entry_stored) (use Cons.prems assms in auto)
  show ?case
  proof (cases "meta_at fs ?A x")
    case None
    then show ?thesis using Cons.IH [of m] Cons.prems step by (simp add: List.map_filter_simps)
  next
    case (Some r)
    then have "rel_put r (rm_releases m) = rm_releases m @ [r]"
      using Cons.prems(4) by (intro rel_put_new) (simp add: List.map_filter_simps)
    then show ?thesis
      using Some step Cons.prems
        Cons.IH [of "m\<lparr>rm_releases := rm_releases m @ [r], rm_active := (if gr_state r = RActive then gr_id r else rm_active m)\<rparr>"]
      by (simp add: List.map_filter_simps)
  qed
qed

lemma load_releases_stored:
  assumes "store_ok cwd m fs" "rm_active m = ''''" "rm_releases m = []"
  shows "load_releases cwd m fs =
    m\<lparr>rm_releases := stored fs (store_path cwd m @ [''archive'']), rm_active := active_id (stored fs (store_path cwd m @ [''archive'']))\<rparr>"
proof -
  let ?A = "store_path cwd m @ [''archive'']"
  have "read_dir_names fs (full_path cwd (in_releases m [''archive''])) = Some (sorted_list_of_set (set (children fs ?A)))"
    using read_dir_names_dir [OF store_ok_real(2) [OF assms(1)]] store_ok_paths(1) [OF assms(1), of "''archive''"] by simp
  moreover have "fold (load_entry cwd fs) (sorted_list_of_set (set (children fs ?A))) m =
      m\<lparr>rm_releases := stored fs ?A, rm_active := active_id (stored fs ?A)\<rparr>"
    using load_entries_stored [OF assms(1) refl refl, of "sorted_list_of_set (set (children fs ?A))"] stored_distinct [OF assms(1)]
      assms(2,3)
    by (simp add: stored_def active_id_def)
  ultimately show ?thesis by (simp add: load_releases_def)
qed

text \<open>The active release of the store.\<close>

lemma active_id_none: "\<forall>r \<in> set rs. gr_state r \<noteq> RActive \<Longrightarrow> active_id rs = ''''"
  by (induction rs rule: rev_induct) (auto simp: active_id_def)

lemma active_id_some: "active_id rs \<noteq> '''' \<Longrightarrow> \<exists>r \<in> set rs. gr_state r = RActive \<and> gr_id r = active_id rs"
  by (induction rs rule: rev_induct) (auto simp: active_id_def)

lemma active_id_unique:
  assumes "one_active rs" "r \<in> set rs" "gr_state r = RActive" "gr_id r \<noteq> ''''"
  shows "active_id rs = gr_id r"
proof -
  have "active_id rs = gr_id (last (filter (\<lambda>x. gr_state x = RActive) rs))"
    using assms(2,3) by (induction rs rule: rev_induct) (auto simp: active_id_def filter_empty_conv)
  moreover have "last (filter (\<lambda>x. gr_state x = RActive) rs) \<in> set (filter (\<lambda>x. gr_state x = RActive) rs)"
    using assms(2,3) by (intro last_in_set) (auto simp: filter_empty_conv)
  ultimately show ?thesis using assms(1-3) unfolding one_active_def by auto
qed

section \<open>Activation\<close>

lemma os_remove_entry:
  assumes "real_dir fs p" "plain_name c" "fget fs (p @ [c]) = Some Dir \<longrightarrow> children fs (p @ [c]) = []"
  shows "fget (os_remove (p @ [c]) fs) q = (if q = p @ [c] then None else fget fs q)"
  using assms(3) by (auto simp: os_remove_def locate_entry [OF assms(1,2)])

lemma os_remove_none:
  "real_dir fs p \<Longrightarrow> plain_name c \<Longrightarrow> fget fs (p @ [c]) = None \<Longrightarrow> os_remove (p @ [c]) fs = fs"
  by (simp add: os_remove_def locate_entry)

lemma symlink_entry:
  "real_dir fs p \<Longrightarrow> plain_name c \<Longrightarrow> fget fs (p @ [c]) = None \<Longrightarrow>
     symlink absolute t (p @ [c]) fs = Some (fput (p @ [c]) (Link absolute t) fs)"
  by (simp add: symlink_def locate_entry)

lemma rename_entry:
  assumes "real_dir fs p" "plain_name c" "plain_name d" "fget fs (p @ [c]) = Some (Link absolute t)" "fget fs (p @ [d]) = None"
  shows "rename_file (p @ [c]) (p @ [d]) fs = Some (fput (p @ [d]) (Link absolute t) (fdel (p @ [c]) fs))"
  using assms(4,5) by (simp add: rename_file_def locate_entry [OF assms(1,2)] locate_entry [OF assms(1,3)])

lemma real_dir_keep:
  assumes "real_dir fs (p @ [c] @ ws)" "\<forall>q. fget fs q = Some Dir \<and> q \<noteq> p @ [d] \<longrightarrow> fget fs' q = Some Dir" "c \<noteq> d"
  shows "real_dir fs' (p @ [c] @ ws)"
proof -
  have "take k (p @ [c] @ ws) \<noteq> p @ [d]" for k
  proof
    assume eq: "take k (p @ [c] @ ws) = p @ [d]"
    then have "length (take k (p @ [c] @ ws)) = length (p @ [d])" by simp
    then have "Suc (length p) \<le> k" by simp
    then have "take k (p @ [c] @ ws) = p @ [c] @ take (k - Suc (length p)) ws" by (simp add: take_Cons' Suc_diff_le)
    with eq assms(3) show False by simp
  qed
  with assms(1,2) show ?thesis unfolding real_dir_def by blast
qed

definition switch :: "int \<times> int \<Rightarrow> string \<Rightarrow> go_release list \<Rightarrow> go_release list" where
  "switch t i rs =
     map (\<lambda>r. if gr_id r = i then activated (snd t) r else if gr_state r = RActive then stopped (fst t) r else r) rs"

text \<open>The contract of an activation: the store without the tree.\<close>

definition spec_activate :: "int \<times> int \<Rightarrow> string \<Rightarrow> go_release list \<Rightarrow> release_error + go_release list" where
  "spec_activate t i rs =
     (case rel_get i rs of
        None \<Rightarrow> Inl (RelNotFound i)
      | Some r \<Rightarrow> if gr_state r = RActive then Inl (AlreadyActive i) else Inr (switch t i rs))"

lemma rel_get_Some: "rel_get i rs = Some r \<Longrightarrow> r \<in> set rs \<and> gr_id r = i"
  unfolding rel_get_def by (auto dest: find_SomeD)

lemma rel_get_distinct: "distinct (map gr_id rs) \<Longrightarrow> r \<in> set rs \<Longrightarrow> rel_get (gr_id r) rs = Some r"
  unfolding rel_get_def by (induction rs) (auto simp: image_iff)

lemma stopped_simps [simp]:
  "gr_id (stopped t r) = gr_id r" "gr_dir (stopped t r) = gr_dir r" "gr_state (stopped t r) = RStopped"
  "gr_id (activated t r) = gr_id r" "gr_dir (activated t r) = gr_dir r" "gr_state (activated t r) = RActive"
  by (simp_all add: stopped_def activated_def)

text \<open>The release that the manager would stop.\<close>

lemma active_release_stored:
  assumes "store_ok cwd m0 fs" "rs = stored fs (store_path cwd m0 @ [''archive''])" "rm_releases m = rs" "rm_active m = active_id rs"
  shows "active_release m = List.find (\<lambda>r. gr_state r = RActive) rs"
proof (cases "\<exists>r \<in> set rs. gr_state r = RActive")
  case True
  then obtain r where r: "r \<in> set rs" "gr_state r = RActive" by blast
  then obtain n where "meta_at fs (store_path cwd m0 @ [''archive'']) n = Some r" using assms(2) stored_iff by blast
  then have "gr_id r \<noteq> ''''" using meta_at_cases(2) [OF assms(1)] by (auto simp: plain_segment_def)
  moreover have one: "one_active rs" using assms(1,2) by (simp add: store_ok_def)
  ultimately have "active_id rs = gr_id r" using active_id_unique r by blast
  then have "active_release m = Some r"
    using rel_get_distinct [of rs r] r stored_distinct [OF assms(1)] assms(2-4) \<open>gr_id r \<noteq> ''''\<close> by (simp add: active_release_def)
  moreover obtain r' where find: "List.find (\<lambda>r. gr_state r = RActive) rs = Some r'"
    using True by (cases "List.find (\<lambda>r. gr_state r = RActive) rs") (auto simp: find_None_iff)
  moreover have "r' = r" using find_SomeD [OF find] one r unfolding one_active_def by blast
  ultimately show ?thesis by simp
next
  case False
  then have "active_id rs = ''''" by (intro active_id_none) auto
  moreover have "List.find (\<lambda>r. gr_state r = RActive) rs = None" using False by (simp add: find_None_iff)
  ultimately show ?thesis using assms(4) by (simp add: active_release_def)
qed

lemma rel_set_switch:
  assumes "distinct (map gr_id rs)" "one_active rs" "r \<in> set rs" "gr_state r \<noteq> RActive"
  shows "rel_set (activated (snd t) r)
      (case List.find (\<lambda>r. gr_state r = RActive) rs of None \<Rightarrow> rs | Some old \<Rightarrow> rel_set (stopped (fst t) old) rs) =
    switch t (gr_id r) rs"
proof -
  have same: "x = y" if "x \<in> set rs" "y \<in> set rs" "gr_id x = gr_id y" for x y
    using assms(1) that by (simp add: distinct_map inj_on_def)
  show ?thesis
  proof (cases "List.find (\<lambda>r. gr_state r = RActive) rs")
    case None
    then have "\<forall>x \<in> set rs. gr_state x \<noteq> RActive" by (simp add: find_None_iff)
    with None show ?thesis using same assms(3) by (auto simp: switch_def rel_set_def)
  next
    case (Some old)
    then have "old \<in> set rs" "gr_state old = RActive" by (auto dest: find_SomeD)
    then show ?thesis
      using same assms(2-4) Some unfolding one_active_def by (auto simp: switch_def rel_set_def)
  qed
qed

text \<open>What an activation makes of the tree.\<close>

definition switched :: "release_manager \<Rightarrow> path \<Rightarrow> int \<times> int \<Rightarrow> go_release \<Rightarrow> go_release list \<Rightarrow> content files \<Rightarrow> path \<Rightarrow> content node option" where
  "switched m b t r rs fs q =
     (if q = b @ [''archive'', gr_id r @ ''.json''] then Some (File (Meta (activated (snd t) r)))
      else if q = b @ [''active''] then Some (Link (fst (gr_dir r)) (snd (gr_dir r)))
      else (case List.find (\<lambda>r. gr_state r = RActive) rs of
              None \<Rightarrow> fget fs q
            | Some old \<Rightarrow> if q = b @ [''archive'', gr_id old @ ''.json''] then Some (File (Meta (stopped (fst t) old))) else fget fs q))"

lemma try_save_entry:
  assumes "store_ok cwd m fs" "real_dir fs' (store_path cwd m @ [''archive''])" "plain_segment (gr_id r)"
    "fget fs' (store_path cwd m @ [''archive'', gr_id r @ ''.json'']) = Some (File d)"
  shows "try_save cwd m r fs' = fput (store_path cwd m @ [''archive'', gr_id r @ ''.json'']) (File (Meta r)) fs'"
  using write_file_entry [OF assms(2) plain_name_segment [OF json_plain [OF assms(3)]], of "Meta r"] assms(4)
    store_ok_paths(4) [OF assms(1) json_plain [OF assms(3)]]
  by (simp add: try_save_def save_release_def)

lemma try_save_dirs: "rm_abs m = rm_abs m' \<Longrightarrow> rm_dir m = rm_dir m' \<Longrightarrow> try_save cwd m r fs = try_save cwd m' r fs"
  by (simp add: try_save_def save_release_def in_archive_def in_releases_def)

lemma activate_effect:
  assumes "store_ok cwd m0 fs" "rs = stored fs (store_path cwd m0 @ [''archive''])"
    "m = m0\<lparr>rm_releases := rs, rm_active := active_id rs\<rparr>" "r \<in> set rs" "gr_state r \<noteq> RActive"
  obtains fs' where "activate cwd t (gr_id r) m fs = (None, m\<lparr>rm_active := gr_id r, rm_releases := switch t (gr_id r) rs\<rparr>, fs')"
    "\<And>q. fget fs' q = switched m0 (store_path cwd m0) t r rs fs q"
proof -
  let ?b = "store_path cwd m0" and ?find = "List.find (\<lambda>r. gr_state r = RActive) rs"
  let ?json = "\<lambda>r. ?b @ [''archive'', gr_id r @ ''.json'']"
  have plain: "plain_name ''archive''" "plain_name ''active''" "plain_name ''active.tmp''"
    by (simp_all add: plain_name_segment)
  have dirs: "rm_abs m = rm_abs m0" "rm_dir m = rm_dir m0" using assms(3) by simp_all
  have meta: "fget fs (?json x) = Some (File (Meta x))" "plain_segment (gr_id x)" if "x \<in> set rs" for x
    using that assms(2) meta_at_cases [OF assms(1)] by (auto simp: stored_iff)
  have paths: "full_path cwd (in_releases m [''active'']) = ?b @ [''active'']"
      "full_path cwd (in_releases m [''active.tmp'']) = ?b @ [''active.tmp'']"
    using store_ok_paths(1) [OF assms(1)] dirs by (simp_all add: in_releases_def)
  define fs1 where "fs1 = (case ?find of None \<Rightarrow> fs | Some old \<Rightarrow> fput (?json old) (File (Meta (stopped (fst t) old))) fs)"
  have old: "(case active_release m of None \<Rightarrow> (m, fs) | Some old \<Rightarrow>
      (m\<lparr>rm_releases := rel_set (stopped (fst t) old) (rm_releases m)\<rparr>, try_save cwd m (stopped (fst t) old) fs)) =
     (m\<lparr>rm_releases := (case ?find of None \<Rightarrow> rs | Some old \<Rightarrow> rel_set (stopped (fst t) old) rs)\<rparr>, fs1)"
  proof (cases ?find)
    case (Some x)
    then have "x \<in> set rs" by (auto dest: find_SomeD)
    then have "try_save cwd m0 (stopped (fst t) x) fs = fput (?json x) (File (Meta (stopped (fst t) x))) fs"
      using try_save_entry [OF assms(1) store_ok_real(2) [OF assms(1)], of "stopped (fst t) x"] meta [of x] by simp
    then show ?thesis
      using Some active_release_stored [OF assms(1,2), of m] assms(3) try_save_dirs [of m m0] dirs by (simp add: fs1_def)
  qed (use active_release_stored [OF assms(1,2), of m] assms(3) in \<open>simp add: fs1_def\<close>)
  have get1: "fget fs1 q = (case ?find of None \<Rightarrow> fget fs q
      | Some old \<Rightarrow> if q = ?json old then Some (File (Meta (stopped (fst t) old))) else fget fs q)" for q
    by (simp add: fs1_def split: option.split)
  have keep1: "\<forall>q. fget fs q = Some Dir \<and> q \<noteq> ?b @ [''active''] \<longrightarrow> fget fs1 q = Some Dir"
    using meta by (auto simp: get1 dest: find_SomeD split: option.split)
  have real1: "real_dir fs1 (?b @ [''archive''])"
    using real_dir_keep [of fs ?b "''archive''" "[]" "''active''" fs1] store_ok_real(2) [OF assms(1)] keep1 by simp
  then have base1: "real_dir fs1 ?b" by (rule real_dir_append)
  have tmp1: "fget fs1 (?b @ [''active.tmp'']) = None" and link1: "fget fs1 (?b @ [''active'']) = fget fs (?b @ [''active''])"
    using assms(1) by (auto simp: get1 store_ok_def split: option.split)
  have empty: "children fs1 (?b @ [''active'']) = []" if "fget fs1 (?b @ [''active'']) = Some Dir"
  proof -
    have "children fs (?b @ [''active'']) = []" using that link1 assms(1) by (simp add: store_ok_def)
    then have "fget fs ((?b @ [''active'']) @ [c]) = None" for c
      using fget_children [of fs "?b @ [''active'']" c] by simp
    then have "fget fs1 ((?b @ [''active'']) @ [c]) = None" for c by (auto simp: get1 split: option.split)
    then show ?thesis using fget_children [of fs1 "?b @ [''active'']"] by (cases "children fs1 (?b @ [''active''])") auto
  qed
  define fs2 where "fs2 = os_remove (?b @ [''active'']) (os_remove (?b @ [''active.tmp'']) fs1)"
  have get2: "fget fs2 q = (if q = ?b @ [''active''] then None else fget fs1 q)" for q
    unfolding fs2_def os_remove_none [OF base1 plain(3) tmp1]
    by (rule os_remove_entry [OF base1 plain(2)]) (use empty in simp)
  have real2: "real_dir fs2 (?b @ [''archive''])"
    using real_dir_keep [of fs1 ?b "''archive''" "[]" "''active''" fs2] real1 get2 by simp
  then have base2: "real_dir fs2 ?b" by (rule real_dir_append)
  define fs3 where "fs3 = fput (?b @ [''active.tmp'']) (Link (fst (gr_dir r)) (snd (gr_dir r))) fs2"
  have sym: "symlink (fst (gr_dir r)) (snd (gr_dir r)) (?b @ [''active.tmp'']) fs2 = Some fs3"
    unfolding fs3_def by (rule symlink_entry [OF base2 plain(3)]) (simp add: get2 tmp1)
  have keep3: "\<forall>q. fget fs2 q = Some Dir \<and> q \<noteq> ?b @ [''active''] \<longrightarrow> fget fs3 q = Some Dir"
    using tmp1 by (auto simp: fs3_def get2)
  have real3: "real_dir fs3 (?b @ [''archive''])"
    using real_dir_keep [of fs2 ?b "''archive''" "[]" "''active''" fs3] real2 keep3 by simp
  then have base3: "real_dir fs3 ?b" by (rule real_dir_append)
  define fs4 where "fs4 = fput (?b @ [''active'']) (Link (fst (gr_dir r)) (snd (gr_dir r))) (fdel (?b @ [''active.tmp'']) fs3)"
  have ren: "rename_file (?b @ [''active.tmp'']) (?b @ [''active'']) fs3 = Some fs4"
    unfolding fs4_def by (rule rename_entry [OF base3 plain(3,2)]) (simp_all add: fs3_def get2)
  have get4: "fget fs4 q = (if q = ?b @ [''active''] then Some (Link (fst (gr_dir r)) (snd (gr_dir r))) else fget fs1 q)" for q
    using tmp1 by (simp add: fs4_def fs3_def get2)
  have real4: "real_dir fs4 (?b @ [''archive''])"
    using real_dir_keep [of fs1 ?b "''archive''" "[]" "''active''" fs4] real1 get4 by simp
  have "fget fs4 (?json r) \<noteq> None \<and> (\<exists>d. fget fs4 (?json r) = Some (File d))"
    using meta(1) [OF assms(4)] by (auto simp: get4 get1 split: option.split)
  then obtain d where "fget fs4 (?json r) = Some (File d)" by blast
  then have saved: "try_save cwd m0 (activated (snd t) r) fs4 = fput (?json r) (File (Meta (activated (snd t) r))) fs4"
    using try_save_entry [OF assms(1) real4, of "activated (snd t) r" d] meta(2) [OF assms(4)] by simp
  have set: "rel_set (activated (snd t) r) (case ?find of None \<Rightarrow> rs | Some old \<Rightarrow> rel_set (stopped (fst t) old) rs) = switch t (gr_id r) rs"
    by (rule rel_set_switch [OF _ _ assms(4,5)]) (use stored_distinct [OF assms(1)] assms(1,2) in \<open>simp_all add: store_ok_def\<close>)
  have get: "rel_get (gr_id r) (rm_releases m) = Some r"
    using rel_get_distinct [OF _ assms(4)] stored_distinct [OF assms(1)] assms(2,3) by simp
  show thesis
  proof (rule that)
    show "activate cwd t (gr_id r) m fs =
        (None, m\<lparr>rm_active := gr_id r, rm_releases := switch t (gr_id r) rs\<rparr>, try_save cwd m0 (activated (snd t) r) fs4)"
      unfolding activate_def get option.case if_not_P [OF assms(5)] Let_def old prod.case paths fs2_def [symmetric] sym ren
      using dirs try_save_dirs [of "m\<lparr>rm_active := gr_id r, rm_releases := switch t (gr_id r) rs\<rparr>" m0 cwd "activated (snd t) r" fs4]
      by (simp add: set)
    show "fget (try_save cwd m0 (activated (snd t) r) fs4) q = switched m0 ?b t r rs fs q" for q
      by (simp add: saved switched_def get4 get1 split: option.split)
  qed
qed

lemma map_filter_cong_map:
  "(\<And>x. x \<in> set xs \<Longrightarrow> g x = map_option h (f x)) \<Longrightarrow> List.map_filter g xs = map h (List.map_filter f xs)"
  by (induction xs) (auto simp: List.map_filter_simps split: option.split)

text \<open>The tree after an activation is a store again, and stores what the contract says.\<close>

lemma switched_stored:
  assumes "store_ok cwd m fs" "rs = stored fs (store_path cwd m @ [''archive''])" "r \<in> set rs" "gr_state r \<noteq> RActive"
    "\<And>q. fget fs' q = switched m (store_path cwd m) t r rs fs q"
  shows "stored fs' (store_path cwd m @ [''archive'']) = switch t (gr_id r) rs"
proof -
  let ?A = "store_path cwd m @ [''archive'']" and ?find = "List.find (\<lambda>r. gr_state r = RActive) rs"
  let ?f = "\<lambda>x. if gr_id x = gr_id r then activated (snd t) x else if gr_state x = RActive then stopped (fst t) x else x"
  have at: "meta_at fs ?A (gr_id x @ ''.json'') = Some x" if "x \<in> set rs" for x
    using that assms(2) meta_at_cases(1) [OF assms(1)] by (auto simp: stored_iff)
  have one: "one_active rs" using assms(1,2) by (simp add: store_ok_def)
  have meta: "meta_at fs' ?A name = map_option ?f (meta_at fs ?A name)" for name
  proof (cases "meta_at fs ?A name")
    case None
    then have "name \<noteq> gr_id x @ ''.json''" if "x \<in> set rs" for x using at [OF that] by auto
    then have "fget fs' (?A @ [name]) = fget fs (?A @ [name])"
      using assms(3) find_SomeD [of "\<lambda>r. gr_state r = RActive" rs] by (auto simp: assms(5) switched_def split: option.split)
    then have "meta_at fs' ?A name = meta_at fs ?A name" unfolding meta_at_def by simp
    with None show ?thesis by simp
  next
    case (Some x)
    note name = meta_at_cases [OF assms(1) Some]
    have x: "x \<in> set rs" using Some assms(2) by (auto simp: stored_iff)
    have same: "x = y" if "y \<in> set rs" "gr_id x = gr_id y" for y
      using at [OF x, unfolded that(2)] at [OF that(1)] by (metis option.inject)
    have "fget fs' (?A @ [name]) = Some (File (Meta (?f x)))"
    proof (cases ?find)
      case None
      then have "gr_state x \<noteq> RActive" using x by (simp add: find_None_iff)
      with None show ?thesis using name same [OF assms(3)] by (auto simp: assms(5) switched_def)
    next
      case (Some old)
      then have old: "old \<in> set rs" "gr_state old = RActive" by (auto dest: find_SomeD)
      with Some one show ?thesis
        using name same [OF assms(3)] same [OF old(1)] x unfolding one_active_def by (auto simp: assms(5) switched_def)
    qed
    with Some name(1) show ?thesis by (simp add: meta_at_def)
  qed
  have names: "set (children fs' ?A) = set (children fs ?A)"
  proof -
    have "fget fs' (?A @ [c]) \<noteq> None \<longleftrightarrow> fget fs (?A @ [c]) \<noteq> None" for c
    proof (cases "meta_at fs ?A c")
      case None
      then have "c \<noteq> gr_id x @ ''.json''" if "x \<in> set rs" for x using at [OF that] by auto
      then show ?thesis
        using assms(3) find_SomeD [of "\<lambda>r. gr_state r = RActive" rs] by (auto simp: assms(5) switched_def split: option.split)
    next
      case (Some x)
      then have "meta_at fs' ?A c \<noteq> None" using meta [of c] by simp
      with Some meta_at_get [of fs ?A c] meta_at_get [of fs' ?A c] show ?thesis by simp
    qed
    then show ?thesis using fget_children by blast
  qed
  show ?thesis
    unfolding stored_def names assms(2) switch_def by (rule map_filter_cong_map) (rule meta)
qed

lemma one_active_switch: "distinct (map gr_id rs) \<Longrightarrow> one_active (switch t i rs)"
  unfolding one_active_def switch_def
  by (auto simp: distinct_map inj_on_def split: if_splits)

lemma switched_store_ok:
  assumes "store_ok cwd m fs" "rs = stored fs (store_path cwd m @ [''archive''])" "r \<in> set rs" "gr_state r \<noteq> RActive"
    "\<And>q. fget fs' q = switched m (store_path cwd m) t r rs fs q"
  shows "store_ok cwd m fs'"
proof -
  let ?b = "store_path cwd m" and ?find = "List.find (\<lambda>r. gr_state r = RActive) rs"
  have meta: "fget fs (?b @ [''archive'', gr_id x @ ''.json'']) = Some (File (Meta x))" "plain_segment (gr_id x)"
      "gr_dir x = (rm_abs m, rm_dir m @ [''archive'', gr_id x])" "real_dir fs (?b @ [''archive'', gr_id x])"
    if "x \<in> set rs" for x
    using that assms(2) meta_at_cases [OF assms(1)] by (auto simp: stored_iff)
  have keep: "\<forall>q. fget fs q = Some Dir \<and> q \<noteq> ?b @ [''active''] \<longrightarrow> fget fs' q = Some Dir"
    using meta assms(3) by (auto simp: assms(5) switched_def dest: find_SomeD split: option.split)
  have real: "real_dir fs' (?b @ [''archive''] @ ws)" if "real_dir fs (?b @ [''archive''] @ ws)" for ws
    using real_dir_keep [OF that keep] by simp
  have link: "fget fs' (?b @ [''active'']) \<noteq> Some Dir"
    by (simp add: assms(5) switched_def)
  have entry: "node = Dir \<or> (\<exists>x. node = File (Meta x) \<and> name = gr_id x @ ''.json'' \<and> plain_segment (gr_id x) \<and>
           gr_dir x = (rm_abs m, rm_dir m @ [''archive'', gr_id x]) \<and> real_dir fs' (?b @ [''archive'', gr_id x]))"
    if get: "fget fs' (?b @ [''archive'', name]) = Some node" and ext: "ends_with name ''.json''" for name node
  proof -
    have rd: "real_dir fs' (?b @ [''archive'', gr_id x])" if "x \<in> set rs" for x
      using real [of "[gr_id x]"] meta(4) [OF that] by simp
    consider (new) "name = gr_id r @ ''.json''" "node = File (Meta (activated (snd t) r))"
      | (old) x where "x \<in> set rs" "name = gr_id x @ ''.json''" "node = File (Meta (stopped (fst t) x))"
      | (other) "fget fs (?b @ [''archive'', name]) = Some node"
    proof (cases "name = gr_id r @ ''.json''")
      case True
      then show ?thesis using get new by (simp add: assms(5) switched_def)
    next
      case no_r: False
      show ?thesis
      proof (cases ?find)
        case None
        then show ?thesis using get other no_r by (simp add: assms(5) switched_def)
      next
        case (Some x)
        moreover from this have "x \<in> set rs" by (auto dest: find_SomeD)
        ultimately show ?thesis
          using get other old [of x] no_r by (cases "name = gr_id x @ ''.json''") (simp_all add: assms(5) switched_def)
      qed
    qed
    then show ?thesis
    proof cases
      case new
      then show ?thesis using meta [OF assms(3)] rd [OF assms(3)] by auto
    next
      case old
      then show ?thesis using meta [OF old(1)] rd [OF old(1)] by auto
    next
      case other
      with ext assms(1) consider "node = Dir" | x where "node = File (Meta x)" "name = gr_id x @ ''.json''" "plain_segment (gr_id x)"
          "gr_dir x = (rm_abs m, rm_dir m @ [''archive'', gr_id x])" "real_dir fs (?b @ [''archive'', gr_id x])"
        unfolding store_ok_def by blast
      then show ?thesis
      proof cases
        case 2
        then show ?thesis using real [of "[gr_id x]"] by auto
      qed simp
    qed
  qed
  have names: "plain_segment name" if "fget fs' (?b @ [''archive'', name]) \<noteq> None" for name
  proof -
    have "fget fs (?b @ [''archive'', name]) \<noteq> None"
      using that meta assms(3) by (auto simp: assms(5) switched_def dest: find_SomeD split: if_splits option.splits)
    with assms(1) show ?thesis unfolding store_ok_def by blast
  qed
  have tmp: "fget fs' (?b @ [''active.tmp'']) = None"
    using assms(1) by (auto simp: assms(5) switched_def store_ok_def split: option.split)
  have one: "one_active (stored fs' (?b @ [''archive'']))"
    using switched_stored [OF assms] one_active_switch stored_distinct [OF assms(1)] assms(2) by simp
  have plain: "\<forall>w \<in> set (rm_dir m). plain_segment w" using assms(1) by (simp add: store_ok_def)
  have arch: "real_dir fs' (?b @ [''archive''])" using real [of "[]"] store_ok_real(2) [OF assms(1)] by simp
  show ?thesis
    unfolding store_ok_def
    by (intro conjI allI impI plain arch one tmp) (use names entry link in blast)+
qed

section \<open>The abstract store\<close>

text \<open>
  A request as the handlers serve it: a new manager, \<open>Init\<close>, one operation; only the tree remains.
  \<open>fresh_manager\<close> is a manager as it is made.
\<close>

definition activate_request ::
  "path \<Rightarrow> release_manager \<Rightarrow> int \<times> int \<Rightarrow> string \<Rightarrow> content files \<Rightarrow> release_error option \<times> content files" where
  "activate_request cwd m0 t i fs =
     (let (ok, m, fs1) = init_manager cwd m0 fs; (err, m', fs2) = activate cwd t i m fs1 in (err, fs2))"

definition rollback_request ::
  "path \<Rightarrow> release_manager \<Rightarrow> int \<times> int \<Rightarrow> content files \<Rightarrow> (release_error + go_release) \<times> content files" where
  "rollback_request cwd m0 t fs =
     (let (ok, m, fs1) = init_manager cwd m0 fs; (res, m', fs2) = rollback cwd t m fs1 in (res, fs2))"

definition fresh_manager :: "release_manager \<Rightarrow> bool" where
  "fresh_manager m \<longleftrightarrow> rm_active m = '''' \<and> rm_releases m = []"

definition store_of :: "path \<Rightarrow> release_manager \<Rightarrow> content files \<Rightarrow> go_release list" where
  "store_of cwd m fs = stored fs (store_path cwd m @ [''archive''])"

text \<open>The link of the active release leads to a directory, or there is none yet.\<close>

definition link_ok :: "path \<Rightarrow> release_manager \<Rightarrow> content files \<Rightarrow> bool" where
  "link_ok cwd m fs \<longleftrightarrow>
     fget fs (store_path cwd m @ [''active'']) = Some Dir \<or>
     (\<exists>t. fget fs (store_path cwd m @ [''active'']) = Some (Link True t) \<and> real_dir fs t)"

text \<open>Rolling back in the store: to the release that was stopped last.\<close>

definition store_manager :: "go_release list \<Rightarrow> release_manager" where
  "store_manager rs = \<lparr>rm_abs = True, rm_dir = [], rm_active = active_id rs, rm_releases = rs\<rparr>"

definition spec_rollback :: "int \<times> int \<Rightarrow> go_release list \<Rightarrow> release_error + string \<times> go_release list" where
  "spec_rollback t rs =
     (case find_previous_release_id (store_manager rs) of
        Inl e \<Rightarrow> Inl e
      | Inr i \<Rightarrow> Inr (i, switch t i rs))"

lemma init_store:
  assumes "store_ok cwd m fs" "link_ok cwd m fs" "fresh_manager m"
  shows "init_manager cwd m fs =
    (True, m\<lparr>rm_releases := store_of cwd m fs, rm_active := active_id (store_of cwd m fs)\<rparr>, fs)"
proof -
  let ?b = "store_path cwd m"
  have real: "real_dir fs ?b" "real_dir fs (?b @ [''archive''])" by (rule store_ok_real [OF assms(1)])+
  have paths: "full_path cwd (in_releases m []) = ?b" "full_path cwd (in_releases m [''active'']) = ?b @ [''active'']"
      "full_path cwd (in_releases m [''archive'']) = ?b @ [''archive'']"
    using store_ok_paths(1) [OF assms(1)] store_ok_paths(3) [OF assms(1), of "''active''"] by simp_all
  have "stat fs (?b @ [''active'']) = Some Dir"
  proof (cases "fget fs (?b @ [''active'']) = Some Dir")
    case True
    then have "real_dir fs (?b @ [''active''])" using real(1) by (simp add: real_dir_snoc plain_name_segment)
    then show ?thesis by (rule stat_dir)
  next
    case False
    then obtain t where t: "fget fs (?b @ [''active'']) = Some (Link True t)" "real_dir fs t"
      using assms(2) by (auto simp: link_ok_def)
    have "namei n True fs [] t = Found t" for n
      using namei_real_dir [of fs "[]" t n True "[]"] t(2) by simp
    then have "locate True fs (?b @ [''active'']) = Found t"
      using t(1) by (simp add: locate_in_dir [OF real(1)] kernel_links_def numeral_nat)
    then show ?thesis using real_dir_get [OF t(2)] by (simp add: stat_def)
  qed
  then have "mkdir_all (?b @ [''active'']) fs = Some fs" by (subst mkdir_all.simps) simp
  moreover have "load_releases cwd m fs = m\<lparr>rm_releases := store_of cwd m fs, rm_active := active_id (store_of cwd m fs)\<rparr>"
    using load_releases_stored [OF assms(1)] assms(3) by (simp add: fresh_manager_def store_of_def)
  ultimately show ?thesis using real by (simp add: init_manager_def paths mkdir_all_dir)
qed

lemma switched_link_ok:
  assumes "store_ok cwd m fs" "rm_abs m" "rs = store_of cwd m fs" "r \<in> set rs" "gr_state r \<noteq> RActive"
    "\<And>q. fget fs' q = switched m (store_path cwd m) t r rs fs q"
  shows "link_ok cwd m fs' \<and> fget fs' (store_path cwd m @ [''active'']) = Some (Link True (store_path cwd m @ [''archive'', gr_id r])) \<and>
    real_dir fs' (store_path cwd m @ [''archive'', gr_id r])"
proof -
  let ?b = "store_path cwd m"
  have b: "rm_dir m = ?b" using assms(2) by (simp add: store_path_def full_path_def)
  have meta: "fget fs (?b @ [''archive'', gr_id x @ ''.json'']) = Some (File (Meta x))" if "x \<in> set rs" for x
    using that assms(3) meta_at_cases(1,5) [OF assms(1)] by (auto simp: stored_iff store_of_def)
  have r: "gr_dir r = (True, ?b @ [''archive'', gr_id r])" "real_dir fs (?b @ [''archive'', gr_id r])"
    using assms(2-4) meta_at_cases(3,4) [OF assms(1)] b by (auto simp: stored_iff store_of_def)
  have keep: "\<forall>q. fget fs q = Some Dir \<and> q \<noteq> ?b @ [''active''] \<longrightarrow> fget fs' q = Some Dir"
    using meta assms(4) by (auto simp: assms(6) switched_def dest: find_SomeD split: option.split)
  have real: "real_dir fs' (?b @ [''archive'', gr_id r])"
    using real_dir_keep [OF _ keep, of "''archive''" "[gr_id r]"] r(2) by simp
  have "fget fs' (?b @ [''active'']) = Some (Link True (?b @ [''archive'', gr_id r]))"
    by (simp add: assms(6) switched_def r(1))
  with real show ?thesis by (auto simp: link_ok_def)
qed

lemma activation_simulates:
  assumes "store_ok cwd m fs" and "link_ok cwd m fs" and "fresh_manager m" and "rm_abs m"
  shows "case spec_activate t i (store_of cwd m fs) of
    Inl err \<Rightarrow> activate_request cwd m t i fs = (Some err, fs)
  | Inr rs \<Rightarrow> \<exists>fs'. activate_request cwd m t i fs = (None, fs') \<and> store_of cwd m fs' = rs \<and>
      store_ok cwd m fs' \<and> link_ok cwd m fs' \<and>
      fget fs' (store_path cwd m @ [''active'']) = Some (Link True (store_path cwd m @ [''archive'', i])) \<and>
      real_dir fs' (store_path cwd m @ [''archive'', i])"
proof (cases "rel_get i (store_of cwd m fs)")
  case None
  then show ?thesis by (simp add: spec_activate_def activate_request_def init_store [OF assms(1-3)] activate_def)
next
  case (Some r)
  then have r: "r \<in> set (store_of cwd m fs)" "gr_id r = i" by (auto dest: rel_get_Some)
  show ?thesis
  proof (cases "gr_state r = RActive")
    case True
    then show ?thesis
      using Some by (simp add: spec_activate_def activate_request_def init_store [OF assms(1-3)] activate_def)
  next
    case False
    obtain fs' where act: "activate cwd t (gr_id r)
        (m\<lparr>rm_releases := store_of cwd m fs, rm_active := active_id (store_of cwd m fs)\<rparr>) fs = (None,
        m\<lparr>rm_releases := store_of cwd m fs, rm_active := active_id (store_of cwd m fs)\<rparr>
          \<lparr>rm_active := gr_id r, rm_releases := switch t (gr_id r) (store_of cwd m fs)\<rparr>, fs')"
      and get: "\<And>q. fget fs' q = switched m (store_path cwd m) t r (store_of cwd m fs) fs q"
      using activate_effect [OF assms(1) store_of_def refl r(1) False] by metis
    have "store_of cwd m fs' = switch t i (store_of cwd m fs)"
      using switched_stored [OF assms(1) store_of_def r(1) False get] r(2) by (simp add: store_of_def)
    moreover have "store_ok cwd m fs'" by (rule switched_store_ok [OF assms(1) store_of_def r(1) False get])
    moreover have "activate_request cwd m t i fs = (None, fs')"
      using act r(2) by (simp add: activate_request_def init_store [OF assms(1-3)])
    ultimately show ?thesis
      using switched_link_ok [OF assms(1,4) refl r(1) False get] Some False r(2) by (simp add: spec_activate_def)
  qed
qed

section \<open>Rollback\<close>

lemma find_previous_store:
  "rm_active m = active_id (rm_releases m) \<Longrightarrow>
     find_previous_release_id m = find_previous_release_id (store_manager (rm_releases m))"
  by (simp add: find_previous_release_id_def store_manager_def)

text \<open>The search keeps a candidate that was stopped no earlier than any it has seen.\<close>

definition candidate :: "string \<Rightarrow> go_release \<Rightarrow> bool" where
  "candidate active r \<longleftrightarrow> gr_id r \<noteq> active \<and> gr_deactivated r \<noteq> None"

definition best :: "string \<Rightarrow> go_release list \<Rightarrow> go_release option \<Rightarrow> bool" where
  "best active rs p \<longleftrightarrow>
     (case p of
        None \<Rightarrow> \<forall>r \<in> set rs. \<not> candidate active r
      | Some x \<Rightarrow> x \<in> set rs \<and> candidate active x \<and>
          (\<forall>r \<in> set rs. candidate active r \<longrightarrow> the (gr_deactivated r) \<le> the (gr_deactivated x)))"

lemma best_later: "best active rs p \<Longrightarrow> best active (rs @ [r]) (later_previous active r p)"
  by (cases p) (auto simp: best_def later_previous_def candidate_def split: option.splits)

lemma fold_best: "best active rs (fold (later_previous active) rs None)"
proof (induction rs rule: rev_induct)
  case (snoc r rs)
  from best_later [OF this, of r] show ?case by simp
qed (simp add: best_def)

lemma find_previous_cases:
  assumes "find_previous_release_id (store_manager rs) = Inr i"
  obtains r where "r \<in> set rs" "gr_id r = i" "candidate (active_id rs) r" "active_id rs \<noteq> ''''"
    "\<forall>x \<in> set rs. candidate (active_id rs) x \<longrightarrow> the (gr_deactivated x) \<le> the (gr_deactivated r)"
  using assms fold_best [of "active_id rs" rs]
  by (auto simp: find_previous_release_id_def store_manager_def best_def split: if_splits option.splits)

lemma active_id_switch:
  assumes "r \<in> set rs" "gr_id r = i" "i \<noteq> ''''" "distinct (map gr_id rs)"
  shows "active_id (switch t i rs) = i"
proof -
  have "activated (snd t) r \<in> set (switch t i rs)" using assms(1,2) by (force simp: switch_def)
  from active_id_unique [OF one_active_switch [OF assms(4)] this] assms(2,3) show ?thesis by simp
qed

lemma rollback_simulates:
  assumes "store_ok cwd m fs" and "link_ok cwd m fs" and "fresh_manager m" and "rm_abs m"
  shows "case spec_rollback t (store_of cwd m fs) of
    Inl err \<Rightarrow> rollback_request cwd m t fs = (Inl err, fs)
  | Inr (i, rs) \<Rightarrow> \<exists>fs' r. rollback_request cwd m t fs = (Inr r, fs') \<and> gr_id r = i \<and> gr_state r = RActive \<and>
      store_of cwd m fs' = rs \<and> store_ok cwd m fs' \<and> link_ok cwd m fs' \<and>
      (\<exists>old \<in> set (store_of cwd m fs). gr_id old = i \<and> candidate (active_id (store_of cwd m fs)) old \<and>
         (\<forall>x \<in> set (store_of cwd m fs). candidate (active_id (store_of cwd m fs)) x \<longrightarrow>
            the (gr_deactivated x) \<le> the (gr_deactivated old)))"
proof -
  let ?rs = "store_of cwd m fs"
  let ?m = "m\<lparr>rm_releases := ?rs, rm_active := active_id ?rs\<rparr>"
  have find: "find_previous_release_id ?m = find_previous_release_id (store_manager ?rs)"
    using find_previous_store [of ?m] by simp
  show ?thesis
  proof (cases "find_previous_release_id (store_manager ?rs)")
    case (Inl e)
    then show ?thesis by (simp add: spec_rollback_def rollback_request_def init_store [OF assms(1-3)] rollback_def find)
  next
    case (Inr i)
    then obtain r where r: "r \<in> set ?rs" "gr_id r = i" "candidate (active_id ?rs) r"
      "\<forall>x \<in> set ?rs. candidate (active_id ?rs) x \<longrightarrow> the (gr_deactivated x) \<le> the (gr_deactivated r)"
      by (rule find_previous_cases)
    have plain: "plain_segment (gr_id r)"
      using r(1) meta_at_cases(2) [OF assms(1)] by (auto simp: store_of_def stored_iff)
    have dist: "distinct (map gr_id ?rs)" using stored_distinct [OF assms(1)] by (simp add: store_of_def)
    have idle: "gr_state r \<noteq> RActive"
    proof
      assume "gr_state r = RActive"
      moreover have "one_active ?rs" using assms(1) by (simp add: store_ok_def store_of_def)
      ultimately have "active_id ?rs = gr_id r" using active_id_unique r(1) plain by (auto simp: plain_segment_def)
      with r(3) show False by (simp add: candidate_def)
    qed
    obtain fs' where act: "activate cwd t (gr_id r) ?m fs = (None,
        ?m\<lparr>rm_active := gr_id r, rm_releases := switch t (gr_id r) ?rs\<rparr>, fs')"
      and get: "\<And>q. fget fs' q = switched m (store_path cwd m) t r ?rs fs q"
      using activate_effect [OF assms(1) store_of_def refl r(1) idle] by metis
    have "activated (snd t) r \<in> set (switch t i ?rs)" using r(1,2) by (force simp: switch_def)
    moreover have "distinct (map gr_id (switch t i ?rs))"
      using dist by (simp add: switch_def comp_def if_distrib [of gr_id] cong: if_cong)
    ultimately have found: "rel_get i (switch t i ?rs) = Some (activated (snd t) r)"
      using rel_get_distinct [of "switch t i ?rs" "activated (snd t) r"] r(2) by simp
    have "rollback_request cwd m t fs = (Inr (activated (snd t) r), fs')"
      using act r(2) found Inr by (simp add: rollback_request_def init_store [OF assms(1-3)] rollback_def find)
    moreover have "store_of cwd m fs' = switch t i ?rs"
      using switched_stored [OF assms(1) store_of_def r(1) idle get] r(2) by (simp add: store_of_def)
    moreover have "store_ok cwd m fs'" by (rule switched_store_ok [OF assms(1) store_of_def r(1) idle get])
    moreover have "link_ok cwd m fs'" using switched_link_ok [OF assms(1,4) refl r(1) idle get] by simp
    ultimately show ?thesis using Inr r by (auto simp: spec_rollback_def)
  qed
qed

text \<open>In an absolute directory a rollback implements the rollback of the store: it fails exactly when no release
  is active or none was stopped before, and then changes nothing; else it activates the release that was
  stopped last.\<close>

theorem rollback_refines_store:
  assumes "store_ok cwd m fs" and "link_ok cwd m fs" and "fresh_manager m" and "rm_abs m"
  shows "case spec_rollback t (store_of cwd m fs) of
    Inl err \<Rightarrow> rollback_request cwd m t fs = (Inl err, fs)
  | Inr (i, rs) \<Rightarrow> \<exists>fs' r. rollback_request cwd m t fs = (Inr r, fs') \<and> gr_id r = i \<and> gr_state r = RActive \<and>
      store_of cwd m fs' = rs \<and> store_ok cwd m fs' \<and> link_ok cwd m fs' \<and>
      (\<exists>old \<in> set (store_of cwd m fs). gr_id old = i \<and> candidate (active_id (store_of cwd m fs)) old \<and>
         (\<forall>x \<in> set (store_of cwd m fs). candidate (active_id (store_of cwd m fs)) x \<longrightarrow>
            the (gr_deactivated x) \<le> the (gr_deactivated old)))"
  using assms by (rule rollback_simulates)

text \<open>In an absolute directory a rollback undoes the last activation: if a release is active, another one is activated, and the clock has
  moved on since every earlier stop, the next rollback makes the first one active again.\<close>

theorem rollback_undoes_activation:
  assumes "store_ok cwd m fs" and "link_ok cwd m fs" and "fresh_manager m" and "rm_abs m"
    and "a = active_id (store_of cwd m fs)" and "a \<noteq> ''''"
    and "activate_request cwd m t i fs = (None, fs')"
    and "\<forall>x \<in> set (store_of cwd m fs). \<forall>u. gr_deactivated x = Some u \<longrightarrow> u < fst t"
  shows "\<exists>r fs''. rollback_request cwd m t' fs' = (Inr r, fs'') \<and> gr_id r = a \<and> active_id (store_of cwd m fs'') = a"
proof -
  let ?rs = "store_of cwd m fs"
  obtain r where r: "rel_get i ?rs = Some r" "gr_state r \<noteq> RActive" and rs': "store_of cwd m fs' = switch t i ?rs"
    and ok: "store_ok cwd m fs'" "link_ok cwd m fs'"
    using activation_simulates [OF assms(1-4), of t i] assms(7)
    by (auto simp: spec_activate_def split: option.splits if_splits)
  have dist: "distinct (map gr_id ?rs)" using stored_distinct [OF assms(1)] by (simp add: store_of_def)
  have plain: "plain_segment (gr_id x)" if "x \<in> set ?rs" for x
    using that meta_at_cases(2) [OF assms(1)] by (auto simp: store_of_def stored_iff)
  note ri = rel_get_Some [OF r(1)]
  obtain old where old: "old \<in> set ?rs" "gr_state old = RActive" "gr_id old = a"
    using active_id_some assms(5,6) by blast
  have i: "active_id (switch t i ?rs) = i"
    using active_id_switch [of r ?rs i t] ri plain [of r] dist by (auto simp: plain_segment_def)
  have "a \<noteq> i"
  proof
    assume "a = i"
    then have "old = r" using old(1,3) ri dist by (auto simp: distinct_map inj_on_def)
    with old(2) r(2) show False by simp
  qed
  then have stopped: "stopped (fst t) old \<in> set (switch t i ?rs)" using old by (force simp: switch_def)
  then have cand: "candidate i (stopped (fst t) old)" using old(3) \<open>a \<noteq> i\<close> by (simp add: candidate_def stopped_def)
  have only: "gr_id x = a" if x: "x \<in> set (switch t i ?rs)" "candidate i x" "fst t \<le> the (gr_deactivated x)" for x
  proof -
    obtain y where y: "y \<in> set ?rs" "x = (if gr_id y = i then activated (snd t) y else if gr_state y = RActive then stopped (fst t) y else y)"
      using x(1) unfolding switch_def set_map by blast
    with x(2) have "gr_id y \<noteq> i" by (auto simp: candidate_def split: if_splits)
    show ?thesis
    proof (cases "gr_state y = RActive")
      case True
      then have "y = old" using y(1) old(1,2) assms(1) unfolding store_ok_def one_active_def store_of_def by blast
      with y(2) True \<open>gr_id y \<noteq> i\<close> old(3) show ?thesis by simp
    next
      case False
      then show ?thesis using y \<open>gr_id y \<noteq> i\<close> x(2,3) assms(8) by (auto simp: candidate_def)
    qed
  qed
  obtain p where p: "find_previous_release_id (store_manager (switch t i ?rs)) = Inr (gr_id p)" "p \<in> set (switch t i ?rs)" "candidate i p"
      "the (gr_deactivated (stopped (fst t) old)) \<le> the (gr_deactivated p)"
  proof (cases "fold (later_previous i) (switch t i ?rs) None")
    case None
    with fold_best [of i "switch t i ?rs"] stopped cand show ?thesis by (auto simp: best_def)
  next
    case (Some p)
    with fold_best [of i "switch t i ?rs"] stopped cand have "p \<in> set (switch t i ?rs)" "candidate i p"
      "the (gr_deactivated (stopped (fst t) old)) \<le> the (gr_deactivated p)" by (auto simp: best_def)
    moreover have "i \<noteq> ''''" using plain [of r] ri by (auto simp: plain_segment_def)
    ultimately show ?thesis using Some i by (intro that [of p]) (simp_all add: find_previous_release_id_def store_manager_def)
  qed
  then have "gr_id p = a" using only [of p] by (simp add: stopped_def)
  with p(1) rs' have spec: "spec_rollback t' (store_of cwd m fs') = Inr (a, switch t' a (store_of cwd m fs'))"
    by (simp add: spec_rollback_def)
  from rollback_simulates [OF ok assms(3,4), of t', unfolded spec]
  obtain fs'' r' where res: "rollback_request cwd m t' fs' = (Inr r', fs'')" "gr_id r' = a"
      "store_of cwd m fs'' = switch t' a (store_of cwd m fs')" by auto
  have "active_id (switch t' a (store_of cwd m fs')) = a"
    using active_id_switch [of p "store_of cwd m fs'" a t'] p(2) \<open>gr_id p = a\<close> rs' assms(6) stored_distinct [OF ok(1)]
    by (simp add: store_of_def)
  with res show ?thesis by auto
qed

section \<open>The relative directory of the handlers\<close>

text \<open>
  A link with a relative target is resolved from its own directory, so \<open>releases/active\<close> with the target
  \<open>releases/archive/...\<close> leads to \<open>releases/releases/archive/...\<close>, and \<open>MkdirAll\<close> fails on it.
\<close>

lemma mkdir_all_stuck:
  assumes "real_dir fs p" "stat fs (p @ [c]) = None" "mkdir (p @ [c]) fs = None" "lstat fs (p @ [c]) \<noteq> Some Dir"
  shows "mkdir_all (p @ [c]) fs = None"
  using assms by (subst mkdir_all.simps) (simp add: mkdir_all_dir)

lemma dangling_init:
  assumes "real_dir fs (cwd @ [''releases''])" "m = new_release_manager ''./releases''"
    "fget fs (cwd @ [''releases'', ''active'']) = Some (Link False (''releases'' # p))" "p \<noteq> []"
    "fget fs (cwd @ [''releases'', ''releases'']) = None"
  shows "init_manager cwd m fs = (False, m, fs)"
proof -
  let ?b = "cwd @ [''releases'']"
  have paths: "full_path cwd (in_releases m []) = ?b" "full_path cwd (in_releases m [''active'']) = ?b @ [''active'']"
    by (simp_all add: assms(2) default_manager in_releases_plain full_path_def)
  have "locate True fs (?b @ [''active'']) = namei kernel_links True fs ?b [''active'']"
    by (rule locate_in_dir [OF assms(1)])
  then have "locate True fs (?b @ [''active'']) = NoEntry"
    using assms(3-5) by (simp add: kernel_links_def numeral_nat)
  then have "stat fs (?b @ [''active'']) = None" by (simp add: stat_def)
  moreover have "mkdir (?b @ [''active'']) fs = None"
    using mkdir_entry [OF assms(1) plain_name_segment [of "''active''"]] assms(3) by simp
  moreover have "lstat fs (?b @ [''active'']) \<noteq> Some Dir"
    using lstat_entry [OF assms(1) plain_name_segment [of "''active''"]] assms(3) by simp
  ultimately have "mkdir_all (?b @ [''active'']) fs = None"
    by (rule mkdir_all_stuck [OF assms(1)])
  then show ?thesis by (simp add: init_manager_def paths mkdir_all_dir [OF assms(1)])
qed

lemma body_str_activate: "body_str ''id'' (rq_body (activateDeployment i)) = i"
  by (simp add: body_str_def activateDeployment_def api_request_def field_of_def to_lower_def to_lower_char_def in_range_def)

lemma default_store_path: "store_path cwd (new_release_manager ''./releases'') = cwd @ [''releases'']"
  by (simp add: store_path_def full_path_def default_manager)

lemma default_fresh: "fresh_manager (new_release_manager ''./releases'')"
  by (simp add: fresh_manager_def default_manager)

text \<open>The files of a release that the handlers' manager has made, and what its activation does.\<close>

lemma handler_activation:
  assumes "m = new_release_manager ''./releases''" and "store_ok (de_cwd e) m fs" and "link_ok (de_cwd e) m fs"
    and "r \<in> set (store_of (de_cwd e) m fs)" and "gr_state r \<noteq> RActive"
  obtains fs' where "handle_deploy_activate e t POST (rq_body (activateDeployment (gr_id r))) fs =
      (json_resp (JObj [(''id'', JStr (gr_id r)), (''status'', JStr ''activated'')]), fs')"
    "store_of (de_cwd e) m fs' = switch t (gr_id r) (store_of (de_cwd e) m fs)" "store_ok (de_cwd e) m fs'"
    "fget fs' (de_cwd e @ [''releases'', ''active'']) = Some (Link False [''releases'', ''archive'', gr_id r])"
    "\<And>q. fget fs' q = switched m (de_cwd e @ [''releases'']) t r (store_of (de_cwd e) m fs) fs q"
proof -
  let ?cwd = "de_cwd e" and ?rs = "store_of (de_cwd e) m fs"
  let ?m = "m\<lparr>rm_releases := ?rs, rm_active := active_id ?rs\<rparr>"
  have path: "store_path ?cwd m = ?cwd @ [''releases'']" by (simp add: assms(1) default_store_path)
  have init: "init_manager ?cwd m fs = (True, ?m, fs)"
    by (rule init_store [OF assms(2,3)]) (simp add: assms(1) default_fresh)
  have meta: "gr_dir r = (False, [''releases'', ''archive'', gr_id r])" "plain_segment (gr_id r)"
    using assms(4) meta_at_cases(2,3) [OF assms(2)] by (auto simp: assms(1) store_of_def stored_iff default_manager)
  obtain fs' where act: "activate ?cwd t (gr_id r) ?m fs = (None,
        ?m\<lparr>rm_active := gr_id r, rm_releases := switch t (gr_id r) ?rs\<rparr>, fs')"
      and get: "\<And>q. fget fs' q = switched m (store_path ?cwd m) t r ?rs fs q"
    using activate_effect [OF assms(2) store_of_def refl assms(4,5)] by metis
  show thesis
  proof (rule that)
    show "handle_deploy_activate e t POST (rq_body (activateDeployment (gr_id r))) fs =
        (json_resp (JObj [(''id'', JStr (gr_id r)), (''status'', JStr ''activated'')]), fs')"
      using act meta(2) init
      by (simp add: handle_deploy_activate_def body_str_activate deploy_manager_def assms(1) [symmetric] plain_segment_def)
    show "store_of ?cwd m fs' = switch t (gr_id r) ?rs"
      using switched_stored [OF assms(2) store_of_def assms(4,5) get] by (simp add: store_of_def)
    show "store_ok ?cwd m fs'" by (rule switched_store_ok [OF assms(2) store_of_def assms(4,5) get])
    show "fget fs' (?cwd @ [''releases'', ''active'']) = Some (Link False [''releases'', ''archive'', gr_id r])"
      by (simp add: get switched_def path meta(1))
    show "fget fs' q = switched m (?cwd @ [''releases'']) t r ?rs fs q" for q
      using get path by simp
  qed
qed

text \<open>C2. In a directory of releases as the manager makes it (\<open>store_ok\<close>: metadata beside the directory of each release, at most one of them active), and as
  long as the link \<open>active\<close> has not been made by an earlier activation from the dashboard, a request of the dashboard to activate a
  release implements an abstract store of releases: a request that the store refuses is answered with the store's error and leaves the tree
  as it is; otherwise the store that the file tree holds afterwards is the old store with this release active
  and the one that was active stopped, at most one release is active, the link names the directory of the release, which
  is there, and the tree outside \<open>releases\<close> is as it was.\<close>

theorem handler_activation_refines_store:
  assumes "m = new_release_manager ''./releases''" and "store_ok (de_cwd e) m fs" and "link_ok (de_cwd e) m fs"
  shows "case spec_activate t i (store_of (de_cwd e) m fs) of
    Inl err \<Rightarrow> handle_deploy_activate e t POST (rq_body (activateDeployment i)) fs =
      (if i = '''' then json_err ''missing release id'' 400 else json_err (release_error_text (de_os e) err) 500, fs)
  | Inr rs \<Rightarrow> \<exists>fs'. handle_deploy_activate e t POST (rq_body (activateDeployment i)) fs =
        (json_resp (JObj [(''id'', JStr i), (''status'', JStr ''activated'')]), fs') \<and>
      store_of (de_cwd e) m fs' = rs \<and> store_ok (de_cwd e) m fs' \<and> active_id rs = i \<and>
      fget fs' (de_cwd e @ [''releases'', ''active'']) = Some (Link False [''releases'', ''archive'', i]) \<and>
      real_dir fs' (de_cwd e @ [''releases'', ''archive'', i]) \<and>
      (\<forall>q. \<not> under (de_cwd e @ [''releases'']) q \<longrightarrow> fget fs' q = fget fs q)"
proof -
  let ?cwd = "de_cwd e" and ?rs = "store_of (de_cwd e) m fs"
  have manager: "deploy_manager e fs = (m\<lparr>rm_releases := ?rs, rm_active := active_id ?rs\<rparr>, fs)"
    using init_store [OF assms(2,3)] assms(1) default_fresh by (simp add: deploy_manager_def)
  have refused: "handle_deploy_activate e t POST (rq_body (activateDeployment i)) fs =
      (if i = '''' then json_err ''missing release id'' 400 else json_err (release_error_text (de_os e) err) 500, fs)"
    if "spec_activate t i ?rs = Inl err" for err
    using that by (auto simp: spec_activate_def handle_deploy_activate_def body_str_activate manager activate_def split: option.splits if_splits)
  show ?thesis
  proof (cases "spec_activate t i ?rs")
    case (Inl err)
    then show ?thesis using refused by simp
  next
    case (Inr rs)
    then obtain r where "rel_get i ?rs = Some r" "gr_state r \<noteq> RActive" and rs: "rs = switch t i ?rs"
      by (auto simp: spec_activate_def split: option.splits if_splits)
    then have r: "r \<in> set ?rs" "gr_id r = i" "gr_state r \<noteq> RActive" using rel_get_Some by auto
    obtain fs' where f: "handle_deploy_activate e t POST (rq_body (activateDeployment (gr_id r))) fs =
          (json_resp (JObj [(''id'', JStr (gr_id r)), (''status'', JStr ''activated'')]), fs')"
        "store_of ?cwd m fs' = switch t (gr_id r) ?rs" "store_ok ?cwd m fs'"
        "fget fs' (?cwd @ [''releases'', ''active'']) = Some (Link False [''releases'', ''archive'', gr_id r])"
        "\<And>q. fget fs' q = switched m (?cwd @ [''releases'']) t r ?rs fs q"
      using handler_activation [OF assms r(1,3)] by metis
    have dist: "distinct (map gr_id ?rs)" using stored_distinct [OF assms(2)] by (simp add: store_of_def)
    have plain: "plain_segment i"
      using r(1,2) meta_at_cases(2) [OF assms(2)] by (auto simp: store_of_def stored_iff)
    have "active_id rs = i"
      using active_id_switch [of r ?rs i t] r plain dist rs by (auto simp: plain_segment_def)
    moreover have "fget fs' q = fget fs q" if "\<not> under (?cwd @ [''releases'']) q" for q
      using that by (auto simp: f(5) switched_def under_iff split: option.split)
    moreover have "activated (snd t) r \<in> set (store_of ?cwd m fs')" using r f(2) by (force simp: switch_def)
    then obtain name where "meta_at fs' (store_path ?cwd m @ [''archive'']) name = Some (activated (snd t) r)"
      by (auto simp: store_of_def stored_iff)
    from meta_at_cases(4) [OF f(3) this] have "real_dir fs' (?cwd @ [''releases'', ''archive'', i])"
      using r(2) by (simp add: assms(1) default_store_path activated_def)
    ultimately show ?thesis using Inr f r(2) rs by auto
  qed
qed

text \<open>C36. The first activation from the dashboard, in a directory of releases as the manager makes it, succeeds and loses every release, unless there is something
  called \<open>releases/releases\<close>: the link it makes is relative and
  leads nowhere, the next \<open>Init\<close> fails on it before it loads the releases, its error is ignored, and from then on the list
  is empty, every activation answers that the release is not found and every rollback that no release is
  active, without changing the tree.\<close>

theorem first_activation_loses_releases:
  assumes "m = new_release_manager ''./releases''" and "store_ok (de_cwd e) m fs"
    and "link_ok (de_cwd e) m fs"
    and "fget fs (de_cwd e @ [''releases'', ''releases'']) = None"
    and "r \<in> set (store_of (de_cwd e) m fs)" and "gr_state r \<noteq> RActive"
  shows "\<exists>fs'. handle_deploy_activate e t POST (rq_body (activateDeployment (gr_id r))) fs =
      (json_resp (JObj [(''id'', JStr (gr_id r)), (''status'', JStr ''activated'')]), fs') \<and>
    handle_deploy_list e fs' = (json_resp (JObj [(''releases'', JArr [])]), fs') \<and>
    (\<forall>t' i. handle_deploy_activate e t' POST (rq_body (activateDeployment i)) fs' =
      (if i = '''' then json_err ''missing release id'' 400 else json_err (''release '' @ i @ '' not found'') 500, fs')) \<and>
    (\<forall>t'. handle_deploy_rollback e t' POST fs' = (json_err ''no active release to rollback from'' 500, fs'))"
proof -
  let ?cwd = "de_cwd e"
  have path: "store_path ?cwd m = ?cwd @ [''releases'']" by (simp add: assms(1) default_store_path)
  obtain fs' where first: "handle_deploy_activate e t POST (rq_body (activateDeployment (gr_id r))) fs =
        (json_resp (JObj [(''id'', JStr (gr_id r)), (''status'', JStr ''activated'')]), fs')"
      and ok: "store_ok ?cwd m fs'"
      and link: "fget fs' (?cwd @ [''releases'', ''active'']) = Some (Link False [''releases'', ''archive'', gr_id r])"
      and get: "\<And>q. fget fs' q = switched m (?cwd @ [''releases'']) t r (store_of ?cwd m fs) fs q"
    using handler_activation [OF assms(1-3,5,6)] by metis
  have real: "real_dir fs' (?cwd @ [''releases''])" using store_ok_real(1) [OF ok] path by simp
  have "fget fs' (?cwd @ [''releases'', ''releases'']) = None"
    using assms(4) by (simp add: get switched_def split: option.split)
  with link have again: "init_manager ?cwd (new_release_manager ''./releases'') fs' =
      (False, new_release_manager ''./releases'', fs')"
    by (intro dangling_init [OF real refl]) auto
  have empty: "deploy_manager e fs' = (new_release_manager ''./releases'', fs')"
    by (simp add: deploy_manager_def again)
  show ?thesis
  proof (intro exI [of _ fs'] conjI first allI)
    show "handle_deploy_list e fs' = (json_resp (JObj [(''releases'', JArr [])]), fs')"
      by (simp add: handle_deploy_list_def empty list_releases_def default_manager)
    show "handle_deploy_activate e t' POST (rq_body (activateDeployment i)) fs' =
      (if i = '''' then json_err ''missing release id'' 400 else json_err (''release '' @ i @ '' not found'') 500, fs')" for t' i
      by (simp add: handle_deploy_activate_def body_str_activate empty activate_def rel_get_def default_manager)
    show "handle_deploy_rollback e t' POST fs' = (json_err ''no active release to rollback from'' 500, fs')" for t'
      by (simp add: handle_deploy_rollback_def empty rollback_def find_previous_release_id_def default_manager)
  qed
qed

section \<open>Witnesses\<close>

text \<open>Two releases in an absolute directory, the first active; and one release below the working directory.\<close>

definition demo_release :: "bool \<Rightarrow> path \<Rightarrow> string \<Rightarrow> release_state \<Rightarrow> go_release" where
  "demo_release absolute dir i st =
     \<lparr>gr_id = i, gr_version = ''1'', gr_runtime = ''php8.3'', gr_state = st, gr_created = 1, gr_activated = None,
      gr_deactivated = None, gr_dir = (absolute, dir @ [''archive'', i]), gr_metadata = []\<rparr>"

definition demo_store :: "content files" where
  "demo_store =
     [([''rel''], Dir), ([''rel'', ''archive''], Dir), ([''rel'', ''archive'', ''a''], Dir), ([''rel'', ''archive'', ''b''], Dir),
      ([''rel'', ''archive'', ''a.json''], File (Meta (demo_release True [''rel''] ''a'' RActive))),
      ([''rel'', ''archive'', ''b.json''], File (Meta (demo_release True [''rel''] ''b'' RCreated))),
      ([''rel'', ''active''], Link True [''rel'', ''archive'', ''a''])]"

definition demo_rm :: release_manager where
  "demo_rm = \<lparr>rm_abs = True, rm_dir = [''rel''], rm_active = '''', rm_releases = []\<rparr>"

lemma demo_store_path: "store_path cwd demo_rm = [''rel'']"
  by (simp add: store_path_def demo_rm_def full_path_def)

lemma demo_meta:
  "meta_at demo_store [''rel'', ''archive''] name =
     (if name = ''a.json'' then Some (demo_release True [''rel''] ''a'' RActive)
      else if name = ''b.json'' then Some (demo_release True [''rel''] ''b'' RCreated) else None)"
  by (auto simp: meta_at_def demo_store_def fget_def ends_with_def)

lemma demo_stored:
  "r \<in> set (stored demo_store [''rel'', ''archive'']) \<longleftrightarrow>
     r = demo_release True [''rel''] ''a'' RActive \<or> r = demo_release True [''rel''] ''b'' RCreated"
  by (auto simp: stored_iff demo_meta split: if_splits intro: exI [of _ "''a.json''"] exI [of _ "''b.json''"])

lemma demo_one_active: "one_active (stored demo_store [''rel'', ''archive''])"
  unfolding one_active_def Ball_def demo_stored by (auto simp: demo_release_def)

lemma demo_store_ok: "store_ok cwd demo_rm demo_store" "link_ok cwd demo_rm demo_store" "fresh_manager demo_rm" "rm_abs demo_rm"
proof -
  show "store_ok cwd demo_rm demo_store"
    unfolding store_ok_def demo_store_path append.simps
    by (intro conjI demo_one_active) (auto simp: real_dir_from demo_store_def demo_rm_def demo_release_def fget_def plain_segment_def plain_name_def split: if_splits)
  show "link_ok cwd demo_rm demo_store"
    by (simp add: link_ok_def demo_store_path real_dir_from demo_store_def fget_def plain_name_def)
qed (simp_all add: fresh_manager_def demo_rm_def)

lemma demo_active: "active_id (store_of cwd demo_rm demo_store) = ''a''"
proof -
  have "one_active (store_of cwd demo_rm demo_store)"
    using demo_store_ok(1) by (simp add: store_ok_def store_of_def)
  from active_id_unique [OF this, of "demo_release True [''rel''] ''a'' RActive"] show ?thesis
    by (simp add: store_of_def demo_store_path demo_stored demo_release_def)
qed

lemma demo_spec: "spec_activate t ''b'' (store_of cwd demo_rm demo_store) = Inr (switch t ''b'' (store_of cwd demo_rm demo_store))"
proof -
  have "distinct (map gr_id (store_of cwd demo_rm demo_store))"
    using stored_distinct [OF demo_store_ok(1)] by (simp add: store_of_def)
  from rel_get_distinct [OF this, of "demo_release True [''rel''] ''b'' RCreated"] show ?thesis
    by (simp add: spec_activate_def store_of_def demo_store_path demo_stored) (simp add: demo_release_def)
qed

theorem rollback_refines_store_witness:
  "case spec_rollback (5, 6) (store_of [] demo_rm demo_store) of
    Inl err \<Rightarrow> rollback_request [] demo_rm (5, 6) demo_store = (Inl err, demo_store)
  | Inr (i, rs) \<Rightarrow> \<exists>fs' r. rollback_request [] demo_rm (5, 6) demo_store = (Inr r, fs') \<and> gr_id r = i \<and> gr_state r = RActive \<and>
      store_of [] demo_rm fs' = rs \<and> store_ok [] demo_rm fs' \<and> link_ok [] demo_rm fs' \<and>
      (\<exists>old \<in> set (store_of [] demo_rm demo_store). gr_id old = i \<and> candidate (active_id (store_of [] demo_rm demo_store)) old \<and>
         (\<forall>x \<in> set (store_of [] demo_rm demo_store). candidate (active_id (store_of [] demo_rm demo_store)) x \<longrightarrow>
            the (gr_deactivated x) \<le> the (gr_deactivated old)))"
  by (rule rollback_refines_store [OF demo_store_ok])

theorem rollback_undoes_activation_witness:
  "\<exists>fs' r fs''. activate_request [] demo_rm (5, 6) ''b'' demo_store = (None, fs') \<and>
     rollback_request [] demo_rm (7, 8) fs' = (Inr r, fs'') \<and> gr_id r = ''a'' \<and> active_id (store_of [] demo_rm fs'') = ''a''"
proof -
  obtain fs' where act: "activate_request [] demo_rm (5, 6) ''b'' demo_store = (None, fs')"
    using activation_simulates [OF demo_store_ok, where t = "(5, 6)" and i = "''b''" and cwd = "[]"] by (auto simp: demo_spec)
  have "\<forall>x \<in> set (store_of [] demo_rm demo_store). \<forall>u. gr_deactivated x = Some u \<longrightarrow> u < fst (5 :: int, 6 :: int)"
    by (auto simp: store_of_def demo_store_path demo_stored demo_release_def)
  from rollback_undoes_activation [OF demo_store_ok demo_active [symmetric] _ act this, of "(7, 8)"] act show ?thesis
    by simp
qed

definition demo_created :: "content files" where
  "demo_created =
     [([''srv''], Dir), ([''srv'', ''releases''], Dir), ([''srv'', ''releases'', ''active''], Dir),
      ([''srv'', ''releases'', ''archive''], Dir), ([''srv'', ''releases'', ''archive'', ''a''], Dir),
      ([''srv'', ''releases'', ''archive'', ''a.json''], File (Meta (demo_release False [''releases''] ''a'' RCreated)))]"

lemma demo_created_meta:
  "meta_at demo_created [''srv'', ''releases'', ''archive''] name =
     (if name = ''a.json'' then Some (demo_release False [''releases''] ''a'' RCreated) else None)"
  by (auto simp: meta_at_def demo_created_def fget_def ends_with_def)

lemma demo_created_stored:
  "r \<in> set (stored demo_created [''srv'', ''releases'', ''archive'']) \<longleftrightarrow> r = demo_release False [''releases''] ''a'' RCreated"
  by (auto simp: stored_iff demo_created_meta split: if_splits)

lemma demo_created_one: "one_active (stored demo_created [''srv'', ''releases'', ''archive''])"
  unfolding one_active_def Ball_def demo_created_stored by simp

lemma demo_created_ok: "store_ok [''srv''] (new_release_manager ''./releases'') demo_created"
  unfolding store_ok_def default_store_path append.simps
  by (intro conjI demo_created_one) (auto simp: real_dir_from demo_created_def default_manager demo_release_def fget_def plain_segment_def plain_name_def
      children_def split: if_splits)

lemma demo_created_link: "link_ok [''srv''] (new_release_manager ''./releases'') demo_created"
  by (simp add: link_ok_def default_store_path demo_created_def fget_def)

lemma demo_created_spec:
  "spec_activate t ''a'' (store_of [''srv''] (new_release_manager ''./releases'') demo_created) =
     Inr (switch t ''a'' (store_of [''srv''] (new_release_manager ''./releases'') demo_created))"
proof -
  let ?rs = "store_of [''srv''] (new_release_manager ''./releases'') demo_created"
  have "distinct (map gr_id ?rs)" using stored_distinct [OF demo_created_ok] by (simp add: store_of_def)
  from rel_get_distinct [OF this, of "demo_release False [''releases''] ''a'' RCreated"] show ?thesis
    by (simp add: spec_activate_def store_of_def default_store_path demo_created_stored) (simp add: demo_release_def)
qed

theorem handler_activation_refines_store_witness:
  "\<exists>fs'. handle_deploy_activate demo_deploy (5, 6) POST (rq_body (activateDeployment ''a'')) demo_created =
      (json_resp (JObj [(''id'', JStr ''a''), (''status'', JStr ''activated'')]), fs') \<and>
    store_of [''srv''] (new_release_manager ''./releases'') fs' =
      switch (5, 6) ''a'' (store_of [''srv''] (new_release_manager ''./releases'') demo_created) \<and>
    fget fs' [''srv'', ''releases'', ''active''] = Some (Link False [''releases'', ''archive'', ''a'']) \<and>
    real_dir fs' [''srv'', ''releases'', ''archive'', ''a'']"
proof -
  have cwd: "de_cwd demo_deploy = [''srv'']" by (simp add: demo_deploy_def)
  from handler_activation_refines_store [OF refl, of demo_deploy demo_created "(5, 6)" "''a''"]
  show ?thesis using demo_created_ok demo_created_link by (auto simp: cwd demo_created_spec)
qed

theorem first_activation_loses_releases_witness:
  "\<exists>fs'. handle_deploy_activate demo_deploy (5, 6) POST (rq_body (activateDeployment ''a'')) demo_created =
      (json_resp (JObj [(''id'', JStr ''a''), (''status'', JStr ''activated'')]), fs') \<and>
    handle_deploy_list demo_deploy fs' = (json_resp (JObj [(''releases'', JArr [])]), fs')"
proof -
  have cwd: "de_cwd demo_deploy = [''srv'']" by (simp add: demo_deploy_def)
  have a: "gr_id (demo_release False [''releases''] ''a'' RCreated) = ''a''" by (simp add: demo_release_def)
  have "\<exists>fs'. handle_deploy_activate demo_deploy (5, 6) POST
        (rq_body (activateDeployment (gr_id (demo_release False [''releases''] ''a'' RCreated)))) demo_created =
      (json_resp (JObj [(''id'', JStr (gr_id (demo_release False [''releases''] ''a'' RCreated))), (''status'', JStr ''activated'')]), fs') \<and>
    handle_deploy_list demo_deploy fs' = (json_resp (JObj [(''releases'', JArr [])]), fs') \<and>
    (\<forall>t' i. handle_deploy_activate demo_deploy t' POST (rq_body (activateDeployment i)) fs' =
      (if i = '''' then json_err ''missing release id'' 400 else json_err (''release '' @ i @ '' not found'') 500, fs')) \<and>
    (\<forall>t'. handle_deploy_rollback demo_deploy t' POST fs' = (json_err ''no active release to rollback from'' 500, fs'))"
  proof (rule first_activation_loses_releases [OF refl])
    show "store_ok (de_cwd demo_deploy) (new_release_manager ''./releases'') demo_created"
      using demo_created_ok by (simp add: cwd)
    show "demo_release False [''releases''] ''a'' RCreated \<in>
        set (store_of (de_cwd demo_deploy) (new_release_manager ''./releases'') demo_created)"
      by (simp add: store_of_def cwd default_store_path demo_created_stored)
    show "link_ok (de_cwd demo_deploy) (new_release_manager ''./releases'') demo_created"
      using demo_created_link by (simp add: cwd)
  qed (simp_all add: cwd demo_created_def fget_def demo_release_def)
  then show ?thesis unfolding a by blast
qed

end
