(* ===== verification/Status.thy ===== *)
theory Status
  imports SiteServer
begin

text \<open>
  The counters behind the start page: \<open>StatusProvider\<close> in \<open>internal/ui/handlers.go\<close> with the handlers of
  status, runtimes and metrics history. Requests are recorded one at a time; the counters are
  \<open>int64\<close> in the code and do not get that far.
\<close>

section \<open>State\<close>

record metric =
  mt_timestamp :: string
  mt_requests :: int
  mt_errors :: int
  mt_latency :: int

record provider =
  pr_version :: string
  pr_pid :: int
  pr_addr :: string
  pr_doc_root :: string
  pr_framework :: string
  pr_runtimes :: "string list option"
  pr_active :: int
  pr_total :: int
  pr_errors :: int
  pr_avg :: int
  pr_ring :: "metric list"

definition new_provider :: "string \<Rightarrow> int \<Rightarrow> string \<Rightarrow> string \<Rightarrow> string \<Rightarrow> provider" where
  "new_provider version pid addr doc_root framework =
     \<lparr>pr_version = version, pr_pid = pid, pr_addr = addr, pr_doc_root = doc_root, pr_framework = framework,
      pr_runtimes = None, pr_active = 0, pr_total = 0, pr_errors = 0, pr_avg = 0, pr_ring = []\<rparr>"

section \<open>Operations\<close>

text \<open>\<open>RecordRequest\<close> with the time as \<open>Format\<close> shows it and the duration in whole milliseconds.\<close>

definition duration_ms :: "int \<Rightarrow> int" where
  "duration_ms ms = (if ms < 1 then 1 else ms)"

definition new_average :: "int \<Rightarrow> int \<Rightarrow> int \<Rightarrow> int" where
  "new_average tot old_avg dur = (if tot = 1 then dur else (old_avg * (tot - 1) + dur) div tot)"

definition record_request :: "string \<Rightarrow> int \<Rightarrow> bool \<Rightarrow> provider \<Rightarrow> provider" where
  "record_request now ms is_error p =
     (let tot = pr_total p + 1;
          errs = (if is_error then pr_errors p + 1 else pr_errors p);
          dur = duration_ms ms;
          ring = pr_ring p @ [\<lparr>mt_timestamp = now, mt_requests = tot, mt_errors = errs, mt_latency = dur\<rparr>]
      in p\<lparr>pr_total := tot, pr_errors := errs, pr_avg := new_average tot (pr_avg p) dur,
           pr_ring := (if length ring > 60 then tl ring else ring)\<rparr>)"

text \<open>\<open>GetHistory\<close>: \<open>past i\<close> is the time \<open>10 i\<close> seconds ago.\<close>

definition get_history :: "(nat \<Rightarrow> string) \<Rightarrow> provider \<Rightarrow> metric list" where
  "get_history past p =
     (if length (pr_ring p) = 0 then
        map (\<lambda>i. \<lparr>mt_timestamp = past i, mt_requests = pr_total p, mt_errors = pr_errors p, mt_latency = pr_avg p\<rparr>)
          (rev [0..<15])
      else pr_ring p)"

section \<open>Handlers\<close>

definition encode_metric :: "metric \<Rightarrow> json" where
  "encode_metric m =
     JObj [(''timestamp'', JStr (mt_timestamp m)), (''requests'', JNum (mt_requests m)), (''errors'', JNum (mt_errors m)),
           (''latency_ms'', JNum (mt_latency m))]"

definition handle_metrics_history :: "(nat \<Rightarrow> string) \<Rightarrow> provider \<Rightarrow> response" where
  "handle_metrics_history past p = json_resp (JObj [(''history'', JArr (map encode_metric (get_history past p)))])"

definition strs_json :: "string list option \<Rightarrow> json" where
  "strs_json xs = (case xs of None \<Rightarrow> JNull | Some ys \<Rightarrow> jstrs ys)"

text \<open>\<open>handleStatus\<close>: the uptime as text and in seconds, and the number of goroutines, are read from the runtime.\<close>

definition handle_status :: "string \<Rightarrow> int \<Rightarrow> int \<Rightarrow> http_method \<Rightarrow> server \<Rightarrow> provider \<Rightarrow> response" where
  "handle_status uptime seconds goroutines m s p =
     (if m \<noteq> GET then not_allowed
      else json_resp (JObj
        [(''active_requests'', JNum (pr_active p)), (''addr'', JStr (pr_addr p)), (''doc_root'', JStr (pr_doc_root p)),
         (''framework'', JStr (pr_framework p)), (''goroutines'', JNum goroutines), (''pid'', JNum (pr_pid p)),
         (''runtimes'', strs_json (pr_runtimes p)), (''sites_count'', JNum (int (length (sites_list_of s)))),
         (''status'', JStr ''ok''), (''total_errors'', JNum (pr_errors p)), (''total_requests'', JNum (pr_total p)),
         (''uptime'', JStr uptime), (''uptime_seconds'', JNum seconds), (''version'', JStr (pr_version p))]))"

definition handle_runtimes :: "http_method \<Rightarrow> provider \<Rightarrow> response" where
  "handle_runtimes m p =
     (if m \<noteq> GET then not_allowed
      else json_resp (JObj [(''runtimes'', JArr (map (\<lambda>(i, v).
        JObj [(''version'', JStr v), (''binary'', JStr (''php-fpm'' @ v)), (''status'', JStr ''ready''),
              (''active'', JBool (i = 0)), (''managed'', JBool True)])
        (enumerate 0 (case pr_runtimes p of None \<Rightarrow> [] | Some vs \<Rightarrow> vs))))]))"

section \<open>Runs\<close>

type_synonym served = "string \<times> int \<times> bool"

definition record_all :: "served list \<Rightarrow> provider \<Rightarrow> provider" where
  "record_all xs p = fold (\<lambda>(now, ms, is_error). record_request now ms is_error) xs p"

text \<open>The point of each request, without a bound on their number.\<close>

fun all_points :: "int \<Rightarrow> int \<Rightarrow> served list \<Rightarrow> metric list" where
  "all_points tot errs [] = []"
| "all_points tot errs ((now, ms, is_error) # xs) =
     (let errs' = (if is_error then errs + 1 else errs)
      in \<lparr>mt_timestamp = now, mt_requests = tot + 1, mt_errors = errs', mt_latency = duration_ms ms\<rparr> #
         all_points (tot + 1) errs' xs)"

lemma length_all_points [simp]: "length (all_points tot errs xs) = length xs"
  by (induction tot errs xs rule: all_points.induct) (simp_all add: Let_def)

lemma tl_take_last:
  assumes "length xs \<le> n"
  shows "(if length (xs @ [x]) > n then tl (xs @ [x]) else xs @ [x]) = take_last n (xs @ [x])"
proof (cases "length xs = n")
  case True
  then show ?thesis by (cases xs) (auto simp: take_last_def)
next
  case False
  then show ?thesis using assms by (simp add: take_last_def)
qed

lemma record_ring:
  assumes "length (pr_ring p) \<le> 60"
  shows "pr_ring (record_request now ms is_error p) =
    take_last 60 (pr_ring p @ all_points (pr_total p) (pr_errors p) [(now, ms, is_error)])"
  using tl_take_last [OF assms] by (simp add: record_request_def Let_def)

lemma record_counts [simp]:
  "pr_total (record_request now ms is_error p) = pr_total p + 1"
  "pr_errors (record_request now ms is_error p) = (if is_error then pr_errors p + 1 else pr_errors p)"
  "pr_avg (record_request now ms is_error p) = new_average (pr_total p + 1) (pr_avg p) (duration_ms ms)"
  by (simp_all add: record_request_def Let_def)

lemma record_all_ring:
  "length (pr_ring p) \<le> 60 \<Longrightarrow>
     pr_ring (record_all xs p) = take_last 60 (pr_ring p @ all_points (pr_total p) (pr_errors p) xs)"
proof (induction xs arbitrary: p)
  case (Cons x xs)
  obtain now ms er where x: "x = (now, ms, er)" by (cases x)
  let ?p = "record_request now ms er p"
  have ring: "pr_ring ?p = take_last 60 (pr_ring p @ all_points (pr_total p) (pr_errors p) [(now, ms, er)])"
    by (rule record_ring [OF Cons.prems])
  then have "length (pr_ring ?p) \<le> 60" by simp
  from Cons.IH [OF this] show ?case
    by (simp add: x record_all_def ring take_last_append_take_last Let_def)
qed (simp add: record_all_def)

lemma record_all_counts:
  "pr_total (record_all xs p) = pr_total p + int (length xs)"
  "pr_errors (record_all xs p) = pr_errors p + int (length (filter (\<lambda>(_, _, er). er) xs))"
  by (induction xs arbitrary: p) (auto simp: record_all_def)

section \<open>Properties\<close>

text \<open>However many requests have been recorded, the history is the last 60 of their points, or 15 points of zeros before the first, and the
  totals count every request and every error.\<close>

theorem history_is_last_60:
  assumes "p = record_all xs (new_provider version pid addr doc_root framework)"
  shows "get_history past p =
      (if xs = [] then map (\<lambda>i. \<lparr>mt_timestamp = past i, mt_requests = 0, mt_errors = 0, mt_latency = 0\<rparr>) (rev [0..<15])
       else take_last 60 (all_points 0 0 xs)) \<and>
    pr_total p = int (length xs) \<and> pr_errors p = int (length (filter (\<lambda>(_, _, er). er) xs))"
proof -
  let ?p0 = "new_provider version pid addr doc_root framework"
  have ring: "pr_ring p = take_last 60 (all_points 0 0 xs)"
    using record_all_ring [of ?p0 xs] by (simp add: assms new_provider_def)
  show ?thesis
  proof (cases "xs = []")
    case True
    then show ?thesis by (simp add: assms record_all_def get_history_def new_provider_def)
  next
    case False
    then have "length (pr_ring p) \<noteq> 0" unfolding ring length_take_last length_all_points by (cases xs) (simp_all add: min_def)
    then have "get_history past p = take_last 60 (all_points 0 0 xs)"
      unfolding get_history_def by (simp only: if_False ring)
    moreover have "pr_total p = int (length xs)" "pr_errors p = int (length (filter (\<lambda>(_, _, er). er) xs))"
      using record_all_counts [of xs ?p0] by (simp_all add: assms new_provider_def)
    ultimately show ?thesis using False by simp
  qed
qed

text \<open>The average response time goes deaf and drifts down: with \<open>n\<close> requests counted, a slower request
  raises the average only if it is at least \<open>n\<close> milliseconds slower, while any faster request lowers it by a whole millisecond. The
  truncated division keeps no remainder, so the start page shows a value that falls towards the fastest
  request.\<close>

theorem average_drifts_down:
  assumes "0 < pr_total p" and "n = pr_total p + 1" and "a = pr_avg p" and "d = duration_ms ms"
    and "a \<le> d + n" and "d < a + n"
  shows "pr_avg (record_request now ms er p) = (if d < a then a - 1 else a)"
proof -
  have n: "1 < n" using assms(1,2) by simp
  have "a * (n - 1) + d = (d - a) + a * n" by (simp add: algebra_simps)
  then have "(a * (n - 1) + d) div n = a + (d - a) div n" using n by (simp only: div_mult_self1)
  moreover have "(d - a) div n = (if d < a then - 1 else 0)"
  proof (cases "d < a")
    case True
    then have "(d - a) div n = - 1" using assms(5) n by (intro int_div_pos_eq [where r = "d - a + n"]) auto
    with True show ?thesis by simp
  next
    case False
    then show ?thesis using assms(6) n by (simp add: div_pos_pos_trivial)
  qed
  ultimately show ?thesis using n by (simp add: new_average_def assms(2-4)[symmetric])
qed

section \<open>Witnesses\<close>

definition demo_provider :: provider where
  "demo_provider = new_provider ''1.0'' 7 '':8080'' ''/srv'' ''''"

theorem history_is_last_60_witness:
  "get_history (\<lambda>_. ''now'') (record_all [(''a'', 3, False), (''b'', 0, True)] demo_provider) =
     take_last 60 (all_points 0 0 [(''a'', 3, False), (''b'', 0, True)])"
  using history_is_last_60 [OF refl, of "\<lambda>_. ''now''" "[(''a'', 3, False), (''b'', 0, True)]" "''1.0''" 7 "'':8080''" "''/srv''" "''''"]
  by (simp add: demo_provider_def)

theorem average_drifts_down_witness:
  "pr_avg (record_request now 18 False (record_request now 30 False (record_request now 10 False demo_provider))) = 19 \<and>
   pr_avg (record_request now 22 False (record_request now 30 False (record_request now 10 False demo_provider))) = 20"
  using average_drifts_down [of "record_request now 30 False (record_request now 10 False demo_provider)" 3 20 18 18 now False]
    average_drifts_down [of "record_request now 30 False (record_request now 10 False demo_provider)" 3 20 22 22 now False]
  by (simp add: demo_provider_def new_provider_def new_average_def duration_ms_def)

end
