(* ===== verification/Contracts.thy ===== *)
theory Contracts
  imports Status Guard Explain Releases
begin

text \<open>
  The contract between the dashboard and the server: the interfaces of \<open>dashboard/src/types/index.ts\<close> and the type
  arguments of \<open>request<T>\<close> in \<open>api/client.ts\<close> as descriptions of JSON values, and which responses of the
  handlers have the type that the client declares for them. Nothing checks this at run time.
\<close>

section \<open>Types\<close>

datatype ts_type =
    TString | TNumber | TBool | TUnknown
  | TOneOf "string list"
  | TArray ts_type
  | TRecord ts_type
  | TObject "ts_field list"
and ts_field = Field string bool ts_type

abbreviation req :: "string \<Rightarrow> ts_type \<Rightarrow> ts_field" where "req k t \<equiv> Field k False t"
abbreviation optional :: "string \<Rightarrow> ts_type \<Rightarrow> ts_field" where "optional k t \<equiv> Field k True t"

text \<open>
  Whether a value has a type: an optional member may be missing, but not \<open>null\<close>; members that are not
  declared are allowed.
\<close>

fun conforms :: "ts_type \<Rightarrow> json \<Rightarrow> bool" and has_field :: "(string \<times> json) list \<Rightarrow> ts_field \<Rightarrow> bool" where
  "conforms TString j = (case j of JStr _ \<Rightarrow> True | _ \<Rightarrow> False)"
| "conforms TNumber j = (case j of JNum _ \<Rightarrow> True | _ \<Rightarrow> False)"
| "conforms TBool j = (case j of JBool _ \<Rightarrow> True | _ \<Rightarrow> False)"
| "conforms TUnknown j = True"
| "conforms (TOneOf ss) j = (case j of JStr s \<Rightarrow> s \<in> set ss | _ \<Rightarrow> False)"
| "conforms (TArray t) j = (case j of JArr xs \<Rightarrow> list_all (conforms t) xs | _ \<Rightarrow> False)"
| "conforms (TRecord t) j = (case j of JObj ms \<Rightarrow> list_all (conforms t) (map snd ms) | _ \<Rightarrow> False)"
| "conforms (TObject fs) j = (case j of JObj ms \<Rightarrow> list_all (has_field ms) fs | _ \<Rightarrow> False)"
| "has_field ms (Field k opt t) = (case member_of k ms of None \<Rightarrow> opt | Some v \<Rightarrow> conforms t v)"

section \<open>index.ts\<close>

definition ts_site :: ts_type where
  "ts_site = TObject
     [req ''id'' TString, req ''name'' TString, req ''port'' TNumber, req ''webroot'' TString, req ''domain'' TString,
      req ''php_version'' TString, req ''status'' (TOneOf [''active'', ''stopped'', ''error'']), req ''routes'' TNumber,
      req ''ssl'' TBool, req ''created_at'' TString, req ''updated_at'' TString,
      optional ''extensions'' (TArray TString), optional ''profile'' TString]"

definition ts_extension_info :: ts_type where
  "ts_extension_info = TObject [req ''name'' TString, req ''type'' TString, req ''description'' TString, req ''version'' TString]"

definition ts_extension_profile :: ts_type where
  "ts_extension_profile = TObject [req ''name'' TString, req ''description'' TString, req ''extensions'' (TArray TString)]"

definition ts_site_extensions :: ts_type where
  "ts_site_extensions = TObject [req ''site_id'' TString, req ''extensions'' (TArray TString), req ''profile'' TString]"

definition ts_runtime :: ts_type where
  "ts_runtime = TObject [req ''version'' TString, req ''binary'' TString, req ''status'' TString, req ''active'' TBool, req ''managed'' TBool]"

definition ts_status :: ts_type where
  "ts_status = TObject
     [req ''status'' TString, req ''uptime'' TString, req ''uptime_seconds'' TNumber, req ''version'' TString,
      req ''pid'' TNumber, req ''addr'' TString, req ''doc_root'' TString, req ''framework'' TString,
      req ''goroutines'' TNumber, req ''active_requests'' TNumber, req ''total_requests'' TNumber,
      req ''total_errors'' TNumber, req ''sites_count'' TNumber, req ''runtimes'' (TArray TString)]"

definition ts_log_entry :: ts_type where
  "ts_log_entry = TObject [req ''timestamp'' TString, req ''level'' TString, req ''message'' TString, optional ''extra'' TUnknown]"

definition ts_config :: ts_type where
  "ts_config = TObject
     [req ''schema'' TString,
      req ''server'' (TObject [req ''addr'' TString, req ''read_timeout'' TString, req ''write_timeout'' TString]),
      req ''php'' (TObject [req ''binary'' TString, req ''socket_path'' TString, req ''max_children'' TNumber,
        req ''request_timeout'' TString]),
      req ''logging'' (TObject [req ''format'' TString, req ''level'' TString]),
      req ''security'' (TObject [req ''symlink_mode'' TString, req ''max_body_size'' TString,
        req ''protected_patterns'' (TArray TString)]),
      optional ''routes'' (TArray (TObject [optional ''host'' TString, optional ''path'' TString,
        optional ''path_prefix'' TString, optional ''target'' TString, optional ''type'' TString])),
      req ''sites'' (TArray ts_site)]"

definition ts_release :: ts_type where
  "ts_release = TObject
     [req ''id'' TString, req ''version'' TString, req ''runtime_id'' TString,
      req ''state'' (TOneOf [''created'', ''active'', ''draining'', ''stopped'', ''failed'']), req ''created_at'' TString,
      optional ''activated_at'' TString, optional ''deactivated_at'' TString, req ''dir'' TString,
      optional ''metadata'' (TRecord TString)]"

definition ts_explanation :: ts_type where
  "ts_explanation = TObject
     [req ''request'' (TObject [req ''method'' TString, req ''host'' TString, req ''path'' TString, req ''query'' TString,
        req ''headers'' (TRecord TString), req ''tls'' TBool, req ''remote'' TString]),
      req ''path_normalization'' (TObject [req ''raw'' TString, req ''decoded'' TString, req ''normalized'' TString,
        req ''valid'' TBool]),
      req ''policy_check'' (TObject [req ''decision'' TString, optional ''matched_rules'' (TArray TString)]),
      req ''route_match'' (TObject [req ''matched'' TBool, optional ''target'' TString]),
      req ''file_check'' (TObject [req ''found'' TBool, req ''is_php'' TBool, req ''protected'' TBool, optional ''error'' TString]),
      req ''script_check'' (TObject [req ''found'' TBool, req ''script_name'' TString, req ''script_path'' TString]),
      req ''summary'' TString, req ''duration'' TString]"

definition ts_metric_point :: ts_type where
  "ts_metric_point = TObject [req ''timestamp'' TString, req ''requests'' TNumber, req ''errors'' TNumber, req ''latency_ms'' TNumber]"

section \<open>client.ts: the type arguments of the calls\<close>

definition ts_member :: "string \<Rightarrow> ts_type \<Rightarrow> ts_type" where
  "ts_member k t = TObject [req k t]"

definition sites_type :: ts_type where "sites_type = ts_member ''sites'' (TArray ts_site)"
definition runtimes_type :: ts_type where "runtimes_type = ts_member ''runtimes'' (TArray ts_runtime)"
definition logs_type :: ts_type where "logs_type = TObject [req ''entries'' (TArray ts_log_entry), req ''total'' TNumber]"
definition health_type :: ts_type where "health_type = ts_member ''status'' TString"
definition deployments_type :: ts_type where "deployments_type = ts_member ''releases'' (TArray ts_release)"
definition history_type :: ts_type where "history_type = ts_member ''history'' (TArray ts_metric_point)"
definition extensions_type :: ts_type where
  "extensions_type = TObject [req ''extensions'' (TArray ts_extension_info), req ''enabled'' (TArray TString)]"
definition profiles_type :: ts_type where "profiles_type = ts_member ''profiles'' (TArray ts_extension_profile)"

lemmas ts_defs =
  ts_site_def ts_extension_info_def ts_extension_profile_def ts_site_extensions_def ts_runtime_def ts_status_def
  ts_log_entry_def ts_config_def ts_release_def ts_explanation_def ts_metric_point_def ts_member_def sites_type_def
  runtimes_type_def logs_type_def health_type_def deployments_type_def history_type_def extensions_type_def profiles_type_def

section \<open>The responses\<close>

lemma list_all_jstr [simp]: "list_all (conforms TString) (map JStr xs)"
  by (simp add: list_all_iff)

lemma member_of_app: "member_of k (xs @ ys) = (case member_of k ys of None \<Rightarrow> member_of k xs | Some v \<Rightarrow> Some v)"
  unfolding member_of_def rev_append map_of_append map_add_def by (rule refl)

lemma encode_site_type:
  "conforms ts_site (encode_site x) \<longleftrightarrow> g_status x \<in> {''active'', ''stopped'', ''error''}"
  by (auto simp: ts_defs encode_site_def member_of_app member_of_def jstrs_def split: option.split)

lemma encode_release_type: "conforms ts_release (encode_release time r)"
  by (cases "gr_state r") (auto simp: ts_defs encode_release_def member_of_app member_of_def opt_member_def list_all_iff split: option.split)

lemma log_entry_type: "conforms ts_log_entry (log_entry_json l)"
  by (auto simp: ts_defs log_entry_json_def member_of_app member_of_def opt_member_def split: option.split)

text \<open>The extensions of a site are an array only after they were chosen once; before that they are \<open>null\<close>.\<close>

lemma site_extensions_type:
  assumes "i \<noteq> ''''" and "index_of i (sites_list_of s) = Some idx" and "path = sites_prefix @ i @ extensions_suffix"
  shows "conforms ts_site_extensions (rs_body (fst (handle_extensions_site e GET path body s))) \<longleftrightarrow>
    g_extensions (sites_list_of s ! idx) \<noteq> None"
proof -
  have "\<not> length path \<le> length sites_prefix + length extensions_suffix"
    and "take (length path - length extensions_suffix - length sites_prefix) (drop (length sites_prefix) path) = i"
    using assms(1,3) by simp_all
  then have "rs_body (fst (handle_extensions_site e GET path body s)) =
      JObj [(''site_id'', JStr i), (''extensions'', exts_json (g_extensions (sites_list_of s ! idx))),
            (''profile'', JStr (g_profile (sites_list_of s ! idx)))]"
    using assms(2) unfolding handle_extensions_site_def Let_def by (simp add: json_resp_def)
  then show ?thesis
    by (cases "g_extensions (sites_list_of s ! idx)") (simp_all add: ts_defs member_of_def exts_json_def jstrs_def)
qed

section \<open>Properties\<close>

text \<open>C29. These responses have the types that the client declares for its calls: the logs, the health check, the profiles, the
  runtimes, the metrics history and the releases always, with any state of the server; the status exactly if the
  runtimes are not a nil slice; the list of sites, and so the annotated status of each, exactly if no listed site that is not
  running was stored with a status other than the three declared ones.\<close>

theorem responses_have_declared_types:
  "conforms logs_type (rs_body (handle_logs s)) \<and>
   conforms health_type (rs_body handle_health) \<and>
   conforms profiles_type (rs_body (handle_profiles GET)) \<and>
   conforms runtimes_type (rs_body (handle_runtimes GET p)) \<and>
   conforms history_type (rs_body (handle_metrics_history past p)) \<and>
   conforms deployments_type (rs_body (fst (handle_deploy_list d fs))) \<and>
   conforms ts_status (rs_body (handle_status uptime seconds goroutines GET s p)) = (pr_runtimes p \<noteq> None) \<and>
   conforms sites_type (rs_body (fst (handle_sites e GET body s))) =
     list_all (\<lambda>x. is_running (g_id x) s \<or> g_status x \<in> {''active'', ''stopped'', ''error''}) (sites_list_of s)"
proof (intro conjI)
  show "conforms logs_type (rs_body (handle_logs s))"
    by (simp add: logs_type_def handle_logs_def json_resp_def member_of_def list_all_iff log_entry_type)
  show "conforms health_type (rs_body handle_health)"
    by (simp add: ts_defs handle_health_def json_resp_def member_of_def)
  show "conforms profiles_type (rs_body (handle_profiles GET))"
    by (simp add: ts_defs handle_profiles_def json_resp_def member_of_def go_profiles_def jstrs_def)
  show "conforms runtimes_type (rs_body (handle_runtimes GET p))"
    by (auto simp: ts_defs handle_runtimes_def json_resp_def member_of_def list_all_iff)
  show "conforms history_type (rs_body (handle_metrics_history past p))"
    by (auto simp: ts_defs handle_metrics_history_def json_resp_def member_of_def list_all_iff encode_metric_def)
  show "conforms deployments_type (rs_body (fst (handle_deploy_list d fs)))"
    by (simp add: deployments_type_def ts_member_def handle_deploy_list_def json_resp_def member_of_def list_all_iff
        encode_release_type split: prod.split)
  show "conforms ts_status (rs_body (handle_status uptime seconds goroutines GET s p)) = (pr_runtimes p \<noteq> None)"
    by (cases "pr_runtimes p") (simp_all add: ts_defs handle_status_def json_resp_def member_of_def strs_json_def jstrs_def)
  show "conforms sites_type (rs_body (fst (handle_sites e GET body s))) =
     list_all (\<lambda>x. is_running (g_id x) s \<or> g_status x \<in> {''active'', ''stopped'', ''error''}) (sites_list_of s)"
    by (auto simp: sites_type_def ts_member_def handle_sites_def json_resp_def member_of_def list_all_iff encode_site_type annotate_def)
qed

text \<open>These responses never have the declared type: the configuration, whose routes and protected patterns are \<open>null\<close>,
  the extensions, which lack the enabled ones, and every explanation, whose matched rules are \<open>null\<close>.\<close>

theorem responses_break_declared_types:
  "\<not> conforms ts_config (rs_body (fst (handle_config GET s))) \<and>
   \<not> conforms extensions_type (rs_body (fst (handle_extensions e GET body s))) \<and>
   \<not> conforms ts_explanation (encode_explanation duration x)"
  by (simp add: ts_defs handle_config_def config_json_def json_resp_def member_of_def handle_extensions_def
      encode_explanation_def)

end
