(* ===== verification/Settings.thy ===== *)
theory Settings
  imports Router Guard
begin

text \<open>
  \<open>internal/config\<close>: the configuration of the gateway (\<open>config.go\<close>), its validation, which also fills in what is
  missing (\<open>validate.go\<close>), and sizes such as \<open>20MB\<close> (\<open>bytesize.go\<close>). Reading YAML is left to the package that does
  it: \<open>load_config\<close> starts from what it makes of the file. Whether a text is an IP address is the argument \<open>is_ip\<close>.
  Durations are nanoseconds.
\<close>

section \<open>config.go\<close>

record server_config =
  sc_addr :: string
  sc_read_timeout :: int
  sc_write_timeout :: int
  sc_read_header_timeout :: int
  sc_idle_timeout :: int
  sc_max_header_bytes :: int

record isolation_config =
  is_mode :: string
  is_user :: string
  is_memory_limit :: string
  is_pid_limit :: int

record extension_config =
  xc_name :: string
  xc_type :: string
  xc_enabled :: "bool option"

record php_config =
  ph_binary :: string
  ph_socket_path :: string
  ph_max_children :: int
  ph_start_servers :: int
  ph_min_spare :: int
  ph_max_spare :: int
  ph_max_requests :: int
  ph_request_timeout :: int
  ph_extension_profile :: string
  ph_extensions :: "extension_config list"
  ph_ini :: "(string \<times> string) list"
  ph_isolation :: isolation_config

record extension_override =
  ov_enable :: "string list"
  ov_disable :: "string list"

record route_config =
  rc_host :: string
  rc_path :: string
  rc_prefix :: string
  rc_regex :: string
  rc_target :: string
  rc_status :: int
  rc_methods :: "string list"
  rc_headers :: "(string \<times> string) list"
  rc_override :: "extension_override option"

record logging_config =
  lc_format :: string
  lc_level :: string

record rate_limit_config =
  rl_enabled :: bool
  rl_requests_per_minute :: int
  rl_burst :: int

record security_config =
  se_protected_patterns :: "string list"
  se_symlink_mode :: string
  se_max_body_size :: string
  se_mode :: string
  se_rate_limit :: rate_limit_config
  se_max_body_bytes :: int

record tls_config =
  tl_mode :: string
  tl_cert_file :: string
  tl_key_file :: string
  tl_cert_dir :: string
  tl_redirect_from :: string

record static_config =
  st_max_age :: int
  st_immutable_paths :: "string list"
  st_no_cache_paths :: "string list"
  st_precompressed :: bool

record observability_config =
  ob_metrics_enabled :: bool
  ob_metrics_path :: string
  ob_tracing_enabled :: bool
  ob_retention :: int
  ob_redact_keys :: "string list"

record gateway_config =
  cf_schema :: string
  cf_server :: server_config
  cf_php :: php_config
  cf_routes :: "route_config list"
  cf_logging :: logging_config
  cf_security :: security_config
  cf_observability :: observability_config
  cf_tls :: tls_config
  cf_static :: static_config

definition seconds :: "int \<Rightarrow> int" where "seconds n = n * 10 ^ 9"

definition default_config :: gateway_config where
  "default_config =
     \<lparr>cf_schema = ''gateway/v1'',
      cf_server = \<lparr>sc_addr = '':8080'', sc_read_timeout = seconds 30, sc_write_timeout = seconds 60,
        sc_read_header_timeout = seconds 5, sc_idle_timeout = seconds 120, sc_max_header_bytes = 2 ^ 20\<rparr>,
      cf_php = \<lparr>ph_binary = '''', ph_socket_path = '''', ph_max_children = 20, ph_start_servers = 2, ph_min_spare = 2,
        ph_max_spare = 6, ph_max_requests = 500, ph_request_timeout = seconds 60, ph_extension_profile = '''',
        ph_extensions = [], ph_ini = [],
        ph_isolation = \<lparr>is_mode = '''', is_user = '''', is_memory_limit = '''', is_pid_limit = 0\<rparr>\<rparr>,
      cf_routes = [],
      cf_logging = \<lparr>lc_format = ''json'', lc_level = ''info''\<rparr>,
      cf_security = \<lparr>se_protected_patterns = [], se_symlink_mode = ''within_root'', se_max_body_size = ''20MB'',
        se_mode = ''balanced'',
        se_rate_limit = \<lparr>rl_enabled = False, rl_requests_per_minute = 600, rl_burst = 100\<rparr>, se_max_body_bytes = 0\<rparr>,
      cf_observability = \<lparr>ob_metrics_enabled = True, ob_metrics_path = ''/metrics'', ob_tracing_enabled = False,
        ob_retention = seconds 300,
        ob_redact_keys = [''authorization'', ''cookie'', ''set-cookie'', ''password'', ''token'', ''secret'', ''api_key'']\<rparr>,
      cf_tls = \<lparr>tl_mode = '''', tl_cert_file = '''', tl_key_file = '''', tl_cert_dir = '''', tl_redirect_from = ''''\<rparr>,
      cf_static = \<lparr>st_max_age = seconds 3600, st_immutable_paths = [''/assets/'', ''/static/'', ''/dist/'', ''/build/''],
        st_no_cache_paths = [], st_precompressed = True\<rparr>\<rparr>"

section \<open>bytesize.go\<close>

datatype size_error = SizeEmpty | SizeNoDigits | SizeUnit string | SizeRange | SizeTooLarge

definition max_byte_size :: int where "max_byte_size = 2 ^ 40"

definition byte_units :: "(string \<times> int) list" where
  "byte_units =
     [('''', 1), (''B'', 1), (''K'', 2 ^ 10), (''KB'', 2 ^ 10), (''KIB'', 2 ^ 10), (''M'', 2 ^ 20), (''MB'', 2 ^ 20),
      (''MIB'', 2 ^ 20), (''G'', 2 ^ 30), (''GB'', 2 ^ 30), (''GIB'', 2 ^ 30), (''T'', 2 ^ 40), (''TB'', 2 ^ 40),
      (''TIB'', 2 ^ 40)]"

definition parse_byte_size :: "string \<Rightarrow> size_error + int" where
  "parse_byte_size s =
     (let trimmed = trim_space s;
          digits = takeWhile dec_digit trimmed;
          u = to_upper (trim_space (dropWhile dec_digit trimmed))
      in if trimmed = '''' then Inl SizeEmpty
         else if digits = '''' then Inl SizeNoDigits
         else (case map_of byte_units u of
                 None \<Rightarrow> Inl (SizeUnit u)
               | Some m \<Rightarrow>
                   (case parse_int64 digits of
                      None \<Rightarrow> Inl SizeRange
                    | Some n \<Rightarrow> if n > max_byte_size div m then Inl SizeTooLarge else Inr (n * m))))"

section \<open>validate.go\<close>

datatype config_error =
    SchemaRequired | AddrRequired | AddrMalformed | AddrNotIP string | PortRequired
  | ProfileAndExtensions | UnknownProfile string | ExtensionNameRequired | ExtensionType string string | DuplicateExtension string
  | IsolationMode string | IsolationMemory size_error | IsolationPids
  | EmptyEnable nat | EmptyDisable nat | EnableAndDisable nat string
  | LoggingFormat string | SymlinkMode string | SecurityMode string | BodySize size_error
  | RateNotPositive | BurstNegative | TlsNoFiles | TlsHalfPair | TlsAcme | TlsMode string | MetricsPath string

text \<open>One check after the other: the first that fails is the error.\<close>

definition check :: "bool \<Rightarrow> 'e \<Rightarrow> 'e + unit" where
  "check bad e = (if bad then Inl e else Inr ())"

definition and_then :: "'e + 'a \<Rightarrow> ('a \<Rightarrow> 'e + 'b) \<Rightarrow> 'e + 'b" where
  "and_then r f = (case r of Inl e \<Rightarrow> Inl e | Inr x \<Rightarrow> f x)"

fun first_error :: "('a \<Rightarrow> 'e + unit) \<Rightarrow> 'a list \<Rightarrow> 'e + unit" where
  "first_error f [] = Inr ()"
| "first_error f (x # xs) = and_then (f x) (\<lambda>_. first_error f xs)"

definition known_extension_profiles :: "string list" where
  "known_extension_profiles = [''minimal'', ''web-standard'', ''wordpress'', ''laravel'', ''development'']"

definition validate_server :: "(string \<Rightarrow> bool) \<Rightarrow> server_config \<Rightarrow> config_error + unit" where
  "validate_server is_ip c =
     (if sc_addr c = '''' then Inl AddrRequired
      else (case split_host_port (sc_addr c) of
              None \<Rightarrow> Inl AddrMalformed
            | Some (host, port) \<Rightarrow>
                if host \<noteq> '''' \<and> \<not> is_ip host then Inl (AddrNotIP host)
                else if port = '''' then Inl PortRequired else Inr ()))"

text \<open>The loop over the extensions with the names it has seen.\<close>

fun no_duplicates :: "string set \<Rightarrow> extension_config list \<Rightarrow> config_error + unit" where
  "no_duplicates seen [] = Inr ()"
| "no_duplicates seen (x # xs) =
     (if xc_name x \<in> seen then Inl (DuplicateExtension (xc_name x)) else no_duplicates (insert (xc_name x) seen) xs)"

definition validate_extension :: "extension_config \<Rightarrow> config_error + unit" where
  "validate_extension x =
     (if xc_name x = '''' then Inl ExtensionNameRequired
      else check (xc_type x \<notin> {'''', ''extension'', ''zend_extension''}) (ExtensionType (xc_name x) (xc_type x)))"

definition validate_isolation :: "isolation_config \<Rightarrow> config_error + isolation_config" where
  "validate_isolation c =
     (if is_mode c \<notin> {'''', ''none'', ''process'', ''namespace'', ''cgroup''} then Inl (IsolationMode (is_mode c))
      else
        (let c1 = (if is_mode c = '''' then c\<lparr>is_mode := ''none''\<rparr> else c)
         in case (if is_memory_limit c \<noteq> '''' then parse_byte_size (is_memory_limit c) else Inr 0) of
              Inl e \<Rightarrow> Inl (IsolationMemory e)
            | Inr _ \<Rightarrow> if is_pid_limit c < 0 then Inl IsolationPids else Inr c1))"

definition validate_php :: "php_config \<Rightarrow> config_error + php_config" where
  "validate_php c =
     (let c1 = c\<lparr>ph_max_children := (if ph_max_children c \<le> 0 then 20 else ph_max_children c),
                 ph_start_servers := (if ph_start_servers c \<le> 0 then 2 else ph_start_servers c),
                 ph_request_timeout := (if ph_request_timeout c \<le> 0 then seconds 60 else ph_request_timeout c)\<rparr>
      in and_then (check (ph_extension_profile c \<noteq> '''' \<and> ph_extensions c \<noteq> []) ProfileAndExtensions) (\<lambda>_.
         and_then (check (ph_extension_profile c \<noteq> '''' \<and> ph_extension_profile c \<notin> set known_extension_profiles)
                     (UnknownProfile (ph_extension_profile c))) (\<lambda>_.
         and_then (first_error validate_extension (ph_extensions c)) (\<lambda>_.
         and_then (no_duplicates {} (ph_extensions c)) (\<lambda>_.
         and_then (validate_isolation (ph_isolation c)) (\<lambda>iso.
         Inr (c1\<lparr>ph_isolation := iso\<rparr>)))))))"

definition validate_override :: "nat \<Rightarrow> extension_override \<Rightarrow> config_error + unit" where
  "validate_override i v =
     and_then (check ('''' \<in> set (ov_enable v)) (EmptyEnable i)) (\<lambda>_.
     and_then (check ('''' \<in> set (ov_disable v)) (EmptyDisable i)) (\<lambda>_.
     case List.find (\<lambda>n. n \<in> set (ov_enable v)) (ov_disable v) of
       Some n \<Rightarrow> Inl (EnableAndDisable i n)
     | None \<Rightarrow> Inr ()))"

definition validate_routes :: "route_config list \<Rightarrow> config_error + unit" where
  "validate_routes rs =
     first_error (\<lambda>(i, r). case rc_override r of None \<Rightarrow> Inr () | Some v \<Rightarrow> validate_override i v) (enumerate 0 rs)"

definition validate_logging :: "logging_config \<Rightarrow> config_error + logging_config" where
  "validate_logging c =
     (if lc_format c = ''json'' \<or> lc_format c = ''text'' then Inr c
      else if lc_format c = '''' then Inr (c\<lparr>lc_format := ''json''\<rparr>)
      else Inl (LoggingFormat (lc_format c)))"

definition validate_rate_limit :: "rate_limit_config \<Rightarrow> config_error + rate_limit_config" where
  "validate_rate_limit c =
     (if \<not> rl_enabled c then Inr c
      else if rl_requests_per_minute c \<le> 0 then Inl RateNotPositive
      else if rl_burst c < 0 then Inl BurstNegative
      else Inr (c\<lparr>rl_burst := (if rl_burst c = 0 then rl_requests_per_minute c else rl_burst c)\<rparr>))"

definition validate_security :: "security_config \<Rightarrow> config_error + security_config" where
  "validate_security c =
     and_then (check (se_symlink_mode c \<notin> {'''', ''deny'', ''within_root''}) (SymlinkMode (se_symlink_mode c))) (\<lambda>_.
     and_then (check (se_mode c \<notin> {'''', ''off'', ''observe'', ''balanced'', ''strict''}) (SecurityMode (se_mode c))) (\<lambda>_.
     case (if se_max_body_size c = '''' then Inr 0 else parse_byte_size (se_max_body_size c)) of
       Inl e \<Rightarrow> Inl (BodySize e)
     | Inr n \<Rightarrow>
         and_then (validate_rate_limit (se_rate_limit c)) (\<lambda>rl.
         Inr (c\<lparr>se_symlink_mode := (if se_symlink_mode c = '''' then ''within_root'' else se_symlink_mode c),
                se_mode := (if se_mode c = '''' then ''balanced'' else se_mode c),
                se_max_body_bytes := n, se_rate_limit := rl\<rparr>))))"

definition validate_tls :: "tls_config \<Rightarrow> config_error + tls_config" where
  "validate_tls c =
     (if tl_mode c = '''' \<or> tl_mode c = ''disabled'' then Inr (c\<lparr>tl_mode := ''disabled''\<rparr>)
      else if tl_mode c = ''files'' then
        (if tl_cert_dir c = '''' \<and> (tl_cert_file c = '''' \<or> tl_key_file c = '''') then Inl TlsNoFiles
         else if (tl_cert_file c = '''') \<noteq> (tl_key_file c = '''') then Inl TlsHalfPair
         else Inr c)
      else if tl_mode c = ''acme'' then Inl TlsAcme
      else Inl (TlsMode (tl_mode c)))"

definition validate_observability :: "observability_config \<Rightarrow> config_error + observability_config" where
  "validate_observability c =
     (let path = (if ob_metrics_path c = '''' then ''/metrics'' else ob_metrics_path c)
      in if \<not> starts_with path ''/'' then Inl (MetricsPath path)
         else Inr (c\<lparr>ob_metrics_path := path,
                     ob_retention := (if ob_retention c \<le> 0 then seconds 300 else ob_retention c)\<rparr>))"

definition validate :: "(string \<Rightarrow> bool) \<Rightarrow> gateway_config \<Rightarrow> config_error + gateway_config" where
  "validate is_ip c =
     and_then (check (cf_schema c = '''') SchemaRequired) (\<lambda>_.
     and_then (validate_server is_ip (cf_server c)) (\<lambda>_.
     and_then (validate_php (cf_php c)) (\<lambda>php.
     and_then (validate_routes (cf_routes c)) (\<lambda>_.
     and_then (validate_logging (cf_logging c)) (\<lambda>logging.
     and_then (validate_security (cf_security c)) (\<lambda>security.
     and_then (validate_tls (cf_tls c)) (\<lambda>tls.
     and_then (validate_observability (cf_observability c)) (\<lambda>obs.
     Inr (c\<lparr>cf_php := php, cf_logging := logging, cf_security := security, cf_tls := tls, cf_observability := obs\<rparr>)))))))))"

text \<open>
  \<open>Load\<close>: \<open>None\<close> for a file that cannot be read or is no YAML, otherwise the default configuration with the members the file sets.
\<close>

datatype load_error = Unreadable | Invalid config_error

definition load_config :: "(string \<Rightarrow> bool) \<Rightarrow> gateway_config option \<Rightarrow> load_error + gateway_config" where
  "load_config is_ip yaml =
     (case yaml of
        None \<Rightarrow> Inl Unreadable
      | Some c \<Rightarrow> (case validate is_ip c of Inl e \<Rightarrow> Inl (Invalid e) | Inr c' \<Rightarrow> Inr c'))"

text \<open>\<open>buildRouter\<close> of \<open>cmd/gateway/main.go\<close> copies the routes; \<open>ParseMode\<close> is in \<open>policy/mode.go\<close>.\<close>

definition route_of :: "route_config \<Rightarrow> route" where
  "route_of c =
     \<lparr>ro_host = rc_host c, ro_path = rc_path c, ro_prefix = rc_prefix c, ro_regex = rc_regex c, ro_target = rc_target c,
      ro_status = rc_status c, ro_methods = rc_methods c, ro_headers = rc_headers c\<rparr>"

definition parse_mode :: "string \<Rightarrow> mode option" where
  "parse_mode s =
     (if s = ''off'' then Some ModeOff
      else if s = ''observe'' then Some ModeObserve
      else if s = ''balanced'' then Some ModeBalanced
      else if s = ''strict'' then Some ModeStrict
      else if s = '''' then Some ModeBalanced
      else None)"

section \<open>extensions.go\<close>

text \<open>
  \<open>ResolveExtensions\<close>: the extensions to enable, none (\<open>[]\<close>) where nothing is configured, and the settings for
  \<open>php.ini\<close>; \<open>None\<close> is the error for an unknown profile. \<open>ProfileExtensions\<close> is in \<open>internal/runtime\<close>.
\<close>

record resolved_extension =
  re_name :: string
  re_type :: string

definition profile_extensions :: "string \<Rightarrow> string list option" where
  "profile_extensions p = map_option (\<lambda>(d, es). sort es) (map_of go_profiles p)"

definition resolve_extension_names :: "php_config \<Rightarrow> string list option" where
  "resolve_extension_names c =
     (if ph_extension_profile c \<noteq> '''' then profile_extensions (ph_extension_profile c)
      else Some (sort (map xc_name (filter (\<lambda>x. xc_name x \<noteq> '''' \<and> xc_enabled x \<noteq> Some False) (ph_extensions c)))))"

definition extension_type :: "php_config \<Rightarrow> string \<Rightarrow> string" where
  "extension_type c n =
     (case map_of (rev (map (\<lambda>x. (xc_name x, xc_type x)) (filter (\<lambda>x. xc_type x \<noteq> '''') (ph_extensions c)))) n of
        None \<Rightarrow> ''extension''
      | Some t \<Rightarrow> t)"

definition resolve_extensions :: "php_config \<Rightarrow> (resolved_extension list \<times> (string \<times> string) list) option" where
  "resolve_extensions c =
     map_option (\<lambda>ns. (sort_key re_name (map (\<lambda>n. \<lparr>re_name = n, re_type = extension_type c n\<rparr>) ns), ph_ini c))
       (resolve_extension_names c)"

definition apply_extension_overrides ::
  "resolved_extension list \<Rightarrow> extension_override option \<Rightarrow> resolved_extension list" where
  "apply_extension_overrides base override =
     (case override of
        None \<Rightarrow> base
      | Some v \<Rightarrow>
          filter (\<lambda>x. re_name x \<notin> set (ov_disable v)) base @
          map (\<lambda>n. \<lparr>re_name = n, re_type = ''extension''\<rparr>)
            (filter (\<lambda>n. n \<notin> re_name ` set base \<and> n \<notin> set (ov_disable v)) (ov_enable v)))"

section \<open>Sizes\<close>

lemma trim_space_no_space: "\<forall>c \<in> set s. \<not> is_space c \<Longrightarrow> trim_space s = s"
proof -
  have "\<forall>c \<in> set s. \<not> is_space c \<Longrightarrow> dropWhile is_space s = s" for s by (cases s) auto
  from this [of s] this [of "rev s"] show "\<forall>c \<in> set s. \<not> is_space c \<Longrightarrow> trim_space s = s"
    by (simp add: trim_space_def)
qed

lemma byte_units_bounds: "map_of byte_units u = Some m \<Longrightarrow> 0 < m \<and> m dvd max_byte_size"
  by (auto simp: byte_units_def max_byte_size_def split: if_splits)

text \<open>A size that is accepted is between zero and one terabyte, so nothing on the way leaves the 64 bits of the code, and it is
  the number times its unit.\<close>

theorem byte_size_bounded:
  assumes "parse_byte_size s = Inr b"
  shows "0 \<le> b \<and> b \<le> 2 ^ 40 \<and>
    (\<exists>n m. parse_int64 (takeWhile dec_digit (trim_space s)) = Some n \<and>
       map_of byte_units (to_upper (trim_space (dropWhile dec_digit (trim_space s)))) = Some m \<and> b = n * m)"
proof -
  obtain n m where h: "parse_int64 (takeWhile dec_digit (trim_space s)) = Some n"
    "map_of byte_units (to_upper (trim_space (dropWhile dec_digit (trim_space s)))) = Some m"
    "\<not> n > max_byte_size div m" "b = n * m"
    using assms by (auto simp: parse_byte_size_def Let_def split: if_splits option.splits)
  note m = byte_units_bounds [OF h(2)]
  have "0 \<le> n"
  proof -
    let ?d = "takeWhile dec_digit (trim_space s)"
    have "hd ?d \<noteq> CHR ''-''" if "?d \<noteq> []"
    proof -
      have "dec_digit (hd ?d)" using that by (meson hd_in_set set_takeWhileD)
      then show ?thesis by (auto simp: dec_digit_def radix_digit_def digit_value.simps in_range_def)
    qed
    then show ?thesis using h(1) by (cases ?d) (auto simp: parse_int64_def Let_def split: if_splits)
  qed
  moreover have "n * m \<le> max_byte_size"
  proof -
    have "n * m \<le> max_byte_size div m * m" using h(3) m by (intro mult_right_mono) auto
    then show ?thesis using m by simp
  qed
  ultimately show ?thesis using h m by (auto simp: max_byte_size_def)
qed


section \<open>What a validated configuration is\<close>

lemma check_Inr [simp]: "check b e = Inr u \<longleftrightarrow> \<not> b"
  by (simp add: check_def)

lemma and_then_Inr [simp]: "and_then r f = Inr y \<longleftrightarrow> (\<exists>x. r = Inr x \<and> f x = Inr y)"
  by (cases r) (simp_all add: and_then_def)

lemma first_error_Inr [simp]: "first_error f xs = Inr u \<longleftrightarrow> (\<forall>x \<in> set xs. f x = Inr ())"
  by (induction xs) auto

lemma no_duplicates_Inr [simp]:
  "no_duplicates seen xs = Inr u \<longleftrightarrow> distinct (map xc_name xs) \<and> seen \<inter> xc_name ` set xs = {}"
  by (induction xs arbitrary: seen) auto

lemma validate_override_Inr [simp]:
  "validate_override i v = Inr u \<longleftrightarrow>
     '''' \<notin> set (ov_enable v) \<and> '''' \<notin> set (ov_disable v) \<and> set (ov_enable v) \<inter> set (ov_disable v) = {}"
  by (auto simp: validate_override_def find_None_iff split: option.splits dest: find_SomeD)

definition server_ok :: "(string \<Rightarrow> bool) \<Rightarrow> server_config \<Rightarrow> bool" where
  "server_ok is_ip c \<longleftrightarrow>
     (\<exists>host port. split_host_port (sc_addr c) = Some (host, port) \<and> (host = '''' \<or> is_ip host) \<and> port \<noteq> '''')"

definition isolation_ok :: "isolation_config \<Rightarrow> bool" where
  "isolation_ok c \<longleftrightarrow>
     is_mode c \<in> {''none'', ''process'', ''namespace'', ''cgroup''} \<and> 0 \<le> is_pid_limit c \<and>
     (is_memory_limit c = '''' \<or> (\<exists>n. parse_byte_size (is_memory_limit c) = Inr n))"

definition php_ok :: "php_config \<Rightarrow> bool" where
  "php_ok c \<longleftrightarrow>
     0 < ph_max_children c \<and> 0 < ph_start_servers c \<and> 0 < ph_request_timeout c \<and>
     (ph_extension_profile c = '''' \<or> ph_extension_profile c \<in> set known_extension_profiles \<and> ph_extensions c = []) \<and>
     (\<forall>x \<in> set (ph_extensions c). xc_name x \<noteq> '''' \<and> xc_type x \<in> {'''', ''extension'', ''zend_extension''}) \<and>
     distinct (map xc_name (ph_extensions c)) \<and> isolation_ok (ph_isolation c)"

definition override_ok :: "extension_override \<Rightarrow> bool" where
  "override_ok v \<longleftrightarrow>
     '''' \<notin> set (ov_enable v) \<union> set (ov_disable v) \<and> set (ov_enable v) \<inter> set (ov_disable v) = {}"

definition routes_ok :: "route_config list \<Rightarrow> bool" where
  "routes_ok rs \<longleftrightarrow> (\<forall>r \<in> set rs. \<forall>v. rc_override r = Some v \<longrightarrow> override_ok v)"

definition rate_limit_ok :: "rate_limit_config \<Rightarrow> bool" where
  "rate_limit_ok c \<longleftrightarrow> (rl_enabled c \<longrightarrow> 0 < rl_requests_per_minute c \<and> 0 < rl_burst c)"

definition security_ok :: "security_config \<Rightarrow> bool" where
  "security_ok c \<longleftrightarrow>
     se_symlink_mode c \<in> {''deny'', ''within_root''} \<and> parse_mode (se_mode c) \<noteq> None \<and> se_mode c \<noteq> '''' \<and>
     (if se_max_body_size c = '''' then Inr 0 else parse_byte_size (se_max_body_size c)) = Inr (se_max_body_bytes c) \<and>
     rate_limit_ok (se_rate_limit c)"

definition tls_ok :: "tls_config \<Rightarrow> bool" where
  "tls_ok c \<longleftrightarrow>
     tl_mode c = ''disabled'' \<or>
     tl_mode c = ''files'' \<and> (tl_cert_file c = '''' \<longleftrightarrow> tl_key_file c = '''') \<and> (tl_cert_dir c \<noteq> '''' \<or> tl_cert_file c \<noteq> '''')"

definition observability_ok :: "observability_config \<Rightarrow> bool" where
  "observability_ok c \<longleftrightarrow> starts_with (ob_metrics_path c) ''/'' \<and> 0 < ob_retention c"

definition settings_ok :: "(string \<Rightarrow> bool) \<Rightarrow> gateway_config \<Rightarrow> bool" where
  "settings_ok is_ip c \<longleftrightarrow>
     cf_schema c \<noteq> '''' \<and> server_ok is_ip (cf_server c) \<and> php_ok (cf_php c) \<and> routes_ok (cf_routes c) \<and>
     lc_format (cf_logging c) \<in> {''json'', ''text''} \<and> security_ok (cf_security c) \<and> tls_ok (cf_tls c) \<and>
     observability_ok (cf_observability c)"

text \<open>What each part of the validation accepts, and what it leaves as it is.\<close>

lemma validate_server_Inr: "validate_server is_ip c = Inr u \<longleftrightarrow> server_ok is_ip c"
  by (auto simp: validate_server_def server_ok_def split_host_port_def split: option.splits)

lemma validate_isolation_ok: "validate_isolation c = Inr c' \<Longrightarrow> isolation_ok c'"
  by (auto simp: validate_isolation_def isolation_ok_def Let_def split: if_splits sum.splits)

lemma validate_isolation_fix: "isolation_ok c \<Longrightarrow> validate_isolation c = Inr c"
  by (auto simp: validate_isolation_def isolation_ok_def Let_def)

lemma validate_extension_Inr:
  "validate_extension x = Inr u \<longleftrightarrow> xc_name x \<noteq> '''' \<and> xc_type x \<in> {'''', ''extension'', ''zend_extension''}"
  by (auto simp: validate_extension_def)

lemma validate_php_ok: "validate_php c = Inr c' \<Longrightarrow> php_ok c'"
  by (auto simp: validate_php_def php_ok_def Let_def validate_extension_Inr seconds_def dest: validate_isolation_ok)

lemma validate_php_fix:
  assumes "php_ok c" shows "validate_php c = Inr c"
proof -
  have checks: "\<not> ph_max_children c \<le> 0" "\<not> ph_start_servers c \<le> 0" "\<not> ph_request_timeout c \<le> 0"
    "\<not> (ph_extension_profile c \<noteq> '''' \<and> ph_extensions c \<noteq> [])"
    "\<not> (ph_extension_profile c \<noteq> '''' \<and> ph_extension_profile c \<notin> set known_extension_profiles)"
    "first_error validate_extension (ph_extensions c) = Inr ()" "no_duplicates {} (ph_extensions c) = Inr ()"
    "validate_isolation (ph_isolation c) = Inr (ph_isolation c)"
    using assms unfolding php_ok_def first_error_Inr no_duplicates_Inr validate_extension_Inr
    by (simp_all only: validate_isolation_fix) auto
  have same: "c\<lparr>ph_max_children := ph_max_children c, ph_start_servers := ph_start_servers c,
      ph_request_timeout := ph_request_timeout c, ph_isolation := ph_isolation c\<rparr> = c"
    by (cases c) simp
  show ?thesis unfolding validate_php_def Let_def by (simp add: checks same del: not_le)
qed

lemma validate_routes_Inr: "validate_routes rs = Inr u \<longleftrightarrow> routes_ok rs"
proof -
  have "set rs = snd ` set (enumerate 0 rs)" by (metis list.set_map map_snd_enumerate)
  then show ?thesis
    by (fastforce simp: validate_routes_def routes_ok_def override_ok_def split: option.split)
qed

lemma validate_logging_ok: "validate_logging c = Inr c' \<Longrightarrow> lc_format c' \<in> {''json'', ''text''}"
  by (auto simp: validate_logging_def split: if_splits)

lemma validate_logging_fix: "lc_format c \<in> {''json'', ''text''} \<Longrightarrow> validate_logging c = Inr c"
  by (auto simp: validate_logging_def)

lemma validate_rate_limit_ok: "validate_rate_limit c = Inr c' \<Longrightarrow> rate_limit_ok c'"
  by (auto simp: validate_rate_limit_def rate_limit_ok_def split: if_splits)

lemma validate_rate_limit_fix: "rate_limit_ok c \<Longrightarrow> validate_rate_limit c = Inr c"
  by (auto simp: validate_rate_limit_def rate_limit_ok_def)

lemma parse_mode_known: "parse_mode s \<noteq> None \<longleftrightarrow> s \<in> {[], ''off'', ''observe'', ''balanced'', ''strict''}"
  by (simp add: parse_mode_def)

lemma validate_security_ok:
  assumes "validate_security c = Inr c'" shows "security_ok c'"
proof -
  obtain n rl where h: "se_symlink_mode c \<in> {[], ''deny'', ''within_root''}"
    "se_mode c \<in> {[], ''off'', ''observe'', ''balanced'', ''strict''}"
    "(if se_max_body_size c = [] then Inr 0 else parse_byte_size (se_max_body_size c)) = Inr n"
    "validate_rate_limit (se_rate_limit c) = Inr rl"
    "c' = c\<lparr>se_symlink_mode := (if se_symlink_mode c = [] then ''within_root'' else se_symlink_mode c),
      se_mode := (if se_mode c = [] then ''balanced'' else se_mode c), se_max_body_bytes := n, se_rate_limit := rl\<rparr>"
    using assms unfolding validate_security_def and_then_Inr check_Inr not_not by (auto simp del: insert_iff split: sum.splits)
  have "se_symlink_mode c' \<in> {''deny'', ''within_root''}" using h(1) by (auto simp: h(5))
  moreover have "parse_mode (se_mode c') \<noteq> None \<and> se_mode c' \<noteq> []"
    using h(2) unfolding parse_mode_known by (auto simp: h(5))
  moreover have "rate_limit_ok (se_rate_limit c')" using validate_rate_limit_ok [OF h(4)] by (simp add: h(5))
  moreover have "(if se_max_body_size c' = [] then Inr 0 else parse_byte_size (se_max_body_size c')) = Inr (se_max_body_bytes c')"
  proof -
    have "se_max_body_size c' = se_max_body_size c" "se_max_body_bytes c' = n" by (simp_all add: h(5))
    with h(3) show ?thesis by (simp only:)
  qed
  ultimately show ?thesis unfolding security_ok_def by blast
qed

lemma validate_security_fix:
  assumes "security_ok c" shows "validate_security c = Inr c"
proof -
  have h: "se_symlink_mode c \<in> {[], ''deny'', ''within_root''}" "se_symlink_mode c \<noteq> []"
    "se_mode c \<in> {[], ''off'', ''observe'', ''balanced'', ''strict''}" "se_mode c \<noteq> []"
    "validate_rate_limit (se_rate_limit c) = Inr (se_rate_limit c)"
    "(if se_max_body_size c = [] then Inr 0 else parse_byte_size (se_max_body_size c)) = Inr (se_max_body_bytes c)"
    using assms unfolding security_ok_def parse_mode_known by (auto simp: validate_rate_limit_fix)
  have same: "c\<lparr>se_symlink_mode := se_symlink_mode c, se_mode := se_mode c, se_max_body_bytes := se_max_body_bytes c,
      se_rate_limit := se_rate_limit c\<rparr> = c"
    by (cases c) simp
  show ?thesis unfolding validate_security_def check_def by (simp only: h same if_False not_True_eq_False sum.case and_then_def)
qed

lemma validate_tls_ok: "validate_tls c = Inr c' \<Longrightarrow> tls_ok c'"
  by (auto simp: validate_tls_def tls_ok_def split: if_splits)

lemma validate_tls_fix: "tls_ok c \<Longrightarrow> validate_tls c = Inr c"
  by (cases c) (auto simp: validate_tls_def tls_ok_def)

lemma validate_observability_ok: "validate_observability c = Inr c' \<Longrightarrow> observability_ok c'"
  by (auto simp: validate_observability_def observability_ok_def Let_def seconds_def split: if_splits)

lemma validate_observability_fix: "observability_ok c \<Longrightarrow> validate_observability c = Inr c"
  by (cases c) (auto simp: validate_observability_def observability_ok_def Let_def)

lemma validate_ok: "validate is_ip c = Inr c' \<Longrightarrow> settings_ok is_ip c'"
  unfolding validate_def and_then_Inr check_Inr validate_server_Inr validate_routes_Inr
  by (auto simp: settings_ok_def simp del: insert_iff dest: validate_php_ok validate_logging_ok validate_security_ok validate_tls_ok
      validate_observability_ok)

lemma validate_fix: "settings_ok is_ip c \<Longrightarrow> validate is_ip c = Inr c"
  unfolding validate_def settings_ok_def
  by (cases c) (simp add: validate_server_Inr validate_routes_Inr validate_php_fix validate_logging_fix validate_security_fix
      validate_tls_fix validate_observability_fix del: insert_iff)

text \<open>C24. A configuration that passes the validation is well formed: positive numbers of workers and timeouts, a known profile or
  distinct named extensions, overrides that do not enable what they disable, a known symlink, security and TLS mode, the body limit
  that belongs to its text, positive rates, a rooted metrics path. And validating it again, as \<open>Reload\<close> and \<open>/api/config/validate\<close> do,
  accepts it without a change; the configurations the validation leaves alone are exactly the well formed ones.\<close>

theorem validation_settles:
  "(\<forall>c'. validate is_ip c = Inr c' \<longrightarrow> settings_ok is_ip c' \<and> validate is_ip c' = Inr c') \<and>
   (validate is_ip c = Inr c \<longleftrightarrow> settings_ok is_ip c)"
  by (blast intro: validate_ok validate_fix)

section \<open>Extensions\<close>

lemma profile_extensions_known:
  assumes "p \<in> set known_extension_profiles"
  obtains d es where "(p, d, es) \<in> set go_profiles" "profile_extensions p = Some (sort es)"
proof -
  have "set known_extension_profiles = fst ` set go_profiles" by (simp add: known_extension_profiles_def go_profiles_def)
  with assms have "map_of go_profiles p \<noteq> None" by (simp add: map_of_eq_None_iff)
  then obtain d es where "map_of go_profiles p = Some (d, es)" by auto
  then show ?thesis using that map_of_SomeD by (fastforce simp: profile_extensions_def)
qed

lemma go_profiles_distinct: "(p, d, es) \<in> set go_profiles \<Longrightarrow> distinct es"
  by (auto simp: go_profiles_def)

lemma extension_type_known:
  "\<forall>x \<in> set (ph_extensions c). xc_type x \<in> {'''', ''extension'', ''zend_extension''} \<Longrightarrow>
   extension_type c n \<in> {''extension'', ''zend_extension''}"
  by (auto simp: extension_type_def simp del: insert_iff split: option.split dest!: map_of_SomeD)

lemma resolve_extension_names_ok:
  assumes "php_ok c"
  shows "\<exists>ns. resolve_extension_names c = Some ns \<and> sorted ns \<and> distinct ns \<and>
    set ns = (if ph_extension_profile c = '''' then {xc_name x |x. x \<in> set (ph_extensions c) \<and> xc_enabled x \<noteq> Some False}
      else {n. \<exists>d es. (ph_extension_profile c, d, es) \<in> set go_profiles \<and> n \<in> set es})"
proof (cases "ph_extension_profile c = ''''")
  case True
  have "distinct (map xc_name (ph_extensions c))" using assms by (simp add: php_ok_def)
  then have "distinct (map xc_name (filter P (ph_extensions c)))" for P by (rule distinct_map_filter)
  moreover have "\<forall>x \<in> set (ph_extensions c). xc_name x \<noteq> ''''" using assms by (simp add: php_ok_def)
  ultimately show ?thesis using True by (auto simp: resolve_extension_names_def)
next
  case False
  then have "ph_extension_profile c \<in> set known_extension_profiles" using assms by (simp only: php_ok_def) blast
  then obtain d es where p: "(ph_extension_profile c, d, es) \<in> set go_profiles"
    "profile_extensions (ph_extension_profile c) = Some (sort es)"
    by (rule profile_extensions_known)
  have "distinct (map fst go_profiles)" by (simp add: go_profiles_def)
  then have "(ph_extension_profile c, d', es') \<in> set go_profiles \<longleftrightarrow> d' = d \<and> es' = es" for d' es'
    using p(1) by (metis Pair_inject map_of_is_SomeI option.inject)
  then show ?thesis using False p(2) go_profiles_distinct [OF p(1)] by (simp add: resolve_extension_names_def)
qed

lemma apply_overrides_names:
  "set (ov_enable v) \<inter> set (ov_disable v) = {} \<Longrightarrow>
   re_name ` set (apply_extension_overrides xs (Some v)) = (re_name ` set xs - set (ov_disable v)) \<union> set (ov_enable v)"
  by (simp add: apply_extension_overrides_def image_Un image_image) blast

text \<open>The extensions of a validated configuration always resolve: to a list sorted by name without a name twice, of PHP or Zend
  extensions, which are those of the profile, or the listed ones that are not switched off. A validated override of a
  route then takes its disabled names out of that set and puts its enabled ones in.\<close>

theorem validated_extensions_resolve:
  assumes "validate is_ip c = Inr c'"
  shows "\<exists>xs. resolve_extensions (cf_php c') = Some (xs, ph_ini (cf_php c')) \<and> sorted (map re_name xs) \<and> distinct (map re_name xs) \<and>
     (\<forall>x \<in> set xs. re_type x \<in> {''extension'', ''zend_extension''}) \<and>
     re_name ` set xs =
       (if ph_extension_profile (cf_php c') = '''' then {xc_name x |x. x \<in> set (ph_extensions (cf_php c')) \<and> xc_enabled x \<noteq> Some False}
        else {n. \<exists>d es. (ph_extension_profile (cf_php c'), d, es) \<in> set go_profiles \<and> n \<in> set es}) \<and>
     (\<forall>r v. r \<in> set (cf_routes c') \<longrightarrow> rc_override r = Some v \<longrightarrow>
        re_name ` set (apply_extension_overrides xs (Some v)) = (re_name ` set xs - set (ov_disable v)) \<union> set (ov_enable v))"
proof -
  let ?c = "cf_php c'"
  have ok: "php_ok ?c" "routes_ok (cf_routes c')" using validate_ok [OF assms] by (simp_all only: settings_ok_def)
  from resolve_extension_names_ok [OF ok(1)] obtain ns where
    ns: "resolve_extension_names ?c = Some ns" "sorted ns" "distinct ns" and
    set: "set ns = (if ph_extension_profile ?c = '''' then {xc_name x |x. x \<in> set (ph_extensions ?c) \<and> xc_enabled x \<noteq> Some False}
      else {n. \<exists>d es. (ph_extension_profile ?c, d, es) \<in> set go_profiles \<and> n \<in> set es})"
    by blast
  let ?xs = "map (\<lambda>n. \<lparr>re_name = n, re_type = extension_type ?c n\<rparr>) ns"
  have names: "map re_name ?xs = ns" by (simp add: comp_def)
  then have "sort_key re_name ?xs = ?xs" using ns(2) by (intro sort_key_id_if_sorted) (simp only:)
  then have res: "resolve_extensions ?c = Some (?xs, ph_ini ?c)" using ns(1) by (simp add: resolve_extensions_def)
  have "\<forall>x \<in> set (ph_extensions ?c). xc_type x \<in> {'''', ''extension'', ''zend_extension''}"
    using ok(1) by (simp only: php_ok_def) blast
  from extension_type_known [OF this] have types: "\<forall>x \<in> set ?xs. re_type x \<in> {''extension'', ''zend_extension''}"
    by (simp del: insert_iff)
  have override: "re_name ` set (apply_extension_overrides ?xs (Some v)) = (re_name ` set ?xs - set (ov_disable v)) \<union> set (ov_enable v)"
    if "r \<in> set (cf_routes c')" "rc_override r = Some v" for r v
    using that ok(2) by (intro apply_overrides_names) (auto simp: routes_ok_def override_ok_def)
  have "re_name ` set ?xs = set ns" using names by (metis list.set_map)
  with res names ns(2,3) types set override show ?thesis by (intro exI [of _ ?xs]) (simp only: simp_thms, blast)
qed

section \<open>Sizes are read back\<close>

lemma byte_unit_letters:
  assumes "map_of byte_units (to_upper u) = Some m" and "c \<in> set u"
  shows "\<not> dec_digit c \<and> \<not> is_space c"
proof -
  have "to_upper u \<in> fst ` set byte_units" using map_of_SomeD [OF assms(1)] by force
  moreover have "\<forall>w \<in> fst ` set byte_units. \<forall>x \<in> set w. in_range (CHR ''A'') (CHR ''Z'') x"
    by (simp add: byte_units_def in_range_def)
  ultimately have "in_range (CHR ''A'') (CHR ''Z'') (to_upper_char c)" using assms(2) by (auto simp: to_upper_def)
  then show ?thesis
    by (auto simp: to_upper_char_def dec_digit_def radix_digit_def digit_value.simps is_space_def in_range_def
        split: if_splits option.splits)
qed

lemma dec_digit_nat_to_str: "c \<in> set (nat_to_str k) \<Longrightarrow> dec_digit c \<and> \<not> is_space c"
  using nat_to_str_digits [of k] digit_not_space by (fastforce simp: dec_digit_def)

lemma parse_int64_nat_to_str: "int k < 2 ^ 63 \<Longrightarrow> parse_int64 (nat_to_str k) = Some (int k)"
proof -
  assume k: "int k < 2 ^ 63"
  obtain d s where d: "d < (10::nat)" "nat_to_str k = char_of (48 + d) # s" by (rule nat_to_str_hd)
  have "char_of (48 + d) \<noteq> CHR ''-''" "char_of (48 + d) \<noteq> CHR ''+''"
    using d(1) by (auto dest!: arg_cong [where f = "of_char :: char \<Rightarrow> nat"])
  moreover have "list_all (\<lambda>c. radix_digit 10 c \<noteq> None) (nat_to_str k)"
    using dec_digit_nat_to_str by (auto simp: list_all_iff dec_digit_def)
  ultimately show ?thesis
    using k d(2) read_digits_nat_to_str [of k] by (simp add: parse_int64_def)
qed

text \<open>A size is read back: a number of units of any spelling and case, up to the bound, reads as that many bytes, and beyond
  the bound is refused.\<close>

theorem size_round_trip:
  assumes "map_of byte_units (to_upper u) = Some m" and "int k < 2 ^ 63"
  shows "parse_byte_size (nat_to_str k @ u) = (if int k * m \<le> 2 ^ 40 then Inr (int k * m) else Inl SizeTooLarge)"
proof -
  have "trim_space (nat_to_str k @ u) = nat_to_str k @ u"
    using byte_unit_letters [OF assms(1)] dec_digit_nat_to_str [of _ k] by (intro trim_space_no_space) auto
  moreover have "trim_space u = u" using byte_unit_letters [OF assms(1)] by (intro trim_space_no_space) auto
  moreover have "takeWhile dec_digit (nat_to_str k @ u) = nat_to_str k" "dropWhile dec_digit (nat_to_str k @ u) = u"
    using byte_unit_letters [OF assms(1)] dec_digit_nat_to_str [of _ k]
    by (simp_all add: takeWhile_append2 dropWhile_append2) (cases u; simp)+
  moreover have "int k > max_byte_size div m \<longleftrightarrow> \<not> int k * m \<le> 2 ^ 40"
  proof -
    obtain q where q: "0 < m" "max_byte_size = m * q" using byte_units_bounds [OF assms(1)] by (auto elim: dvdE)
    then have "max_byte_size div m = q" unfolding q(2) by simp
    moreover have "int k * m \<le> max_byte_size \<longleftrightarrow> int k \<le> q" unfolding q(2) using q(1) by (simp add: mult.commute)
    ultimately show ?thesis by (simp add: max_byte_size_def not_le)
  qed
  ultimately show ?thesis using assms(1) parse_int64_nat_to_str [OF assms(2)] by (simp add: parse_byte_size_def)
qed

theorem size_round_trip_witness: "parse_byte_size ''20mb'' = Inr (20 * 2 ^ 20)"
proof -
  have "nat_to_str 20 = ''20''" by code_simp
  moreover have "map_of byte_units (to_upper ''mb'') = Some (2 ^ 20)" by code_simp
  ultimately show ?thesis using size_round_trip [of "''mb''" "2 ^ 20" 20] by simp
qed

theorem byte_size_bounded_witness: "\<exists>b. parse_byte_size ''20MB'' = Inr b \<and> b \<le> 2 ^ 40"
proof -
  have "parse_byte_size ''20MB'' = Inr (20 * 2 ^ 20)" by code_simp
  from byte_size_bounded [OF this] this show ?thesis by simp
qed

section \<open>handlers.go: /api/config/validate\<close>

text \<open>
  \<open>handleConfigValidate\<close>, where \<open>yaml\<close> is \<open>None\<close> without a \<open>gateway.yaml\<close> and otherwise what the package for YAML makes of it.
  \<open>msg\<close> is the text of an error.
\<close>

definition handle_config_validate ::
  "(load_error \<Rightarrow> string) \<Rightarrow> (string \<Rightarrow> bool) \<Rightarrow> gateway_config option option \<Rightarrow> http_method \<Rightarrow> response" where
  "handle_config_validate msg is_ip yaml m =
     (if m \<noteq> POST \<and> m \<noteq> GET then not_allowed
      else
        (case (case yaml of None \<Rightarrow> Inr default_config | Some y \<Rightarrow> load_config is_ip y) of
           Inl e \<Rightarrow> json_err (''invalid config: '' @ msg e) 400
         | Inr cfg \<Rightarrow>
             (case validate is_ip cfg of
                Inl e \<Rightarrow> json_err (''validation failed: '' @ msg (Invalid e)) 400
              | Inr _ \<Rightarrow> json_resp (JObj [(''status'', JStr ''valid'')]))))"

lemma parse_default_size: "parse_byte_size ''20MB'' = Inr 20971520"
  by code_simp

definition settled_default :: gateway_config where
  "settled_default = default_config\<lparr>
     cf_security := (cf_security default_config)\<lparr>se_max_body_bytes := 20971520\<rparr>,
     cf_php := (cf_php default_config)\<lparr>ph_isolation := (ph_isolation (cf_php default_config))\<lparr>is_mode := ''none''\<rparr>\<rparr>,
     cf_tls := (cf_tls default_config)\<lparr>tl_mode := ''disabled''\<rparr>\<rparr>"

lemma default_config_valid: "validate is_ip default_config = Inr settled_default"
proof -
  have "split_host_port '':8080'' = Some ('''', ''8080'')" by code_simp
  then have "sc_addr c = '':8080'' \<Longrightarrow> validate_server is_ip c = Inr ()" for c by (simp add: validate_server_def)
  then show ?thesis
    by (simp add: validate_def settled_default_def default_config_def validate_php_def validate_isolation_def validate_routes_def
        validate_logging_def validate_security_def validate_rate_limit_def validate_tls_def validate_observability_def
        parse_default_size seconds_def Let_def and_then_def check_def)
qed

text \<open>\<open>/api/config/validate\<close> answers 200 without a file and otherwise exactly if the file is read and is valid; the answer 400
  then always says \<open>invalid config\<close>: the second validation of the handler never fails.\<close>

theorem config_validate_answers:
  "rs_code (handle_config_validate msg is_ip yaml GET) =
     (case yaml of None \<Rightarrow> 200 | Some None \<Rightarrow> 400 | Some (Some c) \<Rightarrow> if \<exists>c'. validate is_ip c = Inr c' then 200 else 400) \<and>
   (rs_code (handle_config_validate msg is_ip yaml GET) = 400 \<longrightarrow>
      (\<exists>e. handle_config_validate msg is_ip yaml GET = json_err (''invalid config: '' @ msg e) 400))"
  by (auto simp: handle_config_validate_def load_config_def default_config_valid json_resp_def json_err_def validate_fix
      dest: validate_ok split: option.split sum.split)

section \<open>Witnesses\<close>

theorem validation_settles_witness:
  "\<exists>c'. validate (\<lambda>_. False) default_config = Inr c' \<and> validate (\<lambda>_. False) c' = Inr c'"
  using validation_settles [of "\<lambda>_. False" default_config] default_config_valid by blast

definition demo_extensions_config :: gateway_config where
  "demo_extensions_config = settled_default\<lparr>cf_php := (cf_php settled_default)\<lparr>ph_extensions :=
     [\<lparr>xc_name = ''opcache'', xc_type = ''zend_extension'', xc_enabled = None\<rparr>,
      \<lparr>xc_name = ''gd'', xc_type = '''', xc_enabled = Some False\<rparr>]\<rparr>\<rparr>"

lemma demo_extensions_config_valid: "validate (\<lambda>_. False) demo_extensions_config = Inr demo_extensions_config"
proof (rule validate_fix)
  have "settings_ok (\<lambda>_. False) settled_default" by (rule validate_ok [OF default_config_valid])
  moreover have "ph_extension_profile (cf_php settled_default) = ''''" by (simp add: settled_default_def default_config_def)
  ultimately show "settings_ok (\<lambda>_. False) demo_extensions_config"
    unfolding settings_ok_def php_ok_def by (simp add: demo_extensions_config_def del: insert_iff) simp
qed

theorem validated_extensions_resolve_witness:
  "\<exists>xs. resolve_extensions (cf_php demo_extensions_config) = Some (xs, []) \<and> re_name ` set xs = {''opcache''}"
proof -
  have "ph_extension_profile (cf_php demo_extensions_config) = ''''" "ph_ini (cf_php demo_extensions_config) = []"
    by (simp_all add: demo_extensions_config_def settled_default_def default_config_def)
  moreover have "{xc_name x |x. x \<in> set (ph_extensions (cf_php demo_extensions_config)) \<and> xc_enabled x \<noteq> Some False} = {''opcache''}"
    by (auto simp: demo_extensions_config_def
        intro!: exI [of _ "\<lparr>xc_name = ''opcache'', xc_type = ''zend_extension'', xc_enabled = None\<rparr>"])
  ultimately show ?thesis using validated_extensions_resolve [OF demo_extensions_config_valid] by auto
qed

theorem config_validate_answers_witness:
  "\<exists>e. handle_config_validate (\<lambda>_. ''x'') (\<lambda>_. False) (Some None) GET = json_err (''invalid config: '' @ e) 400"
  using config_validate_answers [of "\<lambda>_. ''x''" "\<lambda>_. False" "Some None"] by auto

end
