(* ===== verification/Management.thy ===== *)
theory Management
  imports Contracts Settings
begin

text \<open>
  The management server as a whole: the mux of \<open>internal/ui/server.go\<close> over the handlers of \<open>internal/ui/handlers.go\<close>,
  behind the guard. The state is what the handlers share: the sites with their servers and the log, the counters, and the
  file tree. The environment of a request is what its handler asks the machine for; \<open>other\<close> answers for the
  static files, the metrics of the gateway and the upgrade to a web socket, which only read.
\<close>

section \<open>State\<close>

record management =
  mg_server :: server
  mg_provider :: provider
  mg_files :: "content files"

record request_env =
  me_env :: env
  me_deploy :: deploy_env
  me_levels :: nat
  me_now :: int
  me_times :: "int \<times> int"
  me_uptime :: "string \<times> int"
  me_goroutines :: int
  me_past :: "nat \<Rightarrow> string"
  me_system :: json
  me_doctor :: json
  me_scan :: "string \<Rightarrow> json"
  me_config :: "gateway_config option option"
  me_config_text :: "load_error \<Rightarrow> string"
  me_is_ip :: "string \<Rightarrow> bool"
  me_match :: other_match
  me_file_text :: "resolve_error \<Rightarrow> string"
  me_new_request :: "string \<Rightarrow> string + url_request"
  me_duration :: string

section \<open>handlers.go: the reports on the machine\<close>

text \<open>
  The facts and reports themselves come from the environment: what the runtime says of the process, the report
  of \<open>Doctor.Run\<close>, and the report of the scan of an absolute directory.
\<close>

definition handle_system :: "json \<Rightarrow> http_method \<Rightarrow> response" where
  "handle_system info m = (if m \<noteq> GET then not_allowed else json_resp info)"

definition handle_doctor :: "json \<Rightarrow> response" where
  "handle_doctor report = json_resp report"

definition handle_doctor_compat :: "(string \<Rightarrow> json) \<Rightarrow> string \<Rightarrow> string \<Rightarrow> response" where
  "handle_doctor_compat scan cwd q =
     (let dir = (if query_get ''path'' q \<noteq> '''' then query_get ''path'' q else ''.'')
      in json_resp (scan (abs_path cwd dir)))"

section \<open>server.go: the mux\<close>

text \<open>
  A method the handlers know nothing of takes their default branch, like a method they know and refuse.
\<close>

definition method_or :: "http_method \<Rightarrow> string \<Rightarrow> http_method" where
  "method_or d m =
     (if m = ''GET'' then GET else if m = ''POST'' then POST else if m = ''PUT'' then PUT
      else if m = ''DELETE'' then DELETE else d)"

definition on_server :: "management \<Rightarrow> response \<times> server \<Rightarrow> response option \<times> management" where
  "on_server s out = (Some (fst out), s\<lparr>mg_server := snd out\<rparr>)"

definition on_files :: "management \<Rightarrow> response \<times> content files \<Rightarrow> response option \<times> management" where
  "on_files s out = (Some (fst out), s\<lparr>mg_files := snd out\<rparr>)"

text \<open>No answer: the copy of a release goes deeper than the levels of the environment; its files so far are left out.\<close>

definition on_copy :: "management \<Rightarrow> (response \<times> content files) option \<Rightarrow> response option \<times> management" where
  "on_copy s out = (case out of None \<Rightarrow> (None, s) | Some x \<Rightarrow> on_files s x)"

definition management_serve ::
  "(handler \<Rightarrow> http_req \<Rightarrow> management \<Rightarrow> response) \<Rightarrow> request_env \<Rightarrow> http_req \<Rightarrow> management \<Rightarrow> response option \<times> management"
where
  "management_serve other e r s =
     (let srv = mg_server s; env = me_env e; d = me_deploy e; body = hq_body r; cwd = normalized_path (de_cwd d)
      in case dispatch (hq_path r) of
        HStatus \<Rightarrow>
          (Some (handle_status (fst (me_uptime e)) (snd (me_uptime e)) (me_goroutines e) (method_or PUT (hq_method r)) srv (mg_provider s)), s)
      | HSites \<Rightarrow> on_server s (handle_sites env (method_or DELETE (hq_method r)) body srv)
      | HSiteByID \<Rightarrow> on_server s (handle_site_by_id env (method_or POST (hq_method r)) (hq_path r) body srv)
      | HExtensions \<Rightarrow> on_server s (handle_extensions env (method_or DELETE (hq_method r)) body srv)
      | HProfiles \<Rightarrow> (Some (handle_profiles (method_or PUT (hq_method r))), s)
      | HConfig \<Rightarrow> on_server s (handle_config (method_or PUT (hq_method r)) srv)
      | HConfigValidate \<Rightarrow>
          (Some (handle_config_validate (me_config_text e) (me_is_ip e) (me_config e) (method_or PUT (hq_method r))), s)
      | HConfigSave \<Rightarrow> on_server s (handle_config_save env (method_or PUT (hq_method r)) body srv)
      | HRuntimes \<Rightarrow> (Some (handle_runtimes (method_or PUT (hq_method r)) (mg_provider s)), s)
      | HLogs \<Rightarrow> (Some (handle_logs srv), s)
      | HRecentLogs \<Rightarrow> (Some (handle_recent_logs srv), s)
      | HWSLogs \<Rightarrow> (Some (other HWSLogs r s), s)
      | HHealth \<Rightarrow> (Some handle_health, s)
      | HSystem \<Rightarrow> (Some (handle_system (me_system e) (method_or PUT (hq_method r))), s)
      | HDoctor \<Rightarrow> (Some (handle_doctor (me_doctor e)), s)
      | HDoctorCompat \<Rightarrow> (Some (handle_doctor_compat (me_scan e) cwd (hq_query r)), s)
      | HExplain \<Rightarrow>
          (Some (handle_explain (me_match e) (me_file_text e) (me_new_request e) (me_duration e) (mg_files s) cwd
             (sv_doc_root srv) (query_get ''url'' (hq_query r))), s)
      | HDeployList \<Rightarrow> on_files s (handle_deploy_list d (mg_files s))
      | HDeployCreate \<Rightarrow>
          on_copy s (handle_deploy_create (me_levels e) d (me_now e) (me_times e) (method_or PUT (hq_method r)) body (mg_files s))
      | HDeployActivate \<Rightarrow> on_files s (handle_deploy_activate d (me_times e) (method_or PUT (hq_method r)) body (mg_files s))
      | HDeployRollback \<Rightarrow> on_files s (handle_deploy_rollback d (me_times e) (method_or PUT (hq_method r)) (mg_files s))
      | HMetricsHistory \<Rightarrow> (Some (handle_metrics_history (me_past e) (mg_provider s)), s)
      | HStatic \<Rightarrow> (Some (other HStatic r s), s))"

section \<open>The guard in front of it\<close>

lemma management_serve_health: "hq_path r = ''/api/health'' \<Longrightarrow> management_serve other e r s = (Some handle_health, s)"
  by (simp add: management_serve_def dispatch_def exact_routes_def)

interpretation ui: guarded_handler "ui_guard tok origins" "management_serve other"
  for tok :: string and origins :: "string list" and other :: "handler \<Rightarrow> http_req \<Rightarrow> management \<Rightarrow> response"
  by unfold_locales (simp add: management_serve_health)

text \<open>C1. Whatever requests reach the management server, in whatever order and environment: as long as each of
  them lacks the token or comes from a foreign origin, the sites, the running servers, the log, the counters and the
  whole file tree stay as they are, and every answer is one of the three refusals of the guard or the answer of the health
  check. A guard without a token lets no request through to a handler but that one.\<close>

theorem only_token_holders_reach_the_server:
  assumes "\<forall>x \<in> set xs. \<not> presents_token tok (call_http x) \<or> \<not> check_origin (ui_guard tok origins) (call_http x)"
  shows "snd (snd (guarded_run (ui_guard tok origins) (management_serve other) xs (g, s))) = s \<and>
    list_all2 (\<lambda>x a. refusal a \<or> hq_path (call_http x) = ''/api/health'' \<and> a = Served None (Some handle_health))
      xs (fst (guarded_run (ui_guard tok origins) (management_serve other) xs (g, s)))"
proof -
  have "\<forall>x \<in> set xs. \<not> authenticate (ui_guard tok origins) (call_http x) \<or> \<not> check_origin (ui_guard tok origins) (call_http x)"
    using assms authenticate_presents [of "ui_guard tok origins"] by auto
  from ui.refused_run [OF this, of other "(g, s)"] show ?thesis
    by (auto simp: management_serve_health elim!: list.rel_mono_strong)
qed

text \<open>C32. The handshake of the dashboard: opening the page with the generated token in the query yields the session cookie, and
  with that cookie every call of the client is answered by the server, not by the guard, unless the rate limit refuses it. Here
  the page and the calls come from the server's own origin.\<close>

theorem session_admits_dashboard:
  assumes "tok \<noteq> ''''" and "\<forall>c \<in> set tok. uri_unreserved c" and "client_call rq"
    and "cfg = ui_guard tok origins"
    and "page = \<lparr>hq_method = ''GET'', hq_path = ''/'', hq_query = ''token='' @ tok, hq_authorization = '''', hq_origin = '''',
           hq_upgrade = '''', hq_cookies = [], hq_host = host, hq_remote = remote, hq_body = None\<rparr>"
  shows "\<exists>cookie.
    (\<forall>clk gs. rate_limited (fst (guard_wrap cfg (management_serve other e) clk page gs)) \<or>
       (\<exists>a. fst (guard_wrap cfg (management_serve other e) clk page gs) = Served (Some cookie) a)) \<and>
    (\<forall>clk gs x. x = browser_sends (''http://'' @ host) host remote [(session_cookie, cookie)] rq \<longrightarrow>
       rate_limited (fst (guard_wrap cfg (management_serve other e) clk x gs)) \<or>
       fst (guard_wrap cfg (management_serve other e) clk x gs) = Served None (fst (management_serve other e x (snd gs))))"
proof (intro exI [of _ tok] conjI allI impI)
  fix clk gs
  have "filter cookie_char tok = tok"
    using assms(2) unreserved_cookie_char by (intro filter_True) auto
  then have page: "authenticate cfg page" "check_origin cfg page" "is_page_load page" "issue_session cfg = tok"
      "query_get ''token'' (hq_query page) = tok" "hq_path page \<notin> set (gc_public cfg)"
    using assms(1) query_get_token [OF assms(2)]
    by (simp_all add: assms(4,5) authenticate_def check_origin_def is_page_load_def token_matches_def bearer_def
        issue_session_def session_cookie_def del: split_paired_Ex)
  show "rate_limited (fst (guard_wrap cfg (management_serve other e) clk page gs)) \<or>
      (\<exists>a. fst (guard_wrap cfg (management_serve other e) clk page gs) = Served (Some tok) a)"
    by (cases rule: guard_wrap_cases [OF refl, where cfg = cfg and inner = "management_serve other e" and clk = clk and r = page and gs = gs])
      (use page assms(1) in simp_all)
next
  fix clk gs x
  assume x: "x = browser_sends (''http://'' @ host) host remote [(session_cookie, tok)] rq"
  have auth: "authenticate cfg x"
    using authenticate_client_call [OF assms(3) x, of cfg] assms(1,4) by simp
  have origin: "check_origin cfg x" by (rule same_origin_calls [OF assms(3) x])
  show "rate_limited (fst (guard_wrap cfg (management_serve other e) clk x gs)) \<or>
      fst (guard_wrap cfg (management_serve other e) clk x gs) = Served None (fst (management_serve other e x (snd gs)))"
    using ui.admitted_request [of tok origins x other e clk gs] auth origin client_call_request(4) [OF assms(3) x]
    unfolding assms(4) by fastforce
qed

text \<open>Without the session cookie, as after its twelve hours, the server refuses every call of the client but the
  health check, which still succeeds: the page that makes the call shows ``unauthorized'', and the header of the
  dashboard goes on to say Connected.\<close>

theorem expired_session_still_looks_connected:
  assumes "client_call rq" and "map_of cookies session_cookie \<noteq> Some tok"
    and "x = browser_sends (''http://'' @ host) host remote cookies rq"
    and "\<not> rate_limited (fst (guard_wrap (ui_guard tok origins) (management_serve other e) clk x gs))"
  shows "if url_path (rq_path rq) = rq_path healthCheck
    then fst (guard_wrap (ui_guard tok origins) (management_serve other e) clk x gs) = Served None (Some handle_health) \<and>
      client_result (Response True ''OK'' (Inr (rs_body handle_health))) = Inr (JObj [(''status'', JStr ''ok'')])
    else (\<exists>h. fst (guard_wrap (ui_guard tok origins) (management_serve other e) clk x gs) = guarded.Denied 401 h ''unauthorized'') \<and>
      client_result (Response False ''Unauthorized'' (Inr (JObj [(''error'', JStr ''unauthorized'')]))) =
        Inl (JsError ''unauthorized'')"
proof -
  have auth: "\<not> authenticate (ui_guard tok origins) x"
    using authenticate_client_call [OF assms(1,3), of "ui_guard tok origins"] assms(2) by simp
  have origin: "check_origin (ui_guard tok origins) x" by (rule same_origin_calls [OF assms(1,3)])
  have path: "hq_path x = url_path (rq_path rq)" using assms(3) by (simp add: browser_sends_def)
  have health: "rq_path healthCheck = ''/api/health''" by (simp add: healthCheck_def api_request_def base_path_def)
  have results:
    "client_result (Response True ''OK'' (Inr (rs_body handle_health))) = Inr (JObj [(''status'', JStr ''ok'')])"
    "client_result (Response False ''Unauthorized'' (Inr (JObj [(''error'', JStr ''unauthorized'')]))) =
        Inl (JsError ''unauthorized'')"
    by (simp_all add: client_result_def read_error_def handle_health_def json_resp_def member_of_def)
  show ?thesis
    unfolding results
    by (cases rule: guard_wrap_cases [OF refl, where cfg = "ui_guard tok origins" and inner = "management_serve other e"
          and clk = clk and r = x and gs = gs])
      (use auth origin path health assms(4) management_serve_health [of x other e] in auto)
qed

section \<open>The calls of the client\<close>

text \<open>No handler says ``method not allowed'' to a method it knows.\<close>

lemma code_simps [simp]: "rs_code (json_resp j) = 200" "rs_code (json_err m c) = c" "rs_code not_found = 404"
  by (simp_all add: json_resp_def json_err_def not_found_def)

lemma post_site_code: "rs_code (fst (post_site e x s)) \<noteq> 405"
  by (rule post_site_cases [of e x s]) auto

lemma put_site_code: "rs_code (fst (put_site e i k x s)) \<noteq> 405"
  by (simp add: put_site_def Let_def split: sum.split)

lemma delete_site_code: "rs_code (fst (delete_site e k s)) \<noteq> 405"
  by (simp add: delete_site_def Let_def)

lemma deploy_list_code: "rs_code (fst (handle_deploy_list d fs)) \<noteq> 405"
  by (simp add: handle_deploy_list_def split: prod.split)

lemma deploy_create_code: "handle_deploy_create n d now t POST body fs = Some (a, fs') \<Longrightarrow> rs_code a \<noteq> 405"
  by (auto simp: handle_deploy_create_def Let_def split: prod.splits option.splits sum.splits)

lemma deploy_activate_code: "rs_code (fst (handle_deploy_activate d t POST body fs)) \<noteq> 405"
  by (simp add: handle_deploy_activate_def Let_def split: prod.split option.split)

lemma deploy_rollback_code: "rs_code (fst (handle_deploy_rollback d t POST fs)) \<noteq> 405"
  by (simp add: handle_deploy_rollback_def Let_def split: prod.split sum.split)

lemma sites_code: "rs_code (fst (handle_sites e GET body s)) \<noteq> 405" "rs_code (fst (handle_sites e POST body s)) \<noteq> 405"
  by (simp_all add: handle_sites_def post_site_code split: option.split)

lemma handler_codes:
  "rs_code (handle_status u sec g GET s p) \<noteq> 405" "rs_code (handle_system info GET) \<noteq> 405" "rs_code (handle_runtimes GET p) \<noteq> 405"
  "rs_code (handle_logs s) \<noteq> 405" "rs_code handle_health \<noteq> 405" "rs_code (handle_doctor j) \<noteq> 405"
  "rs_code (handle_doctor_compat sc cwd q) \<noteq> 405" "rs_code (handle_metrics_history past p) \<noteq> 405"
  "rs_code (handle_profiles GET) \<noteq> 405" "rs_code (fst (handle_extensions e GET body s)) \<noteq> 405"
  "rs_code (fst (handle_config GET s)) \<noteq> 405" "rs_code (fst (handle_config_save e POST body s)) \<noteq> 405"
  "rs_code (handle_explain oth msg new dur fs cwd2 dr u) \<noteq> 405"
  by (simp_all add: handle_status_def handle_system_def handle_runtimes_def handle_logs_def handle_health_def handle_doctor_def
      handle_doctor_compat_def handle_metrics_history_def handle_profiles_def handle_extensions_def handle_config_def
      handle_config_save_def handle_explain_def Let_def split: sum.split)

lemmas codes = post_site_code put_site_code delete_site_code deploy_list_code deploy_activate_code deploy_rollback_code sites_code
  handler_codes

text \<open>The path of a site with an ID the server has generated.\<close>

lemma generated_id:
  assumes "i = generate_id n"
  shows "i \<noteq> ''''" "url_path (''/api/sites/'' @ i) = ''/api/sites/'' @ i"
    "url_path (''/api/sites/'' @ i @ ''/extensions'') = ''/api/sites/'' @ i @ ''/extensions''"
    "ends_with (''/api/sites/'' @ i) extensions_suffix \<longleftrightarrow> i = ''extensions''"
proof -
  have safe: "i \<noteq> ''''" "\<forall>c \<in> set i. id_safe c" using generate_id_safe [of n] assms by simp_all
  then have slash: "CHR ''/'' \<notin> set i" by (auto simp: id_safe_def in_range_def)
  show "i \<noteq> ''''" by fact
  show "url_path (''/api/sites/'' @ i) = ''/api/sites/'' @ i" by (rule url_path_id [OF safe(2)])
  show "url_path (''/api/sites/'' @ i @ ''/extensions'') = ''/api/sites/'' @ i @ ''/extensions''"
    by (rule url_path_site_extensions [OF safe(2)])
  have "i = ''extensions''" if "''/api/sites/'' @ i = ys @ ''/extensions''" for ys
  proof -
    have "rev (takeWhile (\<lambda>c. c \<noteq> CHR ''/'') (rev (''/api/sites/'' @ i))) =
        rev (takeWhile (\<lambda>c. c \<noteq> CHR ''/'') (rev (ys @ ''/extensions'')))" using that by simp
    moreover have "takeWhile (\<lambda>c. c \<noteq> CHR ''/'') (rev i @ z) = rev i @ takeWhile (\<lambda>c. c \<noteq> CHR ''/'') z" for z
      by (rule takeWhile_append2) (use slash in auto)
    ultimately show ?thesis by simp
  qed
  then show "ends_with (''/api/sites/'' @ i) extensions_suffix \<longleftrightarrow> i = ''extensions''"
    by (auto simp: ends_with_iff extensions_suffix_def)
qed

text \<open>The dispatch of a call of the client.\<close>

lemma method_or_str [simp]: "method_or d (method_str m) = m"
  by (cases m) (simp_all add: method_or_def method_str_def)

lemma browser_sends_simps [simp]:
  "hq_method (browser_sends origin host remote cookies rq) = method_str (rq_method rq)"
  "hq_path (browser_sends origin host remote cookies rq) = url_path (rq_path rq)"
  "hq_query (browser_sends origin host remote cookies rq) = url_query (rq_path rq)"
  "hq_body (browser_sends origin host remote cookies rq) = rq_body rq"
  by (simp_all add: browser_sends_def)

lemma query_get_component:
  assumes "\<forall>c \<in> set k. uri_unreserved c"
  shows "query_get k (k @ ''='' @ encode_uri_component u) = u"
proof -
  have none: "CHR ''&'' \<notin> set (encode_uri_component u)" "CHR '';'' \<notin> set (encode_uri_component u)"
    using encoded_no_delimiter by blast+
  have key: "CHR ''&'' \<notin> set k" "CHR '';'' \<notin> set k" "CHR ''='' \<notin> set k"
    using assms by (auto simp: uri_unreserved_def in_range_def)
  have "split_on (CHR ''&'') (k @ ''='' @ encode_uri_component u) = [k @ ''='' @ encode_uri_component u]"
    by (rule split_on_none) (use none key in simp)
  moreover have "takeWhile (\<lambda>c. c \<noteq> CHR ''='') (k @ ''='' @ z) = k \<and>
      dropWhile (\<lambda>c. c \<noteq> CHR ''='') (k @ ''='' @ z) = ''='' @ z" for z
    using key(3) by (induction k) auto
  ultimately show ?thesis
    using none key query_unescape_plain [OF assms] by (simp add: query_get_def query_pairs_def unescape_encode)
qed

lemma query_of_compat:
  "query_get ''path'' (url_query (rq_path (getDoctorCompat p))) = (case p of None \<Rightarrow> '''' | Some d \<Rightarrow> d)"
proof (cases "p = None \<or> p = Some ''''")
  case True
  then show ?thesis by (auto simp: api_defs url_query_def query_get_def query_pairs_def)
next
  case False
  then obtain d where "p = Some d" "d \<noteq> ''''" by auto
  moreover have "url_query (''/api/doctor/compat?path='' @ encode_uri_component d) = ''path='' @ encode_uri_component d"
    by (simp add: url_query_def)
  ultimately show ?thesis
    using query_get_component [of "''path''" d] by (simp add: api_defs uri_unreserved_def in_range_def)
qed

lemma query_of_explain: "query_get ''url'' (url_query (rq_path (explainRequest u))) = u"
proof -
  have "url_query (rq_path (explainRequest u)) = ''url='' @ encode_uri_component u"
    by (simp add: api_defs url_query_def)
  then show ?thesis using query_get_component [of "''url''" u] by (simp add: uri_unreserved_def in_range_def)
qed

lemma path_of_compat: "url_path (rq_path (getDoctorCompat p)) = ''/api/doctor/compat''"
  by (cases p) (simp_all add: api_defs url_path_def)

lemma path_of_explain: "url_path (rq_path (explainRequest u)) = ''/api/explain''"
  by (simp add: api_defs url_path_def)

lemmas serve_defs = management_serve_def dispatch_def exact_routes_def api_defs url_path_def

lemma call_site:
  assumes "i = generate_id n" "rq = api_request (''/sites/'' @ i) m body"
  shows "management_serve other e (browser_sends origin host remote cookies rq) s =
    on_server s (handle_site_by_id (me_env e) m (''/api/sites/'' @ i) body (mg_server s))"
  using generated_id(1,2) [OF assms(1)] dispatch_id [of i]
  by (simp add: assms(2) management_serve_def api_request_def base_path_def del: append_Cons) (simp add: api_request_def base_path_def)

lemma call_site_extensions:
  assumes "i = generate_id n" "rq = api_request (''/sites/'' @ i @ ''/extensions'') m body"
  shows "management_serve other e (browser_sends origin host remote cookies rq) s =
    on_server s (handle_site_by_id (me_env e) m (''/api/sites/'' @ i @ ''/extensions'') body (mg_server s))"
  using generated_id(1,3) [OF assms(1)] dispatch_id [of "i @ ''/extensions''"]
  by (simp add: assms(2) management_serve_def api_request_def base_path_def)

text \<open>What a site's handler does with a call of the client, and what the handler of its extensions does.\<close>

definition site_put :: "env \<Rightarrow> string \<Rightarrow> json \<Rightarrow> server \<Rightarrow> response \<times> server" where
  "site_put e i body srv =
     (case index_of i (sites_list_of srv) of
        None \<Rightarrow> (not_found, srv)
      | Some k \<Rightarrow>
          (case decode_site e (Some body) of
             None \<Rightarrow> (json_err ''invalid request body'' 400, srv)
           | Some x \<Rightarrow> put_site e i k x srv))"

definition site_delete :: "env \<Rightarrow> string \<Rightarrow> server \<Rightarrow> response \<times> server" where
  "site_delete e i srv =
     (case index_of i (sites_list_of srv) of None \<Rightarrow> (not_found, srv) | Some k \<Rightarrow> delete_site e k srv)"

definition site_get_extensions :: "string \<Rightarrow> server \<Rightarrow> response" where
  "site_get_extensions i srv =
     (case index_of i (sites_list_of srv) of
        None \<Rightarrow> not_found
      | Some k \<Rightarrow> json_resp (JObj [(''site_id'', JStr i), (''extensions'', exts_json (g_extensions (sites_list_of srv ! k))),
          (''profile'', JStr (g_profile (sites_list_of srv ! k)))]))"

definition site_put_extensions :: "env \<Rightarrow> string \<Rightarrow> string list \<Rightarrow> string \<Rightarrow> server \<Rightarrow> response \<times> server" where
  "site_put_extensions e i exts profile srv =
     (case index_of i (sites_list_of srv) of
        None \<Rightarrow> (not_found, srv)
      | Some k \<Rightarrow>
          (json_resp (JObj [(''status'', JStr ''ok''), (''site_id'', JStr i), (''extensions'', jstrs exts), (''profile'', JStr profile)]),
           put_extensions e k (Some exts) profile srv))"

lemma site_codes:
  "rs_code (fst (site_put e i body srv)) \<noteq> 405" "rs_code (fst (site_delete e i srv)) \<noteq> 405"
  "rs_code (site_get_extensions i srv) \<noteq> 405" "rs_code (fst (site_put_extensions e i exts profile srv)) \<noteq> 405"
  by (simp_all add: site_put_def site_delete_def site_get_extensions_def site_put_extensions_def codes split: option.split)

lemma by_id_put:
  assumes "i = generate_id n" "i \<noteq> ''extensions''"
  shows "handle_site_by_id e PUT (''/api/sites/'' @ i) (Some body) srv = site_put e i body srv"
proof -
  have drop: "drop (length sites_prefix) (''/api/sites/'' @ i) = i" by (simp add: sites_prefix_def)
  show ?thesis
    unfolding handle_site_by_id_def Let_def drop
    by (cases "sv_sites srv")
      (simp_all add: assms(2) generated_id(4) [OF assms(1)] generated_id(1) [OF assms(1)] site_put_def sites_list_of_def
        split: option.split del: append_Cons append_Nil)
qed

lemma by_id_delete:
  assumes "i = generate_id n" "i \<noteq> ''extensions''"
  shows "handle_site_by_id e DELETE (''/api/sites/'' @ i) body srv = site_delete e i srv"
proof -
  have drop: "drop (length sites_prefix) (''/api/sites/'' @ i) = i" by (simp add: sites_prefix_def)
  show ?thesis
    unfolding handle_site_by_id_def Let_def drop
    by (cases "sv_sites srv")
      (simp_all add: assms(2) generated_id(4) [OF assms(1)] generated_id(1) [OF assms(1)] site_delete_def sites_list_of_def
        split: option.split del: append_Cons append_Nil)
qed

lemma by_id_extensions_path:
  assumes "i \<noteq> ''''" "p = ''/api/sites/'' @ i @ ''/extensions''"
  shows "ends_with p extensions_suffix" "\<not> length p \<le> length sites_prefix + length extensions_suffix"
    "take (length p - length extensions_suffix - length sites_prefix) (drop (length sites_prefix) p) = i"
  using assms by (auto simp: ends_with_iff extensions_suffix_def sites_prefix_def)

lemma by_id_extensions:
  assumes "i \<noteq> ''''" "p = ''/api/sites/'' @ i @ ''/extensions''"
  shows "handle_site_by_id e GET p body srv = (site_get_extensions i srv, srv)"
    and "handle_site_by_id e PUT p (Some (JObj [(''extensions'', jstrs exts), (''profile'', JStr profile)])) srv =
      site_put_extensions e i exts profile srv"
proof -
  note path = by_id_extensions_path [OF assms]
  have fields: "field_of ''extensions'' [(''extensions'', jstrs exts), (''profile'', JStr profile)] = Some (jstrs exts)"
    "field_of ''profile'' [(''extensions'', jstrs exts), (''profile'', JStr profile)] = Some (JStr profile)"
    by (simp_all add: field_of_def to_lower_def to_lower_char_def in_range_def)
  show "handle_site_by_id e GET p body srv = (site_get_extensions i srv, srv)"
    unfolding handle_site_by_id_def handle_extensions_site_def Let_def path(3)
    by (simp add: path(1,2) site_get_extensions_def split: option.split)
  show "handle_site_by_id e PUT p (Some (JObj [(''extensions'', jstrs exts), (''profile'', JStr profile)])) srv =
      site_put_extensions e i exts profile srv"
    unfolding handle_site_by_id_def handle_extensions_site_def Let_def path(3)
    by (simp add: path(1,2) fields site_put_extensions_def dec_str_def exts_json_def split: option.split)
qed

lemma by_id_code: "m \<noteq> POST \<Longrightarrow> rs_code (fst (handle_site_by_id e m ''/api/sites/extensions'' body srv)) \<noteq> 405"
proof -
  have "ends_with ''/api/sites/extensions'' extensions_suffix"
    by (simp add: ends_with_def extensions_suffix_def)
  then show ?thesis
    by (simp add: handle_site_by_id_def handle_extensions_site_def sites_prefix_def extensions_suffix_def)
qed

text \<open>C28. Every call of the client reaches the handler written for it, in the branch of its method and with what the call
  carries, whatever the site is called and whatever URL or directory is asked about; the two calls of a site reach the
  site, found by its ID, unless that ID is ``extensions''. No call is answered by the static file server
  or with ``method not allowed''.\<close>

theorem client_requests_are_routed:
  assumes "call = (\<lambda>rq. management_serve other e (browser_sends origin host remote cookies rq) s)"
    and "srv = mg_server s" and "p = mg_provider s" and "fs = mg_files s" and "env = me_env e" and "d = me_deploy e"
    and "cwd = normalized_path (de_cwd d)" and "i = generate_id n"
  shows "call getStatus = (Some (handle_status (fst (me_uptime e)) (snd (me_uptime e)) (me_goroutines e) GET srv p), s) \<and>
    call getSystem = (Some (handle_system (me_system e) GET), s) \<and>
    call getSites = on_server s (handle_sites env GET None srv) \<and>
    call (createSite f) = on_server s (handle_sites env POST (Some (create_request_to_json f)) srv) \<and>
    (i \<noteq> ''extensions'' \<longrightarrow> call (updateSite i x) = on_server s (site_put env i (site_to_json x) srv) \<and>
       call (deleteSite i) = on_server s (site_delete env i srv)) \<and>
    call getRuntimes = (Some (handle_runtimes GET p), s) \<and>
    call getLogs = (Some (handle_logs srv), s) \<and>
    call getConfig = on_server s (handle_config GET srv) \<and>
    call (saveConfig c) = on_server s (handle_config_save env POST (Some c) srv) \<and>
    call healthCheck = (Some handle_health, s) \<and>
    call getDeployments = on_files s (handle_deploy_list d fs) \<and>
    call (createDeployment v src) =
      on_copy s (handle_deploy_create (me_levels e) d (me_now e) (me_times e) POST (rq_body (createDeployment v src)) fs) \<and>
    call (activateDeployment r) = on_files s (handle_deploy_activate d (me_times e) POST (rq_body (activateDeployment r)) fs) \<and>
    call rollbackDeployment = on_files s (handle_deploy_rollback d (me_times e) POST fs) \<and>
    call getDoctor = (Some (handle_doctor (me_doctor e)), s) \<and>
    call (getDoctorCompat dir) =
      (Some (json_resp (me_scan e (abs_path cwd (case dir of None \<Rightarrow> ''.'' | Some q \<Rightarrow> if q = '''' then ''.'' else q)))), s) \<and>
    call (explainRequest url) =
      (Some (handle_explain (me_match e) (me_file_text e) (me_new_request e) (me_duration e) fs cwd (sv_doc_root srv) url), s) \<and>
    call getMetricsHistory = (Some (handle_metrics_history (me_past e) p), s) \<and>
    call getExtensions = on_server s (handle_extensions env GET None srv) \<and>
    call getProfiles = (Some (handle_profiles GET), s) \<and>
    call (getSiteExtensions i) = on_server s (site_get_extensions i srv, srv) \<and>
    call (updateSiteExtensions i exts profile) = on_server s (site_put_extensions env i exts profile srv) \<and>
    (\<forall>rq \<in> set [getStatus, getSystem, getSites, createSite f, updateSite i x, deleteSite i, getRuntimes, getLogs, getConfig,
        saveConfig c, healthCheck, getDeployments, createDeployment v src, activateDeployment r, rollbackDeployment, getDoctor,
        getDoctorCompat dir, explainRequest url, getMetricsHistory, getExtensions, getProfiles, getSiteExtensions i,
        updateSiteExtensions i exts profile].
      \<forall>a. fst (call rq) = Some a \<longrightarrow> rs_code a \<noteq> 405)"
proof -
  note site = call_site [OF assms(8), where other = other and e = e and origin = origin and host = host and remote = remote
      and cookies = cookies and s = s]
  note ext = call_site_extensions [OF assms(8), where other = other and e = e and origin = origin and host = host and remote = remote
      and cookies = cookies and s = s]
  note by_ext = by_id_extensions [OF generated_id(1) [OF assms(8)] refl]
  have plain:
    "call getStatus = (Some (handle_status (fst (me_uptime e)) (snd (me_uptime e)) (me_goroutines e) GET srv p), s)"
    "call getSystem = (Some (handle_system (me_system e) GET), s)"
    "call getSites = on_server s (handle_sites env GET None srv)"
    "call (createSite f) = on_server s (handle_sites env POST (Some (create_request_to_json f)) srv)"
    "call getRuntimes = (Some (handle_runtimes GET p), s)"
    "call getLogs = (Some (handle_logs srv), s)"
    "call getConfig = on_server s (handle_config GET srv)"
    "call (saveConfig c) = on_server s (handle_config_save env POST (Some c) srv)"
    "call healthCheck = (Some handle_health, s)"
    "call getDeployments = on_files s (handle_deploy_list d fs)"
    "call rollbackDeployment = on_files s (handle_deploy_rollback d (me_times e) POST fs)"
    "call getDoctor = (Some (handle_doctor (me_doctor e)), s)"
    "call getMetricsHistory = (Some (handle_metrics_history (me_past e) p), s)"
    "call getExtensions = on_server s (handle_extensions env GET None srv)"
    "call getProfiles = (Some (handle_profiles GET), s)"
    by (simp_all add: assms(1-7) serve_defs)
  have deploy:
    "call (createDeployment v src) =
      on_copy s (handle_deploy_create (me_levels e) d (me_now e) (me_times e) POST (rq_body (createDeployment v src)) fs)"
    "call (activateDeployment r) = on_files s (handle_deploy_activate d (me_times e) POST (rq_body (activateDeployment r)) fs)"
    by (simp_all add: assms(1-7) serve_defs)
  have query:
    "call (getDoctorCompat dir) =
      (Some (json_resp (me_scan e (abs_path cwd (case dir of None \<Rightarrow> ''.'' | Some q \<Rightarrow> if q = '''' then ''.'' else q)))), s)"
    "call (explainRequest url) =
      (Some (handle_explain (me_match e) (me_file_text e) (me_new_request e) (me_duration e) fs cwd (sv_doc_root srv) url), s)"
    by (simp_all add: assms(1-7) management_serve_def path_of_compat path_of_explain query_of_compat query_of_explain
        dispatch_def exact_routes_def handle_doctor_compat_def Let_def split: option.split)
  have by_id: "call (updateSite i x) = on_server s (handle_site_by_id env PUT (''/api/sites/'' @ i) (Some (site_to_json x)) srv)"
    "call (deleteSite i) = on_server s (handle_site_by_id env DELETE (''/api/sites/'' @ i) None srv)"
    "call (getSiteExtensions i) = on_server s (site_get_extensions i srv, srv)"
    "call (updateSiteExtensions i exts profile) = on_server s (site_put_extensions env i exts profile srv)"
    unfolding assms(1) assms(2) assms(5)
    by (simp_all only: site [OF updateSite_def] site [OF deleteSite_def] ext [OF getSiteExtensions_def]
        ext [OF updateSiteExtensions_def] by_ext)
  have sites: "i \<noteq> ''extensions'' \<longrightarrow> call (updateSite i x) = on_server s (site_put env i (site_to_json x) srv) \<and>
       call (deleteSite i) = on_server s (site_delete env i srv)"
    by (intro impI conjI) (simp_all only: by_id(1,2) by_id_put [OF assms(8)] by_id_delete [OF assms(8)] not_False_eq_True)
  have create: "rs_code a \<noteq> 405" if "fst (call (createDeployment v src)) = Some a" for a
    using that by (auto simp: deploy(1) on_copy_def on_files_def dest: deploy_create_code split: option.splits)
  have two: "rs_code a \<noteq> 405" if "fst (call (updateSite i x)) = Some a \<or> fst (call (deleteSite i)) = Some a" for a
  proof (cases "i = ''extensions''")
    case True
    have "rs_code (fst (handle_site_by_id e' m (''/api/sites/'' @ i) body srv)) \<noteq> 405" if "m \<noteq> POST" for e' m body
      using by_id_code [OF that] by (simp add: True)
    then show ?thesis using that unfolding by_id(1,2) on_server_def by fastforce
  next
    case False
    then show ?thesis using that sites by (auto simp: on_server_def site_codes)
  qed
  have rest: "rs_code a \<noteq> 405" if "fst (call rq) = Some a"
    "rq \<in> set [getStatus, getSystem, getSites, createSite f, getRuntimes, getLogs, getConfig,
        saveConfig c, healthCheck, getDeployments, activateDeployment r, rollbackDeployment, getDoctor,
        getDoctorCompat dir, explainRequest url, getMetricsHistory, getExtensions, getProfiles, getSiteExtensions i,
        updateSiteExtensions i exts profile]" for a rq
    using that by (auto simp: plain deploy query by_id on_server_def on_files_def site_codes codes)
  show ?thesis
    by (intro conjI plain deploy query sites by_id(3,4)) (use create two rest in auto)
qed

section \<open>Witnesses\<close>

definition demo_request_env :: request_env where
  "demo_request_env =
     \<lparr>me_env = demo_env, me_deploy = \<lparr>de_cwd = [''srv''], de_os = ''input/output error'', de_time = (\<lambda>_. ''2024-01-01T00:00:00Z'')\<rparr>,
      me_levels = 3, me_now = 5, me_times = (6, 7), me_uptime = (''1s'', 1), me_goroutines = 9,
      me_past = (\<lambda>_. ''2024-01-01T00:00:00Z''), me_system = JNull, me_doctor = JNull, me_scan = (\<lambda>_. JNull),
      me_config = None, me_config_text = (\<lambda>_. ''bad''), me_is_ip = (\<lambda>_. False), me_match = demo_other,
      me_file_text = demo_error_text, me_new_request = (\<lambda>_. Inl ''bad URL''), me_duration = ''1ms''\<rparr>"

definition demo_management :: management where
  "demo_management =
     \<lparr>mg_server = demo_server, mg_provider = new_provider ''1'' 1 '':8080'' ''/srv'' ''php'', mg_files = [([''srv''], Dir)]\<rparr>"

definition demo_serve :: "request_env \<Rightarrow> http_req \<Rightarrow> management \<Rightarrow> response option \<times> management" where
  "demo_serve = management_serve (\<lambda>_ _ _. handle_health)"

definition demo_requests :: "request_env call list" where
  "demo_requests =
     [(demo_request_env, (0, 0), demo_http ''DELETE'' ''/api/sites/a'' ''''),
      (demo_request_env, (1, 2), demo_http ''POST'' ''/api/deploy/create'' ''Bearer wrong''),
      (demo_request_env, (3, 3), demo_http ''GET'' ''/api/health'' '''')]"

lemma demo_no_token: "\<forall>x \<in> set demo_requests. \<not> presents_token ''secret'' (call_http x)"
  by (simp add: demo_requests_def demo_http_def presents_token_def bearer_def query_get_def query_pairs_def)

theorem only_token_holders_reach_the_server_witness:
  "snd (snd (guarded_run (ui_guard ''secret'' []) demo_serve demo_requests (new_guard, demo_management))) = demo_management \<and>
   list_all2 (\<lambda>x a. refusal a \<or> hq_path (call_http x) = ''/api/health'' \<and> a = Served None (Some handle_health))
     demo_requests (fst (guarded_run (ui_guard ''secret'' []) demo_serve demo_requests (new_guard, demo_management)))"
  unfolding demo_serve_def
  by (rule only_token_holders_reach_the_server) (use demo_no_token in blast)

theorem session_admits_dashboard_witness:
  "\<exists>cookie.
    (\<forall>clk gs. rate_limited (fst (guard_wrap (ui_guard ''abc'' []) (demo_serve demo_request_env) clk
         ((demo_http ''GET'' ''/'' '''')\<lparr>hq_query := ''token=abc''\<rparr>) gs)) \<or>
       (\<exists>a. fst (guard_wrap (ui_guard ''abc'' []) (demo_serve demo_request_env) clk
         ((demo_http ''GET'' ''/'' '''')\<lparr>hq_query := ''token=abc''\<rparr>) gs) = Served (Some cookie) a)) \<and>
    (\<forall>clk gs x. x = browser_sends (''http://'' @ ''127.0.0.1:30200'') ''127.0.0.1:30200'' ''127.0.0.1:5000''
           [(session_cookie, cookie)] getSites \<longrightarrow>
       rate_limited (fst (guard_wrap (ui_guard ''abc'' []) (demo_serve demo_request_env) clk x gs)) \<or>
       fst (guard_wrap (ui_guard ''abc'' []) (demo_serve demo_request_env) clk x gs) =
         Served None (fst (demo_serve demo_request_env x (snd gs))))"
  unfolding demo_serve_def
  by (rule session_admits_dashboard [OF _ _ client_calls(3) refl])
    (simp_all add: demo_http_def uri_unreserved_def in_range_def)

lemma fresh_request_not_limited:
  "\<not> rate_limited (fst (guard_wrap (ui_guard tok origins) inner (t, t) r (new_guard, s)))"
  by (simp add: guard_wrap_limited allow_def Let_def bucket_of_def new_guard_def refill_def)

theorem expired_session_still_looks_connected_witness:
  "(\<exists>h. fst (guard_wrap (ui_guard ''abc'' []) (demo_serve demo_request_env) (0, 0)
        (browser_sends (''http://'' @ ''h'') ''h'' ''r'' [] getSites) (new_guard, demo_management)) = guarded.Denied 401 h ''unauthorized'') \<and>
   fst (guard_wrap (ui_guard ''abc'' []) (demo_serve demo_request_env) (0, 0)
        (browser_sends (''http://'' @ ''h'') ''h'' ''r'' [] healthCheck) (new_guard, demo_management)) = Served None (Some handle_health)"
  using expired_session_still_looks_connected [OF client_calls(3) _ refl fresh_request_not_limited,
      of "[]" "''abc''" "[]" "\<lambda>_ _ _. handle_health" demo_request_env 0 "''h''" "''r''" demo_management]
    expired_session_still_looks_connected [OF client_calls(11) _ refl fresh_request_not_limited,
      of "[]" "''abc''" "[]" "\<lambda>_ _ _. handle_health" demo_request_env 0 "''h''" "''r''" demo_management]
  by (simp add: demo_serve_def api_defs url_path_def)

lemma demo_site_id: "''a'' = generate_id ''a''"
  by (simp add: generate_id_def id_char_def in_range_def)

theorem client_requests_are_routed_witness:
  "demo_serve demo_request_env (browser_sends ''http://h'' ''h'' ''r'' [] (deleteSite ''a'')) demo_management =
     on_server demo_management (site_delete demo_env ''a'' demo_server) \<and>
   demo_serve demo_request_env (browser_sends ''http://h'' ''h'' ''r'' [] rollbackDeployment) demo_management =
     on_files demo_management (handle_deploy_rollback (me_deploy demo_request_env) (6, 7) POST [([''srv''], Dir)])"
proof -
  have env: "me_env demo_request_env = demo_env" "me_times demo_request_env = (6, 7)" by (simp_all add: demo_request_env_def)
  have state: "mg_server demo_management = demo_server" "mg_files demo_management = [([''srv''], Dir)]"
    by (simp_all add: demo_management_def)
  have a: "''a'' \<noteq> ''extensions''" by simp
  from client_requests_are_routed [OF refl refl refl refl refl refl refl demo_site_id, of "\<lambda>_ _ _. handle_health" demo_request_env
      "''http://h''" "''h''" "''r''" "[]" demo_management]
  show ?thesis unfolding demo_serve_def env state using a by blast
qed

end
