(* ===== verification/Gateway.thy ===== *)
theory Gateway
  imports Explain Settings "HOL-Library.Word"
begin

text \<open>
  The request path of the gateway in \<open>cmd/gateway/main.go\<close>: \<open>gatewayHandler.ServeHTTP\<close> with \<open>serveStatic\<close>,
  \<open>precompressedVariant\<close> and \<open>servePHP\<close>, up to sending a file or calling PHP, and \<open>reload\<close>, which swaps the
  components that a request reads. It is what the request explorer of the dashboard claims to describe.

  Whether PHP is available is part of the state. Left out are the answers 304 and 412 to conditional requests and the
  header for caches in \<open>serveStatic\<close>, and everything after the script has been given its body in \<open>servePHP\<close>. \<open>proxy_ok\<close> tells for which
  targets a proxy can be made, \<open>is_ip\<close> which texts are IP addresses.
\<close>

section \<open>State\<close>

record gateway =
  gw_doc_root :: string
  gw_config :: gateway_config
  gw_resolver :: resolver
  gw_routes :: "route list"
  gw_proxies :: "string list"
  gw_php :: bool
  gw_version :: "64 word"

definition upstream :: "string \<Rightarrow> bool" where
  "upstream target \<longleftrightarrow> starts_with target ''http://'' \<or> starts_with target ''https://''"

text \<open>\<open>buildProxies\<close>: the targets with a proxy, or the first target for which none can be made.\<close>

definition build_proxies :: "(string \<Rightarrow> bool) \<Rightarrow> route list \<Rightarrow> string + string list" where
  "build_proxies proxy_ok routes =
     (let targets = remdups (filter upstream (map ro_target routes))
      in case List.find (\<lambda>t. \<not> proxy_ok t) targets of Some t \<Rightarrow> Inl t | None \<Rightarrow> Inr targets)"

datatype reload_error = BadConfig load_error | BadRegex string | BadProxy string | BadReload config_error

text \<open>\<open>buildRouter\<close>: an engine with the routes of the configuration.\<close>

definition build_router :: "regex_engine \<Rightarrow> gateway_config \<Rightarrow> string + route list" where
  "build_router rx cfg = new_engine rx (map route_of (cf_routes cfg))"

text \<open>The components a configuration gives, in a gateway whose document root is set: first the routes are compiled, then the proxies made.\<close>

definition configured :: "regex_engine \<Rightarrow> (string \<Rightarrow> bool) \<Rightarrow> gateway_config \<Rightarrow> gateway \<Rightarrow> reload_error + gateway" where
  "configured rx proxy_ok cfg g =
     (case build_router rx cfg of
        Inl pat \<Rightarrow> Inl (BadRegex pat)
      | Inr routes \<Rightarrow>
          (case build_proxies proxy_ok routes of
             Inl t \<Rightarrow> Inl (BadProxy t)
           | Inr proxies \<Rightarrow>
               (let sec = cf_security cfg;
                    mode = (if se_symlink_mode sec = ''deny'' then SymlinkDeny else SymlinkWithinRoot);
                    pats = (if se_protected_patterns sec = [] then default_protected_patterns else se_protected_patterns sec)
                in Inr (g\<lparr>gw_config := cfg, gw_resolver := new_resolver (gw_doc_root g) mode pats, gw_routes := routes,
                          gw_proxies := proxies\<rparr>))))"

text \<open>
  \<open>runServe\<close> up to the handler, for the absolute document root: without a file (\<open>None\<close>) the default configuration is
  taken as it is. The flags that replace the address and the PHP binary are left out.
\<close>

definition start_gateway ::
  "regex_engine \<Rightarrow> (string \<Rightarrow> bool) \<Rightarrow> (string \<Rightarrow> bool) \<Rightarrow> string \<Rightarrow> bool \<Rightarrow> gateway_config option option \<Rightarrow>
   reload_error + gateway" where
  "start_gateway rx proxy_ok is_ip abs_root php yaml =
     (case (case yaml of None \<Rightarrow> Inr default_config | Some y \<Rightarrow> load_config is_ip y) of
        Inl e \<Rightarrow> Inl (BadConfig e)
      | Inr cfg \<Rightarrow>
          configured rx proxy_ok cfg
            \<lparr>gw_doc_root = abs_root, gw_config = cfg,
             gw_resolver = new_resolver abs_root SymlinkWithinRoot default_protected_patterns,
             gw_routes = [], gw_proxies = [], gw_php = php, gw_version = 0\<rparr>)"

text \<open>
  \<open>reload\<close> with \<open>Reloader.Reload\<close>, which validates once more and counts the versions: the error and the gateway afterwards.
\<close>

definition reload_gateway ::
  "regex_engine \<Rightarrow> (string \<Rightarrow> bool) \<Rightarrow> (string \<Rightarrow> bool) \<Rightarrow> gateway_config option \<Rightarrow> gateway \<Rightarrow> reload_error option \<times> gateway" where
  "reload_gateway rx proxy_ok is_ip yaml g =
     (case load_config is_ip yaml of
        Inl e \<Rightarrow> (Some (BadConfig e), g)
      | Inr cfg \<Rightarrow>
          (case configured rx proxy_ok cfg g of
             Inl e \<Rightarrow> (Some e, g)
           | Inr g' \<Rightarrow>
               (case validate is_ip cfg of
                  Inl e \<Rightarrow> (Some (BadReload e), g)
                | Inr cfg' \<Rightarrow> (None, g'\<lparr>gw_config := cfg', gw_version := gw_version g + 1\<rparr>))))"

section \<open>Requests\<close>

datatype gateway_outcome =
    GwRejected path_error | GwRedirect string int | GwProxied string
  | GwPhp string string string | GwTooLarge | GwNoScript string | GwUnavailable
  | GwStatic string "(string \<times> string) option" | GwProtected | GwNotFound

text \<open>The body of a request: the length it declares, \<open>-1\<close> for none, and its bytes.\<close>

record request_body =
  rb_declared :: int
  rb_bytes :: string

text \<open>What \<open>servePHP\<close> hands on of a body: all of it without a limit, at most the limit, or nothing if it declares more.\<close>

definition limit_body :: "int \<Rightarrow> request_body \<Rightarrow> string option" where
  "limit_body limit b =
     (if 0 < limit \<and> rb_declared b > limit then None
      else Some (if 0 < limit then take (nat limit) (rb_bytes b) else rb_bytes b))"

definition try_variant ::
  "'c files \<Rightarrow> string \<Rightarrow> resolver \<Rightarrow> string \<Rightarrow> string \<Rightarrow> string \<Rightarrow> string \<Rightarrow> (string \<times> string) option" where
  "try_variant fs cwd r accept upath enc ext =
     (if includes_str accept enc then
        (case resolve fs cwd r (upath @ ext) of Inr v \<Rightarrow> Some (enc, v) | Inl _ \<Rightarrow> None)
      else None)"

definition precompressed_variant ::
  "'c files \<Rightarrow> string \<Rightarrow> resolver \<Rightarrow> string \<Rightarrow> string \<Rightarrow> (string \<times> string) option" where
  "precompressed_variant fs cwd r accept upath =
     (case try_variant fs cwd r accept upath ''br'' ''.br'' of
        Some v \<Rightarrow> Some v
      | None \<Rightarrow> try_variant fs cwd r accept upath ''gzip'' ''.gz'')"

definition serve_static :: "'c files \<Rightarrow> string \<Rightarrow> gateway \<Rightarrow> web_request \<Rightarrow> string \<Rightarrow> string \<Rightarrow> gateway_outcome" where
  "serve_static fs cwd g q opened upath =
     (if is_protected (gw_resolver g) (wq_path q) then GwProtected
      else GwStatic opened
        (if st_precompressed (cf_static (gw_config g)) then
           precompressed_variant fs cwd (gw_resolver g) (header_get (wq_headers q) ''Accept-Encoding'') upath
         else None))"

definition serve_php :: "'c files \<Rightarrow> string \<Rightarrow> gateway \<Rightarrow> request_body \<Rightarrow> string \<Rightarrow> gateway_outcome" where
  "serve_php fs cwd g b normalized =
     (let (name, script) = resolve_script fs cwd (gw_doc_root g) normalized
      in if script = '''' then GwNoScript ''No PHP entry point found.''
         else (case resolve_info fs cwd (gw_resolver g) name of
                 Inl _ \<Rightarrow> GwNoScript ''Script not found.''
               | Inr (File d) \<Rightarrow>
                   (case limit_body (se_max_body_bytes (cf_security (gw_config g))) b of
                      None \<Rightarrow> GwTooLarge
                    | Some stdin \<Rightarrow> GwPhp name script stdin)
               | Inr _ \<Rightarrow> GwNoScript ''Script is not a regular file.''))"

text \<open>\<open>ServeHTTP\<close> from the path that the route leaves.\<close>

definition serve_path :: "'c files \<Rightarrow> string \<Rightarrow> gateway \<Rightarrow> web_request \<Rightarrow> request_body \<Rightarrow> string \<Rightarrow> gateway_outcome" where
  "serve_path fs cwd g q b normalized =
     (if ends_with normalized ''.php'' then
        (if gw_php g then serve_php fs cwd g b normalized else GwUnavailable)
      else
        (case resolve fs cwd (gw_resolver g) normalized of
           Inr opened \<Rightarrow> serve_static fs cwd g q opened normalized
         | Inl _ \<Rightarrow>
             if gw_php g then serve_php fs cwd g b normalized
             else
               (let index = (if normalized = ''/'' then ''/index.html'' else normalized @ ''/index.html'')
                in case resolve fs cwd (gw_resolver g) index of
                     Inr opened \<Rightarrow> serve_static fs cwd g q opened index
                   | Inl _ \<Rightarrow> GwNotFound)))"

definition gateway_serve :: "regex_engine \<Rightarrow> 'c files \<Rightarrow> string \<Rightarrow> gateway \<Rightarrow> web_request \<Rightarrow> request_body \<Rightarrow> gateway_outcome" where
  "gateway_serve rx fs cwd g q b =
     (case parse_path (wq_path q) of
        Inl e \<Rightarrow> GwRejected e
      | Inr pp \<Rightarrow>
          (case match_first rx (gw_routes g) q of
             None \<Rightarrow> serve_path fs cwd g q b (pp_normalized pp)
           | Some r \<Rightarrow>
               if is_redirect r then GwRedirect (rewrite_path rx r (pp_normalized pp)) (ro_status r)
               else if upstream (ro_target r) \<and> ro_target r \<in> set (gw_proxies g) then GwProxied (ro_target r)
               else serve_path fs cwd g q b (rewrite_path rx r (pp_normalized pp))))"

section \<open>What is opened lies below the root\<close>

lemma resolve_Inr:
  assumes "resolve fs cwd r np = Inr opened"
  shows "is_under_root opened (rs_root r) \<and> \<not> is_protected r np \<and> (\<exists>d. stat fs (path_of opened) = Some (File d))"
  using assms unfolding resolve_def Let_def
  by (auto simp: open_regular_Inr split: if_splits found.splits option.splits node.splits symlink_mode.splits)

lemma resolve_info_Inr:
  assumes "resolve_info fs cwd r np = Inr n" and "p = abs_path cwd (join_path (rs_root r) np)"
  shows "starts_with np ''/'' \<and> is_under_root p (rs_root r) \<and> \<not> is_protected r np \<and> stat fs (path_of p) = Some n"
  using assms unfolding resolve_info_def Let_def
  by (auto simp: stat_def split: if_splits found.splits option.splits)

text \<open>The file of a script is the one its name is checked for.\<close>

lemma split_and_collapse_slash: "split_and_collapse (a @ ''/'' @ ''/'' @ t) = split_and_collapse (a @ ''/'' @ t)"
proof -
  have "split_on (CHR ''/'') (a @ CHR ''/'' # CHR ''/'' # t) = split_on (CHR ''/'') a @ [[]] @ split_on (CHR ''/'') t"
    by (simp add: split_on_join_sep)
  then show ?thesis by (simp add: split_and_collapse_fold split_on_join_sep collapse_step_def)
qed

lemma join_tl:
  assumes "plain_path R" and "starts_with name ''/''"
  shows "join_path (normalized_path R) (tl name) = abs_path cwd (join_path (normalized_path R) name)"
proof -
  obtain t where name: "name = CHR ''/'' # t" using assms(2) by (auto simp: starts_with_iff)
  let ?ws = "split_and_collapse (normalized_path R @ ''/'' @ t)"
  have "plain_path ?ws" using split_and_collapse_set by blast
  moreover have "join_path (normalized_path R) name = normalized_path ?ws"
    using split_and_collapse_slash [of "normalized_path R" t] by (simp add: join_path_def clean_path_def name)
  moreover have "join_path (normalized_path R) t = normalized_path ?ws"
    by (simp add: join_path_def clean_path_def)
  ultimately show ?thesis by (simp add: name abs_path_def clean_normalized)
qed

lemma resolve_script_tl:
  "resolve_script fs cwd droot np = (name, script) \<Longrightarrow> script \<noteq> '''' \<Longrightarrow> script = join_path droot (tl name)"
  by (auto simp: resolve_script_def split: if_splits)

lemma serve_php_GwPhp:
  assumes "serve_php fs cwd g b np = GwPhp name script body" and "rooted (gw_resolver g) R" and "gw_doc_root g = normalized_path R"
  shows "is_under_root script (normalized_path R) \<and> \<not> is_protected (gw_resolver g) name \<and>
    (\<exists>d. stat fs (path_of script) = Some (File d)) \<and>
    limit_body (se_max_body_bytes (cf_security (gw_config g))) b = Some body"
proof -
  obtain n s where rs: "resolve_script fs cwd (gw_doc_root g) np = (n, s)" by fastforce
  with assms(1) obtain d where h: "s \<noteq> ''''" "n = name" "s = script" "resolve_info fs cwd (gw_resolver g) name = Inr (File d)"
    and body: "limit_body (se_max_body_bytes (cf_security (gw_config g))) b = Some body"
    by (auto simp: serve_php_def split: if_splits sum.splits node.splits option.splits)
  have R: "rs_root (gw_resolver g) = normalized_path R" "plain_path R" using assms(2) by (simp_all add: rooted_def)
  note info = resolve_info_Inr [OF h(4) refl]
  have "script = abs_path cwd (join_path (normalized_path R) name)"
    using resolve_script_tl [OF rs h(1)] h(2,3) assms(3) join_tl [OF R(2)] info by simp
  with info R(1) body show ?thesis by auto
qed

definition below :: "'c files \<Rightarrow> path \<Rightarrow> string \<Rightarrow> bool" where
  "below fs R opened \<longleftrightarrow> is_under_root opened (normalized_path R) \<and> (\<exists>d. stat fs (path_of opened) = Some (File d))"

fun safe_outcome :: "'c files \<Rightarrow> path \<Rightarrow> gateway \<Rightarrow> web_request \<Rightarrow> gateway_outcome \<Rightarrow> bool" where
  "safe_outcome fs R g q (GwStatic opened None) \<longleftrightarrow> below fs R opened \<and> \<not> is_protected (gw_resolver g) (wq_path q)"
| "safe_outcome fs R g q (GwStatic opened (Some (enc, variant))) \<longleftrightarrow>
     below fs R opened \<and> below fs R variant \<and> \<not> is_protected (gw_resolver g) (wq_path q)"
| "safe_outcome fs R g q (GwPhp name script body) \<longleftrightarrow> below fs R script \<and> \<not> is_protected (gw_resolver g) name"
| "safe_outcome fs R g q _ \<longleftrightarrow> True"

lemma variant_below:
  assumes "precompressed_variant fs cwd r accept p = Some (enc, v)" and "rs_root r = normalized_path R"
  shows "below fs R v"
  using assms resolve_Inr [of fs cwd r _ v]
  by (auto simp: precompressed_variant_def try_variant_def below_def split: option.splits if_splits sum.splits)

lemma serve_static_safe:
  assumes "resolve fs cwd (gw_resolver g) np = Inr opened" and "rs_root (gw_resolver g) = normalized_path R"
  shows "safe_outcome fs R g q (serve_static fs cwd g q opened p)"
proof -
  have "below fs R opened" using resolve_Inr [OF assms(1)] assms(2) by (simp add: below_def)
  then show ?thesis
    using variant_below [OF _ assms(2), of fs cwd "header_get (wq_headers q) ''Accept-Encoding''" p]
    by (cases "precompressed_variant fs cwd (gw_resolver g) (header_get (wq_headers q) ''Accept-Encoding'') p")
      (auto simp: serve_static_def)
qed

lemma serve_php_safe:
  assumes "rooted (gw_resolver g) R" and "gw_doc_root g = normalized_path R"
  shows "safe_outcome fs R g q (serve_php fs cwd g b np)"
proof (cases "serve_php fs cwd g b np")
  case (GwPhp name script body)
  with serve_php_GwPhp [OF GwPhp assms] show ?thesis by (simp add: below_def)
qed (auto simp: serve_php_def Let_def split: prod.splits if_splits sum.splits node.splits option.splits)

lemma serve_path_safe:
  assumes "rooted (gw_resolver g) R" and "gw_doc_root g = normalized_path R"
  shows "safe_outcome fs R g q (serve_path fs cwd g q b np)"
  using serve_php_safe [OF assms, where b = b] serve_static_safe [where R = R and fs = fs and g = g and q = q and cwd = cwd] assms(1)
  by (auto simp: serve_path_def rooted_def Let_def split: sum.splits)

section \<open>Runs of the gateway\<close>

inductive gateway_step ::
  "regex_engine \<Rightarrow> (string \<Rightarrow> bool) \<Rightarrow> (string \<Rightarrow> bool) \<Rightarrow> gateway \<Rightarrow> gateway \<Rightarrow> bool" for rx proxy_ok is_ip where
  reload: "gateway_step rx proxy_ok is_ip g (snd (reload_gateway rx proxy_ok is_ip yaml g))"
| php_changes: "gateway_step rx proxy_ok is_ip g (g\<lparr>gw_php := b\<rparr>)"

definition gateway_start :: "regex_engine \<Rightarrow> (string \<Rightarrow> bool) \<Rightarrow> (string \<Rightarrow> bool) \<Rightarrow> string list \<Rightarrow> gateway \<Rightarrow> bool" where
  "gateway_start rx proxy_ok is_ip R g \<longleftrightarrow>
     R \<noteq> [] \<and> plain_path R \<and> (\<exists>php yaml. start_gateway rx proxy_ok is_ip (normalized_path R) php yaml = Inr g)"

lemma new_engine_Inr: "new_engine rx rs = Inr rs' \<Longrightarrow> rs' = rs \<and> (\<forall>r \<in> set rs. ro_regex r \<noteq> '''' \<longrightarrow> rx (ro_regex r) \<noteq> None)"
  by (induction rs arbitrary: rs') (auto split: if_splits sum.splits)

lemma build_proxies_Inr: "build_proxies proxy_ok rs = Inr ts \<Longrightarrow> set ts = {t \<in> ro_target ` set rs. upstream t}"
  by (auto simp: build_proxies_def Let_def split: option.splits)

text \<open>
  The root stays where it is, the configuration is validated unless it is the default one, every pattern compiles, and every
  upstream target has its proxy.
\<close>

definition gateway_ok :: "regex_engine \<Rightarrow> (string \<Rightarrow> bool) \<Rightarrow> string list \<Rightarrow> gateway \<Rightarrow> bool" where
  "gateway_ok rx is_ip R g \<longleftrightarrow>
     (gw_config g = default_config \<or> settings_ok is_ip (gw_config g)) \<and> rooted (gw_resolver g) R \<and> gw_doc_root g = normalized_path R \<and>
     (\<forall>r \<in> set (gw_routes g). (ro_regex r \<noteq> '''' \<longrightarrow> rx (ro_regex r) \<noteq> None) \<and>
        (upstream (ro_target r) \<longrightarrow> ro_target r \<in> set (gw_proxies g)))"

lemma load_config_Inr: "load_config is_ip y = Inr c \<Longrightarrow> settings_ok is_ip c"
  by (auto simp: load_config_def split: option.splits sum.splits dest: validate_ok)

lemma configured_ok:
  assumes "configured rx proxy_ok cfg g = Inr g'" and "plain_path R" and "R \<noteq> []" and "gw_doc_root g = normalized_path R"
    and "cfg = default_config \<or> settings_ok is_ip cfg"
  shows "gateway_ok rx is_ip R g'"
  using assms rooted_new [OF assms(2,3)]
  by (auto simp: configured_def build_router_def gateway_ok_def Let_def split: sum.splits dest!: new_engine_Inr build_proxies_Inr)

lemma start_ok:
  assumes "gateway_start rx proxy_ok is_ip R g"
  shows "gateway_ok rx is_ip R g"
proof -
  obtain php yaml where start: "start_gateway rx proxy_ok is_ip (normalized_path R) php yaml = Inr g"
    using assms by (auto simp: gateway_start_def)
  then obtain cfg where cfg: "(case yaml of None \<Rightarrow> Inr default_config | Some y \<Rightarrow> load_config is_ip y) = Inr cfg"
    by (cases "case yaml of None \<Rightarrow> Inr default_config | Some y \<Rightarrow> load_config is_ip y") (simp_all add: start_gateway_def)
  have "configured rx proxy_ok cfg
     \<lparr>gw_doc_root = normalized_path R, gw_config = cfg,
      gw_resolver = new_resolver (normalized_path R) SymlinkWithinRoot default_protected_patterns,
      gw_routes = [], gw_proxies = [], gw_php = php, gw_version = 0\<rparr> = Inr g"
    using start by (simp add: start_gateway_def cfg)
  moreover have "cfg = default_config \<or> settings_ok is_ip cfg"
    using cfg by (cases yaml) (auto dest: load_config_Inr)
  ultimately show ?thesis using assms by (intro configured_ok) (auto simp: gateway_start_def)
qed

text \<open>The second validation in \<open>Reload\<close> accepts what \<open>Load\<close> returned, and leaves it as it is.\<close>

lemma reload_gateway_cases:
  "reload_gateway rx proxy_ok is_ip yaml g =
     (case load_config is_ip yaml of
        Inl e \<Rightarrow> (Some (BadConfig e), g)
      | Inr cfg \<Rightarrow>
          (case configured rx proxy_ok cfg g of
             Inl e \<Rightarrow> (Some e, g)
           | Inr g' \<Rightarrow> (None, g'\<lparr>gw_config := cfg, gw_version := gw_version g + 1\<rparr>)))"
  by (auto simp: reload_gateway_def validate_fix [OF load_config_Inr] split: sum.split)

lemma reload_ok:
  assumes "gateway_ok rx is_ip R g"
  shows "gateway_ok rx is_ip R (snd (reload_gateway rx proxy_ok is_ip yaml g))"
proof -
  have R: "plain_path R" "R \<noteq> []" "gw_doc_root g = normalized_path R" using assms by (simp_all add: gateway_ok_def rooted_def)
  have "gateway_ok rx is_ip R (g'\<lparr>gw_config := cfg, gw_version := v\<rparr>)"
    if "load_config is_ip yaml = Inr cfg" "configured rx proxy_ok cfg g = Inr g'" for cfg g' v
    using configured_ok [OF that(2) R, of is_ip] load_config_Inr [OF that(1)] by (simp add: gateway_ok_def)
  with assms show ?thesis by (auto simp: reload_gateway_cases split: sum.split)
qed

interpretation gateway_machine:
  invariant_machine "gateway_start rx proxy_ok is_ip R" "gateway_step rx proxy_ok is_ip" "gateway_ok rx is_ip R"
proof unfold_locales
  show "gateway_ok rx is_ip R g" if "gateway_start rx proxy_ok is_ip R g" for g using that by (rule start_ok)
  show "gateway_ok rx is_ip R t" if "gateway_step rx proxy_ok is_ip s t" "gateway_ok rx is_ip R s" for s t
    using that
  proof (induction rule: gateway_step.induct)
    case (reload g yaml)
    then show ?case by (rule reload_ok)
  qed (simp add: gateway_ok_def)
qed

text \<open>C11. In every run of the gateway, through any reloads of its configuration, and whatever the routes rewrite a request to,
  what is opened for it is a regular file at a path below the document root: the static file and its compressed
  variant, neither requested under a protected name, and the script handed to PHP, whose own name is not protected.\<close>

theorem gateway_stays_below_root:
  assumes "reachable (gateway_start rx proxy_ok is_ip R) (gateway_step rx proxy_ok is_ip) g"
  shows "safe_outcome fs R g q (gateway_serve rx fs cwd g q b)"
  using gateway_machine.reachable_inv [OF assms] serve_path_safe [of g R fs q cwd b]
  by (auto simp: gateway_ok_def gateway_serve_def split: sum.splits option.splits)

text \<open>C26. A reload does all or nothing: it fails and leaves the gateway as it is, or it puts the new configuration with the
  routes, proxies and resolver made from it in place and counts one version up. Once the configuration has been loaded and its
  routes and proxies are made nothing fails: the second validation, in \<open>Reload\<close>, accepts what \<open>Load\<close> returned.\<close>

theorem reload_all_or_nothing:
  "case reload_gateway rx proxy_ok is_ip yaml g of
     (Some e, g') \<Rightarrow> g' = g \<and> (\<forall>e'. e \<noteq> BadReload e') \<and>
       (\<forall>cfg. load_config is_ip yaml = Inr cfg \<longrightarrow> configured rx proxy_ok cfg g = Inl e)
   | (None, g') \<Rightarrow>
       load_config is_ip yaml = Inr (gw_config g') \<and> gw_version g' = gw_version g + 1 \<and>
       configured rx proxy_ok (gw_config g') g = Inr (g'\<lparr>gw_version := gw_version g\<rparr>)"
  by (auto simp: reload_gateway_cases configured_def Let_def split: sum.splits)

text \<open>C23. What PHP is given of a body. With a configuration from a file, no more bytes than \<open>security.max_body_size\<close> says, where it
  is positive. Without one, as long as none is loaded, the whole body whatever its size, although the default
  configuration has a limit of 20 MB: only the validation turns that text into the number that is enforced, and the default
  configuration is not validated.\<close>

theorem body_limit_needs_a_file:
  assumes "reachable (gateway_start rx proxy_ok is_ip R) (gateway_step rx proxy_ok is_ip) g"
    and "gateway_serve rx fs cwd g q b = GwPhp name script body"
  shows "if gw_config g = default_config then body = rb_bytes b
    else (\<forall>n. parse_byte_size (se_max_body_size (cf_security (gw_config g))) = Inr n \<longrightarrow> 0 < n \<longrightarrow> int (length body) \<le> n)"
proof -
  have ok: "gateway_ok rx is_ip R g" by (rule gateway_machine.reachable_inv [OF assms(1)])
  have "\<exists>np. serve_php fs cwd g b np = GwPhp name script body"
    using assms(2) by (auto simp: gateway_serve_def serve_path_def serve_static_def Let_def split: sum.splits option.splits if_splits)
  then have body: "limit_body (se_max_body_bytes (cf_security (gw_config g))) b = Some body"
    using ok serve_php_GwPhp unfolding gateway_ok_def by blast
  show ?thesis
  proof (cases "gw_config g = default_config")
    case True
    with body show ?thesis by (simp add: limit_body_def default_config_def)
  next
    case False
    then have "security_ok (cf_security (gw_config g))" using ok unfolding gateway_ok_def settings_ok_def by blast
    then have "parse_byte_size (se_max_body_size (cf_security (gw_config g))) = Inr n \<longrightarrow> n = se_max_body_bytes (cf_security (gw_config g))" for n
      unfolding security_ok_def by (auto simp: parse_byte_size_def trim_space_def split: if_splits)
    with body False show ?thesis by (auto simp: limit_body_def split: if_splits)
  qed
qed

text \<open>In every run every request to a route with an upstream target that is no redirect goes to the proxy of that target.\<close>

theorem upstream_routes_are_proxied:
  assumes "reachable (gateway_start rx proxy_ok is_ip R) (gateway_step rx proxy_ok is_ip) g"
    and "parse_path (wq_path q) = Inr pp" and "match_first rx (gw_routes g) q = Some r"
    and "upstream (ro_target r)" and "\<not> is_redirect r"
  shows "gateway_serve rx fs cwd g q b = GwProxied (ro_target r)"
proof -
  have "r \<in> set (gw_routes g)" using assms(3) by (auto simp: match_first_def find_Some_iff)
  with gateway_machine.reachable_inv [OF assms(1)] assms(2-5) show ?thesis
    by (auto simp: gateway_ok_def gateway_serve_def)
qed

section \<open>Scripts\<close>

text \<open>A script in the root is the file its name leads to, links followed, in whichever mode the resolver is.\<close>

lemma gateway_serve_php_entry:
  assumes r: "rooted (gw_resolver g) R" and root: "gw_doc_root g = normalized_path R"
    and state: "gw_php g" "gw_routes g = []"
    and pp: "parse_path (wq_path q) = Inr pp" "pp_normalized pp = normalized_path [l]"
    and l: "plain_segment l" "ends_with (normalized_path [l]) ''.php''"
    and np: "\<not> is_protected (gw_resolver g) (normalized_path [l])"
    and loc: "locate True fs (R @ [l]) = Found t" "fget fs t = Some (File d)"
  shows "gateway_serve rx fs cwd g q b =
    (case limit_body (se_max_body_bytes (cf_security (gw_config g))) b of
       None \<Rightarrow> GwTooLarge
     | Some body \<Rightarrow> GwPhp (normalized_path [l]) (normalized_path (R @ [l])) body)"
proof -
  have R: "plain_path R" using r by (simp add: rooted_def)
  have info: "resolve_info fs cwd (gw_resolver g) (normalized_path [l]) = Inr (File d)"
    using resolve_info_below [OF r, of "[l]" fs cwd] l(1) np loc by simp
  have join: "join_path (normalized_path R) (tl (normalized_path [l])) = normalized_path (R @ [l])"
  proof -
    have "join_path (normalized_path R) (tl (normalized_path [l])) = abs_path ''/'' (join_path (normalized_path R) (normalized_path [l]))"
      by (rule join_tl [OF R]) (simp add: normalized_path_def starts_with_iff)
    also have "\<dots> = normalized_path (R @ [l])"
      using R l(1) by (simp add: join_normalized abs_path_def clean_normalized ball_Un)
    finally show ?thesis .
  qed
  have "stat fs (path_of (abs_path cwd (normalized_path (R @ [l])))) = Some (File d)"
    using loc R l(1) by (simp add: stat_def abs_path_def clean_normalized path_of_normalized ball_Un)
  then have "resolve_script fs cwd (gw_doc_root g) (normalized_path [l]) = (normalized_path [l], normalized_path (R @ [l]))"
    using l(2) join by (simp add: resolve_script_def exists_file_def root)
  moreover have "normalized_path (R @ [l]) \<noteq> ''''" by (simp add: normalized_path_def)
  ultimately have "serve_php fs cwd g b (normalized_path [l]) =
    (case limit_body (se_max_body_bytes (cf_security (gw_config g))) b of
       None \<Rightarrow> GwTooLarge
     | Some body \<Rightarrow> GwPhp (normalized_path [l]) (normalized_path (R @ [l])) body)"
    using info by (simp add: serve_php_def)
  then show ?thesis using pp l(2) state by (simp add: gateway_serve_def serve_path_def match_first_def)
qed

text \<open>The symlink mode binds static files only. In every run without routes and with PHP up, a name in the root that is a link to
  a PHP file in another directory, below the root or not, is refused as a static file when links are denied, and is run as a script
  all the same.\<close>

theorem scripts_escape_the_symlink_mode:
  assumes "reachable (gateway_start rx proxy_ok is_ip R) (gateway_step rx proxy_ok is_ip) g"
    and "gw_php g" and "gw_routes g = []" and "rs_symlinks (gw_resolver g) = SymlinkDeny"
    and "parse_path (wq_path q) = Inr pp" and "pp_normalized pp = normalized_path [l]"
    and "plain_segment l" and "ends_with (normalized_path [l]) ''.php''" and "\<not> is_protected (gw_resolver g) (normalized_path [l])"
    and "real_dir fs R" and "fget fs (R @ [l]) = Some (Link True (t @ [f]))"
    and "real_dir fs t" and "plain_segment f" and "fget fs (t @ [f]) = Some (File d)"
    and "limit_body (se_max_body_bytes (cf_security (gw_config g))) b = Some body"
  shows "resolve fs cwd (gw_resolver g) (normalized_path [l]) = Inl ErrSymlinkDenied \<and>
    gateway_serve rx fs cwd g q b = GwPhp (normalized_path [l]) (normalized_path (R @ [l])) body"
proof -
  have ok: "rooted (gw_resolver g) R" "gw_doc_root g = normalized_path R"
    using gateway_machine.reachable_inv [OF assms(1)] by (simp_all add: gateway_ok_def)
  have names: "plain_name l" "plain_name f" using assms(7,13) by (simp_all add: plain_segment_name)
  have "locate False fs (R @ [l]) = Found (R @ [l])" using locate_entry [OF assms(10) names(1)] assms(11) by simp
  then have "resolve fs cwd (gw_resolver g) (normalized_path [l]) = Inl ErrSymlinkDenied"
    using resolve_below [OF ok(1) _ assms(9), of fs cwd] assms(4,7,11) by simp
  moreover have "locate True fs (R @ [l]) = Found (t @ [f])"
    using locate_linked_file [OF assms(10) names assms(11,12,14)] .
  ultimately show ?thesis
    using gateway_serve_php_entry [OF ok assms(2,3,5-9) _ assms(14), of rx cwd b] assms(15) by simp
qed

section \<open>The explorer and the gateway\<close>

lemma exists_entry:
  assumes "plain_path R" and "starts_with name ''/''"
    and "stat fs (path_of (abs_path cwd (join_path (normalized_path R) name))) = Some n"
  shows "exists_file fs cwd (join_path (normalized_path R) (tl name))"
proof -
  let ?p = "abs_path cwd (join_path (normalized_path R) name)"
  have eq: "join_path (normalized_path R) (tl name) = ?p" by (rule join_tl [OF assms(1,2)])
  have "abs_path cwd ?p = ?p"
  proof -
    let ?ws = "split_and_collapse (normalized_path R @ ''/'' @ name)"
    have "plain_path ?ws" using split_and_collapse_set by blast
    moreover have "join_path (normalized_path R) name = normalized_path ?ws" by (simp add: join_path_def clean_path_def)
    ultimately show ?thesis by (simp add: abs_path_def clean_normalized)
  qed
  with eq assms(3) show ?thesis by (simp add: exists_file_def)
qed

text \<open>C25. How far the explorer tells what the gateway does, for a gateway without routes, with PHP and the default protection, and a
  path that does not name a PHP file. If the explanation finds a file, the gateway serves that very file, unless
  the path as it was written, before it is normalised, has a protected name. If it finds none, the script it names is the one that
  runs exactly if \<open>public/index.php\<close> is a regular file.\<close>

theorem explanation_predicts_gateway:
  assumes "parse_path (wq_path q) = Inr pp" and "\<not> ends_with (pp_normalized pp) ''.php''"
    and "abs_path cwd doc_root = normalized_path R" and "plain_path R" and "R \<noteq> []"
    and "gw_doc_root g = normalized_path R" and "gw_routes g = []" and "gw_php g"
    and "gw_resolver g = new_resolver (normalized_path R) SymlinkWithinRoot default_protected_patterns"
    and "limit_body (se_max_body_bytes (cf_security (gw_config g))) b = Some body" and "ur_path req = wq_path q" and "x = explain other msg fs cwd (handler_explainer cwd doc_root) req"
  shows "(gx_found x \<longrightarrow>
      (if is_protected (gw_resolver g) (wq_path q) then gateway_serve rx fs cwd g q b = GwProtected
       else \<exists>v. gateway_serve rx fs cwd g q b = GwStatic (gx_real_path x) v)) \<and>
    (\<not> gx_found x \<longrightarrow>
      ((\<exists>script. gateway_serve rx fs cwd g q b = GwPhp (gx_script_name x) script body) \<longleftrightarrow>
       (\<exists>d. resolve_info fs cwd (gw_resolver g) ''/public/index.php'' = Inr (File d))))"
proof -
  let ?np = "pp_normalized pp"
  let ?r = "new_resolver (normalized_path R) SymlinkWithinRoot default_protected_patterns"
  have "evaluate other [] c = DecisionAllow" for c by (simp add: evaluate_def evaluate_rule_def)
  then have x: "x = (let y = with_file msg fs cwd (handler_explainer cwd doc_root) ?np
      \<lparr>gx_request = req, gx_raw = wq_path q, gx_decoded = ?np, gx_normalized = ?np, gx_valid = True, gx_error = '''',
       gx_decision = ''allow'', gx_route = None, gx_found = False, gx_real_path = '''', gx_is_php = False,
       gx_protected = False, gx_file_error = '''', gx_script = False, gx_script_name = '''', gx_script_path = '''',
       gx_script_error = '''', gx_summary = ''''\<rparr> in y\<lparr>gx_summary := build_summary y\<rparr>)"
    using assms(1,11) by (simp add: assms(12) explain_def handler_explainer_def Let_def)
  have res: "xr_resolver (handler_explainer cwd doc_root) = ?r"
    using assms(3) by (simp add: handler_explainer_def Let_def)
  have serve: "gateway_serve rx fs cwd g q b = serve_path fs cwd g q b ?np"
    using assms(1,7) by (simp add: gateway_serve_def match_first_def)
  show ?thesis
  proof (cases "resolve fs cwd ?r ?np")
    case (Inr opened)
    then have "gx_found x" "gx_real_path x = opened"
      by (simp_all add: x with_file_def res Let_def split: prod.split)
    with Inr show ?thesis
      using assms(2) by (simp add: serve serve_path_def assms(9) serve_static_def)
  next
    case (Inl e)
    have script: "resolve_script_for_explain ?np = (''/public/index.php'', ''public/index.php'')"
      using assms(2) by (simp add: resolve_script_for_explain_def)
    from Inl script have nf: "\<not> gx_found x" "gx_script_name x = ''/public/index.php''"
      by (simp_all add: x with_file_def res Let_def)
    have php: "gateway_serve rx fs cwd g q b = serve_php fs cwd g b ?np"
      using Inl assms(2,8) by (simp add: serve serve_path_def assms(9))
    have rs: "rs_root (gw_resolver g) = normalized_path R"
      using assms(4) by (simp add: assms(9) new_resolver_def clean_normalized)
    have "(\<exists>script. serve_php fs cwd g b ?np = GwPhp ''/public/index.php'' script body) \<longleftrightarrow>
      (\<exists>d. resolve_info fs cwd (gw_resolver g) ''/public/index.php'' = Inr (File d))"
    proof
      assume "\<exists>script. serve_php fs cwd g b ?np = GwPhp ''/public/index.php'' script body"
      then show "\<exists>d. resolve_info fs cwd (gw_resolver g) ''/public/index.php'' = Inr (File d)"
        by (auto simp: serve_php_def Let_def split: prod.splits if_splits sum.splits node.splits option.splits)
    next
      assume "\<exists>d. resolve_info fs cwd (gw_resolver g) ''/public/index.php'' = Inr (File d)"
      then obtain d where d: "resolve_info fs cwd (gw_resolver g) ''/public/index.php'' = Inr (File d)" ..
      from resolve_info_Inr [OF d refl] rs
      have "stat fs (path_of (abs_path cwd (join_path (normalized_path R) ''/public/index.php''))) = Some (File d)" by simp
      from exists_entry [OF assms(4) _ this] have "exists_file fs cwd (join_path (normalized_path R) ''public/index.php'')"
        by simp
      then have "resolve_script fs cwd (gw_doc_root g) ?np =
          (''/public/index.php'', join_path (normalized_path R) ''public/index.php'')"
        using assms(2,6) by (simp add: resolve_script_def)
      moreover have "join_path (normalized_path R) ''public/index.php'' \<noteq> ''''"
        by (simp add: join_path_def clean_path_def normalized_path_def)
      ultimately show "\<exists>script. serve_php fs cwd g b ?np = GwPhp ''/public/index.php'' script body"
        using d assms(10) by (simp add: serve_php_def)
    qed
    with nf php show ?thesis by simp
  qed
qed

section \<open>Witnesses\<close>

definition demo_settings :: "route_config list \<Rightarrow> gateway_config" where
  "demo_settings routes = settled_default\<lparr>cf_routes := routes,
     cf_static := (cf_static settled_default)\<lparr>st_precompressed := False\<rparr>\<rparr>"

definition demo_gateway :: "gateway_config \<Rightarrow> string list \<Rightarrow> gateway" where
  "demo_gateway cfg proxies =
     \<lparr>gw_doc_root = normalized_path demo_root, gw_config = cfg,
      gw_resolver = new_resolver (normalized_path demo_root) SymlinkWithinRoot default_protected_patterns,
      gw_routes = map route_of (cf_routes cfg), gw_proxies = proxies, gw_php = True, gw_version = 0\<rparr>"

definition demo_no_body :: request_body where "demo_no_body = \<lparr>rb_declared = 0, rb_bytes = ''''\<rparr>"

definition demo_web_request :: "string \<Rightarrow> web_request" where
  "demo_web_request p = \<lparr>wq_method = ''GET'', wq_host = ''localhost'', wq_path = p, wq_query = '''', wq_headers = []\<rparr>"

definition demo_upstream :: route_config where
  "demo_upstream =
     \<lparr>rc_host = '''', rc_path = '''', rc_prefix = ''/api/'', rc_regex = '''', rc_target = ''http://backend'', rc_status = 0,
      rc_methods = [], rc_headers = [], rc_override = None\<rparr>"

lemma settled_default_ok: "settings_ok is_ip settled_default"
  by (rule validate_ok [OF default_config_valid])

lemma settled_default_security:
  "se_symlink_mode (cf_security settled_default) = ''within_root''" "se_protected_patterns (cf_security settled_default) = []"
  "se_max_body_bytes (cf_security settled_default) = 20971520"
  by (simp_all add: settled_default_def default_config_def)

lemma demo_gateway_started:
  assumes "routes = [] \<or> routes = [demo_upstream]" and "proxies = map rc_target routes"
  shows "reachable (gateway_start no_regex (\<lambda>_. True) (\<lambda>_. False) demo_root) (gateway_step no_regex (\<lambda>_. True) (\<lambda>_. False))
    (demo_gateway (demo_settings routes) proxies)"
proof (rule reachable_init)
  have "settings_ok (\<lambda>_. False) (demo_settings routes)"
    using settled_default_ok [of "\<lambda>_. False"] assms(1) unfolding settings_ok_def
    by (auto simp: demo_settings_def routes_ok_def demo_upstream_def simp del: insert_iff)
  then have "load_config (\<lambda>_. False) (Some (demo_settings routes)) = Inr (demo_settings routes)"
    by (simp add: load_config_def validate_fix)
  then have "start_gateway no_regex (\<lambda>_. True) (\<lambda>_. False) (normalized_path demo_root) True (Some (Some (demo_settings routes))) =
      Inr (demo_gateway (demo_settings routes) proxies)"
    using assms by (auto simp: start_gateway_def configured_def build_router_def demo_settings_def demo_gateway_def build_proxies_def
        settled_default_security demo_upstream_def route_of_def upstream_def Let_def)
  then show "gateway_start no_regex (\<lambda>_. True) (\<lambda>_. False) demo_root (demo_gateway (demo_settings routes) proxies)"
    using demo_root_plain unfolding gateway_start_def by blast
qed

lemma demo_gateway_about:
  "gateway_serve no_regex demo_tree ''/'' (demo_gateway (demo_settings []) []) (demo_web_request ''/about'') demo_no_body = GwStatic ''/srv/app/about'' None"
proof -
  obtain pp where pp: "parse_path ''/about'' = Inr pp" "pp_normalized pp = normalized_path [''about'']"
    using demo_about by blast
  have r: "gw_resolver (demo_gateway (demo_settings []) []) = site_resolver demo_site_handler"
    by (simp add: demo_gateway_def site_resolver_def demo_site_handler_def)
  have "\<not> is_protected (site_resolver demo_site_handler) (normalized_path [''about''])" by (rule demo_not_protected(1))
  moreover have "\<not> ends_with (normalized_path [''about'']) ''.php''" by (simp add: normalized_path_def ends_with_def)
  moreover have "normalized_path [''about''] = ''/about''" by (simp add: normalized_path_def)
  ultimately show ?thesis
    using pp demo_resolve [of "''/''"] r
    by (simp add: gateway_serve_def demo_web_request_def serve_path_def serve_static_def match_first_def demo_gateway_def demo_settings_def)
qed

theorem gateway_stays_below_root_witness:
  "gateway_serve no_regex demo_tree ''/'' (demo_gateway (demo_settings []) []) (demo_web_request ''/about'') demo_no_body = GwStatic ''/srv/app/about'' None \<and>
   below demo_tree demo_root ''/srv/app/about''"
proof -
  have "reachable (gateway_start no_regex (\<lambda>_. True) (\<lambda>_. False) demo_root) (gateway_step no_regex (\<lambda>_. True) (\<lambda>_. False)) (demo_gateway (demo_settings []) [])"
    by (rule demo_gateway_started) simp_all
  from gateway_stays_below_root [OF this, of demo_tree "demo_web_request ''/about''" "''/''" demo_no_body] demo_gateway_about
  show ?thesis by simp
qed

theorem upstream_routes_are_proxied_witness:
  "gateway_serve no_regex demo_tree ''/'' (demo_gateway (demo_settings [demo_upstream]) [''http://backend'']) (demo_web_request ''/api/users'') demo_no_body =
     GwProxied ''http://backend''"
proof -
  have g: "reachable (gateway_start no_regex (\<lambda>_. True) (\<lambda>_. False) demo_root) (gateway_step no_regex (\<lambda>_. True) (\<lambda>_. False))
      (demo_gateway (demo_settings [demo_upstream]) [''http://backend''])"
    by (rule demo_gateway_started) (simp_all add: demo_upstream_def route_of_def)
  obtain pp where pp: "parse_path (wq_path (demo_web_request ''/api/users'')) = Inr pp"
    using parse_path_decoded [of "''/api/users''"]
    by (simp add: demo_web_request_def c0_control_def in_range_def)
  have "match_first no_regex (gw_routes (demo_gateway (demo_settings [demo_upstream]) [''http://backend''])) (demo_web_request ''/api/users'')
      = Some (route_of demo_upstream)"
    by (simp add: match_first_def match_route_def demo_gateway_def demo_settings_def demo_upstream_def route_of_def demo_web_request_def)
  from upstream_routes_are_proxied [OF g pp this, of demo_tree "''/''" demo_no_body] show ?thesis
    by (simp add: demo_upstream_def route_of_def upstream_def is_redirect_def)
qed

theorem reload_all_or_nothing_witness:
  "fst (reload_gateway no_regex (\<lambda>_. True) (\<lambda>_. False) None (demo_gateway settled_default [])) \<noteq> None \<and>
   snd (reload_gateway no_regex (\<lambda>_. True) (\<lambda>_. False) None (demo_gateway settled_default [])) = demo_gateway settled_default []"
  using reload_all_or_nothing [where rx = no_regex and proxy_ok = "\<lambda>_. True" and is_ip = "\<lambda>_. False" and yaml = None
      and g = "demo_gateway settled_default []"]
  by (auto simp: load_config_def split: prod.splits option.splits)

definition demo_upload :: request_body where
  "demo_upload = \<lparr>rb_declared = 30000000, rb_bytes = replicate 30000000 CHR ''x''\<rparr>"

lemma demo_default_started:
  "reachable (gateway_start no_regex (\<lambda>_. True) (\<lambda>_. False) demo_root) (gateway_step no_regex (\<lambda>_. True) (\<lambda>_. False))
    (demo_gateway default_config [])"
proof (rule reachable_init)
  have "start_gateway no_regex (\<lambda>_. True) (\<lambda>_. False) (normalized_path demo_root) True None = Inr (demo_gateway default_config [])"
    by (simp add: start_gateway_def configured_def build_router_def demo_gateway_def build_proxies_def default_config_def Let_def)
  then show "gateway_start no_regex (\<lambda>_. True) (\<lambda>_. False) demo_root (demo_gateway default_config [])"
    using demo_root_plain unfolding gateway_start_def by blast
qed

lemma demo_plain_php:
  assumes "l = ''run.php''"
  shows "\<exists>pp. parse_path (wq_path (demo_web_request ''/run.php'')) = Inr pp \<and> pp_normalized pp = normalized_path [l]"
    and "plain_segment l" and "plain_name l" and "ends_with (normalized_path [l]) ''.php''"
    and "\<not> is_protected (gw_resolver (demo_gateway cfg ps)) (normalized_path [l])"
proof -
  show "\<exists>pp. parse_path (wq_path (demo_web_request ''/run.php'')) = Inr pp \<and> pp_normalized pp = normalized_path [l]"
    using parse_path_decoded [of "''/run.php''"]
    by (simp add: demo_web_request_def c0_control_def in_range_def split_and_collapse_def collapse_step_def assms)
  show "plain_segment l" "plain_name l" by (simp_all add: assms plain_segment_def plain_name_def)
  show "ends_with (normalized_path [l]) ''.php''" by (simp add: assms normalized_path_def ends_with_def)
  show "\<not> is_protected (gw_resolver (demo_gateway cfg ps)) (normalized_path [l])"
    using demo_not_protected(4) by (simp add: assms demo_gateway_def site_resolver_def demo_site_handler_def)
qed

lemma demo_body_served:
  "gateway_serve no_regex demo_tree ''/'' (demo_gateway default_config []) (demo_web_request ''/run.php'') b =
     GwPhp (normalized_path [''run.php'']) (normalized_path (demo_root @ [''run.php''])) (rb_bytes b)"
proof -
  note l = demo_plain_php [OF refl]
  have rooted: "rooted (gw_resolver (demo_gateway default_config [])) demo_root"
    using demo_rooted by (simp add: demo_gateway_def site_resolver_def demo_site_handler_def)
  have loc: "locate True demo_tree (demo_root @ [''run.php'']) = Found (demo_root @ [''run.php''])"
    using locate_in_dir [OF demo_root_plain(3), of True "[''run.php'']"] demo_files(2) by (simp add: demo_root_def)
  obtain pp where pp: "parse_path (wq_path (demo_web_request ''/run.php'')) = Inr pp" "pp_normalized pp = normalized_path [''run.php'']"
    using l(1) by blast
  have limit: "limit_body (se_max_body_bytes (cf_security (gw_config (demo_gateway default_config [])))) b =
      Some (rb_bytes b)"
    by (simp add: limit_body_def demo_gateway_def default_config_def)
  show ?thesis
    using gateway_serve_php_entry [OF rooted _ _ _ pp l(2,4,5) loc, of 2 no_regex "''/''" b] demo_files(2) limit
    by (simp add: demo_gateway_def default_config_def demo_root_def)
qed

theorem body_limit_needs_a_file_witness:
  "gateway_serve no_regex demo_tree ''/'' (demo_gateway default_config []) (demo_web_request ''/run.php'') demo_upload =
     GwPhp ''/run.php'' ''/srv/app/run.php'' (rb_bytes demo_upload)"
  using body_limit_needs_a_file [OF demo_default_started demo_body_served] demo_body_served by (simp add: normalized_path_def demo_root_def)

definition demo_deny :: gateway_config where
  "demo_deny = settled_default\<lparr>cf_security := (cf_security settled_default)\<lparr>se_symlink_mode := ''deny''\<rparr>\<rparr>"

definition demo_links :: "nat files" where
  "demo_links =
     [([''srv''], Dir), ([''srv'', ''app''], Dir), ([''srv'', ''app'', ''run.php''], Link True [''etc'', ''x.php'']),
      ([''etc''], Dir), ([''etc'', ''x.php''], File 7)]"

theorem scripts_escape_the_symlink_mode_witness:
  "\<exists>g. rs_symlinks (gw_resolver g) = SymlinkDeny \<and>
     gateway_serve no_regex demo_links ''/'' g (demo_web_request ''/run.php'') demo_no_body = GwPhp ''/run.php'' ''/srv/app/run.php'' ''''"
proof -
  let ?g = "(demo_gateway demo_deny [])\<lparr>gw_resolver := new_resolver (normalized_path demo_root) SymlinkDeny default_protected_patterns\<rparr>"
  have "settings_ok (\<lambda>_. False) demo_deny"
    using settled_default_ok [of "\<lambda>_. False"] unfolding settings_ok_def security_ok_def
    by (simp add: demo_deny_def del: insert_iff) (simp split: if_splits)
  then have "load_config (\<lambda>_. False) (Some demo_deny) = Inr demo_deny" by (simp add: load_config_def validate_fix)
  moreover have "cf_routes demo_deny = []" by (simp add: demo_deny_def settled_default_def default_config_def)
  ultimately have "start_gateway no_regex (\<lambda>_. True) (\<lambda>_. False) (normalized_path demo_root) True (Some (Some demo_deny)) = Inr ?g"
    by (simp add: start_gateway_def configured_def build_router_def demo_gateway_def build_proxies_def Let_def)
      (simp add: demo_deny_def settled_default_security)
  then have g: "reachable (gateway_start no_regex (\<lambda>_. True) (\<lambda>_. False) demo_root) (gateway_step no_regex (\<lambda>_. True) (\<lambda>_. False)) ?g"
    using demo_root_plain unfolding gateway_start_def by (blast intro: reachable_init)
  note l = demo_plain_php [OF refl]
  obtain pp where pp: "parse_path (wq_path (demo_web_request ''/run.php'')) = Inr pp" "pp_normalized pp = normalized_path [''run.php'']"
    using l(1) by blast
  have np: "\<not> is_protected (gw_resolver ?g) (normalized_path [''run.php''])"
    using l(5) [of demo_deny "[]"] by (simp add: demo_gateway_def is_protected_def new_resolver_def)
  have fs: "real_dir demo_links demo_root" "fget demo_links (demo_root @ [''run.php'']) = Some (Link True ([''etc''] @ [''x.php'']))"
    "real_dir demo_links [''etc'']" "plain_segment ''x.php''" "fget demo_links ([''etc''] @ [''x.php'']) = Some (File 7)"
    by (simp_all add: demo_links_def real_dir_def fget_def plain_name_def plain_segment_def demo_root_def le_Suc_eq numeral_2_eq_2)
  have state: "gw_php ?g" "gw_routes ?g = []" "rs_symlinks (gw_resolver ?g) = SymlinkDeny"
    by (simp_all add: demo_gateway_def new_resolver_def demo_deny_def settled_default_def default_config_def)
  have body: "limit_body (se_max_body_bytes (cf_security (gw_config ?g))) demo_no_body = Some ''''"
    by (simp add: limit_body_def demo_no_body_def)
  from scripts_escape_the_symlink_mode [OF g state pp l(2,4) np fs body, of "''/''"] state(3) show ?thesis
    by (intro exI [of _ ?g]) (simp add: normalized_path_def demo_root_def)
qed

lemma demo_explained:
  "gx_found (explain demo_other demo_error_text demo_tree ''/'' (handler_explainer ''/'' ''/srv/app'') demo_request)"
proof -
  obtain pp where pp: "parse_path ''/about'' = Inr pp" "pp_normalized pp = normalized_path [''about'']"
    using demo_about by blast
  have "evaluate demo_other [] c = DecisionAllow" for c by (simp add: evaluate_def evaluate_rule_def)
  then show ?thesis
    using pp by (simp add: explain_def handler_explainer_def Let_def with_file_def demo_handler_root demo_handler_resolver
        demo_resolve demo_request_def split: prod.split)
qed

theorem explanation_predicts_gateway_witness:
  "\<exists>v. gateway_serve no_regex demo_tree ''/'' (demo_gateway (demo_settings []) []) (demo_web_request ''/about'') demo_no_body =
      GwStatic (gx_real_path (explain demo_other demo_error_text demo_tree ''/'' (handler_explainer ''/'' ''/srv/app'') demo_request)) v"
proof -
  obtain pp where pp: "parse_path ''/about'' = Inr pp" "pp_normalized pp = normalized_path [''about'']"
    using demo_about by blast
  have parse: "parse_path (wq_path (demo_web_request ''/about'')) = Inr pp" using pp(1) by (simp add: demo_web_request_def)
  have php: "\<not> ends_with (pp_normalized pp) ''.php''" by (simp add: pp(2) normalized_path_def ends_with_def)
  have root: "abs_path ''/'' ''/srv/app'' = normalized_path demo_root"
    using demo_handler_root by (simp add: demo_root_def normalized_path_def)
  have g: "gw_doc_root (demo_gateway (demo_settings []) []) = normalized_path demo_root" "gw_routes (demo_gateway (demo_settings []) []) = []"
    "gw_php (demo_gateway (demo_settings []) [])"
    "gw_resolver (demo_gateway (demo_settings []) []) = new_resolver (normalized_path demo_root) SymlinkWithinRoot default_protected_patterns"
    "ur_path demo_request = wq_path (demo_web_request ''/about'')"
    by (simp_all add: demo_gateway_def demo_settings_def demo_request_def demo_web_request_def)
  have body: "limit_body (se_max_body_bytes (cf_security (gw_config (demo_gateway (demo_settings []) [])))) demo_no_body = Some ''''"
    by (simp add: limit_body_def demo_no_body_def)
  from explanation_predicts_gateway [OF parse php root demo_root_plain(1,2) g(1-4) body g(5) refl, of demo_other demo_error_text demo_tree no_regex]
  show ?thesis using demo_explained demo_gateway_about by (auto split: if_splits)
qed

end
