(* ===== verification/FastCgi.thy ===== *)
theory FastCgi
  imports Prelude "HOL-Library.Word"
begin

text \<open>
  \<open>internal/php/fastcgi\<close>: the records of the FastCGI protocol, a request written to PHP-FPM, its response read at once
  (\<open>Execute\<close>) or as a stream (\<open>ExecuteStream\<close>), all in \<open>protocol.go\<close>.

  A byte is a \<open>char\<close>; \<open>char_of\<close> takes a number modulo 256 as \<open>byte()\<close> does. What the peer sends on a connection until it is closed
  is a byte string; deadlines and the cancellation of a context are left out.
\<close>

unbundle bit_operations_syntax

section \<open>Records\<close>

record fcgi_record =
  fr_version :: "8 word"
  fr_type :: "8 word"
  fr_id :: "16 word"
  fr_length :: "16 word"
  fr_padding :: "8 word"
  fr_content :: string

definition proto_version :: "8 word" where "proto_version = 1"
definition type_begin_req :: "8 word" where "type_begin_req = 1"
definition type_abort_req :: "8 word" where "type_abort_req = 2"
definition type_end_request :: "8 word" where "type_end_request = 3"
definition type_params :: "8 word" where "type_params = 4"
definition type_stdin :: "8 word" where "type_stdin = 5"
definition type_stdout :: "8 word" where "type_stdout = 6"
definition type_stderr :: "8 word" where "type_stderr = 7"

lemmas fcgi_types =
  type_begin_req_def type_abort_req_def type_end_request_def type_params_def type_stdin_def type_stdout_def type_stderr_def

definition max_record_content :: nat where "max_record_content = 65535"

definition max_response_size :: nat where "max_response_size = 64 * 1024 * 1024"

definition byte :: "8 word \<Rightarrow> char" where "byte w = char_of (unat w)"

definition be16 :: "16 word \<Rightarrow> string" where "be16 w = [char_of (unat w div 256), char_of (unat w)]"

definition get8 :: "char \<Rightarrow> 8 word" where "get8 c = word_of_nat (of_char c)"

definition get16 :: "char \<Rightarrow> char \<Rightarrow> 16 word" where "get16 a b = word_of_nat (of_char a * 256 + of_char b)"

definition get32 :: "string \<Rightarrow> 32 word" where
  "get32 s = word_of_nat (fold (\<lambda>c n. n * 256 + of_char c) (take 4 s) 0)"

definition pad_length :: "16 word \<Rightarrow> nat" where "pad_length len = (8 - unat len mod 8) mod 8"

text \<open>\<open>writeRecord\<close> and \<open>EncodeRecord\<close>: the bytes that are written; the length in the header is the one of the record, not of its content.\<close>

definition write_record :: "fcgi_record \<Rightarrow> string" where
  "write_record r =
     [byte (fr_version r), byte (fr_type r)] @ be16 (fr_id r) @ be16 (fr_length r) @
     [char_of (pad_length (fr_length r)), char_of (0 :: nat)] @ fr_content r @ replicate (pad_length (fr_length r)) (char_of (0 :: nat))"

text \<open>\<open>readRecord\<close> and \<open>DecodeRecord\<close>: a record and the bytes after it, \<open>None\<close> where the bytes end before.\<close>

definition read_record :: "string \<Rightarrow> (fcgi_record \<times> string) option" where
  "read_record s =
     (if length s < 8 then None
      else
        (let len = get16 (s ! 4) (s ! 5);
             pad = get8 (s ! 6);
             body = drop 8 s
         in if length body < unat len + unat pad then None
            else Some (\<lparr>fr_version = get8 (s ! 0), fr_type = get8 (s ! 1), fr_id = get16 (s ! 2) (s ! 3), fr_length = len,
                        fr_padding = pad, fr_content = take (unat len) body\<rparr>, drop (unat len + unat pad) body)))"

definition well_formed :: "fcgi_record \<Rightarrow> bool" where
  "well_formed r \<longleftrightarrow> length (fr_content r) = unat (fr_length r) \<and> unat (fr_padding r) = pad_length (fr_length r)"

lemma get8_byte [simp]: "get8 (byte w) = w"
proof -
  have "unat w < 2 ^ LENGTH(8)" by (rule unsigned_less)
  then have "unat w < 256" by simp
  then show ?thesis by (simp add: get8_def byte_def)
qed

lemma get16_be16: "get16 (char_of (unat w div 256)) (char_of (unat w)) = w"
proof -
  have "unat w < 2 ^ LENGTH(16)" by (rule unsigned_less)
  then have "unat w < 65536" by simp
  then have "unat w div 256 mod 256 = unat w div 256" by (intro mod_less) (simp add: less_mult_imp_div_less)
  then have "unat w div 256 mod 256 * 256 + unat w mod 256 = unat w" by (simp add: div_mult_mod_eq)
  then show ?thesis by (simp add: get16_def)
qed

lemma pad_length_less: "pad_length n < 8"
  by (simp add: pad_length_def)

lemma get8_pad [simp]: "unat (get8 (char_of (pad_length n))) = pad_length n"
  using pad_length_less [of n] by (simp add: get8_def unat_of_nat)

text \<open>Reading what was written: the header decides where the content ends, whatever the content is.\<close>

lemma read_write_record:
  assumes "unat (fr_length r) + pad_length (fr_length r) \<le> length (fr_content r @ replicate (pad_length (fr_length r)) (char_of (0 :: nat)) @ rest)"
  shows "read_record (write_record r @ rest) =
    (let tail = fr_content r @ replicate (pad_length (fr_length r)) (char_of (0 :: nat)) @ rest; n = unat (fr_length r); p = pad_length (fr_length r)
     in Some (r\<lparr>fr_padding := get8 (char_of p), fr_content := take n tail\<rparr>, drop (n + p) tail))"
  using assms by (cases r) (simp add: read_record_def write_record_def be16_def get16_be16 Let_def nth_Cons')

lemma read_write_well_formed:
  assumes "well_formed r"
  shows "read_record (write_record r @ rest) = Some (r, rest)"
proof -
  have "get8 (char_of (pad_length (fr_length r))) = fr_padding r"
    using assms by (simp add: well_formed_def word_unat_eq_iff)
  then show ?thesis using assms by (cases r) (simp add: read_write_record well_formed_def Let_def)
qed

lemma read_record_shorter: "read_record s = Some (r, rest) \<Longrightarrow> length rest < length s"
  by (auto simp: read_record_def Let_def split: if_splits)

section \<open>A request\<close>

definition plain_record :: "8 word \<Rightarrow> 16 word \<Rightarrow> nat \<Rightarrow> string \<Rightarrow> fcgi_record" where
  "plain_record ty i len content =
     \<lparr>fr_version = proto_version, fr_type = ty, fr_id = i, fr_length = word_of_nat len, fr_padding = 0, fr_content = content\<rparr>"

definition encode_length :: "nat \<Rightarrow> string" where
  "encode_length n =
     (if n < 128 then [char_of n]
      else [byte (word_of_nat (n div 2 ^ 24) OR 128), char_of (n div 2 ^ 16), char_of (n div 2 ^ 8), char_of n])"

definition decode_length :: "string \<Rightarrow> (nat \<times> nat) option" where
  "decode_length s =
     (case s of
        [] \<Rightarrow> None
      | c # _ \<Rightarrow>
          if get8 c AND 128 \<noteq> 0 then
            (if length s < 4 then None
             else Some (unat (get8 c AND 127) * 2 ^ 24 + of_char (s ! 1) * 2 ^ 16 + of_char (s ! 2) * 2 ^ 8 + of_char (s ! 3), 4))
          else Some (unat (get8 c), 1))"

definition encode_pair :: "string \<Rightarrow> string \<Rightarrow> string" where
  "encode_pair name v = encode_length (length name) @ encode_length (length v) @ name @ v"

text \<open>The parameters in the order in which the map is iterated.\<close>

definition params_bytes :: "(string \<times> string) list \<Rightarrow> string" where
  "params_bytes ps = concat (map (\<lambda>(k, v). encode_pair k v) ps)"

definition send_begin_request :: "16 word \<Rightarrow> string" where
  "send_begin_request i =
     write_record (plain_record type_begin_req i 8 (be16 1 @ replicate 2 (char_of (0 :: nat)) @ [byte 1] @ replicate 3 (char_of (0 :: nat))))"

definition send_params :: "16 word \<Rightarrow> (string \<times> string) list \<Rightarrow> string" where
  "send_params i ps =
     (let content = params_bytes ps
      in write_record (plain_record type_params i (length content) content) @ write_record (plain_record type_params i 0 ''''))"

text \<open>\<open>sendStdin\<close> with the pieces in which the body is read, \<open>[]\<close> without a body.\<close>

definition send_stdin :: "16 word \<Rightarrow> string list \<Rightarrow> string" where
  "send_stdin i pieces =
     concat (map (\<lambda>c. write_record (plain_record type_stdin i (length c) c)) pieces) @ write_record (plain_record type_stdin i 0 '''')"

text \<open>A client takes the next request ID, which wraps around, and writes the request.\<close>

definition send_request :: "16 word \<Rightarrow> (string \<times> string) list \<Rightarrow> string list \<Rightarrow> string \<times> 16 word" where
  "send_request next_id ps pieces =
     (send_begin_request next_id @ send_params next_id ps @ send_stdin next_id pieces, next_id + 1)"

text \<open>What a peer makes of it that reads records as \<open>readRecord\<close> does, and lengths as \<open>DecodeLength\<close> does.\<close>

function read_records :: "string \<Rightarrow> fcgi_record list option" where
  "read_records s =
     (if s = [] then Some []
      else (case read_record s of None \<Rightarrow> None | Some (r, rest) \<Rightarrow> map_option ((#) r) (read_records rest)))"
  by pat_completeness auto
termination
  by (relation "measure length") (auto dest: read_record_shorter)

declare read_records.simps [simp del]

definition decode_pair :: "string \<Rightarrow> ((string \<times> string) \<times> string) option" where
  "decode_pair s =
     (case decode_length s of
        None \<Rightarrow> None
      | Some (n, i) \<Rightarrow>
          (case decode_length (drop i s) of
             None \<Rightarrow> None
           | Some (m, j) \<Rightarrow>
               (let rest = drop (i + j) s
                in if length rest < n + m then None else Some ((take n rest, take m (drop n rest)), drop (n + m) rest))))"

section \<open>The peer reads the request\<close>

lemma write_record_nonempty [simp]: "write_record r \<noteq> []"
  by (simp add: write_record_def)

lemma read_records_write:
  assumes "well_formed r"
  shows "read_records (write_record r @ rest) = map_option ((#) r) (read_records rest)"
  by (subst read_records.simps) (simp add: read_write_well_formed [OF assms])

lemma read_records_written:
  assumes "list_all well_formed rs"
  shows "read_records (concat (map write_record rs)) = Some rs"
  using assms by (induction rs) (simp add: read_records.simps, simp add: read_records_write)

text \<open>A record reads back with the padding that was written.\<close>

definition padded :: "fcgi_record \<Rightarrow> fcgi_record" where
  "padded r = r\<lparr>fr_padding := word_of_nat (pad_length (fr_length r))\<rparr>"

lemma write_padded [simp]: "write_record (padded r) = write_record r"
  by (simp add: padded_def write_record_def)

lemma well_formed_padded: "length (fr_content r) = unat (fr_length r) \<Longrightarrow> well_formed (padded r)"
  using pad_length_less [of "fr_length r"] by (simp add: well_formed_def padded_def unat_of_nat)

lemma well_formed_plain: "length c \<le> max_record_content \<Longrightarrow> well_formed (padded (plain_record ty i (length c) c))"
  by (rule well_formed_padded) (simp add: plain_record_def unat_of_nat max_record_content_def)

lemma well_formed_of_length: "length c = n \<Longrightarrow> n \<le> 65535 \<Longrightarrow> well_formed (padded (plain_record ty i n c))"
  using well_formed_plain [of c ty i] by (simp add: max_record_content_def)

lemma flag_byte:
  fixes k :: nat
  assumes "k < 128"
  shows "(word_of_nat k OR 128 :: 8 word) AND 128 \<noteq> 0" "unat ((word_of_nat k OR 128 :: 8 word) AND 127) = k"
    "(word_of_nat k :: 8 word) AND 128 = 0"
proof -
  have "list_all (\<lambda>k. (word_of_nat k OR 128 :: 8 word) AND 128 \<noteq> 0 \<and> unat ((word_of_nat k OR 128 :: 8 word) AND 127) = k \<and>
      (word_of_nat k :: 8 word) AND 128 = 0) [0..<128]"
    by code_simp
  with assms show "(word_of_nat k OR 128 :: 8 word) AND 128 \<noteq> 0" "unat ((word_of_nat k OR 128 :: 8 word) AND 127) = k"
    "(word_of_nat k :: 8 word) AND 128 = 0"
    by (auto simp: list_all_iff)
qed

lemma base_256: "n = n div 2 ^ 24 * 2 ^ 24 + n div 2 ^ 16 mod 256 * 2 ^ 16 + n div 2 ^ 8 mod 256 * 2 ^ 8 + (n :: nat) mod 256"
proof -
  define a where "a = n div 256"
  define b where "b = a div 256"
  have "n = a * 256 + n mod 256" "a = b * 256 + a mod 256" "b = b div 256 * 256 + b mod 256"
    unfolding a_def b_def by (simp_all only: div_mult_mod_eq)
  moreover have "m = x * 256 + r0 \<Longrightarrow> x = y * 256 + r1 \<Longrightarrow> y = z * 256 + r2 \<Longrightarrow>
      m = z * 2 ^ 24 + r2 * 2 ^ 16 + r1 * 2 ^ 8 + r0" for m x y z r0 r1 r2 :: nat
    by simp
  ultimately have "n = b div 256 * 2 ^ 24 + b mod 256 * 2 ^ 16 + a mod 256 * 2 ^ 8 + n mod 256" by blast
  moreover have "n div 2 ^ 16 = b" "n div 2 ^ 24 = b div 256" "n div 2 ^ 8 = a"
    unfolding a_def b_def by (simp_all add: div_mult2_eq [symmetric])
  ultimately show ?thesis by (simp only:)
qed

lemma decode_encode_length:
  assumes "n < 2 ^ 31"
  shows "decode_length (encode_length n @ rest) = Some (n, length (encode_length n))"
proof (cases "n < 128")
  case True
  then show ?thesis using flag_byte(3) [OF True]
    by (simp add: encode_length_def decode_length_def get8_def unat_of_nat)
next
  case False
  have k: "n div 2 ^ 24 < 128" using assms by (simp add: less_mult_imp_div_less)
  have "n = n div 2 ^ 24 * 2 ^ 24 + n div 2 ^ 16 mod 256 * 2 ^ 16 + n div 2 ^ 8 mod 256 * 2 ^ 8 + n mod 256"
    by (rule base_256)
  then show ?thesis using False flag_byte [OF k]
    by (simp add: encode_length_def decode_length_def)
qed

lemma decode_encode_pair:
  assumes "length k < 2 ^ 31" and "length v < 2 ^ 31"
  shows "decode_pair (encode_pair k v @ rest) = Some ((k, v), rest)"
  using decode_encode_length [OF assms(1), of "encode_length (length v) @ k @ v @ rest"]
    decode_encode_length [OF assms(2), of "k @ v @ rest"]
  by (simp add: decode_pair_def encode_pair_def)

lemma encode_length_nonempty [simp]: "encode_length n \<noteq> []"
  by (simp add: encode_length_def)

text \<open>Reading all pairs of a content, as often as its length allows.\<close>

fun decode_pairs :: "nat \<Rightarrow> string \<Rightarrow> (string \<times> string) list option" where
  "decode_pairs n [] = Some []"
| "decode_pairs 0 s = None"
| "decode_pairs (Suc n) s = (case decode_pair s of None \<Rightarrow> None | Some (p, rest) \<Rightarrow> map_option ((#) p) (decode_pairs n rest))"

lemma decode_params:
  assumes "\<forall>(k, v) \<in> set ps. length k < 2 ^ 31 \<and> length v < 2 ^ 31" and "length ps \<le> n"
  shows "decode_pairs n (params_bytes ps) = Some ps"
  using assms
proof (induction ps arbitrary: n)
  case Nil
  then show ?case by (simp add: params_bytes_def)
next
  case (Cons p ps)
  obtain k v where p: "p = (k, v)" by fastforce
  obtain m where m: "n = Suc m" using Cons.prems(2) by (cases n) auto
  have "params_bytes (p # ps) = encode_pair k v @ params_bytes ps" by (simp add: params_bytes_def p)
  moreover obtain c s where "encode_pair k v @ params_bytes ps = c # s" by (cases "encode_pair k v @ params_bytes ps") (auto simp: encode_pair_def)
  ultimately show ?case
    using Cons decode_encode_pair [of k v "params_bytes ps"] by (simp add: m p)
qed

lemma pairs_in_params: "(k, v) \<in> set ps \<Longrightarrow> length k + length v \<le> length (params_bytes ps)"
  by (induction ps) (auto simp: params_bytes_def encode_pair_def)

lemma length_pairs: "length ps \<le> length (params_bytes ps)"
proof (induction ps)
  case (Cons p ps)
  have "length (encode_length n) > 0" for n by simp
  then have "Suc 0 \<le> length (encode_length n)" for n by (simp only: Suc_le_eq)
  from this [of "length (fst p)"] Cons show ?case by (cases p) (simp add: params_bytes_def encode_pair_def)
qed (simp add: params_bytes_def)

lemma read_back:
  assumes "length (params_bytes ps) \<le> max_record_content" and "\<forall>c \<in> set pieces. length c \<le> max_record_content"
  shows "\<exists>rs. read_records (fst (send_request i ps pieces)) = Some rs \<and> (\<forall>r \<in> set rs. fr_id r = i) \<and>
     map fr_type rs = [type_begin_req, type_params, type_params] @ replicate (length pieces + 1) type_stdin \<and>
     fr_content (rs ! 0) = be16 1 @ map char_of [0, 0, 1, 0, 0, 0 :: nat] \<and>
     decode_pairs (length (fr_content (rs ! 1))) (fr_content (rs ! 1)) = Some ps \<and> fr_content (rs ! 2) = '''' \<and>
     map fr_content (drop 3 rs) = pieces @ ['''']"
proof -
  define b where "b = be16 1 @ replicate 2 (char_of (0 :: nat)) @ [byte 1] @ replicate 3 (char_of (0 :: nat))"
  define pr where "pr = (\<lambda>ty c. padded (plain_record ty i (length c) c))"
  define rs where "rs = [pr type_begin_req b, pr type_params (params_bytes ps), pr type_params ''''] @
    map (pr type_stdin) (pieces @ [''''])"
  have b: "length b = 8" by (simp add: b_def be16_def)
  have wf: "length c \<le> max_record_content \<Longrightarrow> well_formed (pr ty c)" for ty c unfolding pr_def by (rule well_formed_plain)
  have pr: "fr_content (pr ty c) = c" "fr_id (pr ty c) = i" "fr_type (pr ty c) = ty"
    "write_record (pr ty c) = write_record (plain_record ty i (length c) c)" for ty c
    by (simp_all add: pr_def) (simp_all add: padded_def plain_record_def)
  have "list_all well_formed rs"
    using assms b by (simp add: rs_def list_all_iff wf max_record_content_def)
  moreover have "fst (send_request i ps pieces) = concat (map write_record rs)"
    by (simp add: rs_def pr send_request_def send_begin_request_def send_params_def send_stdin_def Let_def comp_def b_def be16_def)
  ultimately have "read_records (fst (send_request i ps pieces)) = Some rs" by (simp only: read_records_written)
  moreover have "decode_pairs (length (params_bytes ps)) (params_bytes ps) = Some ps"
    using assms(1) pairs_in_params length_pairs by (intro decode_params) (fastforce simp: max_record_content_def)+
  moreover have "b = be16 1 @ map char_of [0, 0, 1, 0, 0, 0 :: nat]" by (simp add: b_def byte_def numeral_eq_Suc)
  ultimately show ?thesis
    by (intro exI [of _ rs]) (auto simp: rs_def pr comp_def map_replicate_const replicate_append_same)
qed

text \<open>C13. A request is read back: as long as the parameters fit into one record, a peer that reads what \<open>sendBeginRequest\<close>, \<open>sendParams\<close>
  and \<open>sendStdin\<close> have written sees exactly one begin record that keeps the connection, the parameters, and the body of the
  request in the pieces it was read in, each stream closed by an empty record, all under the ID of the request.\<close>

theorem request_is_read_back:
  assumes "length (params_bytes ps) \<le> max_record_content" and "\<forall>c \<in> set pieces. length c \<le> max_record_content"
  shows "\<exists>rs. read_records (fst (send_request i ps pieces)) = Some rs \<and> (\<forall>r \<in> set rs. fr_id r = i) \<and>
     map fr_type rs = [type_begin_req, type_params, type_params] @ replicate (length pieces + 1) type_stdin \<and>
     fr_content (rs ! 0) = be16 1 @ map char_of [0, 0, 1, 0, 0, 0 :: nat] \<and>
     decode_pairs (length (fr_content (rs ! 1))) (fr_content (rs ! 1)) = Some ps \<and> fr_content (rs ! 2) = '''' \<and>
     map fr_content (drop 3 rs) = pieces @ ['''']"
  by (rule read_back [OF assms])

text \<open>C20. Parameters of more than 65535 bytes are written into a single record whose length is cut to 16 bits. The peer takes the
  first bytes for all the parameters and reads what follows them as records of their own: whatever stands there, for instance in
  a long request header, arrives as records of the gateway.\<close>

theorem long_parameters_become_records:
  assumes "params_bytes ps = a @ p @ write_record forged @ beyond"
    and "length a = length (params_bytes ps) mod 2 ^ 16" and "length p = pad_length (word_of_nat (length a))" and "well_formed forged"
  shows "length (params_bytes ps) > max_record_content \<and>
    (\<exists>r rest. read_record (send_params i ps) = Some (r, write_record forged @ rest) \<and>
       fr_type r = type_params \<and> fr_content r = a \<and> read_record (write_record forged @ rest) = Some (forged, rest))"
proof
  let ?n = "length (params_bytes ps)"
  have "?n \<noteq> length a" using assms(1) by simp
  then show "?n > max_record_content" using assms(2) by (cases "?n < 65536") (auto simp: max_record_content_def)
  let ?r = "plain_record type_params i ?n (params_bytes ps)"
  have len: "fr_length ?r = word_of_nat (length a)"
    unfolding plain_record_def assms(2) by (simp add: word_of_nat_eq_iff take_bit_eq_mod)
  have a: "unat (word_of_nat (length a) :: 16 word) = length a" using assms(2) by (simp add: unat_of_nat)
  let ?z = "replicate (length p) (char_of (0 :: nat))"
  let ?rest = "beyond @ ?z @ write_record (plain_record type_params i 0 '''')"
  have tail: "fr_content ?r @ replicate (pad_length (fr_length ?r)) (char_of (0 :: nat)) @ write_record (plain_record type_params i 0 '''')
      = a @ p @ write_record forged @ ?rest"
    by (simp add: len assms(3) [symmetric]) (simp add: plain_record_def assms(1))
  have "read_record (write_record ?r @ write_record (plain_record type_params i 0 '''')) =
      Some (?r\<lparr>fr_padding := get8 (char_of (length p)), fr_content := a\<rparr>, write_record forged @ ?rest)"
    using read_write_record [of ?r "write_record (plain_record type_params i 0 '''')", unfolded tail]
    by (simp add: len a Let_def assms(3) [symmetric])
  moreover have "read_record (write_record forged @ ?rest) = Some (forged, ?rest)"
    by (rule read_write_well_formed [OF assms(4)])
  ultimately show "\<exists>r rest. read_record (send_params i ps) = Some (r, write_record forged @ rest) \<and>
       fr_type r = type_params \<and> fr_content r = a \<and> read_record (write_record forged @ rest) = Some (forged, rest)"
    by (simp add: send_params_def Let_def plain_record_def)
qed

section \<open>A response\<close>

datatype fcgi_error = RecordUnreadable | ResponseTooLarge | ShortEndRequest

type_synonym end_request = "32 word \<times> 32 word"

definition end_request_data :: "string \<Rightarrow> end_request" where
  "end_request_data c = (get32 (take 4 c), get32 (take 4 (drop 4 c)))"

text \<open>\<open>readResponse\<close>: standard output, error output and the data of the end record; with the bytes that are left on the connection.\<close>

function read_response ::
  "16 word \<Rightarrow> string \<Rightarrow> string \<Rightarrow> string \<Rightarrow> (fcgi_error + string \<times> string \<times> end_request) \<times> string" where
  "read_response i out err s =
     (case read_record s of
        None \<Rightarrow> (Inl RecordUnreadable, s)
      | Some (r, rest) \<Rightarrow>
          if fr_id r \<noteq> i then read_response i out err rest
          else if fr_type r = type_stdout then
            (if length out + length (fr_content r) > max_response_size then (Inl ResponseTooLarge, rest)
             else read_response i (out @ fr_content r) err rest)
          else if fr_type r = type_stderr then
            (if length err + length (fr_content r) > max_response_size then (Inl ResponseTooLarge, rest)
             else read_response i out (err @ fr_content r) rest)
          else if fr_type r = type_end_request then
            (if length (fr_content r) < 8 then (Inl ShortEndRequest, rest)
             else (Inr (out, err, end_request_data (fr_content r)), rest))
          else read_response i out err rest)"
  by pat_completeness auto
termination
  by (relation "measure (\<lambda>(i, out, err, s). length s)") (auto dest: read_record_shorter)

declare read_response.simps [simp del]

definition outputs :: "8 word \<Rightarrow> 16 word \<Rightarrow> fcgi_record list \<Rightarrow> string list" where
  "outputs ty i rs = map fr_content (filter (\<lambda>r. fr_id r = i \<and> fr_type r = ty) rs)"

lemma outputs_simps [simp]:
  "outputs ty i [] = []"
  "outputs ty i (r # rs) = (if fr_id r = i \<and> fr_type r = ty then [fr_content r] else []) @ outputs ty i rs"
  by (simp_all add: outputs_def)

lemma read_response_records:
  assumes "list_all well_formed rs" and "\<forall>r \<in> set rs. fr_id r = i \<longrightarrow> fr_type r \<noteq> type_end_request"
    and "length out + length (concat (outputs type_stdout i rs)) \<le> max_response_size"
    and "length err + length (concat (outputs type_stderr i rs)) \<le> max_response_size"
  shows "read_response i out err (concat (map write_record rs) @ rest) =
    read_response i (out @ concat (outputs type_stdout i rs)) (err @ concat (outputs type_stderr i rs)) rest"
  using assms
proof (induction rs arbitrary: out err)
  case (Cons r rs)
  have "read_record (write_record r @ concat (map write_record rs) @ rest) = Some (r, concat (map write_record rs) @ rest)"
    using Cons.prems(1) by (intro read_write_well_formed) simp
  with Cons show ?case
    by (subst read_response.simps) (auto simp: fcgi_types)
qed simp

text \<open>A response is what the peer has written for this request: if records in any order, of this and of earlier requests on
  the connection, are followed by the end record of this one, and no output exceeds 64 MB, then \<open>Execute\<close> returns the
  outputs of this request in their order, and the bytes after its end record stay on the connection.\<close>

theorem response_is_own_output:
  assumes "list_all well_formed (rs @ [e])" and "\<forall>r \<in> set rs. fr_id r = i \<longrightarrow> fr_type r \<noteq> type_end_request"
    and "fr_id e = i" and "fr_type e = type_end_request" and "8 \<le> length (fr_content e)"
    and "length (concat (outputs type_stdout i rs)) \<le> max_response_size"
    and "length (concat (outputs type_stderr i rs)) \<le> max_response_size"
  shows "read_response i '''' '''' (concat (map write_record (rs @ [e])) @ rest) =
    (Inr (concat (outputs type_stdout i rs), concat (outputs type_stderr i rs), end_request_data (fr_content e)), rest)"
proof -
  have "read_record (write_record e @ rest) = Some (e, rest)" using assms(1) by (intro read_write_well_formed) simp
  then have "read_response i out err (write_record e @ rest) = (Inr (out, err, end_request_data (fr_content e)), rest)" for out err
    using assms(3-5) by (subst read_response.simps) (simp add: fcgi_types)
  then show ?thesis
    using read_response_records [of rs i "''''" "''''" "write_record e @ rest"] assms(1,2,6,7) by simp
qed

section \<open>A response as a stream\<close>

text \<open>\<open>ResponseStream\<close>, as long as it is not closed.\<close>

record response_stream =
  st_conn :: string
  st_id :: "16 word"
  st_buf :: string
  st_stderr :: string
  st_end :: "end_request option"
  st_done :: bool

datatype read_result = Data string | Eof | ReadFailed

definition open_stream :: "16 word \<Rightarrow> string \<Rightarrow> response_stream" where
  "open_stream i s = \<lparr>st_conn = s, st_id = i, st_buf = '''', st_stderr = '''', st_end = None, st_done = False\<rparr>"

definition stream_record :: "fcgi_record \<Rightarrow> response_stream \<Rightarrow> response_stream" where
  "stream_record r s =
     (if fr_id r \<noteq> st_id s then s
      else if fr_type r = type_stdout then s\<lparr>st_buf := st_buf s @ fr_content r\<rparr>
      else if fr_type r = type_stderr then s\<lparr>st_stderr := st_stderr s @ fr_content r\<rparr>
      else if fr_type r = type_end_request then
        s\<lparr>st_done := True, st_end := (if 8 \<le> length (fr_content r) then Some (end_request_data (fr_content r)) else st_end s)\<rparr>
      else s)"

text \<open>
  \<open>io.ReadFull\<close> gives \<open>io.EOF\<close> only where it has read nothing: at the end of the connection in front of a record, of its content or
  of its padding. The error is passed on as it is.
\<close>

definition read_eof :: "string \<Rightarrow> bool" where
  "read_eof s \<longleftrightarrow>
     s = [] \<or>
     8 \<le> length s \<and>
       (let len = unat (get16 (s ! 4) (s ! 5)); pad = unat (get8 (s ! 6)); body = drop 8 s
        in 0 < len \<and> body = [] \<or> 0 < pad \<and> length body = len)"

text \<open>The loop of \<open>Read\<close>: the error it ends with, \<open>None\<close> where it ends without one.\<close>

function stream_fill :: "response_stream \<Rightarrow> read_result option \<times> response_stream" where
  "stream_fill s =
     (if st_buf s \<noteq> '''' \<or> st_done s then (None, s)
      else (case read_record (st_conn s) of
              None \<Rightarrow> (Some (if read_eof (st_conn s) then Eof else ReadFailed), s\<lparr>st_conn := ''''\<rparr>)
            | Some (r, rest) \<Rightarrow> stream_fill (stream_record r (s\<lparr>st_conn := rest\<rparr>))))"
  by pat_completeness auto
termination
  by (relation "measure (\<lambda>s. length (st_conn s))") (auto simp: stream_record_def dest: read_record_shorter)

declare stream_fill.simps [simp del]

definition stream_read :: "nat \<Rightarrow> response_stream \<Rightarrow> read_result \<times> response_stream" where
  "stream_read n s =
     (case stream_fill s of
        (Some e, s') \<Rightarrow> (e, s')
      | (None, s') \<Rightarrow>
          if st_buf s' \<noteq> '''' then (Data (take n (st_buf s')), s'\<lparr>st_buf := drop n (st_buf s')\<rparr>)
          else (Eof, s'))"

text \<open>What the stream promises: a reader of the pieces of the output, one at a time.\<close>

fun read_pieces :: "nat \<Rightarrow> string list \<Rightarrow> read_result \<times> string list" where
  "read_pieces n [] = (Eof, [])"
| "read_pieces n (c # cs) = (Data (take n c), (if drop n c = '''' then [] else [drop n c]) @ cs)"

definition nonempty :: "string list \<Rightarrow> string list" where "nonempty cs = filter (\<lambda>c. c \<noteq> '''') cs"

text \<open>
  The stream will give the pieces \<open>cs\<close>: it is done or its end record lies behind them (\<open>whole\<close>), or the connection has been closed
  behind the last record, with no end record.
\<close>

definition stream_pieces :: "bool \<Rightarrow> response_stream \<Rightarrow> string list \<Rightarrow> bool" where
  "stream_pieces whole s cs \<longleftrightarrow>
     (if st_done s then whole \<and> cs = nonempty [st_buf s]
      else \<exists>rs tail. st_conn s = concat (map write_record rs) @ tail \<and> list_all well_formed rs \<and>
        (\<forall>r \<in> set rs. fr_id r = st_id s \<longrightarrow> fr_type r \<noteq> type_end_request) \<and>
        (if whole then \<exists>e rest. tail = write_record e @ rest \<and> well_formed e \<and> fr_id e = st_id s \<and> fr_type e = type_end_request
         else tail = '''') \<and>
        cs = nonempty (st_buf s # outputs type_stdout (st_id s) rs))"

lemma stream_record_fields [simp]: "st_id (stream_record r s) = st_id s" "st_conn (stream_record r s) = st_conn s"
  by (simp_all add: stream_record_def)

lemma end_record_done: "fr_id e = st_id s \<Longrightarrow> fr_type e = type_end_request \<Longrightarrow>
    st_done (stream_record e s) \<and> st_buf (stream_record e s) = st_buf s"
  by (simp add: stream_record_def fcgi_types)

lemma other_record:
  assumes "fr_id r = st_id s \<longrightarrow> fr_type r \<noteq> type_end_request"
  shows "st_done (stream_record r s) = st_done s \<and>
    nonempty (st_buf (stream_record r s) # outputs type_stdout (st_id s) rs) = nonempty ((st_buf s @ concat (outputs type_stdout (st_id s) [r])) # outputs type_stdout (st_id s) rs)"
  using assms by (auto simp: stream_record_def fcgi_types)

lemma stream_fill_pieces:
  assumes "stream_pieces whole s cs"
  shows "(fst (stream_fill s) = None \<or> fst (stream_fill s) = Some Eof) \<and> stream_pieces whole (snd (stream_fill s)) cs \<and>
    (st_buf (snd (stream_fill s)) = '''' \<longrightarrow> cs = []) \<and> (fst (stream_fill s) \<noteq> None \<longrightarrow> cs = [])"
  using assms
proof (induction s rule: stream_fill.induct)
  case (1 s)
  show ?case
  proof (cases "st_buf s \<noteq> '''' \<or> st_done s")
    case True
    then have "stream_fill s = (None, s)" by (subst stream_fill.simps) simp
    with True 1(2) show ?thesis by (auto simp: stream_pieces_def nonempty_def)
  next
    case False
    with 1(2) obtain rs tail where h: "st_conn s = concat (map write_record rs) @ tail" "list_all well_formed rs"
      "\<forall>r \<in> set rs. fr_id r = st_id s \<longrightarrow> fr_type r \<noteq> type_end_request"
      and e: "if whole then \<exists>e rest. tail = write_record e @ rest \<and> well_formed e \<and> fr_id e = st_id s \<and> fr_type e = type_end_request
         else tail = ''''" and cs: "cs = nonempty (st_buf s # outputs type_stdout (st_id s) rs)"
      by (auto simp: stream_pieces_def)
    have step: "stream_fill s = stream_fill (stream_record r (s\<lparr>st_conn := rest\<rparr>))" if "read_record (st_conn s) = Some (r, rest)" for r rest
      using False that by (subst stream_fill.simps) simp
    show ?thesis
    proof (cases rs)
      case Nil
      then have "cs = []" using cs False by (simp add: nonempty_def)
      show ?thesis
      proof (cases whole)
        case True
        with e Nil h obtain e rest where e: "st_conn s = write_record e @ rest" "well_formed e" "fr_id e = st_id s" "fr_type e = type_end_request"
          by auto
        let ?s' = "stream_record e (s\<lparr>st_conn := rest\<rparr>)"
        have read: "read_record (st_conn s) = Some (e, rest)" using e by (simp add: read_write_well_formed)
        have "stream_pieces whole ?s' cs"
          using end_record_done [of e "s\<lparr>st_conn := rest\<rparr>"] e(3,4) True False \<open>cs = []\<close> by (simp add: stream_pieces_def nonempty_def)
        then show ?thesis using 1(1) [OF _ read refl] False step [OF read] by simp
      next
        case False': False
        with e Nil h have "st_conn s = ''''" by simp
        moreover have "read_record '''' = None" by (simp add: read_record_def)
        ultimately have "stream_fill s = (Some Eof, s)" using False by (subst stream_fill.simps) (simp add: read_eof_def)
        then show ?thesis using 1(2) \<open>cs = []\<close> by simp
      qed
    next
      case (Cons r rs')
      let ?rest = "concat (map write_record rs') @ tail"
      let ?s' = "stream_record r (s\<lparr>st_conn := ?rest\<rparr>)"
      have read: "read_record (st_conn s) = Some (r, ?rest)" using h(1,2) Cons by (simp add: read_write_well_formed)
      have "stream_pieces whole ?s' cs"
        using other_record [of r "s\<lparr>st_conn := ?rest\<rparr>" rs'] h(2,3) e cs Cons False
        by (auto simp: stream_pieces_def nonempty_def intro!: exI [of _ rs'] exI [of _ tail])
      then show ?thesis using 1(1) [OF _ read refl] False step [OF read] by simp
    qed
  qed
qed

lemma stream_reads:
  assumes "stream_pieces whole s cs"
  shows "fst (stream_read n s) = fst (read_pieces n cs) \<and> stream_pieces whole (snd (stream_read n s)) (snd (read_pieces n cs))"
proof -
  obtain e s' where s': "stream_fill s = (e, s')" "stream_pieces whole s' cs" "e = None \<or> e = Some Eof"
    "st_buf s' = '''' \<longrightarrow> cs = []" "e \<noteq> None \<longrightarrow> cs = []"
    using stream_fill_pieces [OF assms] by (cases "stream_fill s") auto
  show ?thesis
  proof (cases "st_buf s' = '''' \<or> e \<noteq> None")
    case True
    with s' show ?thesis by (auto simp: stream_read_def)
  next
    case False
    with s'(2) obtain cs' where cs: "cs = st_buf s' # cs'" by (auto simp: stream_pieces_def nonempty_def split: if_splits)
    with s' False show ?thesis by (auto simp: stream_read_def stream_pieces_def nonempty_def split: if_splits)
  qed
qed

text \<open>C15. The stream implements the reader of pieces: reading any number of bytes gives the same bytes or the same end, and leaves
  it at the pieces that remain, whatever other records lie between those of the output. This holds whether the end record follows or
  the connection was closed behind any record (\<open>whole\<close> does not matter): a response that is cut off ends like a complete one.\<close>

theorem stream_reads_pieces:
  assumes "stream_pieces whole s cs"
  shows "fst (stream_read n s) = fst (read_pieces n cs) \<and> stream_pieces whole (snd (stream_read n s)) (snd (read_pieces n cs))"
  by (rule stream_reads [OF assms])

section \<open>Witnesses\<close>

definition demo_params :: "(string \<times> string) list" where
  "demo_params = [(''SCRIPT_NAME'', ''/index.php''), (''QUERY_STRING'', '''')]"

theorem request_is_read_back_witness:
  "\<exists>rs. read_records (fst (send_request 1 demo_params [''a=1''])) = Some rs \<and>
     decode_pairs (length (fr_content (rs ! 1))) (fr_content (rs ! 1)) = Some demo_params \<and>
     map fr_content (drop 3 rs) = [''a=1'', '''']"
proof -
  have "length (params_bytes demo_params) \<le> max_record_content" "\<forall>c \<in> set [''a=1'']. length c \<le> max_record_content"
    by (simp_all add: params_bytes_def demo_params_def encode_pair_def encode_length_def max_record_content_def)
  from request_is_read_back [OF this, of 1] show ?thesis by auto
qed

text \<open>A header of 65 KB that holds the end record of a request.\<close>

definition demo_forged :: fcgi_record where
  "demo_forged = padded (plain_record type_stdin 1 0 '''')"

definition demo_long_params :: "(string \<times> string) list" where
  "demo_long_params = [(''X'', ''..'' @ write_record demo_forged @ replicate 65528 CHR ''.'')]"

theorem long_parameters_become_records_witness:
  "\<exists>r rest. read_record (send_params 1 demo_long_params) = Some (r, write_record demo_forged @ rest) \<and>
     read_record (write_record demo_forged @ rest) = Some (demo_forged, rest) \<and> length (fr_content r) = 8"
proof -
  have wf: "well_formed demo_forged" unfolding demo_forged_def by (rule well_formed_plain [of "''''", simplified]) 
  have len: "length (write_record demo_forged) = 8"
    by (simp add: write_record_def be16_def demo_forged_def padded_def plain_record_def pad_length_def)
  define a where "a = encode_length 1 @ encode_length 65538 @ ''X..''"
  have "length a = 8" by (simp add: a_def encode_length_def)
  moreover have params: "params_bytes demo_long_params = a @ '''' @ write_record demo_forged @ replicate 65528 CHR ''.''"
    by (simp add: params_bytes_def demo_long_params_def encode_pair_def a_def len)
  moreover have "length (params_bytes demo_long_params) = 65544" using params len \<open>length a = 8\<close> by simp
  moreover have "pad_length (word_of_nat 8) = 0" by (simp add: pad_length_def)
  ultimately show ?thesis
    using long_parameters_become_records [OF params _ _ wf, of 1] by auto
qed

theorem response_is_own_output_witness:
  "read_response 2 '''' ''''
     (concat (map write_record (map padded [plain_record type_stdout 1 3 ''old'', plain_record type_stdout 2 2 ''ok'',
        plain_record type_end_request 2 8 (replicate 8 (char_of (0 :: nat)))])) @ ''next'') =
   (Inr (''ok'', '''', end_request_data (replicate 8 (char_of (0 :: nat)))), ''next'')"
proof -
  let ?rs = "map padded [plain_record type_stdout 1 3 ''old'', plain_record type_stdout 2 2 ''ok'']"
  let ?e = "padded (plain_record type_end_request 2 8 (replicate 8 (char_of (0 :: nat))))"
  have wf: "list_all well_formed (?rs @ [?e])"
    by (simp add: well_formed_of_length)
  have "outputs type_stdout 2 ?rs = [''ok'']" "outputs type_stderr 2 ?rs = []"
    by (simp_all add: padded_def plain_record_def fcgi_types)
  then show ?thesis
    using response_is_own_output [OF wf, of 2 "''next''"]
    by (simp add: max_response_size_def padded_def plain_record_def fcgi_types)
qed

lemma stream_pieces_open:
  assumes "list_all well_formed (map padded rs)" and "\<forall>r \<in> set rs. fr_id r = i \<longrightarrow> fr_type r \<noteq> type_end_request"
    and "cs = nonempty (outputs type_stdout i (map padded rs))"
  shows "stream_pieces False (open_stream i (concat (map write_record (map padded rs)))) cs"
    and "well_formed e \<Longrightarrow> fr_id e = i \<Longrightarrow> fr_type e = type_end_request \<Longrightarrow>
      stream_pieces True (open_stream i (concat (map write_record (map padded rs)) @ write_record e @ rest)) cs"
proof -
  have other: "\<forall>r \<in> set (map padded rs). fr_id r = i \<longrightarrow> fr_type r \<noteq> type_end_request" using assms(2) by (simp add: padded_def)
  have cs: "cs = nonempty ('''' # outputs type_stdout i (map padded rs))" using assms(3) by (simp add: nonempty_def)
  show "stream_pieces False (open_stream i (concat (map write_record (map padded rs)))) cs"
    unfolding stream_pieces_def open_stream_def response_stream.select_convs if_False
    by (rule exI [of _ "map padded rs"], rule exI [of _ "''''"], intro conjI assms(1) other cs) simp_all
  assume "well_formed e" "fr_id e = i" "fr_type e = type_end_request"
  then have e: "\<exists>e' rest'. write_record e @ rest = write_record e' @ rest' \<and> well_formed e' \<and> fr_id e' = i \<and> fr_type e' = type_end_request"
    by blast
  show "stream_pieces True (open_stream i (concat (map write_record (map padded rs)) @ write_record e @ rest)) cs"
    unfolding stream_pieces_def open_stream_def response_stream.select_convs if_False if_True
    by (rule exI [of _ "map padded rs"], rule exI [of _ "write_record e @ rest"], intro conjI assms(1) other cs e) simp_all
qed

theorem stream_reads_pieces_witness:
  "fst (stream_read 2 (open_stream 1 (concat (map write_record (map padded [plain_record type_stdout 1 3 ''abc'']))))) = Data ''ab''"
proof -
  have "stream_pieces False (open_stream 1 (concat (map write_record (map padded [plain_record type_stdout 1 3 ''abc''])))) [''abc'']"
    by (rule stream_pieces_open) (simp_all add: well_formed_of_length, simp_all add: nonempty_def padded_def plain_record_def fcgi_types)
  from stream_reads_pieces [OF this, of 2] show ?thesis by simp
qed

end
