(* ===== verification/FastCgiPool.thy ===== *)
theory FastCgiPool
  imports Prelude
begin

text \<open>The pool of connections to PHP-FPM in \<open>internal/php/fastcgi/pool.go\<close>, as a machine whose account is its invariant.\<close>

section \<open>Operations\<close>

text \<open>
  Connections are numbered. \<open>Get\<close> is split where the lock is free: it takes an idle connection or begins to dial, and the
  dialling ends later. The idle connections stand in the order in which they were put back, with the time.
\<close>

record pool =
  pl_max_idle :: nat
  pl_max_active :: int
  pl_idle_timeout :: int
  pl_idle :: "(nat \<times> int) list"
  pl_active :: int
  pl_closed :: bool

definition new_pool :: "int \<Rightarrow> int \<Rightarrow> int \<Rightarrow> pool" where
  "new_pool max_idle max_active idle_timeout =
     \<lparr>pl_max_idle = (if max_idle \<le> 0 then 10 else nat max_idle), pl_max_active = (if max_active \<le> 0 then 100 else max_active),
      pl_idle_timeout = (if idle_timeout \<le> 0 then 60 * 10 ^ 9 else idle_timeout), pl_idle = [], pl_active = 0, pl_closed = False\<rparr>"

text \<open>The loop over the idle connections, the latest first: those that have expired are closed.\<close>

fun take_idle :: "int \<Rightarrow> int \<Rightarrow> (nat \<times> int) list \<Rightarrow> int \<Rightarrow> nat option \<times> (nat \<times> int) list \<times> int" where
  "take_idle now timeout [] active = (None, [], active)"
| "take_idle now timeout ((c, used) # xs) active =
     (if 0 < timeout \<and> now - used > timeout then take_idle now timeout xs (active - 1) else (Some c, xs, active))"

datatype pool_get = PoolClosed | PoolExhausted | GotIdle nat | Dialing

definition begin_get :: "int \<Rightarrow> pool \<Rightarrow> pool_get \<times> pool" where
  "begin_get now p =
     (if pl_closed p then (PoolClosed, p)
      else
        (case take_idle now (pl_idle_timeout p) (rev (pl_idle p)) (pl_active p) of
           (Some c, xs, active) \<Rightarrow> (GotIdle c, p\<lparr>pl_idle := rev xs, pl_active := active\<rparr>)
         | (None, xs, active) \<Rightarrow>
             if 0 < pl_max_active p \<and> active \<ge> pl_max_active p then (PoolExhausted, p\<lparr>pl_idle := rev xs, pl_active := active\<rparr>)
             else (Dialing, p\<lparr>pl_idle := rev xs, pl_active := active + 1\<rparr>)))"

definition dial_failed :: "pool \<Rightarrow> pool" where "dial_failed p = p\<lparr>pl_active := pl_active p - 1\<rparr>"

definition pool_put :: "nat \<Rightarrow> bool \<Rightarrow> int \<Rightarrow> pool \<Rightarrow> pool" where
  "pool_put c failed now p =
     (if pl_closed p \<or> failed then p\<lparr>pl_active := pl_active p - 1\<rparr>
      else if length (pl_idle p) < pl_max_idle p then p\<lparr>pl_idle := pl_idle p @ [(c, now)]\<rparr>
      else p\<lparr>pl_active := pl_active p - 1\<rparr>)"

definition close_pool :: "pool \<Rightarrow> pool" where
  "close_pool p = (if pl_closed p then p else p\<lparr>pl_closed := True, pl_idle := [], pl_active := 0\<rparr>)"

definition pool_stats :: "pool \<Rightarrow> nat \<times> int" where "pool_stats p = (length (pl_idle p), pl_active p)"

text \<open>A run: the pool, the connections that are lent, the number of calls that dial, and the connections made so far.\<close>

record pool_run =
  pr_pool :: pool
  pr_lent :: "nat list"
  pr_dialing :: nat
  pr_made :: nat

inductive pool_step :: "pool_run \<Rightarrow> pool_run \<Rightarrow> bool" where
  got_idle: "begin_get now (pr_pool w) = (GotIdle c, p) \<Longrightarrow> pool_step w (w\<lparr>pr_pool := p, pr_lent := c # pr_lent w\<rparr>)"
| refused: "begin_get now (pr_pool w) = (r, p) \<Longrightarrow> r = PoolClosed \<or> r = PoolExhausted \<Longrightarrow> pool_step w (w\<lparr>pr_pool := p\<rparr>)"
| dials: "begin_get now (pr_pool w) = (Dialing, p) \<Longrightarrow> pool_step w (w\<lparr>pr_pool := p, pr_dialing := pr_dialing w + 1\<rparr>)"
| dialed: "0 < pr_dialing w \<Longrightarrow>
    pool_step w (w\<lparr>pr_dialing := pr_dialing w - 1, pr_lent := pr_made w # pr_lent w, pr_made := pr_made w + 1\<rparr>)"
| dial_fails: "0 < pr_dialing w \<Longrightarrow> pool_step w (w\<lparr>pr_pool := dial_failed (pr_pool w), pr_dialing := pr_dialing w - 1\<rparr>)"
| put_back: "c \<in> set (pr_lent w) \<Longrightarrow>
    pool_step w (w\<lparr>pr_pool := pool_put c failed now (pr_pool w), pr_lent := remove1 c (pr_lent w)\<rparr>)"
| closes: "pool_step w (w\<lparr>pr_pool := close_pool (pr_pool w)\<rparr>)"

definition pool_start :: "int \<Rightarrow> int \<Rightarrow> int \<Rightarrow> pool_run \<Rightarrow> bool" where
  "pool_start max_idle max_active idle_timeout w \<longleftrightarrow>
     w = \<lparr>pr_pool = new_pool max_idle max_active idle_timeout, pr_lent = [], pr_dialing = 0, pr_made = 0\<rparr>"

definition pool_ok :: "int \<Rightarrow> int \<Rightarrow> pool_run \<Rightarrow> bool" where
  "pool_ok max_idle max_active w \<longleftrightarrow>
     (let p = pr_pool w; idle = map fst (pl_idle p)
      in pl_max_idle p = (if max_idle \<le> 0 then 10 else nat max_idle) \<and> pl_max_active p = (if max_active \<le> 0 then 100 else max_active) \<and>
         length idle \<le> pl_max_idle p \<and> distinct (idle @ pr_lent w) \<and> (\<forall>c \<in> set (idle @ pr_lent w). c < pr_made w) \<and>
         (\<not> pl_closed p \<longrightarrow> pl_active p = int (length idle + length (pr_lent w) + pr_dialing w) \<and> pl_active p \<le> pl_max_active p) \<and>
         (pl_closed p \<longrightarrow> idle = []))"

lemma take_idle_spec:
  "take_idle now timeout xs active = (r, ys, active') \<Longrightarrow>
   \<exists>zs. map fst xs = zs @ (case r of None \<Rightarrow> [] | Some c \<Rightarrow> [c]) @ map fst ys \<and> active' = active - int (length zs) \<and>
     (r = None \<longrightarrow> ys = [])"
proof (induction now timeout xs active rule: take_idle.induct)
  case (2 now timeout c used xs active)
  show ?case
  proof (cases "0 < timeout \<and> now - used > timeout")
    case True
    with 2 obtain zs where "map fst xs = zs @ (case r of None \<Rightarrow> [] | Some c \<Rightarrow> [c]) @ map fst ys"
      "active' = active - 1 - int (length zs)" "r = None \<longrightarrow> ys = []" by auto
    then show ?thesis by (intro exI [of _ "c # zs"]) auto
  next
    case False
    with 2 show ?thesis by (intro exI [of _ "[]"]) auto
  qed
qed auto

text \<open>What \<open>Get\<close> leaves of the idle connections, and the one it returns.\<close>

lemma begin_get_spec:
  assumes "begin_get now p = (r, p')" and "\<not> pl_closed p"
  shows "\<exists>zs. map fst (pl_idle p) = map fst (pl_idle p') @ (case r of GotIdle c \<Rightarrow> [c] | _ \<Rightarrow> []) @ zs \<and>
    pl_active p' = pl_active p - int (length zs) + (case r of Dialing \<Rightarrow> 1 | _ \<Rightarrow> 0) \<and>
    (r = Dialing \<longrightarrow> \<not> (0 < pl_max_active p \<and> pl_active p' > pl_max_active p)) \<and> r \<noteq> PoolClosed \<and>
    p' = p\<lparr>pl_idle := pl_idle p', pl_active := pl_active p'\<rparr>"
proof -
  obtain t ys active where t: "take_idle now (pl_idle_timeout p) (rev (pl_idle p)) (pl_active p) = (t, ys, active)"
    by (cases "take_idle now (pl_idle_timeout p) (rev (pl_idle p)) (pl_active p)") auto
  from take_idle_spec [OF t] obtain zs where zs: "rev (map fst (pl_idle p)) = zs @ (case t of None \<Rightarrow> [] | Some c \<Rightarrow> [c]) @ map fst ys"
    "active = pl_active p - int (length zs)" "t = None \<longrightarrow> ys = []"
    by (auto simp flip: rev_map)
  then have "map fst (pl_idle p) = map fst (rev ys) @ (case t of None \<Rightarrow> [] | Some c \<Rightarrow> [c]) @ rev zs"
    using rev_swap [THEN iffD1, OF zs(1)] by (simp split: option.splits flip: rev_map)
  with zs(2,3) assms t show ?thesis
    by (intro exI [of _ "rev zs"]) (cases p, auto simp: begin_get_def split: option.splits if_splits)
qed

text \<open>Taking some of the idle connections away keeps the account, if the number of those in use is raised by what was taken for use.\<close>

lemma pool_ok_get:
  assumes "begin_get now (pr_pool w) = (r, p)" and "pool_ok max_idle max_active w"
    and "w' = w\<lparr>pr_pool := p, pr_lent := (case r of GotIdle c \<Rightarrow> [c] | _ \<Rightarrow> []) @ pr_lent w,
      pr_dialing := pr_dialing w + (case r of Dialing \<Rightarrow> 1 | _ \<Rightarrow> 0)\<rparr>"
  shows "pool_ok max_idle max_active w'"
proof (cases "pl_closed (pr_pool w)")
  case True
  with assms show ?thesis by (auto simp: begin_get_def)
next
  case False
  from begin_get_spec [OF assms(1) False] obtain zs where
    zs: "map fst (pl_idle (pr_pool w)) = map fst (pl_idle p) @ (case r of GotIdle c \<Rightarrow> [c] | _ \<Rightarrow> []) @ zs"
      "pl_active p = pl_active (pr_pool w) - int (length zs) + (case r of Dialing \<Rightarrow> 1 | _ \<Rightarrow> 0)"
      "r = Dialing \<longrightarrow> \<not> (0 < pl_max_active (pr_pool w) \<and> pl_active p > pl_max_active (pr_pool w))"
    and p: "p = (pr_pool w)\<lparr>pl_idle := pl_idle p, pl_active := pl_active p\<rparr>"
    by blast
  have fields: "pl_max_idle p = pl_max_idle (pr_pool w)" "pl_max_active p = pl_max_active (pr_pool w)"
    "pl_closed p = pl_closed (pr_pool w)" by (subst p, simp)+
  have len: "length (pl_idle (pr_pool w)) = length (pl_idle p) + length (case r of GotIdle c \<Rightarrow> [c] | _ \<Rightarrow> []) + length zs"
    using arg_cong [OF zs(1), of length] by simp
  show ?thesis
    using assms(2) zs(2,3) len fields False unfolding assms(3) pool_ok_def Let_def
    by (cases r) (auto simp: zs(1) split: if_splits)
qed

lemma pool_step_ok:
  assumes "pool_step w w'" and "pool_ok max_idle max_active w"
  shows "pool_ok max_idle max_active w'"
  using assms
proof (induction rule: pool_step.induct)
  case (got_idle now w c p)
  show ?case by (rule pool_ok_get [OF got_idle]) simp
next
  case (refused now w r p)
  show ?case by (rule pool_ok_get [OF refused(1,3)]) (use refused(2) in auto)
next
  case (dials now w p)
  show ?case by (rule pool_ok_get [OF dials]) simp
next
  case (put_back c w failed now)
  let ?p = "pr_pool w" and ?l = "remove1 c (pr_lent w)"
  have ok: "distinct (map fst (pl_idle ?p) @ pr_lent w)" "\<forall>x \<in> set (map fst (pl_idle ?p) @ pr_lent w). x < pr_made w"
    using put_back(2) by (simp_all add: pool_ok_def Let_def)
  have "0 < length (pr_lent w)" using put_back(1) by (rule length_pos_if_in_set)
  with put_back(1) have "length (pr_lent w) = Suc (length ?l)" by (simp only: length_remove1 if_True)
  then have len: "int (length ?l) = int (length (pr_lent w)) - 1" by simp
  have l: "set ?l = set (pr_lent w) - {c}" "distinct ?l" "c \<notin> fst ` set (pl_idle ?p)" using ok(1) put_back(1) by auto
  have d: "distinct (map fst (pl_idle ?p) @ ?l)" "distinct ((map fst (pl_idle ?p) @ [c]) @ ?l)" using ok(1) l by auto
  have m: "\<forall>x \<in> set (map fst (pl_idle ?p) @ ?l). x < pr_made w" "c < pr_made w" using ok(2) l(1) put_back(1) by auto
  show ?case
  proof (cases "pl_closed ?p \<or> failed \<or> \<not> length (pl_idle ?p) < pl_max_idle ?p")
    case True
    then have "pool_put c failed now ?p = ?p\<lparr>pl_active := pl_active ?p - 1\<rparr>" by (auto simp: pool_put_def)
    then show ?thesis using put_back(2) len d(1) m(1) by (auto simp: pool_ok_def Let_def split: if_splits)
  next
    case False
    then have "pool_put c failed now ?p = ?p\<lparr>pl_idle := pl_idle ?p @ [(c, now)]\<rparr>" by (auto simp: pool_put_def)
    then show ?thesis using put_back(2) len d m False by (simp add: pool_ok_def Let_def)
  qed
next
  case (dialed w)
  have old: "\<forall>c \<in> set (map fst (pl_idle (pr_pool w)) @ pr_lent w). c < pr_made w"
    using dialed(2) unfolding pool_ok_def Let_def by blast
  then have "\<forall>c \<in> set (map fst (pl_idle (pr_pool w)) @ pr_lent w). c < pr_made w + 1" by (auto simp: less_Suc_eq)
  moreover have "pr_made w \<notin> set (map fst (pl_idle (pr_pool w)) @ pr_lent w)" using old by blast
  ultimately show ?case using dialed by (auto simp: pool_ok_def Let_def)
qed (auto simp: pool_ok_def Let_def dial_failed_def close_pool_def)

interpretation pool_machine:
  invariant_machine "pool_start max_idle max_active idle_timeout" pool_step "pool_ok max_idle max_active"
proof unfold_locales
  show "pool_ok max_idle max_active w" if "pool_start max_idle max_active idle_timeout w" for w
    using that by (simp add: pool_start_def pool_ok_def new_pool_def)
  show "pool_ok max_idle max_active t" if "pool_step s t" "pool_ok max_idle max_active s" for s t
    using that by (rule pool_step_ok)
qed

text \<open>C16. The pool keeps its account: in every run, with calls of \<open>Get\<close>, \<open>Put\<close> and \<open>Close\<close> in any order and dialling in between,
  no connection is lent twice or idle while it is lent, and as long as the pool is open it counts exactly the idle, the
  lent and the dialled connections, never more than its maximum.\<close>

theorem pool_keeps_account:
  assumes "reachable (pool_start max_idle max_active idle_timeout) pool_step w"
  shows "distinct (map fst (pl_idle (pr_pool w)) @ pr_lent w) \<and>
    (\<not> pl_closed (pr_pool w) \<longrightarrow>
       pool_stats (pr_pool w) = (length (pl_idle (pr_pool w)), int (length (pl_idle (pr_pool w)) + length (pr_lent w) + pr_dialing w)) \<and>
       pl_active (pr_pool w) \<le> (if max_active \<le> 0 then 100 else max_active) \<and>
       length (pl_idle (pr_pool w)) \<le> (if max_idle \<le> 0 then 10 else nat max_idle))"
  using pool_machine.reachable_inv [OF assms] by (auto simp: pool_ok_def Let_def pool_stats_def)

section \<open>Witness\<close>

theorem pool_keeps_account_witness:
  "\<exists>w. reachable (pool_start 1 1 0) pool_step w \<and> pr_lent w = [0] \<and> pl_active (pr_pool w) = 1"
proof -
  let ?w0 = "\<lparr>pr_pool = new_pool 1 1 0, pr_lent = [], pr_dialing = 0, pr_made = 0\<rparr>"
  let ?w1 = "?w0\<lparr>pr_pool := (new_pool 1 1 0)\<lparr>pl_active := 1\<rparr>, pr_dialing := 1\<rparr>"
  let ?w2 = "?w1\<lparr>pr_dialing := 0, pr_lent := [0], pr_made := 1\<rparr>"
  have "pool_step ?w0 ?w1" using pool_step.dials [of 0 ?w0] by (simp add: begin_get_def new_pool_def)
  moreover have "pool_step ?w1 ?w2" using pool_step.dialed [of ?w1] by simp
  moreover have "reachable (pool_start 1 1 0) pool_step ?w0" by (rule reachable_init) (simp add: pool_start_def)
  ultimately have r: "reachable (pool_start 1 1 0) pool_step ?w2" by (blast intro: reachable_step)
  from pool_keeps_account [OF r] have "pl_active (pr_pool ?w2) = 1" by (simp add: pool_stats_def)
  with r show ?thesis by (intro exI [of _ ?w2]) simp
qed

end
