(* ===== verification/CgiResponse.thy ===== *)
theory CgiResponse
  imports FastCgi Policy
begin

text \<open>
  \<open>internal/php/cgi/response.go\<close>: the headers and the body of what PHP has written, from the whole output (\<open>ParseResponse\<close>) or from the
  stream of the connection (\<open>ParseResponseStream\<close>), with the part of \<open>bufio.Scanner\<close> that the latter uses, and the copy of the
  body to the client in \<open>servePHP\<close> (\<open>io.Copy\<close>). Headers are a list of names and values in the order in which they are added; their
  names are compared without regard to case. The error output, which is passed through, is left out.
\<close>

section \<open>Headers\<close>

datatype cgi_error = HeaderTooLarge | TooManyHeaders | InvalidHeader | HeaderInjection | ScanTooLong | StreamFailed

definition crlf :: string where "crlf = [CHR 0x0D, CHR 0x0A]"

definition control_char :: "bool \<Rightarrow> char \<Rightarrow> bool" where
  "control_char tab_ok c \<longleftrightarrow> (of_char c < (32 :: nat) \<and> \<not> (tab_ok \<and> c = CHR 0x09)) \<or> of_char c = (127 :: nat)"

definition parse_header_line :: "string \<Rightarrow> cgi_error + (string \<times> string)" where
  "parse_header_line line =
     (case split_once (CHR '':'') line of
        (_, None) \<Rightarrow> Inl InvalidHeader
      | (n, Some v) \<Rightarrow>
          (let name = trim_space n; val = trim_space v
           in if name = '''' then Inl InvalidHeader
              else if list_ex (control_char False) name then Inl HeaderInjection
              else if list_ex (control_char True) val then Inl HeaderInjection
              else Inr (name, val)))"

text \<open>The limits on all headers, on one, and on their number.\<close>

definition max_header_size :: nat where "max_header_size = 64 * 1024"
definition max_header_bytes :: nat where "max_header_bytes = 8192"
definition max_header_count :: nat where "max_header_count = 100"

fun split_crlf :: "string \<Rightarrow> string list" where
  "split_crlf [] = [[]]"
| "split_crlf [c] = [[c]]"
| "split_crlf (c # d # s) =
     (if [c, d] = crlf then [] # split_crlf s
      else (case split_crlf (d # s) of [] \<Rightarrow> [[c]] | l # ls \<Rightarrow> (c # l) # ls))"

text \<open>The loop of \<open>parseHeaders\<close>, with the number of bytes and lines so far.\<close>

fun parse_lines :: "nat \<Rightarrow> nat \<Rightarrow> string list \<Rightarrow> cgi_error + (string \<times> string) list" where
  "parse_lines bytes_so_far n [] = Inr []"
| "parse_lines bytes_so_far n (l # ls) =
     (if l = '''' then parse_lines bytes_so_far n ls
      else if length l > max_header_bytes then Inl HeaderTooLarge
      else if bytes_so_far + length l + 2 > max_header_size then Inl HeaderTooLarge
      else if n + 1 > max_header_count then Inl TooManyHeaders
      else (case parse_header_line l of
              Inl e \<Rightarrow> Inl e
            | Inr h \<Rightarrow> (case parse_lines (bytes_so_far + length l + 2) (n + 1) ls of Inl e \<Rightarrow> Inl e | Inr hs \<Rightarrow> Inr (h # hs))))"

definition parse_headers :: "string \<Rightarrow> cgi_error + (string \<times> string) list" where
  "parse_headers block = parse_lines 0 0 (split_crlf block)"

definition parse_status_line :: "string \<Rightarrow> cgi_error + int" where
  "parse_status_line s =
     (case parse_int64 (fst (split_once (CHR '' '') (trim_space s))) of
        None \<Rightarrow> Inl InvalidHeader
      | Some code \<Rightarrow> if code < 100 \<or> code > 599 then Inl InvalidHeader else Inr code)"

text \<open>The status of a response and its headers without it.\<close>

definition take_status :: "(string \<times> string) list \<Rightarrow> cgi_error + int \<times> (string \<times> string) list" where
  "take_status hs =
     (if header_get hs ''Status'' = '''' then Inr (200, hs)
      else (case parse_status_line (header_get hs ''Status'') of
              Inl e \<Rightarrow> Inl e
            | Inr code \<Rightarrow> Inr (code, filter (\<lambda>(k, v). to_lower k \<noteq> ''status'') hs)))"

section \<open>ParseResponse\<close>

record 'b cgi_response =
  cr_code :: int
  cr_headers :: "(string \<times> string) list"
  cr_body :: 'b

text \<open>\<open>bytes.Index\<close>.\<close>

fun find_str :: "string \<Rightarrow> string \<Rightarrow> nat option" where
  "find_str p [] = (if p = [] then Some 0 else None)"
| "find_str p (c # s) = (if starts_with (c # s) p then Some 0 else map_option Suc (find_str p s))"

definition parse_response :: "string \<Rightarrow> cgi_error + string cgi_response" where
  "parse_response out =
     (if out = '''' then Inr \<lparr>cr_code = 200, cr_headers = [], cr_body = ''''\<rparr>
      else (case find_str (crlf @ crlf) out of
              None \<Rightarrow> Inr \<lparr>cr_code = 200, cr_headers = [], cr_body = out\<rparr>
            | Some i \<Rightarrow>
                (case parse_headers (take i out) of
                   Inl e \<Rightarrow> Inl e
                 | Inr hs \<Rightarrow>
                     (case take_status hs of
                        Inl e \<Rightarrow> Inl e
                      | Inr (code, hs') \<Rightarrow> Inr \<lparr>cr_code = code, cr_headers = hs', cr_body = drop (i + 4) out\<rparr>))))"

section \<open>bufio.Scanner\<close>

text \<open>\<open>scanCRLFHeaders\<close>: how far to advance, and the token if there is one.\<close>

definition scan_split :: "string \<Rightarrow> bool \<Rightarrow> nat \<times> string option" where
  "scan_split data at_eof =
     (if at_eof \<and> data = '''' then (0, None)
      else (case find_str crlf data of
              Some i \<Rightarrow> (i + 2, Some (take i data))
            | None \<Rightarrow>
                if ends_with data crlf then (length data, Some (take (length data - 2) data))
                else if \<not> at_eof then (0, None)
                else (length data, Some data)))"

text \<open>
  A scanner with the buffer of 8192 bytes that \<open>ParseResponseStream\<close> gives it, which cannot grow: the place where the data starts in the
  buffer, the data, and the error met.
\<close>

datatype scan_error = ScanEof | ScanLong | ScanFailed

record scanner =
  sc_stream :: response_stream
  sc_start :: nat
  sc_data :: string
  sc_err :: "scan_error option"

definition new_scanner :: "response_stream \<Rightarrow> scanner" where
  "new_scanner s = \<lparr>sc_stream = s, sc_start = 0, sc_data = '''', sc_err = None\<rparr>"

definition sc_advance :: "nat \<Rightarrow> scanner \<Rightarrow> scanner" where
  "sc_advance n sc = sc\<lparr>sc_start := sc_start sc + n, sc_data := drop n (sc_data sc)\<rparr>"

text \<open>The data is moved to the front where there is no space behind it, or much before it.\<close>

definition sc_shift :: "scanner \<Rightarrow> scanner" where
  "sc_shift sc =
     (if 0 < sc_start sc \<and> (sc_start sc + length (sc_data sc) = max_header_bytes \<or> sc_start sc > max_header_bytes div 2)
      then sc\<lparr>sc_start := 0\<rparr> else sc)"

definition stream_size :: "response_stream \<Rightarrow> nat" where "stream_size s = length (st_conn s) + length (st_buf s)"

lemma stream_fill_size: "stream_size (snd (stream_fill s)) \<le> stream_size s"
proof (induction s rule: stream_fill.induct)
  case (1 s)
  consider "st_buf s \<noteq> '''' \<or> st_done s" | "\<not> (st_buf s \<noteq> '''' \<or> st_done s)" "read_record (st_conn s) = None"
    | r rest where "\<not> (st_buf s \<noteq> '''' \<or> st_done s)" "read_record (st_conn s) = Some (r, rest)" by fastforce
  then show ?case
  proof cases
    case 1
    then show ?thesis by (subst stream_fill.simps) auto
  next
    case 2
    then show ?thesis by (subst stream_fill.simps) (simp add: stream_size_def)
  next
    case r: 3
    have "length rest + length (fr_content r) \<le> length (st_conn s)"
      using r(2) by (auto simp: read_record_def Let_def split: if_splits)
    then have "stream_size (stream_record r (s\<lparr>st_conn := rest\<rparr>)) \<le> stream_size s"
      by (simp add: stream_size_def stream_record_def)
    moreover have "stream_fill s = stream_fill (stream_record r (s\<lparr>st_conn := rest\<rparr>))"
      using r by (subst stream_fill.simps) simp
    ultimately show ?thesis using 1 [OF _ r(2) refl] r(1) by simp
  qed
qed

lemma stream_fill_error: "fst (stream_fill s) \<in> {None, Some Eof, Some ReadFailed}"
proof (induction s rule: stream_fill.induct)
  case (1 s)
  then show ?case by (subst stream_fill.simps) (auto split: option.split)
qed

lemma stream_read_size:
  "stream_read n s = (d, s') \<Longrightarrow> stream_size s' \<le> stream_size s \<and> (\<forall>x. d = Data x \<longrightarrow> 0 < n \<longrightarrow> stream_size s' < stream_size s)"
  using stream_fill_size [of s] stream_fill_error [of s]
  by (auto simp: stream_read_def stream_size_def neq_Nil_conv split: prod.splits option.splits if_splits)

text \<open>\<open>Scan\<close>: the next token, \<open>None\<close> where it returns false.\<close>

function scan :: "scanner \<Rightarrow> string option \<times> scanner" where
  "scan sc =
     (let (n, token) = (if sc_data sc \<noteq> '''' \<or> sc_err sc \<noteq> None then scan_split (sc_data sc) (sc_err sc \<noteq> None) else (0, None));
          sc1 = sc_advance n sc
      in if token \<noteq> None then (token, sc1)
         else if sc_err sc \<noteq> None then (None, sc1\<lparr>sc_start := 0, sc_data := ''''\<rparr>)
         else
           (let sc2 = sc_shift sc1
            in if sc_start sc2 + length (sc_data sc2) \<ge> max_header_bytes then (None, sc2\<lparr>sc_err := Some ScanLong\<rparr>)
               else
                 (case stream_read (max_header_bytes - (sc_start sc2 + length (sc_data sc2))) (sc_stream sc2) of
                    (Data d, s) \<Rightarrow> scan (sc2\<lparr>sc_stream := s, sc_data := sc_data sc2 @ d\<rparr>)
                  | (Eof, s) \<Rightarrow> scan (sc2\<lparr>sc_stream := s, sc_err := Some ScanEof\<rparr>)
                  | (ReadFailed, s) \<Rightarrow> scan (sc2\<lparr>sc_stream := s, sc_err := Some ScanFailed\<rparr>))))"
  by pat_completeness auto
termination
proof -
  have shift: "sc_stream (sc_shift sc) = sc_stream sc" "sc_err (sc_shift sc) = sc_err sc" for sc
    by (simp_all add: sc_shift_def)
  have advance: "sc_stream (sc_advance n sc) = sc_stream sc" "sc_err (sc_advance n sc) = sc_err sc" for n sc
    by (simp_all add: sc_advance_def)
  have less: "\<not> m \<le> k \<Longrightarrow> (Data x, s') = stream_read (m - k) s \<Longrightarrow> stream_size s' < stream_size s" for m k x s s'
    using stream_read_size [of "m - k" s "Data x" s'] by simp
  have le: "(d, s') = stream_read n s \<Longrightarrow> stream_size s' \<le> stream_size s" for n d s s'
    using stream_read_size by metis
  show ?thesis
    by (relation "measures [\<lambda>sc. stream_size (sc_stream sc), \<lambda>sc. if sc_err sc = None then 1 else 0]")
      (auto simp: shift advance dest: less le)
qed

declare scan.simps [simp del]

section \<open>ParseResponseStream\<close>

text \<open>
  The loop over the lines, with the number of lines that may still come: the headers and whether the empty line was found.
\<close>

function stream_headers ::
  "nat \<Rightarrow> nat \<Rightarrow> (string \<times> string) list \<Rightarrow> scanner \<Rightarrow> (cgi_error + (string \<times> string) list \<times> bool) \<times> scanner" where
  "stream_headers k bytes_so_far hs sc =
     (case scan sc of
        (None, sc') \<Rightarrow> (Inr (hs, False), sc')
      | (Some l, sc') \<Rightarrow>
          if l = '''' then (Inr (hs, True), sc')
          else if bytes_so_far + length l + 2 > max_header_size then (Inl HeaderTooLarge, sc')
          else if k = 0 then (Inl TooManyHeaders, sc')
          else (case parse_header_line l of
                  Inl e \<Rightarrow> (Inl e, sc')
                | Inr h \<Rightarrow> stream_headers (k - 1) (bytes_so_far + length l + 2) (hs @ [h]) sc'))"
  by pat_completeness auto
termination
  by (relation "measure (\<lambda>(k, _). k)") auto

declare stream_headers.simps [simp del]

text \<open>The body is what the stream still gives if the empty line was found, and nothing otherwise.\<close>

definition parse_response_stream :: "response_stream \<Rightarrow> cgi_error + response_stream option cgi_response" where
  "parse_response_stream s =
     (case stream_headers max_header_count 0 [] (new_scanner s) of
        (Inl e, _) \<Rightarrow> Inl e
      | (Inr (hs, found), sc) \<Rightarrow>
          if sc_err sc = Some ScanLong then Inl ScanTooLong
          else if sc_err sc = Some ScanFailed then Inl StreamFailed
          else
            (case take_status hs of
               Inl e \<Rightarrow> Inl e
             | Inr (code, hs') \<Rightarrow> Inr \<lparr>cr_code = code, cr_headers = hs', cr_body = (if found then Some (sc_stream sc) else None)\<rparr>))"

text \<open>\<open>io.Copy\<close> with its buffer of 32 KB: what is copied, and whether the end was reached without an error.\<close>

function copy_stream :: "response_stream \<Rightarrow> string \<times> bool" where
  "copy_stream s =
     (case stream_read 32768 s of
        (Data d, s') \<Rightarrow> (let (rest, ok) = copy_stream s' in (d @ rest, ok))
      | (Eof, s') \<Rightarrow> ('''', True)
      | (ReadFailed, s') \<Rightarrow> ('''', False))"
  by pat_completeness auto
termination
proof -
  have "(Data x, s') = stream_read 32768 s \<Longrightarrow> stream_size s' < stream_size s" for x s s'
    using stream_read_size [of 32768 s "Data x" s'] by simp
  then show ?thesis by (relation "measure stream_size") auto
qed

declare copy_stream.simps [simp del]

definition body_bytes :: "response_stream option \<Rightarrow> string \<times> bool" where
  "body_bytes b = (case b of None \<Rightarrow> ('''', True) | Some s \<Rightarrow> copy_stream s)"

lemma copy_pieces:
  assumes "stream_pieces whole s cs"
  shows "copy_stream s = (concat cs, True)"
  using assms
proof (induction s arbitrary: cs rule: copy_stream.induct)
  case (1 s)
  note read = stream_reads [OF 1(2), of 32768]
  show ?case
  proof (cases cs)
    case Nil
    then show ?thesis using read by (subst copy_stream.simps, cases "stream_read 32768 s") simp
  next
    case (Cons c cs')
    obtain s' where s': "stream_read 32768 s = (Data (take 32768 c), s')" "stream_pieces whole s' ((if drop 32768 c = '''' then [] else [drop 32768 c]) @ cs')"
      using read Cons by (cases "stream_read 32768 s") auto
    have "copy_stream s' = (concat ((if drop 32768 c = '''' then [] else [drop 32768 c]) @ cs'), True)"
      using 1(1) [OF s'(1) [symmetric] refl s'(2)] .
    then have "copy_stream s = (take 32768 c @ concat ((if drop 32768 c = '''' then [] else [drop 32768 c]) @ cs'), True)"
      using s'(1) by (subst copy_stream.simps) simp
    moreover have "take 32768 c @ concat ((if drop 32768 c = '''' then [] else [drop 32768 c]) @ cs') = c @ concat cs'"
      by (cases "drop 32768 c = ''''") (metis append_Nil2 append_take_drop_id append_Nil, simp del: drop_eq_Nil)
    ultimately show ?thesis using Cons by simp
  qed
qed

section \<open>Lines in the buffer\<close>

definition header_block :: "string list \<Rightarrow> string" where
  "header_block ls = concat (map (\<lambda>l. l @ crlf) ls) @ crlf"

definition plain_header :: "string \<Rightarrow> bool" where
  "plain_header l \<longleftrightarrow> l \<noteq> '''' \<and> CHR 0x0D \<notin> set l \<and> (\<exists>h. parse_header_line l = Inr h)"

definition parsed_header :: "string \<Rightarrow> string \<times> string" where
  "parsed_header l = (case parse_header_line l of Inr h \<Rightarrow> h | Inl _ \<Rightarrow> ('''', ''''))"

lemma plain_headerD:
  assumes "plain_header l"
  shows "parse_header_line l = Inr (parsed_header l)" and "l \<noteq> ''''" and "CHR 0x0D \<notin> set l"
  using assms by (auto simp: plain_header_def parsed_header_def)

lemma find_str_skip:
  assumes "CHR 0x0D \<notin> set u"
  shows "find_str (CHR 0x0D # p) (u @ v) = map_option (\<lambda>i. length u + i) (find_str (CHR 0x0D # p) v)"
  using assms
proof (induction u)
  case Nil
  show ?case by (cases "find_str (CHR 0x0D # p) v") simp_all
qed (cases "find_str (CHR 0x0D # p) v"; auto simp: starts_with_iff)

lemma find_crlf: "CHR 0x0D \<notin> set l \<Longrightarrow> find_str crlf (l @ crlf @ r) = Some (length l)"
  using find_str_skip [of l "[CHR 0x0A]" "crlf @ r"] by (simp add: crlf_def)

lemma scan_line:
  assumes "sc_err sc = None" and "sc_data sc = l @ crlf @ r" and "CHR 0x0D \<notin> set l"
  shows "scan sc = (Some l, sc_advance (length l + 2) sc)"
proof -
  have "sc_data sc \<noteq> ''''" using assms(2) by (simp add: crlf_def)
  moreover have "scan_split (sc_data sc) False = (length l + 2, Some l)"
    using find_crlf [OF assms(3)] by (simp add: scan_split_def assms(2))
  ultimately show ?thesis using assms(1) by (subst scan.simps) simp
qed

lemma headers_in_buffer:
  assumes "sc_err sc = None" and "sc_data sc = header_block ls @ b" and "list_all plain_header ls"
    and "length ls \<le> k" and "n + length (header_block ls) \<le> max_header_size"
  shows "\<exists>sc'. stream_headers k n hs sc = (Inr (hs @ map parsed_header ls, True), sc') \<and> sc_stream sc' = sc_stream sc \<and> sc_err sc' = None"
  using assms
proof (induction ls arbitrary: k n hs sc)
  case Nil
  then have "scan sc = (Some '''', sc_advance 2 sc)" using scan_line [of sc "''''" b] by (simp add: header_block_def numeral_2_eq_2)
  then show ?case using Nil by (subst stream_headers.simps) (simp add: sc_advance_def)
next
  case (Cons l ls)
  have l: "l \<noteq> ''''" "CHR 0x0D \<notin> set l" "parse_header_line l = Inr (parsed_header l)"
    using Cons.prems(3) by (simp_all add: plain_headerD)
  have data: "sc_data sc = l @ crlf @ header_block ls @ b" using Cons.prems(2) by (simp add: header_block_def)
  have two: "length crlf = 2" by (simp add: crlf_def)
  let ?sc = "sc_advance (length l + 2) sc"
  have "sc_err ?sc = None" "sc_data ?sc = header_block ls @ b" "sc_stream ?sc = sc_stream sc"
    using Cons.prems(1) by (simp_all add: sc_advance_def data two)
  moreover have "length (header_block (l # ls)) = length l + 2 + length (header_block ls)" by (simp add: header_block_def two)
  ultimately have "\<exists>sc'. stream_headers (k - 1) (n + length l + 2) (hs @ [parsed_header l]) ?sc =
      (Inr ((hs @ [parsed_header l]) @ map parsed_header ls, True), sc') \<and> sc_stream sc' = sc_stream sc \<and> sc_err sc' = None"
    using Cons.IH [of ?sc "k - 1" "n + length l + 2" "hs @ [parsed_header l]"] Cons.prems(3-5) by (simp add: add.assoc)
  moreover have "stream_headers k n hs sc = stream_headers (k - 1) (n + length l + 2) (hs @ [parsed_header l]) ?sc"
    using scan_line [OF Cons.prems(1) data l(2)] l Cons.prems(4,5)
    by (subst stream_headers.simps) (simp add: header_block_def two)
  ultimately show ?case by simp
qed

text \<open>The whole output has the same headers.\<close>

lemma split_crlf_line: "CHR 0x0D \<notin> set l \<Longrightarrow> split_crlf (l @ crlf @ r) = l # split_crlf r"
proof (induction l)
  case (Cons c l)
  obtain d t where t: "l @ crlf @ r = d # t" by (cases "l @ crlf @ r") (auto simp: crlf_def)
  with Cons show ?case by (auto simp: crlf_def)
qed (simp add: crlf_def)

lemma split_crlf_plain: "CHR 0x0D \<notin> set l \<Longrightarrow> split_crlf l = [l]"
proof (induction l)
  case (Cons c l)
  then show ?case by (cases l) (auto simp: crlf_def)
qed simp

lemma header_block_join: "ls \<noteq> [] \<Longrightarrow> header_block ls = join crlf ls @ crlf @ crlf"
proof (induction ls rule: induct_list012)
  case (3 l l' ls)
  then have "header_block (l' # ls) = join crlf (l' # ls) @ crlf @ crlf" by simp
  moreover have "header_block (l # l' # ls) = l @ crlf @ header_block (l' # ls)" by (simp add: header_block_def)
  ultimately show ?case by simp
qed (simp_all add: header_block_def)

lemma split_crlf_join: "ls \<noteq> [] \<Longrightarrow> \<forall>l \<in> set ls. CHR 0x0D \<notin> set l \<Longrightarrow> split_crlf (join crlf ls) = ls"
proof (induction ls rule: induct_list012)
  case (3 l l' ls)
  then have "split_crlf (join crlf (l' # ls)) = l' # ls" by simp
  moreover have "split_crlf (l @ crlf @ join crlf (l' # ls)) = l # split_crlf (join crlf (l' # ls))"
    using 3(4) by (intro split_crlf_line) simp
  ultimately show ?case by simp
qed (simp_all add: split_crlf_plain)

lemma parse_lines_plain:
  assumes "list_all plain_header ls" and "n + length ls \<le> max_header_count" and "m + length (header_block ls) \<le> max_header_bytes"
  shows "parse_lines m n ls = Inr (map parsed_header ls)"
  using assms
proof (induction ls arbitrary: m n)
  case (Cons l ls)
  have len: "length (header_block (l # ls)) = length l + 2 + length (header_block ls)" by (simp add: header_block_def crlf_def)
  have "parse_lines (m + length l + 2) (n + 1) ls = Inr (map parsed_header ls)"
    using Cons.prems len by (intro Cons.IH) simp_all
  moreover have "l \<noteq> ''''" "parse_header_line l = Inr (parsed_header l)"
    using Cons.prems(1) by (simp_all add: plain_headerD)
  ultimately show ?case using Cons.prems len by (simp add: max_header_bytes_def max_header_size_def)
qed simp

lemma find_end_of_headers:
  assumes "ls \<noteq> []" and "list_all plain_header ls"
  shows "find_str (crlf @ crlf) (header_block ls @ b) = Some (length (join crlf ls))"
  using assms
proof (induction ls rule: induct_list012)
  case (2 l)
  then have "CHR 0x0D \<notin> set l" by (simp add: plain_header_def)
  then have "find_str (crlf @ crlf) (l @ crlf @ crlf @ b) = Some (length l)"
    using find_str_skip [of l "[CHR 0x0A] @ crlf" "crlf @ crlf @ b"] by (simp add: crlf_def)
  then show ?case by (simp add: header_block_def)
next
  case (3 l l' ls)
  have l: "CHR 0x0D \<notin> set l" "l' \<noteq> ''''" "hd l' \<noteq> CHR 0x0D" using 3(4) by (cases l'; auto simp: plain_header_def)+
  have block: "header_block (l # l' # ls) @ b = l @ crlf @ header_block (l' # ls) @ b" by (simp add: header_block_def)
  obtain c t where c: "l' = c # t" "c \<noteq> CHR 0x0D" using l(2,3) by (cases l') auto
  have "find_str (crlf @ crlf) (crlf @ header_block (l' # ls) @ b) = map_option (\<lambda>i. 2 + i) (find_str (crlf @ crlf) (header_block (l' # ls) @ b))"
    by (simp add: crlf_def header_block_def c starts_with_iff option.map_comp comp_def)
  then show ?case
    using 3 find_str_skip [OF l(1), of "[CHR 0x0A] @ crlf" "crlf @ header_block (l' # ls) @ b"]
    unfolding block by (simp add: crlf_def)
qed simp

section \<open>The two readings of a response\<close>

lemma scan_reads_first:
  assumes "stream_read max_header_bytes s = (Data d, s')"
  shows "scan (new_scanner s) = scan ((new_scanner s)\<lparr>sc_stream := s', sc_data := d\<rparr>)"
proof -
  have "max_header_bytes = 8192" by (simp add: max_header_bytes_def)
  then show ?thesis using assms by (subst scan.simps) (simp add: new_scanner_def sc_advance_def sc_shift_def)
qed

lemma headers_of_output:
  assumes "ls \<noteq> []" and "list_all plain_header ls" and "length ls \<le> max_header_count" and "length (header_block ls) \<le> max_header_bytes"
    and "take_status (map parsed_header ls) = Inr (code, hs)"
  shows "parse_response (header_block ls @ b) = Inr \<lparr>cr_code = code, cr_headers = hs, cr_body = b\<rparr>"
proof -
  have out: "header_block ls @ b = join crlf ls @ crlf @ crlf @ b" using header_block_join [OF assms(1)] by simp
  have "\<forall>l \<in> set ls. CHR 0x0D \<notin> set l" using assms(2) plain_headerD(3) by (auto simp: list_all_iff)
  then have "parse_headers (take (length (join crlf ls)) (header_block ls @ b)) = Inr (map parsed_header ls)"
    using parse_lines_plain [OF assms(2), of 0 0] assms(3,4)
    by (simp add: out parse_headers_def split_crlf_join [OF assms(1)])
  moreover have "drop (length (join crlf ls) + 4) (header_block ls @ b) = b" "header_block ls @ b \<noteq> ''''"
    by (simp_all add: out crlf_def)
  ultimately show ?thesis
    using find_end_of_headers [OF assms(1,2), of b] assms(5) by (simp add: parse_response_def del: append_is_Nil_conv take_append drop_append)
qed

lemma headers_of_first_piece:
  assumes "stream_pieces whole s ((header_block ls @ b) # cs)" and "list_all plain_header ls" and "length ls \<le> max_header_count"
    and "length (header_block ls @ b) \<le> max_header_bytes"
  shows "\<exists>sc. stream_headers max_header_count 0 [] (new_scanner s) = (Inr (map parsed_header ls, True), sc) \<and>
    stream_pieces whole (sc_stream sc) cs \<and> sc_err sc = None"
proof -
  let ?d = "header_block ls @ b"
  obtain s' where s': "stream_read max_header_bytes s = (Data ?d, s')" "stream_pieces whole s' cs"
    using stream_reads [OF assms(1), of max_header_bytes] assms(4)
    by (cases "stream_read max_header_bytes s") (simp del: length_append take_append drop_append)
  let ?sc = "(new_scanner s)\<lparr>sc_stream := s', sc_data := ?d\<rparr>"
  have "0 + length (header_block ls) \<le> max_header_size" using assms(4) by (simp add: max_header_size_def max_header_bytes_def)
  then obtain sc' where "stream_headers max_header_count 0 [] ?sc = (Inr (map parsed_header ls, True), sc')"
      "sc_stream sc' = s'" "sc_err sc' = None"
    using headers_in_buffer [of ?sc ls b max_header_count 0 "[]"] assms(2,3) by (auto simp: new_scanner_def)
  moreover have "stream_headers max_header_count 0 [] (new_scanner s) = stream_headers max_header_count 0 [] ?sc"
    by (subst (1 2) stream_headers.simps) (simp only: scan_reads_first [OF s'(1)])
  ultimately show ?thesis using s'(2) by auto
qed

text \<open>
  C0. \<open>ParseResponseStream\<close>, the only reading that \<open>servePHP\<close> uses, loses the start of the body: where the headers of a well-formed
  response, its empty line and the bytes \<open>b\<close> of the body have come in one piece of at most 8192 bytes, the status and the headers are
  those of \<open>ParseResponse\<close>, but the client gets the later pieces only, whereas \<open>ParseResponse\<close> has \<open>b\<close> in front of them. The scanner has
  read \<open>b\<close> into its buffer, and the body is taken from the stream behind it. A short page is sent with an empty body.
\<close>

theorem stream_parser_drops_body:
  assumes "stream_pieces whole s ((header_block ls @ b) # cs)" and "ls \<noteq> []" and "list_all plain_header ls" and "length ls \<le> max_header_count"
    and "length (header_block ls @ b) \<le> max_header_bytes" and "take_status (map parsed_header ls) = Inr (code, hs)"
  shows "(\<exists>r. parse_response_stream s = Inr r \<and> cr_code r = code \<and> cr_headers r = hs \<and> body_bytes (cr_body r) = (concat cs, True)) \<and>
    parse_response (header_block ls @ b @ concat cs) = Inr \<lparr>cr_code = code, cr_headers = hs, cr_body = b @ concat cs\<rparr>"
proof
  obtain sc where sc: "stream_headers max_header_count 0 [] (new_scanner s) = (Inr (map parsed_header ls, True), sc)"
    "stream_pieces whole (sc_stream sc) cs" "sc_err sc = None"
    using headers_of_first_piece [OF assms(1,3-5)] by blast
  then have "parse_response_stream s = Inr \<lparr>cr_code = code, cr_headers = hs, cr_body = Some (sc_stream sc)\<rparr>"
    using assms(6) by (simp add: parse_response_stream_def)
  then show "\<exists>r. parse_response_stream s = Inr r \<and> cr_code r = code \<and> cr_headers r = hs \<and> body_bytes (cr_body r) = (concat cs, True)"
    by (simp add: body_bytes_def copy_pieces [OF sc(2)])
  show "parse_response (header_block ls @ b @ concat cs) = Inr \<lparr>cr_code = code, cr_headers = hs, cr_body = b @ concat cs\<rparr>"
    using headers_of_output [OF assms(2-4) _ assms(6)] assms(5) by simp
qed

section \<open>Witness\<close>

definition demo_end :: fcgi_record where
  "demo_end = padded (plain_record type_end_request 1 8 (replicate 8 (CHR 0x00)))"

definition demo_output :: "string" where
  "demo_output = header_block [''Content-Type: text/html''] @ ''hello''"

definition demo_response :: response_stream where
  "demo_response = open_stream 1 (concat (map write_record [padded (plain_record type_stdout 1 32 demo_output), demo_end]))"

lemma demo_pieces: "stream_pieces True demo_response [demo_output]"
proof -
  have len: "length demo_output = 32" "demo_output \<noteq> ''''" by (simp_all add: demo_output_def header_block_def crlf_def)
  have "stream_pieces True
      (open_stream 1 (concat (map write_record (map padded [plain_record type_stdout 1 32 demo_output])) @ write_record demo_end @ '''')) [demo_output]"
  proof (rule stream_pieces_open(2))
    show "list_all well_formed (map padded [plain_record type_stdout 1 32 demo_output])" by (simp add: len well_formed_of_length)
    show "well_formed demo_end" by (simp add: demo_end_def well_formed_of_length)
  qed (use len in \<open>simp_all add: nonempty_def demo_end_def padded_def plain_record_def fcgi_types\<close>)
  then show ?thesis by (simp add: demo_response_def)
qed

theorem stream_parser_drops_body_witness:
  "(\<exists>r. parse_response_stream demo_response = Inr r \<and> cr_headers r = [(''Content-Type'', ''text/html'')] \<and>
     body_bytes (cr_body r) = ('''', True)) \<and>
   (\<exists>r. parse_response demo_output = Inr r \<and> cr_body r = ''hello'')"
proof -
  have parsed: "parse_header_line ''Content-Type: text/html'' = Inr (''Content-Type'', ''text/html'')" by code_simp
  have plain: "list_all plain_header [''Content-Type: text/html'']" by (simp add: plain_header_def parsed)
  have status: "take_status (map parsed_header [''Content-Type: text/html'']) = Inr (200, [(''Content-Type'', ''text/html'')])"
    unfolding list.map parsed_header_def parsed by code_simp
  have len: "length (header_block [''Content-Type: text/html''] @ ''hello'') \<le> max_header_bytes"
    by (simp add: header_block_def crlf_def max_header_bytes_def)
  from stream_parser_drops_body [OF demo_pieces [unfolded demo_output_def] _ plain _ len status]
  show ?thesis by (auto simp: max_header_count_def demo_output_def)
qed

end
