(* ===== verification/CgiParams.thy ===== *)
theory CgiParams
  imports Router
begin

text \<open>
  \<open>internal/php/cgi/params.go\<close>: the variables that PHP is given for a request (\<open>BuildParams\<close>). The header of a request is a list of
  names, in the spelling under which the code stores them, and values; \<open>BuildParams\<close> goes through the names in an order that Go does not
  fix, which is an argument. Letters outside ASCII do not occur in the names of headers.
\<close>

section \<open>Requests\<close>

text \<open>What a request has besides what the routes look at; \<open>cq_escaped\<close> is what \<open>EscapedPath\<close> gives, \<open>cq_length\<close> is negative without a length.\<close>

record cgi_request = web_request +
  cq_proto :: string
  cq_escaped :: string
  cq_force_query :: bool
  cq_remote :: string
  cq_tls :: bool
  cq_length :: int

definition header_values :: "(string \<times> string) list \<Rightarrow> string \<Rightarrow> string list" where
  "header_values hs n = map snd (filter (\<lambda>(k, v). k = n) hs)"

text \<open>An order in which the names of a header can be gone through.\<close>

definition header_order :: "(string \<times> string) list \<Rightarrow> string list \<Rightarrow> bool" where
  "header_order hs ns \<longleftrightarrow> distinct ns \<and> set ns = fst ` set hs"

text \<open>\<open>URL.RequestURI\<close>, for a target that is a path.\<close>

definition url_request_uri :: "cgi_request \<Rightarrow> string" where
  "url_request_uri q =
     (if cq_escaped q = '''' then ''/'' else cq_escaped q) @ (if cq_force_query q \<or> wq_query q \<noteq> '''' then ''?'' @ wq_query q else '''')"

definition request_uri :: "cgi_request \<Rightarrow> string" where
  "request_uri q = (let uri = url_request_uri q in if uri = '''' then ''/'' else uri)"

definition http_header_to_cgi :: "string \<Rightarrow> string" where
  "http_header_to_cgi name = to_upper (replace_all ''-'' ''_'' name)"

definition host_and_port :: "string \<Rightarrow> string \<Rightarrow> string \<times> string" where
  "host_and_port hostport default_port = (case split_host_port hostport of None \<Rightarrow> (hostport, default_port) | Some hp \<Rightarrow> hp)"

section \<open>BuildParams\<close>

text \<open>The statements in their order, each as an update of the map.\<close>

definition put_standard :: "string \<Rightarrow> cgi_request \<Rightarrow> (string \<rightharpoonup> string) \<Rightarrow> (string \<rightharpoonup> string)" where
  "put_standard version q m =
     m(''GATEWAY_INTERFACE'' \<mapsto> ''CGI/1.1'',
       ''SERVER_SOFTWARE'' \<mapsto> ''go-php-gateway/'' @ (if version = '''' then ''1.0'' else version),
       ''SERVER_PROTOCOL'' \<mapsto> cq_proto q, ''REQUEST_METHOD'' \<mapsto> wq_method q, ''REQUEST_URI'' \<mapsto> request_uri q,
       ''DOCUMENT_URI'' \<mapsto> wq_path q, ''QUERY_STRING'' \<mapsto> wq_query q)"

definition put_script :: "cgi_request \<Rightarrow> string \<Rightarrow> string \<Rightarrow> string \<Rightarrow> (string \<rightharpoonup> string) \<Rightarrow> (string \<rightharpoonup> string)" where
  "put_script q script name doc_root m =
     (let m1 = m(''SCRIPT_FILENAME'' \<mapsto> script, ''SCRIPT_NAME'' \<mapsto> name, ''DOCUMENT_ROOT'' \<mapsto> doc_root)
      in if name \<noteq> '''' \<and> starts_with (wq_path q) name
         then m1(''PATH_INFO'' \<mapsto> drop (length name) (wq_path q), ''PATH_TRANSLATED'' \<mapsto> doc_root @ drop (length name) (wq_path q))
         else m1)"

definition put_addresses :: "cgi_request \<Rightarrow> (string \<rightharpoonup> string) \<Rightarrow> (string \<rightharpoonup> string)" where
  "put_addresses q m =
     (let (host, port) = host_and_port (cq_remote q) ''0'';
          (server, server_port) = host_and_port (wq_host q) (if cq_tls q then ''443'' else ''80'');
          m1 = m(''REMOTE_ADDR'' \<mapsto> host, ''REMOTE_PORT'' \<mapsto> port, ''SERVER_NAME'' \<mapsto> server, ''SERVER_PORT'' \<mapsto> server_port)
      in if cq_tls q then m1(''HTTPS'' \<mapsto> ''on'') else m1)"

definition put_content :: "cgi_request \<Rightarrow> (string \<rightharpoonup> string) \<Rightarrow> (string \<rightharpoonup> string)" where
  "put_content q m =
     (let ct = header_get (wq_headers q) ''Content-Type'';
          m1 = (if ct \<noteq> '''' then m(''CONTENT_TYPE'' \<mapsto> ct) else m)
      in if cq_length q \<ge> 0 then m1(''CONTENT_LENGTH'' \<mapsto> int_to_str (cq_length q)) else m1)"

definition put_header :: "(string \<times> string) list \<Rightarrow> string \<Rightarrow> (string \<rightharpoonup> string) \<Rightarrow> (string \<rightharpoonup> string)" where
  "put_header hs name m =
     (if to_lower name = ''proxy'' then m
      else m(''HTTP_'' @ http_header_to_cgi name \<mapsto> join '', '' (header_values hs name)))"

definition build_params :: "string \<Rightarrow> string list \<Rightarrow> cgi_request \<Rightarrow> string \<Rightarrow> string \<Rightarrow> string \<Rightarrow> (string \<rightharpoonup> string)" where
  "build_params version ns q script name doc_root =
     (fold (put_header (wq_headers q)) ns
        (put_content q (put_addresses q (put_script q script name doc_root (put_standard version q Map.empty)))))
     (''REDIRECT_STATUS'' \<mapsto> ''200'')"

section \<open>Names of variables\<close>

lemma replace_char: "replace_all [a] [b] s = map (\<lambda>c. if c = a then b else c) s"
proof (induction s)
  case Nil
  show ?case by (subst replace_all.simps) simp
next
  case (Cons c s)
  then show ?case by (subst replace_all.simps) (simp add: starts_with_iff)
qed

lemma http_header_map: "http_header_to_cgi name = map (\<lambda>c. if c = CHR ''-'' then CHR ''_'' else to_upper_char c) name"
  by (auto simp: http_header_to_cgi_def replace_char to_upper_def to_upper_char_def in_range_def)

lemma lower_upper_char: "to_lower_char (to_upper_char c) = to_lower_char c"
proof (cases "in_range (CHR ''a'') (CHR ''z'') c")
  case True
  then obtain m where m: "of_char c = m + (32 :: nat)" "65 \<le> m" "m \<le> 90"
    by (intro that [of "of_char c - 32"]) (auto simp: in_range_def)
  then have "char_of (m + 32) = c" by (metis char_of_char)
  with m True show ?thesis by (simp add: to_lower_char_def to_upper_char_def in_range_def)
qed (simp add: to_upper_char_def)

lemma cgi_name_proxy:
  assumes "http_header_to_cgi name = ''PROXY''"
  shows "to_lower name = ''proxy''"
proof -
  have "\<forall>c \<in> set name. c \<noteq> CHR ''-''"
  proof (rule ccontr)
    assume "\<not> ?thesis"
    then have "CHR ''_'' \<in> set (http_header_to_cgi name)" by (force simp: http_header_map)
    with assms show False by simp
  qed
  then have "http_header_to_cgi name = map to_upper_char name" by (simp add: http_header_map)
  then have "map to_lower_char (map to_upper_char name) = map to_lower_char ''PROXY''" using assms by simp
  moreover have "map to_lower_char ''PROXY'' = ''proxy''" by code_simp
  ultimately show ?thesis by (simp only: map_map comp_def lower_upper_char to_lower_def)
qed

text \<open>The variable of a header, and those that the headers of a request set.\<close>

definition header_key :: "string \<Rightarrow> string" where "header_key name = ''HTTP_'' @ http_header_to_cgi name"

definition header_keys :: "string list \<Rightarrow> string set" where
  "header_keys ns = header_key ` {n \<in> set ns. to_lower n \<noteq> ''proxy''}"

lemma header_keys_simps [simp]:
  "header_keys [] = {}"
  "header_keys (n # ns) = (if to_lower n = ''proxy'' then header_keys ns else insert (header_key n) (header_keys ns))"
  by (auto simp: header_keys_def)

lemma put_header_key:
  "put_header hs n m = (if to_lower n = ''proxy'' then m else m(header_key n \<mapsto> join '', '' (header_values hs n)))"
  by (simp add: put_header_def header_key_def)

lemma put_headers_other: "k \<notin> header_keys ns \<Longrightarrow> fold (put_header hs) ns m k = m k"
  by (induction ns arbitrary: m) (auto simp: put_header_key split: if_splits)

lemma put_headers_last:
  assumes "to_lower n \<noteq> ''proxy''" and "header_key n \<notin> header_keys ns'"
  shows "fold (put_header hs) (ns @ n # ns') m (header_key n) = Some (join '', '' (header_values hs n))"
  using assms by (simp add: put_headers_other put_header_key)

lemma header_key_prefix [simp]: "k \<in> header_keys ns \<Longrightarrow> \<exists>x. k = ''HTTP_'' @ x"
  by (auto simp: header_keys_def header_key_def)

lemma proxy_not_header: "''HTTP_PROXY'' \<notin> header_keys ns"
  using cgi_name_proxy by (auto simp: header_keys_def header_key_def)

lemmas build_steps = put_standard_def put_script_def put_addresses_def put_content_def Let_def

text \<open>What the request has set before its headers.\<close>

definition fixed_params :: "string \<Rightarrow> cgi_request \<Rightarrow> string \<Rightarrow> string \<Rightarrow> string \<Rightarrow> (string \<rightharpoonup> string)" where
  "fixed_params version q script name doc_root =
     (put_content q (put_addresses q (put_script q script name doc_root (put_standard version q Map.empty))))
       (''REDIRECT_STATUS'' \<mapsto> ''200'')"

lemma build_params_other:
  assumes "k \<notin> header_keys ns"
  shows "build_params version ns q script name doc_root k = fixed_params version q script name doc_root k"
  by (simp add: build_params_def fixed_params_def put_headers_other [OF assms])

lemma not_header: "take 5 k \<noteq> ''HTTP_'' \<Longrightarrow> k \<notin> header_keys ns"
  by (auto simp: header_keys_def header_key_def)

lemma fixed_script:
  "fixed_params version q script name doc_root ''SCRIPT_FILENAME'' = Some script"
  "fixed_params version q script name doc_root ''SCRIPT_NAME'' = Some name"
  "fixed_params version q script name doc_root ''DOCUMENT_ROOT'' = Some doc_root"
  "fixed_params version q script name doc_root ''HTTP_PROXY'' = None"
  by (simp_all add: fixed_params_def build_steps split: prod.splits)

lemma fixed_params_headers:
  "k \<noteq> ''CONTENT_TYPE'' \<Longrightarrow>
   fixed_params version (q\<lparr>wq_headers := hs\<rparr>) script name doc_root k = fixed_params version q script name doc_root k"
proof -
  let ?q = "q\<lparr>wq_headers := hs\<rparr>"
  assume k: "k \<noteq> ''CONTENT_TYPE''"
  have "put_standard version ?q m = put_standard version q m" "put_script ?q script name doc_root m = put_script q script name doc_root m"
    "put_addresses ?q m = put_addresses q m" for m
    by (simp_all add: put_standard_def request_uri_def url_request_uri_def put_script_def put_addresses_def Let_def)
  moreover have "put_content ?q m k = put_content q m k" for m using k by (simp add: put_content_def Let_def)
  ultimately show ?thesis unfolding fixed_params_def by simp
qed

text \<open>
  C0. No header of a request can stand in for a variable of the gateway: whatever headers come and in whatever order they are gone through,
  the script, its name and the document root are those the gateway has chosen; every variable that differs from what it would be without
  headers is \<open>CONTENT_TYPE\<close> or the variable \<open>HTTP_...\<close> of a header that was sent; and \<open>HTTP_PROXY\<close> is never set, however the header is spelled.
\<close>

theorem headers_stay_in_their_space:
  assumes "header_order (wq_headers q) ns" and "p = build_params version ns q script name doc_root"
  shows "p ''SCRIPT_FILENAME'' = Some script \<and> p ''SCRIPT_NAME'' = Some name \<and> p ''DOCUMENT_ROOT'' = Some doc_root \<and>
    p ''HTTP_PROXY'' = None \<and>
    (\<forall>k. p k \<noteq> build_params version [] (q\<lparr>wq_headers := []\<rparr>) script name doc_root k \<longrightarrow>
       k = ''CONTENT_TYPE'' \<or> (\<exists>(n, v) \<in> set (wq_headers q). k = ''HTTP_'' @ http_header_to_cgi n))"
proof (intro conjI allI impI)
  show "p ''SCRIPT_FILENAME'' = Some script" "p ''SCRIPT_NAME'' = Some name" "p ''DOCUMENT_ROOT'' = Some doc_root"
    by (simp_all add: assms(2) build_params_other not_header fixed_script)
  show "p ''HTTP_PROXY'' = None" by (simp add: assms(2) build_params_other proxy_not_header fixed_script)
  fix k
  assume differs: "p k \<noteq> build_params version [] (q\<lparr>wq_headers := []\<rparr>) script name doc_root k"
  have "k = ''CONTENT_TYPE'' \<or> k \<in> header_keys ns"
    using differs fixed_params_headers [of k version "[]" q script name doc_root]
    by (cases "k \<in> header_keys ns") (auto simp: assms(2) build_params_other)
  then show "k = ''CONTENT_TYPE'' \<or> (\<exists>(n, v) \<in> set (wq_headers q). k = ''HTTP_'' @ http_header_to_cgi n)"
    using assms(1) by (auto simp: header_keys_def header_key_def header_order_def)
qed

text \<open>
  C0. Headers whose names differ in \<open>-\<close> and \<open>_\<close> get the same variable, and which of them it holds depends on the order in which Go happens to
  go through the map: for both there is an order that gives PHP its values. A client can set \<open>X_Forwarded_For\<close> beside the
  \<open>X-Forwarded-For\<close> of a trusted proxy and be believed.
\<close>

theorem folded_headers_collide:
  assumes "n1 \<in> fst ` set (wq_headers q)" and "n2 \<in> fst ` set (wq_headers q)" and "n1 \<noteq> n2"
    and "http_header_to_cgi n1 = http_header_to_cgi n2" and "to_lower n2 \<noteq> ''proxy''"
  shows "\<exists>ns. header_order (wq_headers q) ns \<and>
    build_params version ns q script name doc_root (''HTTP_'' @ http_header_to_cgi n1) = Some (join '', '' (header_values (wq_headers q) n2))"
proof -
  let ?hs = "wq_headers q"
  obtain ms where ms: "distinct ms" "set ms = fst ` set ?hs - {n2}" using finite_distinct_list [of "fst ` set ?hs - {n2}"] by auto
  have "header_order ?hs (ms @ [n2])" using ms assms(2) by (auto simp: header_order_def)
  moreover have "build_params version (ms @ [n2]) q script name doc_root (header_key n2) = Some (join '', '' (header_values ?hs n2))"
    using put_headers_last [OF assms(5), of "[]" ?hs ms]
    by (simp add: build_params_def header_key_def)
  ultimately show ?thesis unfolding header_key_def assms(4) by blast
qed

text \<open>The rest of the path is taken from the request as it came, with its dots.\<close>

lemma path_translated:
  assumes "wq_path q = name @ rest" and "name \<noteq> ''''"
  shows "build_params version ns q script name doc_root ''PATH_TRANSLATED'' = Some (doc_root @ rest)"
  using assms by (simp add: build_params_other not_header fixed_params_def build_steps starts_with_iff split: prod.splits)

section \<open>Witnesses\<close>

definition demo_cgi :: cgi_request where
  "demo_cgi =
     \<lparr>wq_method = ''GET'', wq_host = ''a.org:8080'', wq_path = ''/index.php/../../x'', wq_query = ''a=1'',
      wq_headers = [(''X-Forwarded-For'', ''10.0.0.1''), (''X_Forwarded_For'', ''127.0.0.1''), (''Proxy'', ''evil'')],
      cq_proto = ''HTTP/1.1'', cq_escaped = ''/index.php/../../x'', cq_force_query = False, cq_remote = ''10.0.0.1:5000'',
      cq_tls = False, cq_length = - 1\<rparr>"

theorem headers_stay_in_their_space_witness:
  "build_params '''' [''Proxy'', ''X_Forwarded_For'', ''X-Forwarded-For''] demo_cgi ''/srv/index.php'' ''/index.php'' ''/srv'' ''HTTP_PROXY'' = None \<and>
   build_params '''' [''Proxy'', ''X_Forwarded_For'', ''X-Forwarded-For''] demo_cgi ''/srv/index.php'' ''/index.php'' ''/srv'' ''SCRIPT_FILENAME'' =
     Some ''/srv/index.php''"
proof -
  have "header_order (wq_headers demo_cgi) [''Proxy'', ''X_Forwarded_For'', ''X-Forwarded-For'']"
    by (auto simp: header_order_def demo_cgi_def)
  from headers_stay_in_their_space [OF this refl] show ?thesis by blast
qed

theorem folded_headers_collide_witness:
  "\<exists>ns. header_order (wq_headers demo_cgi) ns \<and>
     build_params '''' ns demo_cgi ''/srv/index.php'' ''/index.php'' ''/srv'' ''HTTP_X_FORWARDED_FOR'' = Some ''127.0.0.1''"
proof -
  have "http_header_to_cgi ''X-Forwarded-For'' = ''X_FORWARDED_FOR''" "http_header_to_cgi ''X_Forwarded_For'' = ''X_FORWARDED_FOR''"
    "to_lower ''X_Forwarded_For'' \<noteq> ''proxy''"
    by code_simp+
  moreover have "header_values (wq_headers demo_cgi) ''X_Forwarded_For'' = [''127.0.0.1'']" by (simp add: header_values_def demo_cgi_def)
  ultimately show ?thesis
    using folded_headers_collide [of "''X-Forwarded-For''" demo_cgi "''X_Forwarded_For''"] by (simp add: demo_cgi_def)
qed

end
