(* ===== verification/PhpRequest.thy ===== *)
theory PhpRequest
  imports Gateway CgiParams CgiResponse FastCgiPool
begin

text \<open>
  The second half of \<open>servePHP\<close> in \<open>cmd/gateway/main.go\<close>: a connection is taken from the pool, the request with its variables is written to
  it, the response is parsed and copied to the client, and the connection is put back or closed. Here the parts of the PHP side
  meet: the choice of the script (\<open>Gateway\<close>), the variables (\<open>CgiParams\<close>), the records (\<open>FastCgi\<close>), the response
  (\<open>CgiResponse\<close>) and the pool (\<open>FastCgiPool\<close>). The timeouts of the context are left out.
\<close>

section \<open>One request\<close>

datatype php_answer = PaBadGateway | PaTooLarge | PaAnswer int "(string \<times> string) list" string

text \<open>
  What happens on a connection: the answer, and whether the connection is put back with an error. The response is \<open>None\<close> where the request
  cannot be written; \<open>client_ok\<close> tells whether the client has taken the whole body.
\<close>

definition php_exchange :: "int \<Rightarrow> request_body \<Rightarrow> response_stream option \<Rightarrow> bool \<Rightarrow> php_answer \<times> bool" where
  "php_exchange limit b stream client_ok =
     (case limit_body limit b of
        None \<Rightarrow> (PaTooLarge, False)
      | Some stdin \<Rightarrow>
          (case stream of
             None \<Rightarrow> (PaBadGateway, True)
           | Some s \<Rightarrow>
               (case parse_response_stream s of
                  Inl e \<Rightarrow> (PaBadGateway, True)
                | Inr r \<Rightarrow>
                    (let (body, ok) = body_bytes (cr_body r)
                     in (PaAnswer (cr_code r) (cr_headers r) body, \<not> (ok \<and> client_ok))))))"

text \<open>
  The call with the pool: \<open>pc_dialed\<close> is the connection that dialling gives, if it is needed, and \<open>pc_stream\<close> what PHP answers on the
  connection that the call gets.
\<close>

record php_call =
  pc_get :: int
  pc_dialed :: "nat option"
  pc_limit :: int
  pc_body :: request_body
  pc_stream :: "response_stream option"
  pc_client_ok :: bool
  pc_put :: int

definition call_exchange :: "php_call \<Rightarrow> php_answer \<times> bool" where
  "call_exchange c = php_exchange (pc_limit c) (pc_body c) (pc_stream c) (pc_client_ok c)"

definition pooled_call :: "php_call \<Rightarrow> pool \<Rightarrow> php_answer \<times> pool" where
  "pooled_call c p =
     (let (answer, failed) = call_exchange c
      in case begin_get (pc_get c) p of
           (PoolClosed, p') \<Rightarrow> (PaBadGateway, p')
         | (PoolExhausted, p') \<Rightarrow> (PaBadGateway, p')
         | (GotIdle n, p') \<Rightarrow> (answer, pool_put n failed (pc_put c) p')
         | (Dialing, p') \<Rightarrow>
             (case pc_dialed c of
                None \<Rightarrow> (PaBadGateway, dial_failed p')
              | Some n \<Rightarrow> (answer, pool_put n failed (pc_put c) p')))"

fun pooled_calls :: "php_call list \<Rightarrow> pool \<Rightarrow> php_answer list \<times> pool" where
  "pooled_calls [] p = ([], p)"
| "pooled_calls (c # cs) p = (let (a, p1) = pooled_call c p; (as, p2) = pooled_calls cs p1 in (a # as, p2))"

section \<open>Calls in a row\<close>

text \<open>A pool with no connection lent.\<close>

definition at_rest :: "pool \<Rightarrow> bool" where
  "at_rest p \<longleftrightarrow> \<not> pl_closed p \<and> 0 < pl_max_active p \<and> pl_active p = int (length (pl_idle p)) \<and> length (pl_idle p) \<le> pl_max_idle p"

lemma take_idle_all: "take_idle now timeout xs (int (length xs)) = (None, ys, active) \<Longrightarrow> ys = [] \<and> active = 0"
proof (induction xs)
  case (Cons x xs)
  then show ?case by (cases x) (auto split: if_splits)
qed auto

lemma take_idle_some:
  "take_idle now timeout xs (int (length xs)) = (Some c, ys, active) \<Longrightarrow> length ys < length xs \<and> active = int (length ys) + 1"
proof (induction xs)
  case (Cons x xs)
  then show ?case by (cases x) (auto split: if_splits)
qed auto

lemma pool_put_rest:
  assumes "\<not> pl_closed p" and "0 < pl_max_active p" and "pl_active p = int (length (pl_idle p)) + 1" and "length (pl_idle p) \<le> pl_max_idle p"
  shows "at_rest (pool_put n failed now p)"
  using assms by (auto simp: pool_put_def at_rest_def)

text \<open>A pool at rest lends a connection or dials, and is at rest again when the call is over.\<close>

lemma pooled_call_rest:
  assumes "at_rest p"
  shows "at_rest (snd (pooled_call c p)) \<and> (fst (pooled_call c p) = fst (call_exchange c) \<or> pc_dialed c = None \<and> fst (pooled_call c p) = PaBadGateway)"
proof -
  have p: "\<not> pl_closed p" "0 < pl_max_active p" "pl_active p = int (length (rev (pl_idle p)))" "length (pl_idle p) \<le> pl_max_idle p"
    using assms by (simp_all add: at_rest_def)
  obtain t ys active where t: "take_idle (pc_get c) (pl_idle_timeout p) (rev (pl_idle p)) (pl_active p) = (t, ys, active)"
    by (cases "take_idle (pc_get c) (pl_idle_timeout p) (rev (pl_idle p)) (pl_active p)") auto
  show ?thesis
  proof (cases t)
    case None
    then have "ys = []" "active = 0" using take_idle_all t p(3) by metis+
    then have get: "begin_get (pc_get c) p = (Dialing, p\<lparr>pl_idle := [], pl_active := 1\<rparr>)" using t None p by (simp add: begin_get_def)
    show ?thesis
    proof (cases "pc_dialed c")
      case None
      then show ?thesis using get p by (simp add: pooled_call_def dial_failed_def at_rest_def split: prod.split)
    next
      case (Some n)
      then show ?thesis using get p by (simp add: pooled_call_def pool_put_rest split: prod.split)
    qed
  next
    case (Some n)
    then have "length ys < length (rev (pl_idle p))" "active = int (length ys) + 1" using take_idle_some t p(3) by metis+
    moreover have "begin_get (pc_get c) p = (GotIdle n, p\<lparr>pl_idle := rev ys, pl_active := active\<rparr>)" using t Some p by (simp add: begin_get_def)
    ultimately show ?thesis using p by (simp add: pooled_call_def pool_put_rest split: prod.split)
  qed
qed

lemma pooled_calls_rest: "at_rest p \<Longrightarrow> at_rest (snd (pooled_calls cs p))"
  by (induction cs arbitrary: p) (simp_all add: pooled_call_rest split: prod.split, metis pooled_call_rest snd_conv)

lemma pooled_calls_answers:
  "at_rest p \<Longrightarrow> list_all2 (\<lambda>c a. a = fst (call_exchange c) \<or> pc_dialed c = None \<and> a = PaBadGateway) cs (fst (pooled_calls cs p))"
proof (induction cs arbitrary: p)
  case (Cons c cs)
  obtain a p1 where call: "pooled_call c p = (a, p1)" by fastforce
  with pooled_call_rest [OF Cons.prems, of c] have "at_rest p1" "a = fst (call_exchange c) \<or> pc_dialed c = None \<and> a = PaBadGateway" by auto
  moreover obtain as p2 where rest: "pooled_calls cs p1 = (as, p2)" by fastforce
  ultimately show ?case using Cons.IH [of p1] call by simp
qed simp

text \<open>
  What it means that PHP answers a call: the body keeps the limit, and the connection gives a complete response whose
  headers, all well-formed and within the parser's limits, come in a piece of their own.
\<close>

definition php_answers :: "php_call \<Rightarrow> int \<Rightarrow> (string \<times> string) list \<Rightarrow> string \<Rightarrow> bool" where
  "php_answers c code hs body \<longleftrightarrow>
     limit_body (pc_limit c) (pc_body c) \<noteq> None \<and>
     (\<exists>s ls pieces. pc_stream c = Some s \<and> stream_pieces True s (header_block ls # pieces) \<and> body = concat pieces \<and>
        list_all plain_header ls \<and> length ls \<le> max_header_count \<and> length (header_block ls) \<le> max_header_bytes \<and>
        take_status (map parsed_header ls) = Inr (code, hs))"

lemma call_exchange_answers:
  assumes "php_answers c code hs body"
  shows "call_exchange c = (PaAnswer code hs body, \<not> pc_client_ok c)"
proof -
  obtain stdin s ls pieces where c: "limit_body (pc_limit c) (pc_body c) = Some stdin" "pc_stream c = Some s" "body = concat pieces"
    and s: "stream_pieces True s ((header_block ls @ '''') # pieces)" "list_all plain_header ls" "length ls \<le> max_header_count"
      "length (header_block ls @ '''') \<le> max_header_bytes" "take_status (map parsed_header ls) = Inr (code, hs)"
    using assms by (auto simp: php_answers_def)
  obtain sc where sc: "stream_headers max_header_count 0 [] (new_scanner s) = (Inr (map parsed_header ls, True), sc)"
    "stream_pieces True (sc_stream sc) pieces" "sc_err sc = None"
    using headers_of_first_piece [OF s(1-4)] by blast
  then have "parse_response_stream s = Inr \<lparr>cr_code = code, cr_headers = hs, cr_body = Some (sc_stream sc)\<rparr>"
    using s(5) by (simp add: parse_response_stream_def)
  then show ?thesis by (simp add: call_exchange_def php_exchange_def c body_bytes_def copy_pieces [OF sc(2)])
qed

text \<open>
  C0. The pool never runs dry: any number of calls in a row through a new pool, whatever fails on the connections, are answered each by what
  happens on the connection it gets, or with 502 where PHP could not be dialled, and no other call is refused. So where PHP
  answers a call, with a complete response of well-formed headers in a piece of their own, the client gets the status, the headers and the
  whole body; and afterwards the pool counts exactly the idle connections.
\<close>

theorem calls_in_a_row_are_answered:
  "list_all2 (\<lambda>c a.
       a = fst (php_exchange (pc_limit c) (pc_body c) (pc_stream c) (pc_client_ok c)) \<and>
         (\<forall>code hs body. php_answers c code hs body \<longrightarrow> a = PaAnswer code hs body) \<or>
       pc_dialed c = None \<and> a = PaBadGateway)
     cs (fst (pooled_calls cs (new_pool max_idle max_active timeout))) \<and>
   (let p = snd (pooled_calls cs (new_pool max_idle max_active timeout)) in pool_stats p = (length (pl_idle p), int (length (pl_idle p))))"
proof -
  have rest: "at_rest (new_pool max_idle max_active timeout)" by (simp add: at_rest_def new_pool_def)
  have "at_rest (snd (pooled_calls cs (new_pool max_idle max_active timeout)))" by (rule pooled_calls_rest [OF rest])
  moreover have "list_all2 (\<lambda>c a. a = fst (call_exchange c) \<and>
         (\<forall>code hs body. php_answers c code hs body \<longrightarrow> a = PaAnswer code hs body) \<or>
       pc_dialed c = None \<and> a = PaBadGateway)
     cs (fst (pooled_calls cs (new_pool max_idle max_active timeout)))"
    by (rule list_all2_mono [OF pooled_calls_answers [OF rest]]) (auto simp: call_exchange_answers)
  ultimately show ?thesis unfolding call_exchange_def by (simp add: Let_def pool_stats_def at_rest_def)
qed

section \<open>A connection that PHP has closed\<close>

lemma closed_connection:
  assumes "stream_pieces whole s []"
  shows "\<exists>s'. scan (new_scanner s) = (None, s') \<and> sc_err s' = Some ScanEof"
proof -
  obtain s1 where s1: "stream_read max_header_bytes s = (Eof, s1)"
    using stream_reads [OF assms, of max_header_bytes] by (cases "stream_read max_header_bytes s") auto
  let ?sc = "(new_scanner s)\<lparr>sc_stream := s1, sc_err := Some ScanEof\<rparr>"
  have "max_header_bytes = 8192" by (simp add: max_header_bytes_def)
  then have "scan (new_scanner s) = scan ?sc" using s1 by (subst scan.simps) (simp add: new_scanner_def sc_advance_def sc_shift_def)
  moreover have "scan ?sc = (None, sc_advance 0 ?sc\<lparr>sc_start := 0, sc_data := ''''\<rparr>)"
    by (subst scan.simps) (simp add: new_scanner_def scan_split_def)
  ultimately show ?thesis by (simp add: sc_advance_def)
qed

text \<open>
  C0. A PHP process that dies when it has taken a request, before it answers, is a success: the client gets status 200, no headers and an
  empty page, and the dead connection goes back to the pool as a healthy one, where the next call finds it first. \<open>io.EOF\<close> from the
  connection is taken for the end of the response.
\<close>

theorem dead_backend_answers_200:
  assumes "limit_body (pc_limit c) (pc_body c) \<noteq> None" and "at_rest p" and "begin_get (pc_get c) p = (GotIdle n, p1)"
    and "pc_stream c = Some (open_stream i '''')" and "pc_client_ok c" and "now - pc_put c \<le> pl_idle_timeout p"
  shows "fst (pooled_call c p) = PaAnswer 200 [] '''' \<and> fst (begin_get now (snd (pooled_call c p))) = GotIdle n"
proof -
  have "stream_pieces False (open_stream i '''') []" using stream_pieces_open(1) [of "[]" i "[]"] by (simp add: nonempty_def)
  then obtain sc where "scan (new_scanner (open_stream i '''')) = (None, sc)" "sc_err sc = Some ScanEof"
    using closed_connection by blast
  then have "parse_response_stream (open_stream i '''') = Inr \<lparr>cr_code = 200, cr_headers = [], cr_body = None\<rparr>"
    by (simp add: parse_response_stream_def stream_headers.simps [of max_header_count] take_status_def header_get_def)
  then have result: "call_exchange c = (PaAnswer 200 [] '''', False)"
    using assms(1,4,5) by (auto simp: call_exchange_def php_exchange_def body_bytes_def)
  have rest: "\<not> pl_closed p" "length (pl_idle p) \<le> pl_max_idle p" using assms(2) by (simp_all add: at_rest_def)
  obtain zs where get: "map fst (pl_idle p) = map fst (pl_idle p1) @ [n] @ zs" "p1 = p\<lparr>pl_idle := pl_idle p1, pl_active := pl_active p1\<rparr>"
    using begin_get_spec [OF assms(3) rest(1)] by auto
  have p1: "pl_closed p1 = pl_closed p" "pl_max_idle p1 = pl_max_idle p" "pl_idle_timeout p1 = pl_idle_timeout p" by (subst get(2), simp)+
  have "length (pl_idle p) = length (pl_idle p1) + 1 + length zs" using arg_cong [OF get(1), of length] by simp
  then have "pool_put n False (pc_put c) p1 = p1\<lparr>pl_idle := pl_idle p1 @ [(n, pc_put c)]\<rparr>" using rest p1 by (simp add: pool_put_def)
  then show ?thesis using result assms(3,6) rest(1) p1 by (simp add: pooled_call_def begin_get_def)
qed

section \<open>From the request to PHP\<close>

lemma gateway_script:
  assumes "gateway_serve rx fs cwd g q b = GwPhp name script body" and "rooted (gw_resolver g) R" and "gw_doc_root g = normalized_path R"
  shows "below fs R script \<and> limit_body (se_max_body_bytes (cf_security (gw_config g))) b = Some body"
proof -
  obtain np where "serve_php fs cwd g b np = GwPhp name script body"
    using assms(1) by (auto simp: gateway_serve_def serve_path_def serve_static_def Let_def split: sum.splits option.splits if_splits)
  from serve_php_GwPhp [OF this assms(2,3)] show ?thesis by (simp add: below_def)
qed

text \<open>
  C0. PHP is told to run the script that the gateway has checked, and nothing else: whatever the state of the gateway after any reloads, and
  whatever the request and its headers are, the peer reads from the connection variables in which the script is a regular file below the
  document root, the document root is that of the gateway, no proxy is named, and a body that keeps the limit (as long as the variables
  fit into one record).
\<close>

theorem php_is_told_the_script:
  assumes "reachable (gateway_start rx proxy_ok is_ip R) (gateway_step rx proxy_ok is_ip) g"
    and "gateway_serve rx fs cwd g (web_request.truncate q) b = GwPhp name script body"
    and "map_of ps = build_params version ns q script name (gw_doc_root g)" and "length (params_bytes ps) \<le> max_record_content"
    and "concat pieces = body" and "\<forall>c \<in> set pieces. length c \<le> max_record_content"
  shows "\<exists>rs vars. read_records (fst (send_request i ps pieces)) = Some rs \<and>
    decode_pairs (length (fr_content (rs ! 1))) (fr_content (rs ! 1)) = Some vars \<and>
    map_of vars ''SCRIPT_FILENAME'' = Some script \<and> map_of vars ''DOCUMENT_ROOT'' = Some (normalized_path R) \<and>
    map_of vars ''HTTP_PROXY'' = None \<and> below fs R script \<and> concat (map fr_content (drop 3 rs)) = body \<and>
    (0 < se_max_body_bytes (cf_security (gw_config g)) \<longrightarrow> int (length body) \<le> se_max_body_bytes (cf_security (gw_config g)))"
proof -
  have ok: "gateway_ok rx is_ip R g" by (rule gateway_machine.reachable_inv [OF assms(1)])
  then have root: "gw_doc_root g = normalized_path R" "rooted (gw_resolver g) R" unfolding gateway_ok_def by blast+
  note script = gateway_script [OF assms(2) root(2,1)]
  obtain rs where rs: "read_records (fst (send_request i ps pieces)) = Some rs"
    "decode_pairs (length (fr_content (rs ! 1))) (fr_content (rs ! 1)) = Some ps" "map fr_content (drop 3 rs) = pieces @ ['''']"
    using read_back [OF assms(4,6), of i] by blast
  have vars: "map_of ps ''SCRIPT_FILENAME'' = Some script" "map_of ps ''DOCUMENT_ROOT'' = Some (normalized_path R)"
    "map_of ps ''HTTP_PROXY'' = None"
    by (simp_all add: assms(3) build_params_other not_header proxy_not_header fixed_script root(1))
  have "0 < se_max_body_bytes (cf_security (gw_config g)) \<longrightarrow> int (length body) \<le> se_max_body_bytes (cf_security (gw_config g))"
    using script by (auto simp: limit_body_def split: if_splits)
  with rs vars script assms(5) show ?thesis by auto
qed

section \<open>Witnesses\<close>

text \<open>The first call cannot be written to its connection, the second is answered, the third cannot dial.\<close>

definition demo_answer :: response_stream where
  "demo_answer = open_stream 1
     (concat (map write_record (map padded [plain_record type_stdout 1 27 (header_block [''Content-Type: text/html'']),
        plain_record type_stdout 1 5 ''hello''])) @ write_record demo_end @ '''')"

definition demo_call :: "response_stream option \<Rightarrow> int \<Rightarrow> nat option \<Rightarrow> php_call" where
  "demo_call stream t dialed = \<lparr>pc_get = t, pc_dialed = dialed, pc_limit = 0, pc_body = demo_no_body, pc_stream = stream,
     pc_client_ok = True, pc_put = t + 1\<rparr>"

lemma demo_call_answers: "php_answers (demo_call (Some demo_answer) t d) 200 [(''Content-Type'', ''text/html'')] ''hello''"
proof -
  let ?ls = "[''Content-Type: text/html'']"
  have len: "length (header_block ?ls) = 27" by (simp add: header_block_def crlf_def)
  have pieces: "stream_pieces True demo_answer [header_block ?ls, ''hello'']"
    unfolding demo_answer_def
  proof (rule stream_pieces_open(2))
    show "list_all well_formed (map padded [plain_record type_stdout 1 27 (header_block ?ls), plain_record type_stdout 1 5 ''hello''])"
      by (simp add: len well_formed_of_length)
    show "well_formed demo_end" by (simp add: demo_end_def well_formed_of_length)
  qed (use len in \<open>auto simp: nonempty_def demo_end_def padded_def plain_record_def fcgi_types\<close>)
  have parsed: "parse_header_line ''Content-Type: text/html'' = Inr (''Content-Type'', ''text/html'')" by code_simp
  have "take_status (map parsed_header ?ls) = Inr (200, [(''Content-Type'', ''text/html'')])"
    unfolding list.map parsed_header_def parsed by code_simp
  moreover have "list_all plain_header ?ls" "length ?ls \<le> max_header_count" "length (header_block ?ls) \<le> max_header_bytes"
    using len by (simp_all add: plain_header_def parsed max_header_count_def max_header_bytes_def)
  moreover have "limit_body 0 demo_no_body \<noteq> None" by (simp add: limit_body_def)
  ultimately show ?thesis using pieces
    unfolding php_answers_def demo_call_def php_call.select_convs by (intro conjI exI [of _ demo_answer] exI [of _ ?ls] exI [of _ "[''hello'']"]) simp_all
qed

theorem calls_in_a_row_are_answered_witness:
  "\<exists>a. fst (pooled_calls [demo_call None 0 (Some 0), demo_call (Some demo_answer) 2 (Some 1), demo_call None 4 None] (new_pool 1 1 0)) =
     [PaBadGateway, PaAnswer 200 [(''Content-Type'', ''text/html'')] ''hello'', a]"
proof -
  let ?cs = "[demo_call None 0 (Some 0), demo_call (Some demo_answer) 2 (Some 1), demo_call None 4 None]"
  have first: "fst (php_exchange 0 demo_no_body None True) = PaBadGateway"
    by (simp add: php_exchange_def limit_body_def demo_no_body_def)
  from calls_in_a_row_are_answered [of ?cs 1 1 0] demo_call_answers [of 2 "Some 1"] show ?thesis
    by (auto simp: demo_call_def first list_all2_Cons1)
qed

definition demo_pool :: pool where "demo_pool = (new_pool 1 1 60)\<lparr>pl_idle := [(7, 0)], pl_active := 1\<rparr>"

definition demo_dead_call :: php_call where
  "demo_dead_call = \<lparr>pc_get = 10, pc_dialed = None, pc_limit = 0, pc_body = demo_no_body, pc_stream = Some (open_stream 1 ''''),
     pc_client_ok = True, pc_put = 20\<rparr>"

theorem dead_backend_answers_200_witness:
  "fst (pooled_call demo_dead_call demo_pool) = PaAnswer 200 [] '''' \<and>
   fst (begin_get 30 (snd (pooled_call demo_dead_call demo_pool))) = GotIdle 7"
proof (rule dead_backend_answers_200)
  show "begin_get (pc_get demo_dead_call) demo_pool = (GotIdle 7, demo_pool\<lparr>pl_idle := []\<rparr>)"
    by (simp add: begin_get_def demo_pool_def demo_dead_call_def new_pool_def)
  show "pc_stream demo_dead_call = Some (open_stream 1 '''')" by (simp add: demo_dead_call_def)
qed (simp_all add: limit_body_def at_rest_def demo_pool_def demo_dead_call_def new_pool_def)

definition demo_php_request :: cgi_request where
  "demo_php_request = web_request.extend (demo_web_request ''/run.php'')
     (cgi_request.fields ''HTTP/1.1'' ''/run.php'' False ''10.0.0.1:5000'' False (- 1))"

text \<open>The variables of the request in the opposite order of their assignment.\<close>

definition demo_variables :: "(string \<times> string) list" where
  "demo_variables =
     [(''REDIRECT_STATUS'', ''200''), (''SERVER_PORT'', ''80''), (''SERVER_NAME'', ''localhost''), (''REMOTE_PORT'', ''5000''), (''REMOTE_ADDR'', ''10.0.0.1''),
      (''PATH_TRANSLATED'', ''/srv/app''), (''PATH_INFO'', ''''), (''DOCUMENT_ROOT'', ''/srv/app''), (''SCRIPT_NAME'', ''/run.php''),
      (''SCRIPT_FILENAME'', ''/srv/app/run.php''), (''QUERY_STRING'', ''''), (''DOCUMENT_URI'', ''/run.php''), (''REQUEST_URI'', ''/run.php''),
      (''REQUEST_METHOD'', ''GET''), (''SERVER_PROTOCOL'', ''HTTP/1.1''), (''SERVER_SOFTWARE'', ''go-php-gateway/1.0''),
      (''GATEWAY_INTERFACE'', ''CGI/1.1'')]"

lemma demo_variables_built:
  "map_of demo_variables = build_params '''' [] demo_php_request ''/srv/app/run.php'' ''/run.php'' ''/srv/app''"
proof -
  have "host_and_port ''10.0.0.1:5000'' ''0'' = (''10.0.0.1'', ''5000'')" "host_and_port ''localhost'' ''80'' = (''localhost'', ''80'')"
    by code_simp+
  then show ?thesis
    by (simp add: demo_variables_def build_params_def build_steps demo_php_request_def demo_web_request_def web_request.defs cgi_request.defs
        header_get_def request_uri_def url_request_uri_def)
qed

theorem php_is_told_the_script_witness:
  "\<exists>rs vars. read_records (fst (send_request 1 demo_variables [])) = Some rs \<and>
     decode_pairs (length (fr_content (rs ! 1))) (fr_content (rs ! 1)) = Some vars \<and>
     map_of vars ''SCRIPT_FILENAME'' = Some ''/srv/app/run.php'' \<and> below demo_tree demo_root ''/srv/app/run.php''"
proof -
  have paths: "normalized_path [''run.php''] = ''/run.php''" "normalized_path (demo_root @ [''run.php'']) = ''/srv/app/run.php''"
    "gw_doc_root (demo_gateway default_config []) = ''/srv/app''"
    by (simp_all add: normalized_path_def demo_root_def demo_gateway_def)
  have q: "web_request.truncate demo_php_request = demo_web_request ''/run.php''"
    by (simp add: demo_php_request_def web_request.defs cgi_request.defs demo_web_request_def)
  have served: "gateway_serve no_regex demo_tree ''/'' (demo_gateway default_config []) (web_request.truncate demo_php_request) demo_no_body =
      GwPhp ''/run.php'' ''/srv/app/run.php'' ''''"
    using demo_body_served [of demo_no_body] by (simp add: q paths demo_no_body_def)
  have "length (params_bytes demo_variables) \<le> max_record_content"
    by (simp add: params_bytes_def demo_variables_def encode_pair_def encode_length_def max_record_content_def)
  from php_is_told_the_script [OF demo_default_started served _ this, of "''''" "[]" "[]" 1] show ?thesis
    by (auto simp: demo_variables_built paths)
qed

end
