(* ===== verification/Supervisor.thy ===== *)
theory Supervisor
  imports Prelude
begin

text \<open>
  \<open>internal/supervisor/supervisor.go\<close> and \<open>watchdog.go\<close>: the life of the PHP-FPM master and the loop that restarts it. A process is a number;
  what the operating system and PHP-FPM do during a call is an argument of it. A call of \<open>Start\<close> or \<open>Stop\<close> is one step: what happens where
  two of them overlap, which the shutdown of \<open>runServe\<close> does not exclude, is left out, like the text of the configuration of PHP-FPM.
\<close>

section \<open>The supervisor\<close>

datatype fpm_state = StateAbsent | StateStarting | StateReady | StateDraining | StateStopping | StateStopped | StateFailed

datatype fpm_failure = NoDirectory | NoIsolation | NoProcess | NoSocket

text \<open>\<open>su_pid\<close> is the process of the command; the channel \<open>exited\<close> is closed when it is not alive.\<close>

record supervisor =
  su_state :: fpm_state
  su_pid :: "nat option"
  su_failure :: "fpm_failure option"

record fpm_world =
  fw_live :: "nat list"
  fw_socket :: bool
  fw_next :: nat

definition new_supervisor :: supervisor where
  "new_supervisor = \<lparr>su_state = StateAbsent, su_pid = None, su_failure = None\<rparr>"

definition child_alive :: "supervisor \<Rightarrow> fpm_world \<Rightarrow> bool" where
  "child_alive s w \<longleftrightarrow> (case su_pid s of None \<Rightarrow> False | Some p \<Rightarrow> p \<in> set (fw_live w))"

text \<open>
  \<open>Stop\<close>, for a context with or without a deadline and a child that ends on the signal or not: \<open>None\<close> where it never returns.
\<close>

definition sup_stop :: "bool \<Rightarrow> bool \<Rightarrow> supervisor \<Rightarrow> fpm_world \<Rightarrow> (supervisor \<times> fpm_world) option" where
  "sup_stop deadline terminates s w =
     (if su_state s = StateStopped \<or> su_state s = StateAbsent then Some (s, w)
      else if child_alive s w \<and> \<not> terminates \<and> \<not> deadline then None
      else Some (s\<lparr>su_state := StateStopped\<rparr>,
                 w\<lparr>fw_live := (case su_pid s of None \<Rightarrow> fw_live w | Some p \<Rightarrow> removeAll p (fw_live w)), fw_socket := False\<rparr>))"

text \<open>
  What a \<open>Start\<close> meets: whether the directories and the configuration can be written, the isolation applied (\<open>None\<close> without an isolator),
  the process started, whether the process ends or makes its socket while it is waited for, whether the context of the caller
  is still valid, and whether the process ends on a signal.
\<close>

record fpm_start =
  fs_dirs :: bool
  fs_isolated :: "bool option"
  fs_spawns :: bool
  fs_dies :: bool
  fs_binds :: bool
  fs_context :: bool
  fs_terminates :: bool

text \<open>\<open>waitForSocket\<close>: it looks for the file only.\<close>

definition wait_for_socket :: "fpm_start \<Rightarrow> fpm_world \<Rightarrow> bool" where
  "wait_for_socket e w \<longleftrightarrow> fs_context e \<and> (fw_socket w \<or> fs_binds e)"

definition spawn :: "fpm_start \<Rightarrow> supervisor \<Rightarrow> fpm_world \<Rightarrow> supervisor \<times> fpm_world" where
  "spawn e s w =
     (s\<lparr>su_pid := Some (fw_next w)\<rparr>,
      w\<lparr>fw_live := (if fs_dies e then fw_live w else fw_next w # fw_live w), fw_socket := fw_socket w \<or> fs_binds e, fw_next := fw_next w + 1\<rparr>)"

definition sup_start :: "fpm_start \<Rightarrow> supervisor \<Rightarrow> fpm_world \<Rightarrow> (fpm_failure option \<times> supervisor \<times> fpm_world) option" where
  "sup_start e s w =
     (if su_state s = StateReady \<or> su_state s = StateStarting then Some (None, s, w)
      else
        (let s = s\<lparr>su_state := StateStarting\<rparr>
         in if \<not> fs_dirs e then Some (Some NoDirectory, s\<lparr>su_state := StateFailed\<rparr>, w)
            else if fs_isolated e = Some False then Some (Some NoIsolation, s\<lparr>su_state := StateFailed, su_failure := Some NoIsolation\<rparr>, w)
            else if \<not> fs_spawns e then
              Some (Some NoProcess, s\<lparr>su_state := StateFailed, su_pid := None, su_failure := Some NoProcess\<rparr>, w)
            else
              (let (s1, w1) = spawn e s w
               in if wait_for_socket e w then Some (None, s1\<lparr>su_state := StateReady, su_failure := None\<rparr>, w1)
                  else (case sup_stop False (fs_terminates e) s1 w1 of
                          None \<Rightarrow> None
                        | Some (s2, w2) \<Rightarrow>
                            Some (Some NoSocket, s2\<lparr>su_state := StateFailed, su_failure := Some NoSocket\<rparr>, w2)))))"

text \<open>\<open>HealthCheck\<close>, given whether the socket accepts a connection.\<close>

definition health_check :: "bool \<Rightarrow> supervisor \<Rightarrow> fpm_world \<Rightarrow> bool" where
  "health_check accepts s w \<longleftrightarrow> su_state s = StateReady \<and> child_alive s w \<and> fw_socket w \<and> accepts"

section \<open>The watchdog\<close>

text \<open>Durations and times are in nanoseconds.\<close>

record watchdog_config =
  wc_interval :: int
  wc_min_backoff :: int
  wc_max_backoff :: int
  wc_max_restarts :: int
  wc_window :: int
  wc_cooldown :: int

definition default_watchdog_config :: watchdog_config where
  "default_watchdog_config =
     \<lparr>wc_interval = 5 * 10 ^ 9, wc_min_backoff = 500 * 10 ^ 6, wc_max_backoff = 30 * 10 ^ 9, wc_max_restarts = 5,
      wc_window = 60 * 10 ^ 9, wc_cooldown = 120 * 10 ^ 9\<rparr>"

text \<open>The configuration of \<open>NewWatchdog\<close>.\<close>

definition watchdog_config_or_default :: "watchdog_config \<Rightarrow> watchdog_config" where
  "watchdog_config_or_default c = (if wc_interval c \<le> 0 then default_watchdog_config else c)"

record watchdog =
  wd_open :: bool
  wd_until :: int
  wd_restarts :: "int list"
  wd_total :: nat

definition new_watchdog :: watchdog where
  "new_watchdog = \<lparr>wd_open = False, wd_until = 0, wd_restarts = [], wd_total = 0\<rparr>"

definition circuit_open :: "int \<Rightarrow> watchdog \<Rightarrow> bool" where
  "circuit_open now d \<longleftrightarrow> wd_open d \<and> now < wd_until d"

definition record_healthy :: "int \<Rightarrow> watchdog \<Rightarrow> watchdog" where
  "record_healthy now d = (if wd_open d \<and> now > wd_until d then d\<lparr>wd_open := False, wd_restarts := []\<rparr> else d)"

text \<open>\<open>restart\<close> up to the delay: the number of the attempt, \<open>None\<close> where the circuit opens.\<close>

definition begin_restart :: "watchdog_config \<Rightarrow> int \<Rightarrow> int \<Rightarrow> watchdog \<Rightarrow> watchdog \<times> nat option" where
  "begin_restart c now now' d =
     (let kept = filter (\<lambda>t. t > now - wc_window c) (wd_restarts d)
      in if int (length kept) \<ge> wc_max_restarts c
         then (d\<lparr>wd_restarts := kept, wd_open := True, wd_until := now' + wc_cooldown c\<rparr>, None)
         else (d\<lparr>wd_restarts := kept @ [now'], wd_total := wd_total d + 1\<rparr>, Some (length kept)))"

text \<open>\<open>check\<close>, at the times at which it looks at the clock.\<close>

definition wd_check :: "watchdog_config \<Rightarrow> fpm_state \<Rightarrow> bool \<Rightarrow> int \<Rightarrow> int \<Rightarrow> int \<Rightarrow> watchdog \<Rightarrow> watchdog \<times> nat option" where
  "wd_check c st healthy t1 t2 t3 d =
     (if st \<in> {StateStopped, StateStopping, StateAbsent, StateStarting, StateDraining} then (d, None)
      else if healthy then (record_healthy t1 d, None)
      else if circuit_open t1 d then (d, None)
      else begin_restart c t2 t3 d)"

text \<open>\<open>backoff\<close> on 64 bits, with the random number below half of the delay, \<open>None\<close> where there is none.\<close>

definition wrap64 :: "int \<Rightarrow> int" where "wrap64 i = signed_take_bit 63 i"

fun doubled :: "int \<Rightarrow> nat \<Rightarrow> int \<Rightarrow> int" where
  "doubled limit 0 d = d"
| "doubled limit (Suc n) d = (if d < limit then doubled limit n (wrap64 (d * 2)) else d)"

definition backoff :: "watchdog_config \<Rightarrow> nat \<Rightarrow> int option \<Rightarrow> int" where
  "backoff c attempt jitter =
     (let d = doubled (wc_max_backoff c) attempt (wc_min_backoff c);
          delay = (if d > wc_max_backoff c then wc_max_backoff c else d);
          half = delay div 2
      in if half \<le> 0 then delay else (case jitter of None \<Rightarrow> delay | Some n \<Rightarrow> half + n))"

section \<open>Runs\<close>

text \<open>
  The gateway has started PHP-FPM and watches it. \<open>wr_restarts\<close> are the times of all restarts, the latest first, and \<open>wr_clock\<close>
  is a time that has passed; \<open>wr_pending\<close> holds while the watchdog waits for the delay of a restart.
\<close>

record watch_run =
  wr_sup :: supervisor
  wr_world :: fpm_world
  wr_dog :: watchdog
  wr_clock :: int
  wr_restarts :: "int list"
  wr_pending :: bool

definition watch_start :: "watch_run \<Rightarrow> bool" where
  "watch_start r \<longleftrightarrow>
     (\<exists>e socket next s w. sup_start e new_supervisor \<lparr>fw_live = [], fw_socket = socket, fw_next = next\<rparr> = Some (None, s, w) \<and>
        wr_sup r = s \<and> wr_world r = w \<and> wr_dog r = new_watchdog \<and> wr_restarts r = [] \<and> \<not> wr_pending r)"

inductive watch_step :: "watchdog_config \<Rightarrow> watch_run \<Rightarrow> watch_run \<Rightarrow> bool" for c where
  checks: "\<not> wr_pending r \<Longrightarrow>
    wd_check c (su_state (wr_sup r)) (health_check accepts (wr_sup r) (wr_world r)) t1 t2 t3 (wr_dog r) = (d, n) \<Longrightarrow>
    wr_clock r \<le> t1 \<Longrightarrow> t1 \<le> t2 \<Longrightarrow> t2 \<le> t3 \<Longrightarrow>
    watch_step c r (r\<lparr>wr_dog := d, wr_clock := t3, wr_restarts := (if n = None then [] else [t3]) @ wr_restarts r, wr_pending := n \<noteq> None\<rparr>)"
| restarts: "wr_pending r \<Longrightarrow>
    sup_stop True terminates (wr_sup r) (wr_world r) = Some (s1, w1) \<Longrightarrow> sup_start e s1 w1 = Some (f, s2, w2) \<Longrightarrow>
    watch_step c r (r\<lparr>wr_sup := s2, wr_world := w2, wr_pending := False\<rparr>)"
| cancelled: "wr_pending r \<Longrightarrow> watch_step c r (r\<lparr>wr_pending := False\<rparr>)"
| stops: "sup_stop deadline terminates (wr_sup r) (wr_world r) = Some (s1, w1) \<Longrightarrow> watch_step c r (r\<lparr>wr_sup := s1, wr_world := w1\<rparr>)"
| dies: "watch_step c r (r\<lparr>wr_world := (wr_world r)\<lparr>fw_live := []\<rparr>\<rparr>)"
| socket_changes: "watch_step c r (r\<lparr>wr_world := (wr_world r)\<lparr>fw_socket := b\<rparr>\<rparr>)"

section \<open>One process at a time\<close>

text \<open>Between the calls only a supervisor that is ready has a living process, and only the one it knows.\<close>

definition one_child :: "supervisor \<Rightarrow> fpm_world \<Rightarrow> bool" where
  "one_child s w \<longleftrightarrow>
     su_state s \<in> {StateAbsent, StateReady, StateStopped, StateFailed} \<and>
     (fw_live w = [] \<or> su_state s = StateReady \<and> (\<exists>p. su_pid s = Some p \<and> fw_live w = [p]))"

lemma stop_one_child:
  assumes "sup_stop deadline terminates s w = Some (s', w')" and "one_child s w"
  shows "one_child s' w' \<and> fw_live w' = []"
  using assms by (cases "su_pid s") (auto simp: sup_stop_def one_child_def split: if_splits)

lemma start_one_child:
  assumes "sup_start e s w = Some (f, s', w')" and "one_child s w"
  shows "one_child s' w'"
  using assms
  by (auto simp: sup_start_def one_child_def spawn_def Let_def sup_stop_def split: if_splits option.splits prod.splits)

interpretation child: invariant_machine watch_start "watch_step c" "\<lambda>r. one_child (wr_sup r) (wr_world r)"
proof unfold_locales
  show "one_child (wr_sup r) (wr_world r)" if "watch_start r" for r
    using that start_one_child by (fastforce simp: watch_start_def one_child_def new_supervisor_def)
  show "one_child (wr_sup r') (wr_world r')" if step: "watch_step c r r'" and ok: "one_child (wr_sup r) (wr_world r)" for r r'
    using step
  proof cases
    case (restarts terminates s1 w1 e f s2 w2)
    then show ?thesis using start_one_child stop_one_child [OF _ ok] by fastforce
  next
    case (stops deadline terminates s1 w1)
    then show ?thesis using stop_one_child [OF _ ok] by fastforce
  qed (use ok in \<open>auto simp: one_child_def\<close>)
qed

text \<open>C21. However PHP-FPM dies, hangs, or fails to start, and whenever the watchdog restarts it, no more than one PHP-FPM master lives at a
  time between the calls: it is the one the supervisor knows, and lives only while the supervisor is ready.\<close>

theorem one_php_at_a_time:
  assumes "reachable watch_start (watch_step c) r"
  shows "length (fw_live (wr_world r)) \<le> 1 \<and>
    (\<forall>p \<in> set (fw_live (wr_world r)). su_pid (wr_sup r) = Some p \<and> su_state (wr_sup r) = StateReady)"
  using child.reachable_inv [OF assms] by (auto simp: one_child_def)

section \<open>How often PHP-FPM is restarted\<close>

text \<open>Between two closings of the circuit each restart sees fewer than the maximum in the window before it.\<close>

fun dense :: "watchdog_config \<Rightarrow> int list \<Rightarrow> bool" where
  "dense c [] \<longleftrightarrow> True"
| "dense c (a # xs) \<longleftrightarrow> int (length (filter (\<lambda>x. a - wc_window c < x) xs)) < wc_max_restarts c \<and> dense c xs"

text \<open>The restarts, divided by the closings of the circuit, the latest first: what lies two closings back is out of the window.\<close>

fun epochs :: "watchdog_config \<Rightarrow> int list list \<Rightarrow> bool" where
  "epochs c [] \<longleftrightarrow> True"
| "epochs c (e # es) \<longleftrightarrow> dense c e \<and> (\<forall>r \<in> set e. \<forall>x \<in> set (concat (tl es)). x + wc_window c \<le> r) \<and> epochs c es"

definition in_window :: "watchdog_config \<Rightarrow> int \<Rightarrow> int list \<Rightarrow> int list" where
  "in_window c t xs = filter (\<lambda>x. t - wc_window c < x \<and> x \<le> t) xs"

lemma dense_window: "dense c xs \<Longrightarrow> length (in_window c t xs) \<le> nat (wc_max_restarts c)"
proof (induction xs)
  case (Cons a xs)
  show ?case
  proof (cases "t - wc_window c < a \<and> a \<le> t")
    case True
    then have "length (in_window c t xs) \<le> length (filter (\<lambda>x. a - wc_window c < x) xs)"
      unfolding in_window_def by (induction xs) auto
    moreover have "length (filter (\<lambda>x. a - wc_window c < x) xs) < nat (wc_max_restarts c)"
      using Cons.prems by (simp add: zless_nat_eq_int_zless)
    ultimately show ?thesis using True by (simp add: in_window_def)
  next
    case False
    with Cons show ?thesis by (auto simp: in_window_def)
  qed
qed (simp add: in_window_def)

lemma epochs_window: "epochs c es \<Longrightarrow> length (in_window c t (concat es)) \<le> 2 * nat (wc_max_restarts c)"
proof (induction es)
  case (Cons e es)
  show ?case
  proof (cases "in_window c t e = []")
    case True
    with Cons show ?thesis by (simp add: in_window_def)
  next
    case False
    then obtain r where r: "r \<in> set e" "r \<le> t" by (auto simp: in_window_def filter_empty_conv)
    have "in_window c t (concat (tl es)) = []"
      using Cons.prems r by (fastforce simp: in_window_def filter_empty_conv)
    then have "length (in_window c t (concat es)) \<le> nat (wc_max_restarts c)"
      using Cons.prems dense_window [of c _ t] by (cases es) (auto simp: in_window_def)
    moreover have "length (in_window c t e) \<le> nat (wc_max_restarts c)" using Cons.prems dense_window by simp
    ultimately show ?thesis by (simp add: in_window_def)
  qed
qed (simp add: in_window_def)

text \<open>The record of the watchdog holds what lies in the window since the last closing.\<close>

definition dog_ok :: "watchdog_config \<Rightarrow> int list list \<Rightarrow> int \<Rightarrow> watchdog \<Rightarrow> bool" where
  "dog_ok c es now d \<longleftrightarrow>
     es \<noteq> [] \<and> epochs c es \<and> (\<forall>x \<in> set (concat es). x \<le> now) \<and>
     (\<forall>x \<in> set (concat (tl (tl es))). x + wc_window c \<le> now) \<and>
     (wd_open d \<longrightarrow> (\<forall>x \<in> set (concat (tl es)). x + wc_window c \<le> wd_until d)) \<and>
     (\<forall>k. now - wc_window c \<le> k \<longrightarrow> filter (\<lambda>x. k < x) (hd es) = rev (filter (\<lambda>x. k < x) (wd_restarts d)))"

lemma dog_ok_later: "dog_ok c es now d \<Longrightarrow> now \<le> now' \<Longrightarrow> dog_ok c es now' d"
  unfolding dog_ok_def
  by (clarsimp simp del: set_concat) (meson diff_right_mono order_trans)

lemma dog_ok_all:
  assumes "dog_ok c es now d"
  shows "x \<in> set (concat es) \<Longrightarrow> x \<le> now" and "x \<in> set (concat (tl es)) \<Longrightarrow> x \<le> now"
  using assms by (cases es, auto simp: dog_ok_def)+

lemma healthy_ok:
  assumes "dog_ok c es now d" and "now \<le> t"
  shows "\<exists>es'. dog_ok c es' t (record_healthy t d) \<and> concat es' = concat es"
proof (cases "wd_open d \<and> t > wd_until d")
  case True
  have "\<forall>x \<in> set (concat (tl es)). x + wc_window c \<le> wd_until d" using assms(1) True unfolding dog_ok_def by blast
  then have "\<forall>x \<in> set (concat (tl es)). x + wc_window c \<le> t" using True by (meson less_imp_le order_trans)
  moreover have "\<forall>x \<in> set (concat es). x \<le> t" using dog_ok_all(1) [OF assms(1)] assms(2) by (meson order_trans)
  moreover have "epochs c es" "es \<noteq> []" using assms(1) by (simp_all add: dog_ok_def)
  ultimately have "dog_ok c ([] # es) t (record_healthy t d)"
    using True unfolding dog_ok_def by (simp add: record_healthy_def del: set_concat)
  then show ?thesis by (intro exI [of _ "[] # es"]) simp
next
  case False
  then have "record_healthy t d = d" by (auto simp: record_healthy_def)
  with dog_ok_later [OF assms] show ?thesis by auto
qed

lemma filter_later: "(j :: int) \<le> k \<Longrightarrow> filter (\<lambda>x. j < x \<and> k < x) xs = filter (\<lambda>x. k < x) xs"
  by (intro filter_cong) auto

lemma opened_ok:
  assumes "dog_ok c es now d" and "begin_restart c t2 t3 d = (d', None)" and "now \<le> t2" and "t2 \<le> t3" and "wc_window c \<le> wc_cooldown c"
  shows "dog_ok c es t3 d'"
proof -
  have d': "wd_restarts d' = filter (\<lambda>t. t2 - wc_window c < t) (wd_restarts d)" "wd_until d' = t3 + wc_cooldown c"
    using assms(2) by (auto simp: begin_restart_def Let_def split: if_splits)
  have "\<forall>x \<in> set (concat (tl es)). x + wc_window c \<le> t3 + wc_cooldown c"
    using dog_ok_all(2) [OF assms(1)] assms(3-5) by force
  moreover have "filter (\<lambda>x. k < x) (wd_restarts d') = filter (\<lambda>x. k < x) (wd_restarts d)" if "t3 - wc_window c \<le> k" for k
    using that assms(4) by (simp add: d' filter_later)
  ultimately show ?thesis
    using dog_ok_later [OF assms(1), of t3] assms(3,4) unfolding dog_ok_def d'(2) by (simp del: set_concat)
qed

lemma restarted_ok:
  assumes "dog_ok c es now d" and "begin_restart c t2 t3 d = (d', Some n)" and "now \<le> t2" and "t2 \<le> t3"
  shows "\<exists>es'. dog_ok c es' t3 d' \<and> concat es' = t3 # concat es"
proof -
  let ?kept = "filter (\<lambda>t. t2 - wc_window c < t) (wd_restarts d)"
  have d': "wd_restarts d' = ?kept @ [t3]" "wd_open d' = wd_open d" "wd_until d' = wd_until d" "int (length ?kept) < wc_max_restarts c"
    using assms(2) by (auto simp: begin_restart_def Let_def split: if_splits)
  obtain e rest where es: "es = e # rest" using assms(1) by (cases es) (auto simp: dog_ok_def)
  have same: "filter (\<lambda>x. k < x) e = rev (filter (\<lambda>x. k < x) (wd_restarts d))" if "now - wc_window c \<le> k" for k
    using assms(1) that unfolding dog_ok_def es by simp
  have kept: "filter (\<lambda>x. k < x) ?kept = filter (\<lambda>x. k < x) (wd_restarts d)" if "t3 - wc_window c \<le> k" for k
    using that assms(4) by (simp add: filter_later)
  have "filter (\<lambda>x. t3 - wc_window c < x) e = rev (filter (\<lambda>x. t3 - wc_window c < x) ?kept)"
    using same [of "t3 - wc_window c"] assms(3,4) by (simp only: kept)
  then have "int (length (filter (\<lambda>x. t3 - wc_window c < x) e)) < wc_max_restarts c"
    using d'(4) length_filter_le [of "\<lambda>x. t3 - wc_window c < x" ?kept] by simp
  moreover have "\<forall>x \<in> set (concat (tl rest)). x + wc_window c \<le> t3"
    using dog_ok_later [OF assms(1), of t3] assms(3,4) unfolding dog_ok_def es by simp
  ultimately have "epochs c ((t3 # e) # rest)" using assms(1) unfolding dog_ok_def es by simp
  moreover have "filter (\<lambda>x. k < x) (t3 # e) = rev (filter (\<lambda>x. k < x) (?kept @ [t3]))" if "t3 - wc_window c \<le> k" for k
    using same [of k] kept [OF that] that assms(3,4) by simp
  moreover have "dog_ok c (e # rest) t3 d" using dog_ok_later [OF assms(1), of t3] assms(3,4) by (simp add: es)
  ultimately have "dog_ok c ((t3 # e) # rest) t3 d'" unfolding dog_ok_def d' by (simp del: set_concat)
  then show ?thesis by (intro exI [of _ "(t3 # e) # rest"]) (simp add: es)
qed

lemma check_ok:
  assumes "dog_ok c es now d" and "wd_check c st healthy t1 t2 t3 d = (d', n)" and "now \<le> t1" and "t1 \<le> t2" and "t2 \<le> t3"
    and "wc_window c \<le> wc_cooldown c"
  shows "\<exists>es'. dog_ok c es' t3 d' \<and> concat es' = (if n = None then [] else [t3]) @ concat es"
proof -
  have later: "dog_ok c es t2 d" "dog_ok c es t3 d" using dog_ok_later [OF assms(1)] assms(3-5) by simp_all
  consider "d' = d" "n = None" | "d' = record_healthy t1 d" "n = None" | "begin_restart c t2 t3 d = (d', n)"
    using assms(2)
    by (cases "st \<in> {StateStopped, StateStopping, StateAbsent, StateStarting, StateDraining}"; cases healthy; cases "circuit_open t1 d")
      (simp_all add: wd_check_def)
  then show ?thesis
  proof cases
    case 1
    with later show ?thesis by auto
  next
    case 2
    with healthy_ok [OF assms(1,3)] obtain es' where "dog_ok c es' t1 d'" "concat es' = concat es" by blast
    with dog_ok_later [of c es' t1 d' t3] assms(4,5) 2 show ?thesis by auto
  next
    case 3
    then show ?thesis
      using opened_ok [OF later(1) _ order_refl assms(5,6)] restarted_ok [OF later(1) _ order_refl assms(5)] by (cases n) fastforce+
  qed
qed

definition watch_ok :: "watchdog_config \<Rightarrow> watch_run \<Rightarrow> bool" where
  "watch_ok c r \<longleftrightarrow> (wc_window c \<le> wc_cooldown c \<longrightarrow> (\<exists>es. dog_ok c es (wr_clock r) (wr_dog r) \<and> concat es = wr_restarts r))"

interpretation watch: invariant_machine watch_start "watch_step c" "watch_ok c"
proof unfold_locales
  show "watch_ok c r" if "watch_start r" for r
    using that by (auto simp: watch_start_def watch_ok_def dog_ok_def new_watchdog_def intro!: exI [of _ "[[]]"])
  show "watch_ok c r'" if step: "watch_step c r r'" and ok: "watch_ok c r" for r r'
    using step
  proof cases
    case (checks accepts t1 t2 t3 d n)
    show ?thesis
    proof (unfold watch_ok_def, intro impI)
      assume w: "wc_window c \<le> wc_cooldown c"
      then obtain es where "dog_ok c es (wr_clock r) (wr_dog r)" "concat es = wr_restarts r" using ok by (auto simp: watch_ok_def)
      with check_ok [OF _ checks(3-6) w] show "\<exists>es. dog_ok c es (wr_clock r') (wr_dog r') \<and> concat es = wr_restarts r'"
        using checks(1) by fastforce
    qed
  qed (use ok in \<open>simp_all add: watch_ok_def\<close>)
qed

text \<open>C22. The watchdog cannot restart PHP-FPM in a tight loop: if the circuit stays open for at least the window, no window of time has more than
  twice the configured number of restarts in it. Twice, because the first good check after a cooldown also forgets the restarts that were made
  since the cooldown ended.\<close>

theorem restarts_are_bounded:
  assumes "reachable watch_start (watch_step c) r" and "wc_window c \<le> wc_cooldown c"
  shows "length (filter (\<lambda>x. t - wc_window c < x \<and> x \<le> t) (wr_restarts r)) \<le> 2 * nat (wc_max_restarts c)"
proof -
  obtain es where "dog_ok c es (wr_clock r) (wr_dog r)" "concat es = wr_restarts r"
    using watch.reachable_inv [OF assms(1)] assms(2) by (auto simp: watch_ok_def)
  with epochs_window [of c es t] show ?thesis by (simp add: dog_ok_def in_window_def)
qed

section \<open>Backoff\<close>

lemma wrap64_id: "- (2 ^ 63) \<le> i \<Longrightarrow> i < 2 ^ 63 \<Longrightarrow> wrap64 i = i"
  by (simp add: wrap64_def signed_take_bit_int_eq_self)

lemma doubled_power:
  assumes "0 < d" and "d \<le> limit" and "limit \<le> 2 ^ 62"
  shows "min limit (doubled limit n d) = min limit (d * 2 ^ n)"
  using assms
proof (induction n arbitrary: d)
  case (Suc n)
  show ?case
  proof (cases "d < limit")
    case True
    then have wrap: "wrap64 (d * 2) = d * 2" using Suc.prems by (intro wrap64_id) auto
    show ?thesis
    proof (cases "d * 2 \<le> limit")
      case True
      with Suc.IH [of "d * 2"] Suc.prems wrap \<open>d < limit\<close> show ?thesis by (simp add: mult.assoc)
    next
      case False
      then have "doubled limit n (d * 2) = d * 2" by (cases n) auto
      moreover have "d * 2 * 1 \<le> d * 2 * 2 ^ n" using Suc.prems by (intro mult_left_mono) simp_all
      then have "limit \<le> d * (2 * 2 ^ n)" using False by (simp only: mult.assoc)
      ultimately show ?thesis using False wrap \<open>d < limit\<close> by (simp add: min_absorb1)
    qed
  next
    case False
    then have "d = limit" using Suc.prems by simp
    moreover have "limit * 1 \<le> limit * 2 ^ Suc n" using Suc.prems one_le_power [of "2 :: int" "Suc n"] by (intro mult_left_mono) linarith+
    ultimately show ?thesis by simp
  qed
qed simp

text \<open>The delay before a restart doubles with each attempt up to the maximum, with at most half of it left to chance, whatever the number of
  attempts: with bounds up to \<open>2 ^ 62\<close> nanoseconds the doubling does not overflow.\<close>

theorem backoff_doubles:
  assumes "0 < wc_min_backoff c" and "wc_min_backoff c \<le> wc_max_backoff c" and "wc_max_backoff c \<le> 2 ^ 62"
    and "delay = min (wc_max_backoff c) (wc_min_backoff c * 2 ^ attempt)" and "\<forall>n. jitter = Some n \<longrightarrow> 0 \<le> n \<and> n < delay div 2"
  shows "delay div 2 \<le> backoff c attempt jitter \<and> backoff c attempt jitter \<le> delay"
proof -
  have "(if doubled (wc_max_backoff c) attempt (wc_min_backoff c) > wc_max_backoff c then wc_max_backoff c
      else doubled (wc_max_backoff c) attempt (wc_min_backoff c)) = delay"
    using doubled_power [OF assms(1-3), of attempt] assms(4) by (simp add: min_def split: if_splits)
  moreover have "0 < delay" using assms(1,2,4) by simp
  ultimately show ?thesis using assms(5) by (cases jitter) (auto simp: backoff_def Let_def)
qed

section \<open>What the calls do not guarantee\<close>

text \<open>\<open>Start\<close> is content with any file at the path of the socket: where an earlier run has left one, it reports success for a process that has
  already died or does not listen, and the health check fails at once.\<close>

theorem start_trusts_stale_socket:
  assumes "su_state s \<notin> {StateReady, StateStarting}" and "fw_socket w" and "fs_dirs e" and "fs_isolated e \<noteq> Some False" and "fs_spawns e"
    and "fs_context e" and "fs_dies e" and "fw_next w \<notin> set (fw_live w)"
  shows "\<exists>s' w'. sup_start e s w = Some (None, s', w') \<and> su_state s' = StateReady \<and> (\<forall>a. \<not> health_check a s' w')"
proof -
  have "wait_for_socket e w" using assms(2,6) by (simp add: wait_for_socket_def)
  moreover obtain s1 w1 where sp: "spawn e (s\<lparr>su_state := StateStarting\<rparr>) w = (s1, w1)" by fastforce
  ultimately have "sup_start e s w = Some (None, s1\<lparr>su_state := StateReady, su_failure := None\<rparr>, w1)"
    using assms(1,3,4,5) unfolding sup_start_def Let_def by simp
  moreover have "su_pid s1 = Some (fw_next w)" "fw_live w1 = fw_live w" using sp assms(7) by (auto simp: spawn_def)
  ultimately show ?thesis using assms(8) by (simp add: health_check_def child_alive_def)
qed

text \<open>\<open>Stop\<close> returns, and leaves no process, whenever its context has a deadline; without one, as it is called when the gateway shuts down and
  after a failed start, it waits for ever for a process that ignores the signal.\<close>

theorem stop_returns_iff:
  assumes "one_child s w"
  shows "(sup_stop deadline terminates s w \<noteq> None \<longleftrightarrow> deadline \<or> terminates \<or> \<not> child_alive s w) \<and>
    (\<forall>s' w'. sup_stop deadline terminates s w = Some (s', w') \<longrightarrow> fw_live w' = [])"
proof (intro conjI allI impI)
  have "su_state s = StateStopped \<or> su_state s = StateAbsent \<Longrightarrow> \<not> child_alive s w"
    using assms by (auto simp: one_child_def child_alive_def split: option.split)
  then show "sup_stop deadline terminates s w \<noteq> None \<longleftrightarrow> deadline \<or> terminates \<or> \<not> child_alive s w"
    unfolding sup_stop_def by simp blast
  show "fw_live w' = []" if "sup_stop deadline terminates s w = Some (s', w')" for s' w'
    using stop_one_child [OF that assms] by simp
qed

text \<open>A good check between two failures after a cooldown: two restarts in a window for which one is allowed.\<close>

lemma good_check_forgets:
  assumes "c = default_watchdog_config\<lparr>wc_max_restarts := 1, wc_window := 60, wc_cooldown := 120\<rparr>"
    and "d = \<lparr>wd_open = True, wd_until = 121, wd_restarts = [0], wd_total = 1\<rparr>"
    and "wd_check c StateReady False 122 122 122 d = (d1, n1)" and "wd_check c StateReady True 123 123 123 d1 = (d2, n2)"
    and "wd_check c StateReady False 124 124 124 d2 = (d3, n3)"
  shows "n1 = Some 0 \<and> n3 = Some 0"
  using assms by (auto simp: wd_check_def begin_restart_def circuit_open_def record_healthy_def)

text \<open>A \<open>Stop\<close> while the watchdog waits for the delay is undone: the supervisor is started again.\<close>

lemma stop_is_undone:
  assumes "wr_pending r" and "sup_stop True terminates (wr_sup r) (wr_world r) = Some (s1, w1)" and "su_state s1 = StateStopped"
    and "sup_start e s1 w1 = Some (None, s2, w2)"
  shows "\<exists>r'. watch_step c (r\<lparr>wr_sup := s1, wr_world := w1\<rparr>) r' \<and> su_state (wr_sup r') = StateReady"
proof -
  have "sup_stop True terminates s1 w1 = Some (s1, w1)" using assms(3) by (simp add: sup_stop_def)
  moreover have "su_state s2 = StateReady"
    using assms(3,4) by (auto simp: sup_start_def Let_def split: if_splits prod.splits option.splits)
  ultimately show ?thesis
    using watch_step.restarts [of "r\<lparr>wr_sup := s1, wr_world := w1\<rparr>" terminates s1 w1 e None s2 w2 c] assms(1,4)
    by (intro exI [of _ "r\<lparr>wr_sup := s2, wr_world := w2, wr_pending := False\<rparr>"]) simp
qed

section \<open>Witnesses\<close>

definition demo_start :: fpm_start where
  "demo_start =
     \<lparr>fs_dirs = True, fs_isolated = None, fs_spawns = True, fs_dies = False, fs_binds = True, fs_context = True, fs_terminates = True\<rparr>"

definition demo_running :: "nat \<Rightarrow> watchdog \<Rightarrow> int \<Rightarrow> int list \<Rightarrow> watch_run" where
  "demo_running p d now rs =
     \<lparr>wr_sup = \<lparr>su_state = StateReady, su_pid = Some p, su_failure = None\<rparr>,
      wr_world = \<lparr>fw_live = [p], fw_socket = True, fw_next = p + 1\<rparr>, wr_dog = d, wr_clock = now, wr_restarts = rs, wr_pending = False\<rparr>"

text \<open>The process dies and is restarted at the next check.\<close>

definition demo_dog :: watchdog where
  "demo_dog = \<lparr>wd_open = False, wd_until = 0, wd_restarts = [10], wd_total = 1\<rparr>"

lemma demo_restart: "reachable watch_start (watch_step default_watchdog_config) (demo_running 1 demo_dog 10 [10])"
proof -
  let ?r0 = "demo_running 0 new_watchdog 0 []"
  let ?r1 = "?r0\<lparr>wr_world := (wr_world ?r0)\<lparr>fw_live := []\<rparr>\<rparr>"
  let ?r2 = "?r1\<lparr>wr_dog := demo_dog, wr_clock := 10, wr_restarts := [10], wr_pending := True\<rparr>"
  let ?r3 = "demo_running 1 demo_dog 10 [10]"
  let ?s1 = "\<lparr>su_state = StateStopped, su_pid = Some 0, su_failure = None\<rparr>"
  let ?w1 = "\<lparr>fw_live = [], fw_socket = False, fw_next = 1\<rparr>"
  have "sup_start demo_start new_supervisor \<lparr>fw_live = [], fw_socket = False, fw_next = 0\<rparr> = Some (None, wr_sup ?r0, wr_world ?r0)"
    by (simp add: sup_start_def demo_start_def new_supervisor_def spawn_def wait_for_socket_def demo_running_def)
  then have "watch_start ?r0" unfolding watch_start_def by (auto simp: demo_running_def)
  then have "reachable watch_start (watch_step default_watchdog_config) ?r1" by (blast intro: reachable_init reachable_step watch_step.dies)
  moreover have "watch_step default_watchdog_config ?r1 ?r2"
    using watch_step.checks [of ?r1 default_watchdog_config True 10 10 10 demo_dog "Some 0"]
    by (simp add: wd_check_def health_check_def child_alive_def begin_restart_def circuit_open_def demo_running_def new_watchdog_def
        default_watchdog_config_def demo_dog_def)
  moreover have "watch_step default_watchdog_config ?r2 (?r2\<lparr>wr_sup := wr_sup ?r3, wr_world := wr_world ?r3, wr_pending := False\<rparr>)"
  proof (rule watch_step.restarts)
    show "sup_stop True True (wr_sup ?r2) (wr_world ?r2) = Some (?s1, ?w1)"
      by (simp add: sup_stop_def demo_running_def)
    show "sup_start demo_start ?s1 ?w1 = Some (None, wr_sup ?r3, wr_world ?r3)"
      by (simp add: sup_start_def demo_start_def spawn_def wait_for_socket_def demo_running_def)
  qed simp
  moreover have "?r2\<lparr>wr_sup := wr_sup ?r3, wr_world := wr_world ?r3, wr_pending := False\<rparr> = ?r3" by (simp add: demo_running_def)
  ultimately show ?thesis by (metis reachable_step)
qed

theorem one_php_at_a_time_witness:
  "\<exists>r. reachable watch_start (watch_step default_watchdog_config) r \<and> fw_live (wr_world r) = [1] \<and> su_pid (wr_sup r) = Some 1"
  using one_php_at_a_time [OF demo_restart] demo_restart by (intro exI [of _ "demo_running 1 demo_dog 10 [10]"]) (simp add: demo_running_def)

theorem restarts_are_bounded_witness:
  "\<exists>r. reachable watch_start (watch_step default_watchdog_config) r \<and> wr_restarts r = [10] \<and>
     length (filter (\<lambda>x. 10 - wc_window default_watchdog_config < x \<and> x \<le> 10) (wr_restarts r)) \<le> 10"
  using restarts_are_bounded [OF demo_restart, of 10] demo_restart
  by (intro exI [of _ "demo_running 1 demo_dog 10 [10]"]) (simp add: demo_running_def default_watchdog_config_def)

end
