(* ===== verification/Spec2Isabelle.thy ===== *)
theory Spec2Isabelle
  imports SitesPage DeploymentsPage ConfigPage LogsPage ExtensionsPage InspectPages DashboardPage Shell SiteServer Policy Explain Guard Releases ReleaseCopy ReleaseStore Status Contracts Router Settings Management Gateway FastCgi FastCgiPool CgiResponse CgiParams PhpRequest Supervisor
begin

text \<open>
  The dashboard of the Go-PHP gateway (\<open>dashboard/src\<close>), a React application that manages sites,
  releases, extensions and the configuration of a gateway, and the management server in Go behind its JSON
  interface (\<open>internal/ui\<close> and the packages its handlers call).

  \<^bold>\<open>How the program is put together.\<close> \<open>App.tsx\<close> maps each path to a page inside the frame \<open>Layout.tsx\<close>.
  Every page fetches with the hook \<open>useApi\<close>, whose fetchers are the calls of \<open>api/client.ts\<close>; some
  poll with \<open>useInterval\<close>. A page is a set of React states, event handlers that change them and send
  requests, effects that run after a render, and the JSX it returns. The user acts on what is
  rendered; responses arrive in any order. A request passes the guard (\<open>internal/admin\<close>) and is dispatched to a handler, which
  works on the state of the server, or on the file tree through the release manager (\<open>internal/deploy\<close>) and the resolver
  (\<open>internal/filesystem\<close>), or explains what the gateway would do (\<open>internal/diagnostics\<close>, \<open>internal/policy\<close>). The gateway
  itself (\<open>cmd/gateway\<close>) loads and reloads a configuration (\<open>internal/config\<close>), and sends each request through its routes
  (\<open>internal/router\<close>) and the resolver to a file, a script or an upstream. A script is run by PHP, over pooled connections that speak
  FastCGI (\<open>internal/php\<close>).

  \<^bold>\<open>How it is modelled.\<close> A component is a record of its React states, together with the requests it has
  sent and the asynchronous handlers that wait at their \<open>await\<close>. A handler is a function on that
  record, split at the \<open>await\<close>: the part before it sends the request and remembers what its closure
  has captured, the parts after it run when the request succeeds or fails. The JSX is a function from the record
  to a tree of nodes whose handlers are messages (\<open>View\<close>), so that what the user can do in a state is
  what its tree offers; disabled buttons, closed dialogs and rows that are not shown offer nothing.
  Each page has a step relation of user actions, timers, responses and failures, in any
  interleaving, and its properties hold in every reachable state or for every step. A handler in Go is a function from
  the request, the state and an environment (file system, listeners, clock) to a response and the new state; a panic-free
  error path is a value of a sum or option type.

  \<^bold>\<open>The theories of the dashboard.\<close>
  \<^item> \<open>Prelude\<close>: string and number operations of the standard library with their round trip,
    list operations, reachability, and the contracts \<open>invariant_machine\<close> (a page and its invariant),
    \<open>single_flight\<close> (a button disabled while its request is outstanding) and \<open>tracer\<close> (a single-flight
    handler that shows the answer to its last question).
  \<^item> \<open>View\<close>: nodes, what a tree offers, \<open>components/StatCard.tsx\<close> and \<open>components/Modal.tsx\<close>.
  \<^item> \<open>UseApi\<close>: \<open>hooks/useApi.ts\<close>. \<open>use_api\<close> is one use of the data hook with its outstanding fetches,
    \<open>interval\<close> one use of the timer hook with the live timers of the browser. The contract
    \<open>resource_hook\<close> is what pages rely on.
  \<^item> \<open>Types\<close>: JSON values and \<open>types/index.ts\<close>. \<open>Client\<close>: \<open>api/client.ts\<close>, requests and the settling of
    responses, with \<open>encodeURIComponent\<close> and the reading of a query by \<open>net/url\<close>. \<open>Contracts\<close>: the declared types as
    descriptions, and which responses of the server have them.
  \<^item> \<open>SitesPage\<close>, \<open>DeploymentsPage\<close>, \<open>ConfigPage\<close>, \<open>LogsPage\<close>, \<open>ExtensionsPage\<close>, \<open>DashboardPage\<close>: the pages of the
    same name under \<open>pages/\<close>. \<open>InspectPages\<close>: \<open>Routes.tsx\<close>, \<open>RequestExplorer.tsx\<close>, \<open>Doctor.tsx\<close>, \<open>Runtimes.tsx\<close>.
  \<^item> \<open>Shell\<close>: \<open>App.tsx\<close>, \<open>components/Layout.tsx\<close> and \<open>components/CommandPalette.tsx\<close>.

  \<^bold>\<open>The theories of the server.\<close>
  \<^item> \<open>SiteServer\<close>: the handlers of sites, configuration, logs and health in \<open>ui/handlers.go\<close>, the registry of
    \<open>siteManager.go\<close>, the log buffer and the routes of \<open>server.go\<close>. \<open>Status\<close>: \<open>StatusProvider\<close> and its handlers.
  \<^item> \<open>Guard\<close>: \<open>admin/guard.go\<close> with the rate limiter and audit log of \<open>admin/api.go\<close>, as a wrapper of any handler.
    \<open>Management\<close>: the mux of \<open>ui/server.go\<close> over all handlers, on one state of sites, counters and files; the
    contract \<open>guarded_handler\<close> is interpreted on it.
  \<^item> \<open>Files\<close>: a file tree with links and the operations of \<open>os\<close> on it. \<open>RequestPath\<close>: \<open>filesystem/path.go\<close>.
    \<open>Resolver\<close>: \<open>filesystem/resolver.go\<close> and the lookup of a site's handler in \<open>siteManager.go\<close>.
  \<^item> \<open>Policy\<close>: \<open>policy/engine.go\<close> and \<open>policy/mode.go\<close>. \<open>Router\<close>: \<open>router/match.go\<close> and
    \<open>router/rewrite.go\<close>. \<open>Explain\<close>: \<open>diagnostics/explain.go\<close> and its handler.
  \<^item> \<open>Settings\<close>: \<open>config/config.go\<close>, \<open>validate.go\<close>, \<open>bytesize.go\<close> and \<open>extensions.go\<close>, and the handler of
    \<open>/api/config/validate\<close>. \<open>Gateway\<close>: the request path of \<open>cmd/gateway/main.go\<close> with start and reload, a machine whose invariant
    (\<open>invariant_machine\<close>) holds in every run.
  \<^item> \<open>FastCgi\<close>: \<open>php/fastcgi/protocol.go\<close> over the bytes of a connection: records, requests, and a response as a stream. \<open>FastCgiPool\<close>:
    \<open>php/fastcgi/pool.go\<close> as an \<open>invariant_machine\<close>. \<open>CgiParams\<close>: \<open>php/cgi/params.go\<close>. \<open>CgiResponse\<close>: \<open>php/cgi/response.go\<close>.
    \<open>PhpRequest\<close>: the second half of \<open>servePHP\<close>, where they meet. \<open>Supervisor\<close>: \<open>supervisor/supervisor.go\<close> and
    \<open>watchdog.go\<close>, as a machine of calls, checks and dying processes.
  \<^item> \<open>Releases\<close>: \<open>deploy/release.go\<close> and the handlers of \<open>/api/deploy\<close>. \<open>ReleaseCopy\<close>: the copy of a source tree.
    \<open>ReleaseStore\<close>: an abstract store of releases, the refinement of activation by the handlers, and of rollback where the directory of
    the releases is absolute.
  \<^item> This theory: what spans pages, and the pages on the server.

  \<^bold>\<open>What the theorems show.\<close> Of the pages: requests are guarded (which request a state can send, and with what; the page of the sites sends what the user asks for, and deletes
  what the user confirms), accounted
  for (sent as often as the hooks have issued fetches) and, where a button is disabled meanwhile, one at a
  time. Shown data is the last response, matching entries, the answer to the last question. Edits
  of the configuration touch one member and keep the shape the form needs, so that it always renders.
  Lists are bounded, timers run exactly when polling is shown, tables of the pages agree.
  Of the server: without the token nothing changes it and no answer but refusals and the health check comes back, clients are limited to the configured rate and
  are never locked out by themselves or others, the session cookie admits the page's calls; a creation of a site has one of two outcomes, running servers are listed,
  sites survive their JSON form and calls reach their handlers with responses of the declared types. A parsed path is safe, what is opened lies
  below its root, the decision of the rules meets its specification; an activation implements the abstract store, and a
  creation makes an exact copy or leaves nothing behind; the rewriting loop follows a relation and ends where it decreases. Of the gateway: in every run what it
  opens lies below the root, a reload does all or nothing, a validated configuration is well formed and stays as it is, its sizes are bounded
  and its extensions resolve, and an explanation tells what a request gets. Of PHP: what is written to a connection is read back, and names
  the script that was checked, whatever the headers; a response is read piece by piece; the pool keeps its account and answers call after call; one PHP-FPM runs at a time and is
  not restarted more often than the configuration allows, twice over. Of the dashboard and its server together: the dialog's port is accepted, the configuration page renders what the handler sends,
  and the explorer shows what the server computed for the URL asked last.
  Some theorems record behaviour that is probably not meant: an older response replaces a newer one, a saved configuration separates the
  list of sites from what runs, a log stream falls silent, a release copies itself without end, the first activation loses the
  releases, the default configuration has no body limit, scripts are run through links that are denied, long parameters become records, the body
  that comes with the headers is lost, a dead PHP process answers with success; the text in front of each says so.

  \<^bold>\<open>Conventions and bounds.\<close> A JavaScript number is an \<open>int\<close> (the pages only compute with integers below
  \<open>2 ^ 53\<close>); fractional measurements are pairs, and the limiter's floats are rational numbers. Strings are UTF-8 byte strings, and so are the bytes of a
  connection; the fields of a FastCGI record are words of their width.
  \<open>None\<close> is \<open>null\<close>, \<open>undefined\<close> or \<open>nil\<close>. A view that can throw returns an option. Every definition is total. The only fuel is the number of levels of
  \<open>copy_release_dir\<close>: a source of depth \<open>n\<close> (\<open>deep n\<close>) is copied with \<open>n\<close> levels, which \<open>release_is_exact_copy\<close> proves enough,
  and \<open>dashboard_release_never_completes\<close> shows that no number of levels is enough there. The bounds
  of the code, such as the 500 log entries, the 4 s toast and the intervals, are the numbers of the source.
  Parameters stand for the environment: the server's responses where a page is considered alone, the clock, the locale of the browser,
  the confirmation dialog, and in Go \<open>http.NewRequest\<close>, \<open>regexp\<close>, YAML, and the address parsing of \<open>net\<close>.

  \<^bold>\<open>What is not modelled.\<close> Fixed style classes, layout and the drawing of icons and charts; scrolling;
  the bootstrap \<open>main.tsx\<close> and the build configuration; the generated bundles under
  \<open>internal/ui/static\<close>. Of the server, what the handlers of system, doctor and compatibility report on
  the machine (a parameter of their definitions), the static file server, and the start and stop of listeners. Of the gateway, what follows the choice of a file or
  an upstream: conditional requests and proxying; the configuration and isolation of PHP-FPM, and the deadlines of its connections; and the
  process around it: middleware, TLS, the command line. The dashboard sees none of it.
\<close>

section \<open>Tables shared by pages\<close>

text \<open>The dialog of the sites page and the extensions page offer the same extensions and, apart from the
  dialog's empty choice, the same profiles; every extension that a profile selects can be toggled in both.\<close>

theorem extension_pickers_agree:
  "set site_all_extensions = set extension_names \<and>
   set (map fst site_profiles) = insert '''' (set profile_names) \<and>
   (\<forall>p \<in> set built_in_profiles. set (p_extensions p) \<subseteq> set site_all_extensions)"
proof -
  have names: "set site_all_extensions = set extension_names"
    unfolding site_all_extensions_def extension_names_def all_extensions_def by auto
  have "set (map fst site_profiles) = insert '''' (set profile_names)"
    unfolding site_profiles_def profile_names_def built_in_profiles_def by auto
  with names profiles_known show ?thesis by (auto simp: list_all_iff)
qed

theorem extension_pickers_agree_witness:
  "\<exists>p. find_profile ''laravel'' = Some p \<and> ''sockets'' \<in> set (p_extensions p) \<and>
     set (p_extensions p) \<subseteq> set site_all_extensions"
proof -
  have "\<exists>p. find_profile ''laravel'' = Some p \<and> ''sockets'' \<in> set (p_extensions p)"
    by (simp add: find_profile_def built_in_profiles_def)
  then obtain p where p: "find_profile ''laravel'' = Some p" "''sockets'' \<in> set (p_extensions p)" by blast
  then have "p \<in> set built_in_profiles" by (auto simp: find_profile_def dest: find_SomeD)
  with extension_pickers_agree p show ?thesis by blast
qed

section \<open>The dashboard on its server\<close>

definition served_config :: "json \<Rightarrow> bool" where
  "served_config c \<longleftrightarrow> (\<exists>srv. c = config_json srv)"

lemma served_config_ok: "served_config c \<Longrightarrow> config_ok c"
  by (auto simp: served_config_def config_ok_def config_sections_def config_json_def section_of_def
      patterns_of_def member_of_def)

text \<open>C33. With the configurations that the server's handler sends, in every state of the server, the
  configuration page renders in every run, whatever is typed, saved and refetched.\<close>

theorem config_page_renders_on_server:
  assumes "reachable config_start (config_step served_config) s"
  shows "config_view s \<noteq> None"
proof -
  have "reachable config_start (config_step config_ok) s"
    using assms by (rule reachable_mono) (blast intro: config_step_mono served_config_ok)
  then show ?thesis using config.reachable_inv by (simp add: config_inv_def config_ok_view)
qed

text \<open>What is edited in the form never takes effect: a save is answered with success, but whatever it
  carries, the configuration the server sends afterwards has the same value behind every field of the form,
  so the refetch after the save undoes the edit.\<close>

theorem config_edits_are_lost:
  assumes "p \<in> set (''php.max_children'' # text_paths)"
  shows "rs_code (fst (handle_config_save e POST body srv)) = 200 \<and>
     get_path (split_on (CHR ''.'') p) (config_json (snd (handle_config_save e POST body srv)))
       = get_path (split_on (CHR ''.'') p) (config_json srv)"
proof -
  from form_path_parts [OF assms] obtain a b where
    p: "split_on (CHR ''.'') p = [a, b]" "a \<in> set config_sections" by blast
  have doc: "sv_doc_root (snd (handle_config_save e POST body srv)) = sv_doc_root srv"
    by (simp add: handle_config_save_def Let_def split: option.split)
  have "get_path [a] (config_json (snd (handle_config_save e POST body srv))) = get_path [a] (config_json srv)"
    using p(2) by (auto simp: config_sections_def config_json_def member_of_def doc)
  moreover have "get_path [a, b] c = Option.bind (get_path [a] c) (get_path [b])" for c
    by (cases c) (auto split: option.split)
  ultimately show ?thesis
    by (simp add: p(1) handle_config_save_def Let_def json_resp_def del: get_path.simps)
qed

lemma next_port_gt: "x \<in> set xs \<Longrightarrow> s_port x < next_port xs"
proof (cases xs)
  case (Cons y ys)
  then show "x \<in> set xs \<Longrightarrow> s_port x < next_port xs"
    using fold_max_ge [of "s_port y" "map s_port ys"] by (auto simp: next_port_def)
qed simp

lemma decode_create_request:
  "int64 (f_port f) \<Longrightarrow> decode_site e (rq_body (createSite f)) =
     Some (zero_site\<lparr>g_name := f_name f, g_port := f_port f, g_webroot := f_webroot f, g_php_version := f_php_version f\<rparr>)"
  by (simp add: api_defs create_request_to_json_def decode_site_def decode_members_def field_of_Cons int64_def
      zero_site_def)

text \<open>C27. The port the creation dialog proposes is accepted: when the page's list shows the ports the server
  has, a creation with the proposed port never meets a port conflict, and it succeeds when the port is valid,
  no server runs under the ID, and the system can create the webroot and open the port.\<close>

theorem proposed_port_is_accepted:
  assumes "map s_port xs = map g_port (sites_list_of srv)" and "f_port f = next_port xs"
    and "0 < next_port xs" and "next_port xs \<le> 65535"
  shows "rs_code (fst (handle_sites e POST (rq_body (createSite f)) srv)) \<noteq> 409 \<and>
     ((\<forall>w. env_mkdir e w = None \<and> env_dir e w = None) \<longrightarrow> env_listen e (next_port xs) = None \<longrightarrow>
      \<not> is_running (generate_id (f_name f)) srv \<longrightarrow>
      rs_code (fst (handle_sites e POST (rq_body (createSite f)) srv)) = 200)"
proof -
  define x where "x = zero_site\<lparr>g_name := f_name f, g_port := f_port f, g_webroot := f_webroot f,
      g_php_version := f_php_version f\<rparr>"
  have x: "g_port x = next_port xs" "g_name x = f_name f" by (simp_all add: x_def assms(2))
  have "int64 (f_port f)" using assms by (simp add: int64_def)
  then have post: "handle_sites e POST (rq_body (createSite f)) srv = post_site e x srv"
    by (simp add: handle_sites_def decode_create_request x_def)
  have "g_port y < next_port xs" if "y \<in> set (sites_list_of srv)" for y
  proof -
    from that assms(1) obtain z where "z \<in> set xs" "s_port z = g_port y"
      by (metis (no_types, lifting) image_iff list.set_map)
    then show ?thesis using next_port_gt by metis
  qed
  then have "\<forall>y \<in> set (sites_list_of srv). g_port y \<noteq> next_port xs" by fastforce
  then have free: "List.find (\<lambda>y. g_port y = next_port xs) (sites_list_of srv) = None"
    by (simp add: find_None_iff)
  have root: "g_webroot (new_site e x) \<noteq> ''''"
    by (auto simp: new_site_def str_or_def default_webroot_def)
  show ?thesis
    using assms(3,4) root unfolding post
    by (auto simp: post_site_alt free x json_err_def json_resp_def start_site_def split: option.split sum.split)
qed

theorem config_page_renders_on_server_witness:
  "\<exists>s. reachable config_start (config_step served_config) s \<and> cf_local s = Some (config_json demo_server) \<and>
     config_view s \<noteq> None"
proof -
  define s where "s = config_response 0 (config_json demo_server) config_init"
  have "reachable config_start (config_step served_config) config_init"
    by (rule reachable_init) (simp add: config_start_def)
  moreover have "config_step served_config config_init s"
    unfolding s_def by (rule config_step.loaded) (auto simp: config_init_def ua_defs served_config_def)
  ultimately have h: "reachable config_start (config_step served_config) s" by (rule reachable_step)
  have "truthy (config_json demo_server)" by (simp add: config_json_def)
  then have "cf_local s = Some (config_json demo_server)"
    by (simp add: s_def config_defs config_init_def ua_defs)
  with config_page_renders_on_server [OF h] h show ?thesis by blast
qed

theorem config_edits_are_lost_witness:
  "get_path [''php'', ''max_children'']
     (config_json (snd (handle_config_save demo_env POST (Some demo_config) demo_server))) = Some (JNum 20)"
proof -
  have "''php.max_children'' \<in> set (''php.max_children'' # text_paths)" by simp
  from config_edits_are_lost [OF this, of demo_env "Some demo_config" demo_server] show ?thesis
    by (simp add: config_json_def member_of_def)
qed

theorem proposed_port_is_accepted_witness:
  "rs_code (fst (handle_sites demo_env POST
     (rq_body (createSite \<lparr>f_name = ''new'', f_port = 8081, f_webroot = '''', f_php_version = ''8.3''\<rparr>)) empty_server)) = 200"
  using proposed_port_is_accepted [of "[]" empty_server
      "\<lparr>f_name = ''new'', f_port = 8081, f_webroot = '''', f_php_version = ''8.3''\<rparr>" demo_env]
  by (simp add: sites_list_of_def empty_server_def next_port_def is_running_def)

section \<open>The request explorer on its server\<close>

text \<open>
  What the server answers to the call for the URL \<open>u\<close>: the handler takes the URL from the query of the request,
  and the page reads the JSON of a successful response.
\<close>

definition server_explains ::
  "other_match \<Rightarrow> (resolve_error \<Rightarrow> string) \<Rightarrow> (string \<Rightarrow> string + url_request) \<Rightarrow> string \<Rightarrow> 'c files \<Rightarrow> string \<Rightarrow>
   string \<Rightarrow> string \<Rightarrow> explanation \<Rightarrow> bool" where
  "server_explains other msg new_request duration fs cwd doc_root u r \<longleftrightarrow>
     (let resp = handle_explain other msg new_request duration fs cwd doc_root
                   (query_get ''url'' (url_query (rq_path (explainRequest u))))
      in rs_code resp = 200 \<and> read_explanation (rs_body resp) = Some r)"

lemma server_explains_iff:
  "server_explains other msg new_request duration fs cwd doc_root u r \<longleftrightarrow>
     (\<exists>req. new_request (explain_target u) = Inr req \<and>
        r = explanation_view duration (explain other msg fs cwd (handler_explainer cwd doc_root) req))"
  by (auto simp: server_explains_def query_of_explain handle_explain_def json_err_def json_resp_def read_encoded
      split: sum.split)

text \<open>C6. In every run of the request explorer against the server, an explanation that is shown while no trace is
  under way is what the server computes for the URL of the last request: none of its fields is lost on the way from the
  typed URL through query, handler, JSON and page.\<close>

theorem explorer_shows_server_explanation:
  assumes "reachable explorer_start (explorer_step (server_explains other msg new_request duration fs cwd doc_root)) s"
    and "\<not> xp_loading s" and "xp_result s = Some r"
  shows "\<exists>u req. xp_sent s \<noteq> [] \<and> last (xp_sent s) = explainRequest u \<and>
    new_request (explain_target u) = Inr req \<and>
    r = explanation_view duration (explain other msg fs cwd (handler_explainer cwd doc_root) req)"
  using explorer.idle_shows_answer [OF assms]
  by (auto simp: last_sent_def answers_request_def server_explains_iff split: if_splits)

definition demo_new_request :: "string \<Rightarrow> string + url_request" where
  "demo_new_request t =
     (if t = ''http://localhost/index.php''
      then Inr \<lparr>ur_host = ''localhost'', ur_path = ''/index.php'', ur_query = ''''\<rparr> else Inl ''unexpected URL'')"

theorem explorer_shows_server_explanation_witness:
  "\<exists>s r. xp_result s = Some r \<and> last (xp_sent s) = explainRequest ''/index.php'' \<and>
     reachable explorer_start (explorer_step
       (server_explains demo_other demo_error_text demo_new_request ''1ms'' demo_tree ''/'' ''/srv/app'')) s \<and>
     (\<exists>req. r = explanation_view ''1ms'' (explain demo_other demo_error_text demo_tree ''/'' (handler_explainer ''/'' ''/srv/app'') req))"
proof -
  let ?answers = "server_explains demo_other demo_error_text demo_new_request ''1ms'' demo_tree ''/'' ''/srv/app''"
  define r where "r = explanation_view ''1ms'' (explain demo_other demo_error_text demo_tree ''/'' (handler_explainer ''/'' ''/srv/app'')
    \<lparr>ur_host = ''localhost'', ur_path = ''/index.php'', ur_query = ''''\<rparr>)"
  define s where "s = trace_ok r ((handle_trace explorer_init)\<lparr>xp_pending := []\<rparr>)"
  have "explain_target ''/index.php'' = ''http://localhost/index.php''"
    by (simp add: explain_target_def)
  then have answer: "?answers ''/index.php'' r"
    by (simp add: server_explains_iff demo_new_request_def r_def)
  then have h: "reachable explorer_start (explorer_step ?answers) s"
    unfolding s_def by (rule first_trace_reachable)
  have idle: "\<not> xp_loading s" "xp_result s = Some r" "last (xp_sent s) = explainRequest ''/index.php''"
    by (simp_all add: s_def trace_ok_def handle_trace_def explorer_init_def)
  with explorer_shows_server_explanation [OF h idle(1,2)] h show ?thesis by blast
qed

section \<open>The profiles of the page and of the server\<close>

text \<open>The extensions page and the server list the same profiles, but no profile selects the same extensions in both.\<close>

theorem profiles_disagree_with_server:
  "map fst go_profiles = profile_names \<and>
   list_all2 (\<lambda>(n, d, es) p. set es \<noteq> set (p_extensions p)) go_profiles built_in_profiles"
proof
  show "map fst go_profiles = profile_names"
    by (simp add: go_profiles_def profile_names_def built_in_profiles_def)
  have opcache: "set xs \<noteq> set ys" if "''opcache'' \<notin> set xs" "''opcache'' \<in> set ys" for xs ys :: "string list"
    using that by blast
  show "list_all2 (\<lambda>(n, d, es) p. set es \<noteq> set (p_extensions p)) go_profiles built_in_profiles"
    unfolding go_profiles_def built_in_profiles_def
    by (simp del: set_simps, intro conjI) (rule opcache, simp, simp)+
qed

end
